(* ===== verification/Pk_Prelude.thy ===== *)
theory Pk_Prelude
  imports Main "HOL-Library.Word"
begin

unbundle bit_operations_syntax

text \<open>
  Shared vocabulary of the development: the machine integers of the generated C and of the
  reference interpreter, errors as the left side of a sum, and the big-endian bit reader both
  sides are measured against. \<open>bits_at packet pos n\<close> is the value \<open>read(\<pi>, c, n)\<close> of
  docs/reference/ir-semantics.md, section 1: \<open>n\<close> bits from bit offset \<open>pos\<close>, most significant
  bit first. The collection \<open>pk_stmt\<close> holds the unfolding equations of the C statements, so that
  a component's proof can say \<open>simp add: pk_stmt\<close>.
\<close>

named_theorems pk_stmt \<open>equations of the C statements\<close>
named_theorems pk_emit \<open>equations that evaluate the emitter on a concrete description\<close>

type_synonym u8 = "8 word"
type_synonym u16 = "16 word"
type_synonym u32 = "32 word"
type_synonym u64 = "64 word"
type_synonym bytes = "u8 list"

section \<open>Errors\<close>

definition and_then :: "'e + 'a \<Rightarrow> ('a \<Rightarrow> 'e + 'b) \<Rightarrow> 'e + 'b" where
  "and_then r f = (case r of Inl e \<Rightarrow> Inl e | Inr x \<Rightarrow> f x)"

lemma and_then_simps [simp]:
  "and_then (Inl e) f = Inl e" "and_then (Inr x) f = f x"
  by (simp_all add: and_then_def)

lemma and_then_Inr:
  "and_then r f = Inr y \<longleftrightarrow> (\<exists>x. r = Inr x \<and> f x = Inr y)"
  by (cases r) auto

lemma and_then_Inl:
  "and_then r f = Inl e \<longleftrightarrow> r = Inl e \<or> (\<exists>x. r = Inr x \<and> f x = Inl e)"
  by (cases r) auto

section \<open>Machine words\<close>

text \<open>Rust's \<open>usize::checked_add\<close> on a 64-bit host.\<close>

definition checked_add :: "nat \<Rightarrow> nat \<Rightarrow> nat option" where
  "checked_add a b = (if a + b < 2 ^ 64 then Some (a + b) else None)"

text \<open>The same test on integers, which evaluates without counting up to \<open>2 ^ 64\<close>.\<close>

lemma checked_add_code [code]:
  "checked_add a b = (if int (a + b) < 18446744073709551616 then Some (a + b) else None)"
  by (simp add: checked_add_def)

lemma unat_u64_less [simp]: "unat (w :: u64) < 18446744073709551616"
  using unsigned_less [of w] by simp

lemma unat_add_u64:
  "unat a + unat b < 2 ^ 64 \<Longrightarrow> unat (a + b :: u64) = unat a + unat b"
  by (simp add: unat_word_ariths)

lemma unat_add_small:
  fixes a :: u64
  assumes "unat a + n < 2 ^ 64"
  shows "unat (a + of_nat n) = unat a + n"
  using assms by (simp add: unat_word_ariths unat_of_nat)

lemma unat_sub_le:
  fixes a b :: u64
  assumes "unat b \<le> unat a"
  shows "unat (a - b) = unat a - unat b"
  using assms by (simp add: unat_sub word_le_nat_alt)

lemma unat_shiftr3: "unat (drop_bit 3 (w :: u64)) = unat w div 8"
  by (simp add: drop_bit_eq_div unat_div_distrib)

lemma of_nat_unat_shiftr3: "drop_bit 3 (w :: u64) = of_nat (unat w div 8)"
proof (rule word_unat_eq_iff [THEN iffD2])
  show "unat (drop_bit 3 w) = unat (of_nat (unat w div 8) :: u64)"
    using unat_u64_less [of w] by (simp add: unat_shiftr3 unat_of_nat del: unat_u64_less)
qed

lemma unat_and7: "unat ((w :: u64) AND 7) = unat w mod 8"
proof -
  have "w AND 7 = take_bit 3 w"
    by (simp add: take_bit_eq_mask mask_eq_exp_minus_1)
  then show ?thesis
    by (simp add: take_bit_eq_mod unat_mod_distrib)
qed

text \<open>\<open>wrapping_shl(r as u32)\<close>: the amount modulo 64, whether it is cut to 32 bits first or not.\<close>

lemma mod64_exp32: "(n mod 2 ^ 32) mod 64 = (n :: nat) mod 64"
  by (rule mod_mod_cancel) simp

lemma shift_amount: "unat (ucast (k :: u64) :: u32) mod 64 = unat k mod 64"
proof -
  have "unat (ucast k :: u32) = take_bit 32 (unat k)"
    by (simp add: unsigned_ucast_eq)
  then show ?thesis
    using mod64_exp32 [of "unat k"] by (simp add: take_bit_eq_mod)
qed

section \<open>Big-endian bit strings\<close>

definition bit_at :: "bytes \<Rightarrow> nat \<Rightarrow> bool" where
  "bit_at packet pos = bit (packet ! (pos div 8)) (7 - pos mod 8)"

primrec bits_at :: "bytes \<Rightarrow> nat \<Rightarrow> nat \<Rightarrow> u64" where
  "bits_at packet pos 0 = 0"
| "bits_at packet pos (Suc n) =
     push_bit 1 (bits_at packet pos n) OR of_bool (bit_at packet (pos + n))"

lemma bits_at_add:
  "bits_at packet pos (n + m) = push_bit m (bits_at packet pos n) OR bits_at packet (pos + n) m"
proof (induction m)
  case 0
  then show ?case by simp
next
  case (Suc m)
  then show ?case
    by (simp add: push_bit_or or.assoc add.assoc)
qed

lemma bit_push_bit_word_iff:
  "bit (push_bit m (w :: u64)) k \<longleftrightarrow> m \<le> k \<and> k < 64 \<and> bit w (k - m)"
  by (simp add: bit_push_bit_iff)

lemma bit_of_bool_u64: "bit (of_bool b :: u64) k \<longleftrightarrow> b \<and> k = 0"
  by (auto simp: bit_simps)

lemma bit_bits_at:
  "bit (bits_at packet pos n) k \<longleftrightarrow> k < n \<and> k < 64 \<and> bit_at packet (pos + (n - 1 - k))"
proof (induction n arbitrary: k)
  case 0
  then show ?case by simp
next
  case (Suc n)
  have "bit (bits_at packet pos (Suc n)) k \<longleftrightarrow>
      (1 \<le> k \<and> k < 64 \<and> bit (bits_at packet pos n) (k - 1)) \<or> (bit_at packet (pos + n) \<and> k = 0)"
    by (simp only: bits_at.simps bit_or_iff bit_push_bit_word_iff bit_of_bool_u64)
  then show ?case
    using Suc.IH [of "k - 1"] by (cases k) auto
qed

text \<open>A value of \<open>n\<close> bits survives the cast to the smallest C type that holds it.\<close>

lemma take_bit_bits_at: "n \<le> m \<Longrightarrow> take_bit m (bits_at packet pos n) = bits_at packet pos n"
  by (rule bit_eqI) (auto simp: bit_simps bit_bits_at)

lemma bits_at_less: "n < 64 \<Longrightarrow> unat (bits_at packet pos n) < 2 ^ n"
proof -
  assume n: "n < 64"
  have "take_bit n (unat (bits_at packet pos n)) = unat (bits_at packet pos n)"
    using take_bit_bits_at [of n n packet pos] by (metis order_refl unsigned_take_bit_eq)
  then show ?thesis by (metis take_bit_nat_less_exp)
qed

lemma bits_at_byte:
  assumes "pos mod 8 = 0"
  shows "bits_at packet pos 8 = ucast (packet ! (pos div 8))"
proof (rule bit_eqI)
  fix k
  assume "possible_bit TYPE(u64) k"
  then have k64: "k < 64" by simp
  have "(pos + (7 - k)) div 8 = pos div 8 \<and> (pos + (7 - k)) mod 8 = 7 - k"
    using assms by (auto simp: div_add1_eq mod_add_eq [symmetric] div_eq_0_iff)
  then have "k < 8 \<Longrightarrow> bit_at packet (pos + (7 - k)) = bit (packet ! (pos div 8)) k"
    by (simp add: bit_at_def)
  moreover have "bit (packet ! (pos div 8)) k \<Longrightarrow> k < 8"
    using bit_imp_le_length by fastforce
  ultimately show "bit (bits_at packet pos 8) k \<longleftrightarrow> bit (ucast (packet ! (pos div 8)) :: u64) k"
    using k64 by (auto simp: bit_bits_at bit_ucast_iff)
qed

end
