(* ===== verification/C_Machine.thy ===== *)
theory C_Machine
  imports Pk_Prelude
begin

text \<open>
  The C the generated parsers are written in: the locals of a \<open>parse_core\<close> function, the shapes of
  statement that occur in one, and the \<open>for (depth) switch (state)\<close> loop around them. Every
  statement is a function on the locals. Undefined behaviour is a value: a read of \<open>buf\<close> outside the
  object, a read of a \<open>pk_region_end\<close> slot that was never written, a shift by 64 or more, all end
  in \<open>Fault\<close>, as does a text the compiler refuses (\<open>NotCompiled\<close>), so "the parser never faults" is a statement about the model. 64-bit arithmetic is
  \<open>64 word\<close> and wraps, as \<open>uint64_t\<close> does; a cast to a narrower type is \<open>ucast\<close>.

  The result struct of every parser starts with \<open>outcome\<close>, \<open>reason\<close> and \<open>consumed_bits\<close>
  (examples/tlv_items/gen/parser.h and its siblings); a parser's own struct extends the record.
\<close>

record pk_result =
  outcome :: u8
  reason :: u16
  consumed_bits :: u64

text \<open>
  The packet memory: \<open>rd i\<close> is \<open>buf[i]\<close>, \<open>None\<close> outside the object. The portable parser reads
  \<open>buf[i]\<close>, the eBPF variant \<open>buf[i & PK_BUF_MASK]\<close>.
\<close>

type_synonym packet_reader = "u64 \<Rightarrow> u8 option"

definition buf_at :: "bytes \<Rightarrow> packet_reader" where
  "buf_at buf i = (if unat i < length buf then Some (buf ! unat i) else None)"

definition PK_BUF_MASK :: u64 where
  "PK_BUF_MASK = 4095"

definition masked :: "packet_reader \<Rightarrow> packet_reader" where
  "masked rd i = rd (i AND PK_BUF_MASK)"

abbreviation buf_at_masked :: "bytes \<Rightarrow> packet_reader" where
  "buf_at_masked buf \<equiv> masked (buf_at buf)"

text \<open>
  The locals. \<open>poff\<close> is the block-local cursor of a lookahead; \<open>region_end\<close> and \<open>rsp\<close> are
  \<open>pk_region_end\<close> and \<open>pk_rsp\<close>, which only parsers with sized regions declare (the others leave the
  array empty). An array element that was never assigned is \<open>None\<close>.
\<close>

record 'o locals =
  off :: u64
  poff :: u64
  cur_state :: u32
  region_end :: "u64 option list"
  rsp :: u32
  out :: 'o

datatype fault = BadRead | Uninitialised | BadShift | NotCompiled

datatype 'o flow =
    Next "'o locals"
  | Continue "'o locals"
  | Return int 'o
  | Fault fault

type_synonym 'o stmt = "'o locals \<Rightarrow> 'o flow"
type_synonym 'o cexp = "'o locals \<Rightarrow> fault + u64"

section \<open>Sequencing\<close>

primrec block :: "'o stmt list \<Rightarrow> 'o stmt" where
  "block [] s = Next s"
| "block (c # cs) s =
     (case c s of Next s' \<Rightarrow> block cs s' | Continue s' \<Rightarrow> Continue s' | Return r o' \<Rightarrow> Return r o'
      | Fault e \<Rightarrow> Fault e)"

definition then_flow :: "'o flow \<Rightarrow> 'o stmt \<Rightarrow> 'o flow" where
  "then_flow fl c = (case fl of Next s \<Rightarrow> c s | Continue s \<Rightarrow> Continue s | Return r o' \<Rightarrow> Return r o'
      | Fault e \<Rightarrow> Fault e)"

lemma then_flow_simps [simp]:
  "then_flow (Next s) c = c s" "then_flow (Continue s) c = Continue s"
  "then_flow (Return r o') c = Return r o'" "then_flow (Fault e) c = Fault e"
  by (simp_all add: then_flow_def)

lemma block_append: "block (xs @ ys) s = then_flow (block xs s) (block ys)"
  by (induction xs arbitrary: s) (auto split: flow.split)

lemma block_Cons: "block (c # cs) s = then_flow (c s) (block cs)"
  by (simp add: then_flow_def)

lemma block_Cons_fun: "block (c # cs) = (\<lambda>s. then_flow (c s) (block cs))"
  by (rule ext) (rule block_Cons)

lemma block_single [simp]: "block [c] s = c s"
  by (simp split: flow.split)

lemma then_flow_done [simp]: "then_flow fl (block []) = fl"
  by (cases fl) simp_all

definition branch :: "('o locals \<Rightarrow> bool) \<Rightarrow> 'o stmt \<Rightarrow> 'o stmt \<Rightarrow> 'o stmt" where
  "branch b c d s = (if b s then c s else d s)"

definition skip :: "'o stmt" where
  "skip s = Next s"

text \<open>\<open>bind_local e body\<close> is a block-local variable: \<open>{ uint64_t v = e; body v }\<close>.\<close>

definition bind_local :: "'o cexp \<Rightarrow> (u64 \<Rightarrow> 'o stmt list) \<Rightarrow> 'o stmt" where
  "bind_local e body s = (case e s of Inl f \<Rightarrow> Fault f | Inr v \<Rightarrow> block (body v) s)"

section \<open>Expressions\<close>

definition c_const :: "u64 \<Rightarrow> 'o cexp" where
  "c_const k s = Inr k"

definition c_out :: "('o \<Rightarrow> u64) \<Rightarrow> 'o cexp" where
  "c_out g s = Inr (g (out s))"

definition c_bin :: "(u64 \<Rightarrow> u64 \<Rightarrow> fault + u64) \<Rightarrow> 'o cexp \<Rightarrow> 'o cexp \<Rightarrow> 'o cexp" where
  "c_bin f a b s = and_then (a s) (\<lambda>x. and_then (b s) (f x))"

definition c_add :: "'o cexp \<Rightarrow> 'o cexp \<Rightarrow> 'o cexp" where
  "c_add = c_bin (\<lambda>x y. Inr (x + y))"

definition c_sub :: "'o cexp \<Rightarrow> 'o cexp \<Rightarrow> 'o cexp" where
  "c_sub = c_bin (\<lambda>x y. Inr (x - y))"

definition c_mul :: "'o cexp \<Rightarrow> 'o cexp \<Rightarrow> 'o cexp" where
  "c_mul = c_bin (\<lambda>x y. Inr (x * y))"

definition c_and :: "'o cexp \<Rightarrow> 'o cexp \<Rightarrow> 'o cexp" where
  "c_and = c_bin (\<lambda>x y. Inr (x AND y))"

definition c_or :: "'o cexp \<Rightarrow> 'o cexp \<Rightarrow> 'o cexp" where
  "c_or = c_bin (\<lambda>x y. Inr (x OR y))"

definition c_shl :: "'o cexp \<Rightarrow> 'o cexp \<Rightarrow> 'o cexp" where
  "c_shl = c_bin (\<lambda>x y. if y < 64 then Inr (push_bit (unat y) x) else Inl BadShift)"

definition c_shr :: "'o cexp \<Rightarrow> 'o cexp \<Rightarrow> 'o cexp" where
  "c_shr = c_bin (\<lambda>x y. if y < 64 then Inr (drop_bit (unat y) x) else Inl BadShift)"

text \<open>\<open>pk_region_end[i]\<close>; \<open>region_top\<close> is \<open>pk_region_end[(pk_rsp - 1u) & PK_RMASK]\<close>.\<close>

definition region_slot :: "u32 \<Rightarrow> 'o locals \<Rightarrow> fault + u64" where
  "region_slot i s =
     (if unat i < length (region_end s)
      then (case region_end s ! unat i of None \<Rightarrow> Inl Uninitialised | Some e \<Rightarrow> Inr e)
      else Inl BadRead)"

definition region_top :: "u32 \<Rightarrow> 'o cexp" where
  "region_top rmask s = region_slot ((rsp s - 1) AND rmask) s"

text \<open>\<open>(pk_region_end[(pk_rsp - 1u) & PK_RMASK] - off)\<close>.\<close>

definition c_remaining :: "u32 \<Rightarrow> 'o cexp" where
  "c_remaining rmask s = and_then (region_top rmask s) (\<lambda>e. Inr (e - off s))"

section \<open>Leaving a state\<close>

abbreviation PK_R_NONE :: u16 where "PK_R_NONE \<equiv> 0"
abbreviation PK_R_OUT_OF_BOUNDS :: u16 where "PK_R_OUT_OF_BOUNDS \<equiv> 1"
abbreviation PK_R_MAX_DEPTH_EXCEEDED :: u16 where "PK_R_MAX_DEPTH_EXCEEDED \<equiv> 2"
abbreviation PK_R_NO_MATCHING_SELECT_ARM :: u16 where "PK_R_NO_MATCHING_SELECT_ARM \<equiv> 3"
abbreviation PK_R_OUT_OF_REGION_BOUNDS :: u16 where "PK_R_OUT_OF_REGION_BOUNDS \<equiv> 4"
abbreviation PK_R_REGION_OUT_OF_BOUNDS :: u16 where "PK_R_REGION_OUT_OF_BOUNDS \<equiv> 5"
abbreviation PK_R_REGION_NOT_EXHAUSTED :: u16 where "PK_R_REGION_NOT_EXHAUSTED \<equiv> 6"

definition finish :: "int \<Rightarrow> u16 \<Rightarrow> ('a pk_result_scheme) stmt" where
  "finish ret r s = Return ret
     ((out s)\<lparr>outcome := of_int ret, reason := r, consumed_bits := off s\<rparr>)"

text \<open>\<open>out->outcome = 1; out->reason = r; out->consumed_bits = off; return 1;\<close>\<close>

definition reject :: "u16 \<Rightarrow> ('a pk_result_scheme) stmt" where
  "reject r = finish 1 r"

text \<open>\<open>out->outcome = 0; out->reason = PK_R_NONE; out->consumed_bits = off; return 0;\<close>\<close>

definition accept :: "('a pk_result_scheme) stmt" where
  "accept = finish 0 PK_R_NONE"

text \<open>\<open>state = i; continue;\<close>\<close>

definition goto :: "u32 \<Rightarrow> 'o stmt" where
  "goto i s = Continue (s\<lparr>cur_state := i\<rparr>)"

section \<open>Reading a field\<close>

datatype cursor = Off | Poff

definition cur :: "cursor \<Rightarrow> 'o locals \<Rightarrow> u64" where
  "cur c s = (case c of Off \<Rightarrow> off s | Poff \<Rightarrow> poff s)"

definition set_cur :: "cursor \<Rightarrow> u64 \<Rightarrow> 'o locals \<Rightarrow> 'o locals" where
  "set_cur c v s = (case c of Off \<Rightarrow> s\<lparr>off := v\<rparr> | Poff \<Rightarrow> s\<lparr>poff := v\<rparr>)"

text \<open>\<open>uint64_t poff = off;\<close>\<close>

definition begin_lookahead :: "'o stmt" where
  "begin_lookahead s = Next (s\<lparr>poff := off s\<rparr>)"

text \<open>A store to a member of the result struct.\<close>

definition store :: "('o \<Rightarrow> 'o) \<Rightarrow> 'o stmt" where
  "store f s = Next (s\<lparr>out := f (out s)\<rparr>)"

definition store_exp :: "'o cexp \<Rightarrow> (u64 \<Rightarrow> 'o \<Rightarrow> 'o) \<Rightarrow> 'o stmt" where
  "store_exp e put s = (case e s of Inl f \<Rightarrow> Fault f | Inr v \<Rightarrow> store (put v) s)"

definition store_off :: "(u64 \<Rightarrow> 'o \<Rightarrow> 'o) \<Rightarrow> 'o stmt" where
  "store_off put s = store (put (off s)) s"

text \<open>\<open>if (pk_rsp && cur + n > pk_region_end[(pk_rsp - 1u) & PK_RMASK]) reject;\<close>\<close>

definition check_region :: "u32 \<Rightarrow> cursor \<Rightarrow> u64 \<Rightarrow> ('a pk_result_scheme) stmt" where
  "check_region rmask c n s =
     (if rsp s = 0 then Next s
      else case region_top rmask s of
             Inl f \<Rightarrow> Fault f
           | Inr e \<Rightarrow> if cur c s + n > e then reject PK_R_OUT_OF_REGION_BOUNDS s else Next s)"

text \<open>\<open>if (cur + n > bit_len) reject;\<close>\<close>

definition check_len :: "u64 \<Rightarrow> cursor \<Rightarrow> u64 \<Rightarrow> ('a pk_result_scheme) stmt" where
  "check_len bit_len c n s =
     (if cur c s + n > bit_len then reject PK_R_OUT_OF_BOUNDS s else Next s)"

text \<open>
  The byte-load expression \<open>((uint64_t)buf[(cur >> 3) + 0] << 8*(k-1)) | \<dots> | (uint64_t)buf[(cur >> 3) + (k-1)]\<close>
  and the bit loop of \<open>pk_read_bits\<close>.
\<close>

primrec load_be_upto :: "packet_reader \<Rightarrow> u64 \<Rightarrow> nat \<Rightarrow> nat \<Rightarrow> fault + u64" where
  "load_be_upto rd base k 0 = Inr 0"
| "load_be_upto rd base k (Suc i) =
     and_then (load_be_upto rd base k i) (\<lambda>acc.
       case rd (base + of_nat i) of
         None \<Rightarrow> Inl BadRead
       | Some b \<Rightarrow> Inr (acc OR push_bit (8 * (k - 1 - i)) (ucast b)))"

definition load_be :: "packet_reader \<Rightarrow> u64 \<Rightarrow> nat \<Rightarrow> fault + u64" where
  "load_be rd pos k = load_be_upto rd (drop_bit 3 pos) k k"

primrec pk_read_bits :: "packet_reader \<Rightarrow> u64 \<Rightarrow> nat \<Rightarrow> fault + u64" where
  "pk_read_bits rd pos 0 = Inr 0"
| "pk_read_bits rd pos (Suc i) =
     and_then (pk_read_bits rd pos i) (\<lambda>v.
       let p = pos + of_nat i in
       case rd (drop_bit 3 p) of
         None \<Rightarrow> Inl BadRead
       | Some b \<Rightarrow> Inr (push_bit 1 v OR ucast (drop_bit (unat (7 - (p AND 7))) b AND 1)))"

definition load_bytes :: "packet_reader \<Rightarrow> cursor \<Rightarrow> nat \<Rightarrow> (u64 \<Rightarrow> 'o \<Rightarrow> 'o) \<Rightarrow> 'o stmt" where
  "load_bytes rd c k put s = store_exp (\<lambda>s. load_be rd (cur c s) k) put s"

definition load_bits :: "packet_reader \<Rightarrow> cursor \<Rightarrow> nat \<Rightarrow> (u64 \<Rightarrow> 'o \<Rightarrow> 'o) \<Rightarrow> 'o stmt" where
  "load_bits rd c n put s = store_exp (\<lambda>s. pk_read_bits rd (cur c s) n) put s"

text \<open>\<open>cur += n;\<close>\<close>

definition advance :: "cursor \<Rightarrow> u64 \<Rightarrow> 'o stmt" where
  "advance c n s = Next (set_cur c (cur c s + n) s)"

section \<open>Variable-length fields and regions\<close>

text \<open>\<open>if (pk_rsp && vlen > pk_region_end[(pk_rsp - 1u) & PK_RMASK] - off) reject;\<close>\<close>

definition check_var_region :: "u32 \<Rightarrow> u64 \<Rightarrow> ('a pk_result_scheme) stmt" where
  "check_var_region rmask vlen s =
     (if rsp s = 0 then Next s
      else case region_top rmask s of
             Inl f \<Rightarrow> Fault f
           | Inr e \<Rightarrow> if vlen > e - off s then reject PK_R_OUT_OF_REGION_BOUNDS s else Next s)"

text \<open>\<open>if (vlen > bit_len - off) reject;\<close>\<close>

definition check_var_len :: "u64 \<Rightarrow> u64 \<Rightarrow> ('a pk_result_scheme) stmt" where
  "check_var_len bit_len vlen s =
     (if vlen > bit_len - off s then reject PK_R_OUT_OF_BOUNDS s else Next s)"

text \<open>
  The push block: the structural check against the enclosing region, or against the end of the
  64-bit range when there is none; the clamp on the stack index; the store and \<open>pk_rsp++\<close>.
\<close>

definition push_check :: "u32 \<Rightarrow> u64 \<Rightarrow> ('a pk_result_scheme) stmt" where
  "push_check rmask rlen s =
     (if rsp s \<noteq> 0
      then (case region_top rmask s of
              Inl f \<Rightarrow> Fault f
            | Inr e \<Rightarrow> if rlen > e - off s then reject PK_R_REGION_OUT_OF_BOUNDS s else Next s)
      else if rlen > 0xffffffffffffffff - off s then reject PK_R_REGION_OUT_OF_BOUNDS s
      else Next s)"

definition push_clamp :: "u32 \<Rightarrow> ('a pk_result_scheme) stmt" where
  "push_clamp rmask s =
     (if rsp s > rmask then reject PK_R_REGION_OUT_OF_BOUNDS s else Next s)"

definition push_store :: "u32 \<Rightarrow> u64 \<Rightarrow> 'o stmt" where
  "push_store rmask rlen s =
     (if unat (rsp s AND rmask) < length (region_end s)
      then Next (s\<lparr>region_end := (region_end s)[unat (rsp s AND rmask) := Some (off s + rlen)],
                   rsp := rsp s + 1\<rparr>)
      else Fault BadRead)"

text \<open>The pop block: the guard on an empty stack, \<open>pk_rsp--\<close>, the exhaustion check.\<close>

definition pop_guard :: "('a pk_result_scheme) stmt" where
  "pop_guard s = (if rsp s = 0 then reject PK_R_REGION_NOT_EXHAUSTED s else Next s)"

definition pop_dec :: "'o stmt" where
  "pop_dec s = Next (s\<lparr>rsp := rsp s - 1\<rparr>)"

definition pop_check :: "u32 \<Rightarrow> ('a pk_result_scheme) stmt" where
  "pop_check rmask s =
     (case region_slot (rsp s AND rmask) s of
        Inl f \<Rightarrow> Fault f
      | Inr e \<Rightarrow> if off s < e then reject PK_R_REGION_NOT_EXHAUSTED s else Next s)"

section \<open>The loop\<close>

text \<open>\<open>switch (state) { case i: { body } \<dots> }\<close>, with no \<open>default\<close>.\<close>

primrec switch :: "(u32 \<times> 'o stmt list) list \<Rightarrow> 'o stmt" where
  "switch [] s = Next s"
| "switch (c # cs) s = (if cur_state s = fst c then block (snd c) s else switch cs s)"

text \<open>
  \<open>for (depth = 0; depth < n; depth++) { switch (state) { \<dots> } }\<close> and the reject behind it; the
  argument counts the iterations that are left. A \<open>switch\<close> that falls out of its body goes to the
  next iteration like \<open>continue\<close>.
\<close>

primrec depth_loop :: "nat \<Rightarrow> ('a pk_result_scheme) stmt \<Rightarrow> ('a pk_result_scheme) stmt" where
  "depth_loop 0 step s = reject PK_R_MAX_DEPTH_EXCEEDED s"
| "depth_loop (Suc n) step s =
     (case step s of
        Next s' \<Rightarrow> depth_loop n step s'
      | Continue s' \<Rightarrow> depth_loop n step s'
      | Return r o' \<Rightarrow> Return r o'
      | Fault e \<Rightarrow> Fault e)"

definition init_locals :: "u32 \<Rightarrow> nat \<Rightarrow> 'o \<Rightarrow> 'o locals" where
  "init_locals start nregions o' =
     \<lparr>off = 0, poff = 0, cur_state = start, region_end = replicate nregions None, rsp = 0, out = o'\<rparr>"

section \<open>The eBPF entry point\<close>

text \<open>
  \<open>for (i = 0; i < 8; i++) bit_len |= (uint64_t)m[i] << (8 * i);\<close> and the verdict word
  \<open>outcome << 56 | reason << 48 | (consumed_bits & 0xFFFFFFFFFFFF)\<close>. A core that falls through or
  continues has no case here: the loop around it turns both into the next iteration.
\<close>

primrec entry_len_upto :: "bytes \<Rightarrow> nat \<Rightarrow> fault + u64" where
  "entry_len_upto mem 0 = Inr 0"
| "entry_len_upto mem (Suc i) =
     and_then (entry_len_upto mem i) (\<lambda>acc.
       case buf_at mem (of_nat i) of
         None \<Rightarrow> Inl BadRead
       | Some b \<Rightarrow> Inr (acc OR push_bit (8 * i) (ucast b)))"

definition entry_bit_len :: "bytes \<Rightarrow> fault + u64" where
  "entry_bit_len mem = entry_len_upto mem 8"

definition entry_verdict :: "('a pk_result_scheme) flow \<Rightarrow> fault + u64" where
  "entry_verdict fl =
     (case fl of
        Return ret o' \<Rightarrow>
          Inr (push_bit 56 (ucast (outcome o')) OR push_bit 48 (ucast (reason o')) OR
               (consumed_bits o' AND 0xFFFFFFFFFFFF))
      | Fault e \<Rightarrow> Inl e
      | _ \<Rightarrow> Inl Uninitialised)"

lemmas c_exp_defs = c_const_def c_out_def c_bin_def c_add_def c_sub_def c_mul_def c_and_def
  c_or_def c_shl_def c_shr_def c_remaining_def region_top_def region_slot_def

lemmas stmt_defs [pk_stmt] = branch_def skip_def bind_local_def reject_def accept_def finish_def goto_def
  cur_def set_cur_def begin_lookahead_def store_def store_exp_def store_off_def check_region_def
  check_len_def load_bytes_def load_bits_def advance_def check_var_region_def check_var_len_def
  push_check_def push_clamp_def push_store_def pop_guard_def pop_dec_def pop_check_def

lemmas exp_defs [pk_stmt] = c_exp_defs

end
