(* ===== verification/Tls_Clienthello.thy ===== *)
theory Tls_Clienthello
  imports C_Machine
begin

text \<open>
  The parser generated for the TLS ClientHello: nested regions for record, handshake, extensions and server names, each of which must be used up exactly: benchmarks/industry/tls_clienthello/gen/parser.c
  and parser.h, 22 states in at most 96 steps, with 8 slots of region stack. One record per struct of the header, one
  definition per case of the switch with its statements in the order of the file, the dispatch,
  the core, the entry point and the table of reasons. Names carry the prefix \<open>tls_\<close> where the C
  has \<open>pk_tls_clienthello_\<close> or the file as a name space.
\<close>

section \<open>The result struct\<close>

record tls_record_hdr_t =
  tls_record_hdr_ctype :: u8
  tls_record_hdr_ver_major :: u8
  tls_record_hdr_ver_minor :: u8
  tls_record_hdr_rlen :: u16

record tls_handshake_hdr_t =
  tls_handshake_hdr_typ :: u8
  tls_handshake_hdr_hlen :: u32

record tls_body_fixed_t =
  tls_body_fixed_ver :: u16
  tls_body_fixed_random_bit_off :: u64
  tls_body_fixed_random_bit_len :: u64

record tls_sid_len_t =
  tls_sid_len_slen :: u8

record tls_sid_t =
  tls_sid_body_bit_off :: u64
  tls_sid_body_bit_len :: u64

record tls_cs_len_t =
  tls_cs_len_clen :: u16

record tls_cs_t =
  tls_cs_body_bit_off :: u64
  tls_cs_body_bit_len :: u64

record tls_comp_len_t =
  tls_comp_len_plen :: u8

record tls_comp_t =
  tls_comp_body_bit_off :: u64
  tls_comp_body_bit_len :: u64

record tls_ext_len_t =
  tls_ext_len_total :: u16

record tls_ext_t =
  tls_ext_typ :: u16
  tls_ext_elen :: u16

record tls_skip_t =
  tls_skip_body_bit_off :: u64
  tls_skip_body_bit_len :: u64

record tls_sni_list_t =
  tls_sni_list_list_len :: u16

record tls_sni_entry_t =
  tls_sni_entry_ntype :: u8
  tls_sni_entry_hlen :: u16

record tls_host_t =
  tls_host_name_bit_off :: u64
  tls_host_name_bit_len :: u64

record tls_result = pk_result +
  tls_record_hdr_present :: u8
  tls_record_hdr :: tls_record_hdr_t
  tls_handshake_hdr_present :: u8
  tls_handshake_hdr :: tls_handshake_hdr_t
  tls_body_fixed_present :: u8
  tls_body_fixed :: tls_body_fixed_t
  tls_sid_len_present :: u8
  tls_sid_len :: tls_sid_len_t
  tls_sid_present :: u8
  tls_sid :: tls_sid_t
  tls_cs_len_present :: u8
  tls_cs_len :: tls_cs_len_t
  tls_cs_present :: u8
  tls_cs :: tls_cs_t
  tls_comp_len_present :: u8
  tls_comp_len :: tls_comp_len_t
  tls_comp_present :: u8
  tls_comp :: tls_comp_t
  tls_ext_len_present :: u8
  tls_ext_len :: tls_ext_len_t
  tls_ext_present :: u8
  tls_ext :: tls_ext_t
  tls_skip_present :: u8
  tls_skip :: tls_skip_t
  tls_sni_list_present :: u8
  tls_sni_list :: tls_sni_list_t
  tls_sni_entry_present :: u8
  tls_sni_entry :: tls_sni_entry_t
  tls_host_present :: u8
  tls_host :: tls_host_t
  tls_m_seen_sni :: u64
  tls_m_cs_odd :: u64

text \<open>\<open>pk_tls_clienthello_result_t zero = {0};\<close>\<close>

definition tls_zero :: tls_result where
  "tls_zero =
     \<lparr>outcome = 0, reason = 0, consumed_bits = 0,
      tls_record_hdr_present = 0,
      tls_record_hdr = \<lparr>tls_record_hdr_ctype = 0, tls_record_hdr_ver_major = 0, tls_record_hdr_ver_minor = 0, tls_record_hdr_rlen = 0\<rparr>,
      tls_handshake_hdr_present = 0,
      tls_handshake_hdr = \<lparr>tls_handshake_hdr_typ = 0, tls_handshake_hdr_hlen = 0\<rparr>,
      tls_body_fixed_present = 0,
      tls_body_fixed = \<lparr>tls_body_fixed_ver = 0, tls_body_fixed_random_bit_off = 0, tls_body_fixed_random_bit_len = 0\<rparr>,
      tls_sid_len_present = 0,
      tls_sid_len = \<lparr>tls_sid_len_slen = 0\<rparr>,
      tls_sid_present = 0,
      tls_sid = \<lparr>tls_sid_body_bit_off = 0, tls_sid_body_bit_len = 0\<rparr>,
      tls_cs_len_present = 0,
      tls_cs_len = \<lparr>tls_cs_len_clen = 0\<rparr>,
      tls_cs_present = 0,
      tls_cs = \<lparr>tls_cs_body_bit_off = 0, tls_cs_body_bit_len = 0\<rparr>,
      tls_comp_len_present = 0,
      tls_comp_len = \<lparr>tls_comp_len_plen = 0\<rparr>,
      tls_comp_present = 0,
      tls_comp = \<lparr>tls_comp_body_bit_off = 0, tls_comp_body_bit_len = 0\<rparr>,
      tls_ext_len_present = 0,
      tls_ext_len = \<lparr>tls_ext_len_total = 0\<rparr>,
      tls_ext_present = 0,
      tls_ext = \<lparr>tls_ext_typ = 0, tls_ext_elen = 0\<rparr>,
      tls_skip_present = 0,
      tls_skip = \<lparr>tls_skip_body_bit_off = 0, tls_skip_body_bit_len = 0\<rparr>,
      tls_sni_list_present = 0,
      tls_sni_list = \<lparr>tls_sni_list_list_len = 0\<rparr>,
      tls_sni_entry_present = 0,
      tls_sni_entry = \<lparr>tls_sni_entry_ntype = 0, tls_sni_entry_hlen = 0\<rparr>,
      tls_host_present = 0,
      tls_host = \<lparr>tls_host_name_bit_off = 0, tls_host_name_bit_len = 0\<rparr>,
      tls_m_seen_sni = 0,
      tls_m_cs_odd = 0\<rparr>"

text \<open>The assignments to a member, with the cast to its type.\<close>

abbreviation tls_set_record_hdr_ctype :: "u64 \<Rightarrow> tls_result \<Rightarrow> tls_result" where
  "tls_set_record_hdr_ctype v o' \<equiv> o'\<lparr>tls_record_hdr := (tls_record_hdr o')\<lparr>tls_record_hdr_ctype := ucast v\<rparr>\<rparr>"

abbreviation tls_set_record_hdr_ver_major :: "u64 \<Rightarrow> tls_result \<Rightarrow> tls_result" where
  "tls_set_record_hdr_ver_major v o' \<equiv> o'\<lparr>tls_record_hdr := (tls_record_hdr o')\<lparr>tls_record_hdr_ver_major := ucast v\<rparr>\<rparr>"

abbreviation tls_set_record_hdr_ver_minor :: "u64 \<Rightarrow> tls_result \<Rightarrow> tls_result" where
  "tls_set_record_hdr_ver_minor v o' \<equiv> o'\<lparr>tls_record_hdr := (tls_record_hdr o')\<lparr>tls_record_hdr_ver_minor := ucast v\<rparr>\<rparr>"

abbreviation tls_set_record_hdr_rlen :: "u64 \<Rightarrow> tls_result \<Rightarrow> tls_result" where
  "tls_set_record_hdr_rlen v o' \<equiv> o'\<lparr>tls_record_hdr := (tls_record_hdr o')\<lparr>tls_record_hdr_rlen := ucast v\<rparr>\<rparr>"

abbreviation tls_set_handshake_hdr_typ :: "u64 \<Rightarrow> tls_result \<Rightarrow> tls_result" where
  "tls_set_handshake_hdr_typ v o' \<equiv> o'\<lparr>tls_handshake_hdr := (tls_handshake_hdr o')\<lparr>tls_handshake_hdr_typ := ucast v\<rparr>\<rparr>"

abbreviation tls_set_handshake_hdr_hlen :: "u64 \<Rightarrow> tls_result \<Rightarrow> tls_result" where
  "tls_set_handshake_hdr_hlen v o' \<equiv> o'\<lparr>tls_handshake_hdr := (tls_handshake_hdr o')\<lparr>tls_handshake_hdr_hlen := ucast v\<rparr>\<rparr>"

abbreviation tls_set_body_fixed_ver :: "u64 \<Rightarrow> tls_result \<Rightarrow> tls_result" where
  "tls_set_body_fixed_ver v o' \<equiv> o'\<lparr>tls_body_fixed := (tls_body_fixed o')\<lparr>tls_body_fixed_ver := ucast v\<rparr>\<rparr>"

abbreviation tls_set_body_fixed_random_bit_off :: "u64 \<Rightarrow> tls_result \<Rightarrow> tls_result" where
  "tls_set_body_fixed_random_bit_off v o' \<equiv> o'\<lparr>tls_body_fixed := (tls_body_fixed o')\<lparr>tls_body_fixed_random_bit_off := v\<rparr>\<rparr>"

abbreviation tls_set_body_fixed_random_bit_len :: "u64 \<Rightarrow> tls_result \<Rightarrow> tls_result" where
  "tls_set_body_fixed_random_bit_len v o' \<equiv> o'\<lparr>tls_body_fixed := (tls_body_fixed o')\<lparr>tls_body_fixed_random_bit_len := v\<rparr>\<rparr>"

abbreviation tls_set_sid_len_slen :: "u64 \<Rightarrow> tls_result \<Rightarrow> tls_result" where
  "tls_set_sid_len_slen v o' \<equiv> o'\<lparr>tls_sid_len := (tls_sid_len o')\<lparr>tls_sid_len_slen := ucast v\<rparr>\<rparr>"

abbreviation tls_set_sid_body_bit_off :: "u64 \<Rightarrow> tls_result \<Rightarrow> tls_result" where
  "tls_set_sid_body_bit_off v o' \<equiv> o'\<lparr>tls_sid := (tls_sid o')\<lparr>tls_sid_body_bit_off := v\<rparr>\<rparr>"

abbreviation tls_set_sid_body_bit_len :: "u64 \<Rightarrow> tls_result \<Rightarrow> tls_result" where
  "tls_set_sid_body_bit_len v o' \<equiv> o'\<lparr>tls_sid := (tls_sid o')\<lparr>tls_sid_body_bit_len := v\<rparr>\<rparr>"

abbreviation tls_set_cs_len_clen :: "u64 \<Rightarrow> tls_result \<Rightarrow> tls_result" where
  "tls_set_cs_len_clen v o' \<equiv> o'\<lparr>tls_cs_len := (tls_cs_len o')\<lparr>tls_cs_len_clen := ucast v\<rparr>\<rparr>"

abbreviation tls_set_cs_body_bit_off :: "u64 \<Rightarrow> tls_result \<Rightarrow> tls_result" where
  "tls_set_cs_body_bit_off v o' \<equiv> o'\<lparr>tls_cs := (tls_cs o')\<lparr>tls_cs_body_bit_off := v\<rparr>\<rparr>"

abbreviation tls_set_cs_body_bit_len :: "u64 \<Rightarrow> tls_result \<Rightarrow> tls_result" where
  "tls_set_cs_body_bit_len v o' \<equiv> o'\<lparr>tls_cs := (tls_cs o')\<lparr>tls_cs_body_bit_len := v\<rparr>\<rparr>"

abbreviation tls_set_comp_len_plen :: "u64 \<Rightarrow> tls_result \<Rightarrow> tls_result" where
  "tls_set_comp_len_plen v o' \<equiv> o'\<lparr>tls_comp_len := (tls_comp_len o')\<lparr>tls_comp_len_plen := ucast v\<rparr>\<rparr>"

abbreviation tls_set_comp_body_bit_off :: "u64 \<Rightarrow> tls_result \<Rightarrow> tls_result" where
  "tls_set_comp_body_bit_off v o' \<equiv> o'\<lparr>tls_comp := (tls_comp o')\<lparr>tls_comp_body_bit_off := v\<rparr>\<rparr>"

abbreviation tls_set_comp_body_bit_len :: "u64 \<Rightarrow> tls_result \<Rightarrow> tls_result" where
  "tls_set_comp_body_bit_len v o' \<equiv> o'\<lparr>tls_comp := (tls_comp o')\<lparr>tls_comp_body_bit_len := v\<rparr>\<rparr>"

abbreviation tls_set_ext_len_total :: "u64 \<Rightarrow> tls_result \<Rightarrow> tls_result" where
  "tls_set_ext_len_total v o' \<equiv> o'\<lparr>tls_ext_len := (tls_ext_len o')\<lparr>tls_ext_len_total := ucast v\<rparr>\<rparr>"

abbreviation tls_set_ext_typ :: "u64 \<Rightarrow> tls_result \<Rightarrow> tls_result" where
  "tls_set_ext_typ v o' \<equiv> o'\<lparr>tls_ext := (tls_ext o')\<lparr>tls_ext_typ := ucast v\<rparr>\<rparr>"

abbreviation tls_set_ext_elen :: "u64 \<Rightarrow> tls_result \<Rightarrow> tls_result" where
  "tls_set_ext_elen v o' \<equiv> o'\<lparr>tls_ext := (tls_ext o')\<lparr>tls_ext_elen := ucast v\<rparr>\<rparr>"

abbreviation tls_set_skip_body_bit_off :: "u64 \<Rightarrow> tls_result \<Rightarrow> tls_result" where
  "tls_set_skip_body_bit_off v o' \<equiv> o'\<lparr>tls_skip := (tls_skip o')\<lparr>tls_skip_body_bit_off := v\<rparr>\<rparr>"

abbreviation tls_set_skip_body_bit_len :: "u64 \<Rightarrow> tls_result \<Rightarrow> tls_result" where
  "tls_set_skip_body_bit_len v o' \<equiv> o'\<lparr>tls_skip := (tls_skip o')\<lparr>tls_skip_body_bit_len := v\<rparr>\<rparr>"

abbreviation tls_set_sni_list_list_len :: "u64 \<Rightarrow> tls_result \<Rightarrow> tls_result" where
  "tls_set_sni_list_list_len v o' \<equiv> o'\<lparr>tls_sni_list := (tls_sni_list o')\<lparr>tls_sni_list_list_len := ucast v\<rparr>\<rparr>"

abbreviation tls_set_sni_entry_ntype :: "u64 \<Rightarrow> tls_result \<Rightarrow> tls_result" where
  "tls_set_sni_entry_ntype v o' \<equiv> o'\<lparr>tls_sni_entry := (tls_sni_entry o')\<lparr>tls_sni_entry_ntype := ucast v\<rparr>\<rparr>"

abbreviation tls_set_sni_entry_hlen :: "u64 \<Rightarrow> tls_result \<Rightarrow> tls_result" where
  "tls_set_sni_entry_hlen v o' \<equiv> o'\<lparr>tls_sni_entry := (tls_sni_entry o')\<lparr>tls_sni_entry_hlen := ucast v\<rparr>\<rparr>"

abbreviation tls_set_host_name_bit_off :: "u64 \<Rightarrow> tls_result \<Rightarrow> tls_result" where
  "tls_set_host_name_bit_off v o' \<equiv> o'\<lparr>tls_host := (tls_host o')\<lparr>tls_host_name_bit_off := v\<rparr>\<rparr>"

abbreviation tls_set_host_name_bit_len :: "u64 \<Rightarrow> tls_result \<Rightarrow> tls_result" where
  "tls_set_host_name_bit_len v o' \<equiv> o'\<lparr>tls_host := (tls_host o')\<lparr>tls_host_name_bit_len := v\<rparr>\<rparr>"

abbreviation tls_set_m_seen_sni :: "u64 \<Rightarrow> tls_result \<Rightarrow> tls_result" where
  "tls_set_m_seen_sni v o' \<equiv> o'\<lparr>tls_m_seen_sni := v\<rparr>"

abbreviation tls_set_m_cs_odd :: "u64 \<Rightarrow> tls_result \<Rightarrow> tls_result" where
  "tls_set_m_cs_odd v o' \<equiv> o'\<lparr>tls_m_cs_odd := v\<rparr>"

section \<open>States, reasons and bounds\<close>

abbreviation tls_S_S_RECORD :: u32 where "tls_S_S_RECORD \<equiv> 0"
abbreviation tls_S_S_RECVER :: u32 where "tls_S_S_RECVER \<equiv> 1"
abbreviation tls_S_S_HS :: u32 where "tls_S_S_HS \<equiv> 2"
abbreviation tls_S_S_FIXED :: u32 where "tls_S_S_FIXED \<equiv> 3"
abbreviation tls_S_S_SID_LEN :: u32 where "tls_S_S_SID_LEN \<equiv> 4"
abbreviation tls_S_S_SID :: u32 where "tls_S_S_SID \<equiv> 5"
abbreviation tls_S_S_CS_LEN :: u32 where "tls_S_S_CS_LEN \<equiv> 6"
abbreviation tls_S_S_CS_PARITY :: u32 where "tls_S_S_CS_PARITY \<equiv> 7"
abbreviation tls_S_S_CS :: u32 where "tls_S_S_CS \<equiv> 8"
abbreviation tls_S_S_COMP_LEN :: u32 where "tls_S_S_COMP_LEN \<equiv> 9"
abbreviation tls_S_S_COMP :: u32 where "tls_S_S_COMP \<equiv> 10"
abbreviation tls_S_S_EXT_CHECK :: u32 where "tls_S_S_EXT_CHECK \<equiv> 11"
abbreviation tls_S_S_EXT_LEN :: u32 where "tls_S_S_EXT_LEN \<equiv> 12"
abbreviation tls_S_S_TLV :: u32 where "tls_S_S_TLV \<equiv> 13"
abbreviation tls_S_S_EXT :: u32 where "tls_S_S_EXT \<equiv> 14"
abbreviation tls_S_S_SKIP :: u32 where "tls_S_S_SKIP \<equiv> 15"
abbreviation tls_S_S_SNI :: u32 where "tls_S_S_SNI \<equiv> 16"
abbreviation tls_S_S_SNI_LIST :: u32 where "tls_S_S_SNI_LIST \<equiv> 17"
abbreviation tls_S_S_SNI_ENTRY :: u32 where "tls_S_S_SNI_ENTRY \<equiv> 18"
abbreviation tls_S_S_HOST :: u32 where "tls_S_S_HOST \<equiv> 19"
abbreviation tls_S_S_DONE :: u32 where "tls_S_S_DONE \<equiv> 20"
abbreviation tls_S_S_DONE_NOEXT :: u32 where "tls_S_S_DONE_NOEXT \<equiv> 21"

abbreviation tls_R_DUPLICATE_SNI :: u16 where "tls_R_DUPLICATE_SNI \<equiv> 16"
abbreviation tls_R_EMPTY_CIPHER_SUITES :: u16 where "tls_R_EMPTY_CIPHER_SUITES \<equiv> 17"
abbreviation tls_R_EMPTY_COMPRESSIONS :: u16 where "tls_R_EMPTY_COMPRESSIONS \<equiv> 18"
abbreviation tls_R_NOT_A_CLIENT_HELLO :: u16 where "tls_R_NOT_A_CLIENT_HELLO \<equiv> 19"
abbreviation tls_R_NOT_A_HANDSHAKE_RECORD :: u16 where "tls_R_NOT_A_HANDSHAKE_RECORD \<equiv> 20"
abbreviation tls_R_ODD_CIPHER_SUITES_LENGTH :: u16 where "tls_R_ODD_CIPHER_SUITES_LENGTH \<equiv> 21"
abbreviation tls_R_PARTIAL_EXTENSION_HEADER :: u16 where "tls_R_PARTIAL_EXTENSION_HEADER \<equiv> 22"
abbreviation tls_R_PARTIAL_EXTENSIONS_LENGTH :: u16 where "tls_R_PARTIAL_EXTENSIONS_LENGTH \<equiv> 23"
abbreviation tls_R_SESSION_ID_TOO_LONG :: u16 where "tls_R_SESSION_ID_TOO_LONG \<equiv> 24"
abbreviation tls_R_UNSUPPORTED_RECORD_VERSION :: u16 where "tls_R_UNSUPPORTED_RECORD_VERSION \<equiv> 25"
abbreviation tls_R_UNSUPPORTED_SNI_NAME_TYPE :: u16 where "tls_R_UNSUPPORTED_SNI_NAME_TYPE \<equiv> 26"

abbreviation tls_RMASK :: u32 where "tls_RMASK \<equiv> 7"

section \<open>The cases of the switch\<close>

definition tls_case_s_record :: "packet_reader \<Rightarrow> u64 \<Rightarrow> tls_result stmt list" where
  "tls_case_s_record rd bit_len =
   [store (\<lambda>o'. o'\<lparr>tls_record_hdr_present := 1\<rparr>),
    check_region tls_RMASK Off 8,
    check_len bit_len Off 8,
    load_bytes rd Off 1 tls_set_record_hdr_ctype,
    advance Off 8,
    check_region tls_RMASK Off 8,
    check_len bit_len Off 8,
    load_bytes rd Off 1 tls_set_record_hdr_ver_major,
    advance Off 8,
    check_region tls_RMASK Off 8,
    check_len bit_len Off 8,
    load_bytes rd Off 1 tls_set_record_hdr_ver_minor,
    advance Off 8,
    check_region tls_RMASK Off 16,
    check_len bit_len Off 16,
    load_bytes rd Off 2 tls_set_record_hdr_rlen,
    advance Off 16,
    bind_local (c_mul (c_out (\<lambda>o'. ucast (tls_record_hdr_rlen (tls_record_hdr o')))) (c_const 8)) (\<lambda>rlen.
      [push_check tls_RMASK rlen,
       push_clamp tls_RMASK,
       push_store tls_RMASK rlen]),
    bind_local (c_out (\<lambda>o'. ucast (tls_record_hdr_ctype (tls_record_hdr o')))) (\<lambda>key0. [
     branch (\<lambda>_. key0 = 22) (goto tls_S_S_RECVER) (
     reject tls_R_NOT_A_HANDSHAKE_RECORD)])]"

definition tls_case_s_recver :: "packet_reader \<Rightarrow> u64 \<Rightarrow> tls_result stmt list" where
  "tls_case_s_recver rd bit_len =
   [bind_local (c_out (\<lambda>o'. ucast (tls_record_hdr_ver_major (tls_record_hdr o')))) (\<lambda>key0. [
     branch (\<lambda>_. key0 = 3) (goto tls_S_S_HS) (
     reject tls_R_UNSUPPORTED_RECORD_VERSION)])]"

definition tls_case_s_hs :: "packet_reader \<Rightarrow> u64 \<Rightarrow> tls_result stmt list" where
  "tls_case_s_hs rd bit_len =
   [store (\<lambda>o'. o'\<lparr>tls_handshake_hdr_present := 1\<rparr>),
    check_region tls_RMASK Off 8,
    check_len bit_len Off 8,
    load_bytes rd Off 1 tls_set_handshake_hdr_typ,
    advance Off 8,
    check_region tls_RMASK Off 24,
    check_len bit_len Off 24,
    load_bytes rd Off 3 tls_set_handshake_hdr_hlen,
    advance Off 24,
    bind_local (c_mul (c_out (\<lambda>o'. ucast (tls_handshake_hdr_hlen (tls_handshake_hdr o')))) (c_const 8)) (\<lambda>rlen.
      [push_check tls_RMASK rlen,
       push_clamp tls_RMASK,
       push_store tls_RMASK rlen]),
    bind_local (c_out (\<lambda>o'. ucast (tls_handshake_hdr_typ (tls_handshake_hdr o')))) (\<lambda>key0. [
     branch (\<lambda>_. key0 = 1) (goto tls_S_S_FIXED) (
     reject tls_R_NOT_A_CLIENT_HELLO)])]"

definition tls_case_s_fixed :: "packet_reader \<Rightarrow> u64 \<Rightarrow> tls_result stmt list" where
  "tls_case_s_fixed rd bit_len =
   [store (\<lambda>o'. o'\<lparr>tls_body_fixed_present := 1\<rparr>),
    check_region tls_RMASK Off 16,
    check_len bit_len Off 16,
    load_bytes rd Off 2 tls_set_body_fixed_ver,
    advance Off 16,
    bind_local (c_mul (c_const 32) (c_const 8)) (\<lambda>vlen.
      [check_var_region tls_RMASK vlen,
       check_var_len bit_len vlen,
       store_off tls_set_body_fixed_random_bit_off,
       store (tls_set_body_fixed_random_bit_len vlen),
       advance Off vlen]),
    goto tls_S_S_SID_LEN]"

definition tls_case_s_sid_len :: "packet_reader \<Rightarrow> u64 \<Rightarrow> tls_result stmt list" where
  "tls_case_s_sid_len rd bit_len =
   [store (\<lambda>o'. o'\<lparr>tls_sid_len_present := 1\<rparr>),
    check_region tls_RMASK Off 8,
    check_len bit_len Off 8,
    load_bytes rd Off 1 tls_set_sid_len_slen,
    advance Off 8,
    bind_local (c_out (\<lambda>o'. ucast (tls_sid_len_slen (tls_sid_len o')))) (\<lambda>key0. [
     branch (\<lambda>_. key0 \<le> 32) (goto tls_S_S_SID) (
     reject tls_R_SESSION_ID_TOO_LONG)])]"

definition tls_case_s_sid :: "packet_reader \<Rightarrow> u64 \<Rightarrow> tls_result stmt list" where
  "tls_case_s_sid rd bit_len =
   [store (\<lambda>o'. o'\<lparr>tls_sid_present := 1\<rparr>),
    bind_local (c_mul (c_out (\<lambda>o'. ucast (tls_sid_len_slen (tls_sid_len o')))) (c_const 8)) (\<lambda>vlen.
      [check_var_region tls_RMASK vlen,
       check_var_len bit_len vlen,
       store_off tls_set_sid_body_bit_off,
       store (tls_set_sid_body_bit_len vlen),
       advance Off vlen]),
    goto tls_S_S_CS_LEN]"

definition tls_case_s_cs_len :: "packet_reader \<Rightarrow> u64 \<Rightarrow> tls_result stmt list" where
  "tls_case_s_cs_len rd bit_len =
   [store (\<lambda>o'. o'\<lparr>tls_cs_len_present := 1\<rparr>),
    check_region tls_RMASK Off 16,
    check_len bit_len Off 16,
    load_bytes rd Off 2 tls_set_cs_len_clen,
    advance Off 16,
    store_exp (c_and (c_and (c_out (\<lambda>o'. ucast (tls_cs_len_clen (tls_cs_len o')))) (c_const 1)) (c_const 0x1)) tls_set_m_cs_odd,
    bind_local (c_out (\<lambda>o'. ucast (tls_cs_len_clen (tls_cs_len o')))) (\<lambda>key0. [
     branch (\<lambda>_. key0 = 0) (reject tls_R_EMPTY_CIPHER_SUITES) (
     goto tls_S_S_CS_PARITY)])]"

definition tls_case_s_cs_parity :: "packet_reader \<Rightarrow> u64 \<Rightarrow> tls_result stmt list" where
  "tls_case_s_cs_parity rd bit_len =
   [bind_local (c_out tls_m_cs_odd) (\<lambda>key0. [
     branch (\<lambda>_. key0 = 1) (reject tls_R_ODD_CIPHER_SUITES_LENGTH) (
     goto tls_S_S_CS)])]"

definition tls_case_s_cs :: "packet_reader \<Rightarrow> u64 \<Rightarrow> tls_result stmt list" where
  "tls_case_s_cs rd bit_len =
   [store (\<lambda>o'. o'\<lparr>tls_cs_present := 1\<rparr>),
    bind_local (c_mul (c_out (\<lambda>o'. ucast (tls_cs_len_clen (tls_cs_len o')))) (c_const 8)) (\<lambda>vlen.
      [check_var_region tls_RMASK vlen,
       check_var_len bit_len vlen,
       store_off tls_set_cs_body_bit_off,
       store (tls_set_cs_body_bit_len vlen),
       advance Off vlen]),
    goto tls_S_S_COMP_LEN]"

definition tls_case_s_comp_len :: "packet_reader \<Rightarrow> u64 \<Rightarrow> tls_result stmt list" where
  "tls_case_s_comp_len rd bit_len =
   [store (\<lambda>o'. o'\<lparr>tls_comp_len_present := 1\<rparr>),
    check_region tls_RMASK Off 8,
    check_len bit_len Off 8,
    load_bytes rd Off 1 tls_set_comp_len_plen,
    advance Off 8,
    bind_local (c_out (\<lambda>o'. ucast (tls_comp_len_plen (tls_comp_len o')))) (\<lambda>key0. [
     branch (\<lambda>_. key0 = 0) (reject tls_R_EMPTY_COMPRESSIONS) (
     goto tls_S_S_COMP)])]"

definition tls_case_s_comp :: "packet_reader \<Rightarrow> u64 \<Rightarrow> tls_result stmt list" where
  "tls_case_s_comp rd bit_len =
   [store (\<lambda>o'. o'\<lparr>tls_comp_present := 1\<rparr>),
    bind_local (c_mul (c_out (\<lambda>o'. ucast (tls_comp_len_plen (tls_comp_len o')))) (c_const 8)) (\<lambda>vlen.
      [check_var_region tls_RMASK vlen,
       check_var_len bit_len vlen,
       store_off tls_set_comp_body_bit_off,
       store (tls_set_comp_body_bit_len vlen),
       advance Off vlen]),
    goto tls_S_S_EXT_CHECK]"

definition tls_case_s_ext_check :: "packet_reader \<Rightarrow> u64 \<Rightarrow> tls_result stmt list" where
  "tls_case_s_ext_check rd bit_len =
   [bind_local (c_shr (c_remaining tls_RMASK) (c_const 3)) (\<lambda>key0. [
     branch (\<lambda>_. key0 = 0) (goto tls_S_S_DONE_NOEXT) (
     branch (\<lambda>_. key0 = 1) (reject tls_R_PARTIAL_EXTENSIONS_LENGTH) (
     goto tls_S_S_EXT_LEN))])]"

definition tls_case_s_ext_len :: "packet_reader \<Rightarrow> u64 \<Rightarrow> tls_result stmt list" where
  "tls_case_s_ext_len rd bit_len =
   [store (\<lambda>o'. o'\<lparr>tls_ext_len_present := 1\<rparr>),
    check_region tls_RMASK Off 16,
    check_len bit_len Off 16,
    load_bytes rd Off 2 tls_set_ext_len_total,
    advance Off 16,
    bind_local (c_mul (c_out (\<lambda>o'. ucast (tls_ext_len_total (tls_ext_len o')))) (c_const 8)) (\<lambda>rlen.
      [push_check tls_RMASK rlen,
       push_clamp tls_RMASK,
       push_store tls_RMASK rlen]),
    goto tls_S_S_TLV]"

definition tls_case_s_tlv :: "packet_reader \<Rightarrow> u64 \<Rightarrow> tls_result stmt list" where
  "tls_case_s_tlv rd bit_len =
   [bind_local (c_shr (c_remaining tls_RMASK) (c_const 3)) (\<lambda>key0. [
     branch (\<lambda>_. key0 = 0) (goto tls_S_S_DONE) (
     branch (\<lambda>_. key0 = 1) (reject tls_R_PARTIAL_EXTENSION_HEADER) (
     branch (\<lambda>_. key0 = 2) (reject tls_R_PARTIAL_EXTENSION_HEADER) (
     branch (\<lambda>_. key0 = 3) (reject tls_R_PARTIAL_EXTENSION_HEADER) (
     goto tls_S_S_EXT))))])]"

definition tls_case_s_ext :: "packet_reader \<Rightarrow> u64 \<Rightarrow> tls_result stmt list" where
  "tls_case_s_ext rd bit_len =
   [store (\<lambda>o'. o'\<lparr>tls_ext_present := 1\<rparr>),
    check_region tls_RMASK Off 16,
    check_len bit_len Off 16,
    load_bytes rd Off 2 tls_set_ext_typ,
    advance Off 16,
    check_region tls_RMASK Off 16,
    check_len bit_len Off 16,
    load_bytes rd Off 2 tls_set_ext_elen,
    advance Off 16,
    bind_local (c_out (\<lambda>o'. ucast (tls_ext_typ (tls_ext o')))) (\<lambda>key0. [
     bind_local (c_out tls_m_seen_sni) (\<lambda>key1. [
      branch (\<lambda>_. key0 = 0 \<and> key1 = 0) (goto tls_S_S_SNI) (
      branch (\<lambda>_. key0 = 0 \<and> key1 = 1) (reject tls_R_DUPLICATE_SNI) (
      goto tls_S_S_SKIP))])])]"

definition tls_case_s_skip :: "packet_reader \<Rightarrow> u64 \<Rightarrow> tls_result stmt list" where
  "tls_case_s_skip rd bit_len =
   [store (\<lambda>o'. o'\<lparr>tls_skip_present := 1\<rparr>),
    bind_local (c_mul (c_out (\<lambda>o'. ucast (tls_ext_elen (tls_ext o')))) (c_const 8)) (\<lambda>vlen.
      [check_var_region tls_RMASK vlen,
       check_var_len bit_len vlen,
       store_off tls_set_skip_body_bit_off,
       store (tls_set_skip_body_bit_len vlen),
       advance Off vlen]),
    goto tls_S_S_TLV]"

definition tls_case_s_sni :: "packet_reader \<Rightarrow> u64 \<Rightarrow> tls_result stmt list" where
  "tls_case_s_sni rd bit_len =
   [store_exp (c_and (c_const 1) (c_const 0x1)) tls_set_m_seen_sni,
    bind_local (c_mul (c_out (\<lambda>o'. ucast (tls_ext_elen (tls_ext o')))) (c_const 8)) (\<lambda>rlen.
      [push_check tls_RMASK rlen,
       push_clamp tls_RMASK,
       push_store tls_RMASK rlen]),
    goto tls_S_S_SNI_LIST]"

definition tls_case_s_sni_list :: "packet_reader \<Rightarrow> u64 \<Rightarrow> tls_result stmt list" where
  "tls_case_s_sni_list rd bit_len =
   [store (\<lambda>o'. o'\<lparr>tls_sni_list_present := 1\<rparr>),
    check_region tls_RMASK Off 16,
    check_len bit_len Off 16,
    load_bytes rd Off 2 tls_set_sni_list_list_len,
    advance Off 16,
    bind_local (c_mul (c_out (\<lambda>o'. ucast (tls_sni_list_list_len (tls_sni_list o')))) (c_const 8)) (\<lambda>rlen.
      [push_check tls_RMASK rlen,
       push_clamp tls_RMASK,
       push_store tls_RMASK rlen]),
    goto tls_S_S_SNI_ENTRY]"

definition tls_case_s_sni_entry :: "packet_reader \<Rightarrow> u64 \<Rightarrow> tls_result stmt list" where
  "tls_case_s_sni_entry rd bit_len =
   [store (\<lambda>o'. o'\<lparr>tls_sni_entry_present := 1\<rparr>),
    check_region tls_RMASK Off 8,
    check_len bit_len Off 8,
    load_bytes rd Off 1 tls_set_sni_entry_ntype,
    advance Off 8,
    check_region tls_RMASK Off 16,
    check_len bit_len Off 16,
    load_bytes rd Off 2 tls_set_sni_entry_hlen,
    advance Off 16,
    bind_local (c_out (\<lambda>o'. ucast (tls_sni_entry_ntype (tls_sni_entry o')))) (\<lambda>key0. [
     branch (\<lambda>_. key0 = 0) (goto tls_S_S_HOST) (
     reject tls_R_UNSUPPORTED_SNI_NAME_TYPE)])]"

definition tls_case_s_host :: "packet_reader \<Rightarrow> u64 \<Rightarrow> tls_result stmt list" where
  "tls_case_s_host rd bit_len =
   [store (\<lambda>o'. o'\<lparr>tls_host_present := 1\<rparr>),
    bind_local (c_mul (c_out (\<lambda>o'. ucast (tls_sni_entry_hlen (tls_sni_entry o')))) (c_const 8)) (\<lambda>vlen.
      [check_var_region tls_RMASK vlen,
       check_var_len bit_len vlen,
       store_off tls_set_host_name_bit_off,
       store (tls_set_host_name_bit_len vlen),
       advance Off vlen]),
    pop_guard,
    pop_dec,
    pop_check tls_RMASK,
    pop_guard,
    pop_dec,
    pop_check tls_RMASK,
    goto tls_S_S_TLV]"

definition tls_case_s_done :: "packet_reader \<Rightarrow> u64 \<Rightarrow> tls_result stmt list" where
  "tls_case_s_done rd bit_len =
   [pop_guard,
    pop_dec,
    pop_check tls_RMASK,
    pop_guard,
    pop_dec,
    pop_check tls_RMASK,
    pop_guard,
    pop_dec,
    pop_check tls_RMASK,
    accept]"

definition tls_case_s_done_noext :: "packet_reader \<Rightarrow> u64 \<Rightarrow> tls_result stmt list" where
  "tls_case_s_done_noext rd bit_len =
   [pop_guard,
    pop_dec,
    pop_check tls_RMASK,
    pop_guard,
    pop_dec,
    pop_check tls_RMASK,
    accept]"

section \<open>The parser\<close>

definition tls_switch :: "packet_reader \<Rightarrow> u64 \<Rightarrow> tls_result stmt" where
  "tls_switch rd bit_len = switch
   [(tls_S_S_RECORD, tls_case_s_record rd bit_len),
    (tls_S_S_RECVER, tls_case_s_recver rd bit_len),
    (tls_S_S_HS, tls_case_s_hs rd bit_len),
    (tls_S_S_FIXED, tls_case_s_fixed rd bit_len),
    (tls_S_S_SID_LEN, tls_case_s_sid_len rd bit_len),
    (tls_S_S_SID, tls_case_s_sid rd bit_len),
    (tls_S_S_CS_LEN, tls_case_s_cs_len rd bit_len),
    (tls_S_S_CS_PARITY, tls_case_s_cs_parity rd bit_len),
    (tls_S_S_CS, tls_case_s_cs rd bit_len),
    (tls_S_S_COMP_LEN, tls_case_s_comp_len rd bit_len),
    (tls_S_S_COMP, tls_case_s_comp rd bit_len),
    (tls_S_S_EXT_CHECK, tls_case_s_ext_check rd bit_len),
    (tls_S_S_EXT_LEN, tls_case_s_ext_len rd bit_len),
    (tls_S_S_TLV, tls_case_s_tlv rd bit_len),
    (tls_S_S_EXT, tls_case_s_ext rd bit_len),
    (tls_S_S_SKIP, tls_case_s_skip rd bit_len),
    (tls_S_S_SNI, tls_case_s_sni rd bit_len),
    (tls_S_S_SNI_LIST, tls_case_s_sni_list rd bit_len),
    (tls_S_S_SNI_ENTRY, tls_case_s_sni_entry rd bit_len),
    (tls_S_S_HOST, tls_case_s_host rd bit_len),
    (tls_S_S_DONE, tls_case_s_done rd bit_len),
    (tls_S_S_DONE_NOEXT, tls_case_s_done_noext rd bit_len)]"

definition tls_parse_core :: "packet_reader \<Rightarrow> u64 \<Rightarrow> tls_result \<Rightarrow> tls_result flow" where
  "tls_parse_core rd bit_len o' =
     depth_loop 96 (tls_switch rd bit_len)
       (init_locals tls_S_S_RECORD 8 (o'\<lparr>tls_m_seen_sni := 0, tls_m_cs_odd := 0\<rparr>))"

text \<open>The caller's struct is overwritten with zeros before the core runs.\<close>

definition tls_parse :: "packet_reader \<Rightarrow> u64 \<Rightarrow> tls_result \<Rightarrow> tls_result flow" where
  "tls_parse rd bit_len o' = tls_parse_core rd bit_len tls_zero"

text \<open>The reasons of the header, with the text each carries in a comment.\<close>

definition tls_reasons :: "(u16 \<times> string) list" where
  "tls_reasons =
     [(1, ''out of bounds''),
      (2, ''max depth exceeded''),
      (3, ''no matching select arm''),
      (4, ''out of region bounds''),
      (5, ''region out of bounds''),
      (6, ''region not exhausted''),
      (16, ''duplicate sni''),
      (17, ''empty cipher suites''),
      (18, ''empty compressions''),
      (19, ''not a client hello''),
      (20, ''not a handshake record''),
      (21, ''odd cipher suites length''),
      (22, ''partial extension header''),
      (23, ''partial extensions length''),
      (24, ''session id too long''),
      (25, ''unsupported record version''),
      (26, ''unsupported sni name type'')]"

definition tls_reason_str :: "u16 \<Rightarrow> string" where
  "tls_reason_str r =
     (if r = 1 then ''out of bounds''
      else if r = 2 then ''max depth exceeded''
      else if r = 3 then ''no matching select arm''
      else if r = 4 then ''out of region bounds''
      else if r = 5 then ''region out of bounds''
      else if r = 6 then ''region not exhausted''
      else if r = 16 then ''duplicate sni''
      else if r = 17 then ''empty cipher suites''
      else if r = 18 then ''empty compressions''
      else if r = 19 then ''not a client hello''
      else if r = 20 then ''not a handshake record''
      else if r = 21 then ''odd cipher suites length''
      else if r = 22 then ''partial extension header''
      else if r = 23 then ''partial extensions length''
      else if r = 24 then ''session id too long''
      else if r = 25 then ''unsupported record version''
      else if r = 26 then ''unsupported sni name type''
      else [])"

end
