(* ===== verification/Ir.thy ===== *)
theory Ir
  imports Pk_Prelude
begin

text \<open>
  The Pakeles IR, message by message, from proto/pakeles/ir/v1alpha1/ir.proto, once it is known to be
  complete; Ir_Message has the messages as they arrive. Only the fields that
  some judgment reads are kept: \<open>Display\<close>, \<open>ValueLabel\<close> and the free-form annotations are
  presentation and never consulted, except a reject's severity, which the interpreter reports.
  A \<open>oneof\<close> with no member set is what validation rejects first, so it has no constructor here;
  the one unset enum value that decodes without an error, the unspecified operator, does.
  An extract's instance name defaults to its header type (\<open>instance_of\<close>).
\<close>

datatype binop = OpUnspecified | OpAdd | OpSub | OpMul | OpShl | OpShr | OpAnd | OpOr

datatype expr =
    Constant u64
  | Field string string
  | Metadata string
  | Remaining
  | Bin binop expr expr

datatype field_width = Bits nat | BitLen expr

record field =
  field_name :: string
  field_width :: field_width

record header_type =
  ht_name :: string
  ht_fields :: "field list"

record extract_op =
  ex_header_type :: string
  ex_instance :: string
  ex_lookahead :: bool

definition instance_of :: "extract_op \<Rightarrow> string" where
  "instance_of ex = (if ex_instance ex = [] then ex_header_type ex else ex_instance ex)"

datatype severity = SevError | SevInfo

datatype target = ToState string | Accept | Reject string severity

datatype keyset_entry = Value u64 | Masked u64 u64 | Range u64 u64

record select_arm =
  arm_entries :: "keyset_entry list"
  arm_next :: target

datatype transition = Direct target | Select "expr list" "select_arm list" "target option"

record assign =
  as_metadata :: string
  as_value :: expr

datatype region_op = Push expr | Pop

record state =
  st_name :: string
  st_extracts :: "extract_op list"
  st_assigns :: "assign list"
  st_region_ops :: "region_op list"
  st_transition :: transition

record metadata_field =
  md_name :: string
  md_bits :: nat
  md_init :: u64

record parser =
  p_header_types :: "header_type list"
  p_states :: "state list"
  p_start_state :: string
  p_max_depth :: nat
  p_metadata :: "metadata_field list"

section \<open>Look-ups by name\<close>

definition find_state :: "parser \<Rightarrow> string \<Rightarrow> state option" where
  "find_state p n = find (\<lambda>s. st_name s = n) (p_states p)"

definition find_header_type :: "parser \<Rightarrow> string \<Rightarrow> header_type option" where
  "find_header_type p n = find (\<lambda>h. ht_name h = n) (p_header_types p)"

definition find_metadata :: "parser \<Rightarrow> string \<Rightarrow> metadata_field option" where
  "find_metadata p n = find (\<lambda>m. md_name m = n) (p_metadata p)"

lemma find_stateD: "find_state p n = Some s \<Longrightarrow> s \<in> set (p_states p) \<and> st_name s = n"
  by (auto simp: find_state_def find_Some_iff)

lemma find_state_names: "find_state p n \<noteq> None \<longleftrightarrow> n \<in> set (map st_name (p_states p))"
  by (auto simp: find_state_def find_None_iff)

lemma find_header_typeD:
  "find_header_type p n = Some h \<Longrightarrow> h \<in> set (p_header_types p) \<and> ht_name h = n"
  by (auto simp: find_header_type_def find_Some_iff)

lemma find_metadataD:
  "find_metadata p n = Some m \<Longrightarrow> m \<in> set (p_metadata p) \<and> md_name m = n"
  by (auto simp: find_metadata_def find_Some_iff)

fun targets_of :: "transition \<Rightarrow> target list" where
  "targets_of (Direct t) = [t]"
| "targets_of (Select _ arms d) =
     map arm_next arms @ (case d of None \<Rightarrow> [] | Some t \<Rightarrow> [t])"

text \<open>
  \<open>successor_states\<close> of rust/pakeles/src/codegen/mod.rs, and the map from names to states that the
  analyses collect: of two states with one name the later stays.
\<close>

definition successor_states :: "state \<Rightarrow> string list" where
  "successor_states s =
     concat (map (\<lambda>t. case t of ToState n \<Rightarrow> [n] | _ \<Rightarrow> []) (targets_of (st_transition s)))"

definition state_map :: "parser \<Rightarrow> string \<rightharpoonup> state" where
  "state_map p = map_of (rev (map (\<lambda>s. (st_name s, s)) (p_states p)))"

lemma successor_statesI: "ToState n \<in> set (targets_of (st_transition s)) \<Longrightarrow> n \<in> set (successor_states s)"
  by (force simp: successor_states_def)

lemma state_mapD: "state_map p n = Some s \<Longrightarrow> s \<in> set (p_states p) \<and> st_name s = n"
  unfolding state_map_def by (auto dest!: map_of_SomeD)

lemma state_map_names: "state_map p n \<noteq> None \<longleftrightarrow> n \<in> set (map st_name (p_states p))"
  by (auto simp: state_map_def map_of_eq_None_iff image_image)

lemma state_map_self:
  assumes "distinct (map st_name (p_states p))" and "s \<in> set (p_states p)"
  shows "state_map p (st_name s) = Some s"
proof -
  obtain t where t: "state_map p (st_name s) = Some t"
    using assms(2) state_map_names [of p "st_name s"] by auto
  with state_mapD [OF t] assms show ?thesis by (simp add: distinct_map inj_on_def)
qed

lemma state_map_find:
  assumes "distinct (map st_name (p_states p))"
  shows "state_map p n = find_state p n"
proof (cases "find_state p n")
  case None
  then show ?thesis using state_map_names [of p n] find_state_names [of p n] by (metis not_None_eq)
next
  case (Some s)
  then show ?thesis using state_map_self [OF assms] find_stateD [OF Some] by auto
qed

text \<open>
  \<open>contains_remaining\<close>, \<open>walk_refs\<close> and \<open>walk_meta_refs\<close> of rust/pakeles/src/ir/validate.rs. They pop
  an explicit stack, so the references of the right operand come first.
\<close>

fun contains_remaining :: "expr \<Rightarrow> bool" where
  "contains_remaining Remaining = True"
| "contains_remaining (Bin _ a b) = (contains_remaining a \<or> contains_remaining b)"
| "contains_remaining _ = False"

fun field_refs :: "expr \<Rightarrow> (string \<times> string) list" where
  "field_refs (Field i f) = [(i, f)]"
| "field_refs (Bin _ a b) = field_refs b @ field_refs a"
| "field_refs _ = []"

fun meta_refs :: "expr \<Rightarrow> string list" where
  "meta_refs (Metadata m) = [m]"
| "meta_refs (Bin _ a b) = meta_refs b @ meta_refs a"
| "meta_refs _ = []"

end
