(* ===== verification/Ir_Names.thy ===== *)
theory Ir_Names
  imports Ir
begin

text \<open>
  How authored names become identifiers of the generated code: \<open>is_portable_ident\<close> and
  \<open>c_reason_ident\<close> of rust/pakeles/src/ir/validate.rs, \<open>c_ident\<close> of codegen/c.rs and \<open>p4_ident\<close> of
  codegen/p4.rs, and the name \<open>PK_S_\<dots>\<close> of a state's number. Strings are lists of bytes; the validator lets only
  ASCII names through, so for names bytes and characters agree.
\<close>

definition uppercase_letters :: string where
  "uppercase_letters = ''ABCDEFGHIJKLMNOPQRSTUVWXYZ''"

definition lowercase_letters :: string where
  "lowercase_letters = ''abcdefghijklmnopqrstuvwxyz''"

definition ascii_upper :: "char \<Rightarrow> bool" where
  "ascii_upper c = (c \<in> set uppercase_letters)"

definition ascii_lower :: "char \<Rightarrow> bool" where
  "ascii_lower c = (c \<in> set lowercase_letters)"

definition ascii_digit :: "char \<Rightarrow> bool" where
  "ascii_digit c = (c \<in> set ''0123456789'')"

definition to_ascii_uppercase :: "char \<Rightarrow> char" where
  "to_ascii_uppercase c =
     (case map_of (zip lowercase_letters uppercase_letters) c of None \<Rightarrow> c | Some u \<Rightarrow> u)"

definition ident_start :: "char \<Rightarrow> bool" where
  "ident_start c = (c = CHR ''_'' \<or> ascii_lower c \<or> ascii_upper c)"

definition is_portable_ident :: "string \<Rightarrow> bool" where
  "is_portable_ident name =
     (case name of
        [] \<Rightarrow> False
      | c # cs \<Rightarrow> ident_start c \<and> list_all (\<lambda>c. ident_start c \<or> ascii_digit c) cs)"

text \<open>
  A reason is any text. It is kept as its UTF-8 bytes, and \<open>chars()\<close> yields one code point for each byte
  that does not continue one (10xxxxxx); a code point outside ASCII becomes one underscore.
\<close>

definition continues_char :: "char \<Rightarrow> bool" where
  "continues_char c = (let b = of_char c :: nat in 128 \<le> b \<and> b < 192)"

definition c_reason_ident :: "string \<Rightarrow> string" where
  "c_reason_ident reason =
     ''PK_R_'' @ map (\<lambda>c. if ascii_upper c \<or> ascii_lower c \<or> ascii_digit c
                          then to_ascii_uppercase c else CHR ''_'')
                    (filter (\<lambda>c. \<not> continues_char c) reason)"

definition c_keywords :: "string list" where
  "c_keywords =
     [''alignas'', ''alignof'', ''auto'', ''bool'', ''break'', ''case'', ''char'', ''const'',
      ''constexpr'', ''continue'', ''default'', ''do'', ''double'', ''else'', ''enum'',
      ''extern'', ''false'', ''float'', ''for'', ''goto'', ''if'', ''inline'', ''int'', ''long'',
      ''nullptr'', ''register'', ''restrict'', ''return'', ''short'', ''signed'', ''sizeof'',
      ''static'', ''static_assert'', ''struct'', ''switch'', ''thread_local'', ''true'',
      ''typedef'', ''typeof'', ''typeof_unqual'', ''union'', ''unsigned'', ''void'', ''volatile'',
      ''while'']"

fun starts_reserved :: "string \<Rightarrow> bool" where
  "starts_reserved (a # b # _) = (a = CHR ''_'' \<and> (b = CHR ''_'' \<or> ascii_upper b))"
| "starts_reserved _ = False"

definition is_c_reserved :: "string \<Rightarrow> bool" where
  "is_c_reserved name = (starts_reserved name \<or> name \<in> set c_keywords)"

definition c_ident :: "string \<Rightarrow> string" where
  "c_ident name =
     (if is_c_reserved name then ''pk_'' @ dropWhile (\<lambda>c. c = CHR ''_'') name else name)"

definition p4_keywords :: "string list" where
  "p4_keywords =
     [''abstract'', ''action'', ''bit'', ''bool'', ''const'', ''control'', ''default'', ''else'',
      ''enum'', ''error'', ''exit'', ''extern'', ''false'', ''header'', ''header_union'', ''if'',
      ''in'', ''inout'', ''int'', ''match_kind'', ''out'', ''package'', ''parser'', ''return'',
      ''select'', ''string'', ''struct'', ''switch'', ''table'', ''this'', ''transition'',
      ''true'', ''tuple'', ''typedef'', ''value_set'', ''varbit'', ''verify'', ''void'']"

definition p4_ident :: "string \<Rightarrow> string" where
  "p4_ident name = (if name \<in> set p4_keywords then ''pk_'' @ name else name)"

text \<open>\<open>format!("PK_S_{}", s.name.to_uppercase())\<close>, the macro that numbers a state (codegen/c.rs).\<close>

definition state_macro :: "string \<Rightarrow> string" where
  "state_macro name = ''PK_S_'' @ map to_ascii_uppercase name"

section \<open>Duplicates and collisions\<close>

text \<open>\<open>HashSet::insert\<close> in a loop: the elements that were there already.\<close>

primrec repeats :: "string list \<Rightarrow> string list \<Rightarrow> string list" where
  "repeats seen [] = []"
| "repeats seen (x # xs) = (if x \<in> set seen then [x] else []) @ repeats (x # seen) xs"

lemma repeats_none: "repeats seen xs = [] \<longleftrightarrow> distinct xs \<and> set xs \<inter> set seen = {}"
  by (induction xs arbitrary: seen) auto

text \<open>\<open>HashMap::insert\<close> in a loop: key, previous value and new value wherever a key was there already.\<close>

primrec collisions :: "('k \<times> 'v) list \<Rightarrow> ('k \<times> 'v) list \<Rightarrow> ('k \<times> 'v \<times> 'v) list" where
  "collisions seen [] = []"
| "collisions seen (x # xs) =
     (case map_of seen (fst x) of None \<Rightarrow> [] | Some prev \<Rightarrow> [(fst x, prev, snd x)]) @
     collisions (x # seen) xs"

lemma collisions_none:
  "collisions seen xs = [] \<longleftrightarrow> distinct (map fst xs) \<and> fst ` set xs \<inter> fst ` set seen = {}"
  by (induction xs arbitrary: seen)
    (auto simp: map_of_eq_None_iff dest!: map_of_SomeD intro: rev_image_eqI split: option.splits)

end
