(* ===== verification/Codegen_C.thy ===== *)
theory Codegen_C
  imports Ir_Names C_Machine "HOL-Library.Char_ord" "HOL-Library.List_Lexorder"
begin

text \<open>
  The C emitter, rust/pakeles/src/codegen/c.rs, with the static analyses of codegen/mod.rs it
  consults. The emitter writes C text; here each piece of text is the statement of C_Machine it
  denotes, so \<open>emit_state\<close> is a list of statements. A member of the result struct is named by a
  \<open>slot\<close>, and \<open>get\<close> and \<open>put\<close> read and write one: \<open>out->ipv4.ihl\<close> is \<open>SFld ''ipv4'' ''ihl''\<close>.
\<close>

datatype slot =
    SFld string string
  | SOff string string
  | SLen string string
  | SPresent string
  | SMeta string

section \<open>The reason table\<close>

definition builtin_reasons :: "(string \<times> nat) list" where
  "builtin_reasons =
     [(''out of bounds'', 1), (''max depth exceeded'', 2), (''no matching select arm'', 3),
      (''out of region bounds'', 4), (''region out of bounds'', 5), (''region not exhausted'', 6)]"

definition reject_reasons :: "parser \<Rightarrow> string list" where
  "reject_reasons p =
     concat (map (\<lambda>s. concat (map (\<lambda>t. case t of Reject r _ \<Rightarrow> [r] | _ \<Rightarrow> [])
       (targets_of (st_transition s)))) (p_states p))"

primrec number_from :: "nat \<Rightarrow> 'a list \<Rightarrow> ('a \<times> nat) list" where
  "number_from k [] = []"
| "number_from k (x # xs) = (x, k) # number_from (Suc k) xs"

definition reason_table :: "parser \<Rightarrow> (string \<times> nat) list" where
  "reason_table p =
     builtin_reasons @
     number_from 16 (filter (\<lambda>r. r \<notin> fst ` set builtin_reasons)
       (sort (remdups (reject_reasons p))))"

text \<open>The number of a reason, and the reason of a number as \<open>reason_str\<close> looks it up.\<close>

definition reason_number :: "parser \<Rightarrow> string \<Rightarrow> u16" where
  "reason_number p r = (case map_of (reason_table p) r of None \<Rightarrow> 0 | Some k \<Rightarrow> of_nat k)"

definition reason_str :: "parser \<Rightarrow> u16 \<Rightarrow> string" where
  "reason_str p k =
     (case find (\<lambda>(_, c). of_nat c = k) (reason_table p) of None \<Rightarrow> [] | Some (r, _) \<Rightarrow> r)"

text \<open>
  The header declares the numbers as enumerators, and what the core stores is the enumerator's name:
  \<open>reason_code\<close> is the value of the identifier. \<open>reason_ident\<close> of codegen/c.rs is \<open>c_reason_ident\<close> of
  validate.rs, character for character.
\<close>

definition reason_enum :: "parser \<Rightarrow> (string \<times> nat) list" where
  "reason_enum p = (''PK_R_NONE'', 0) # map (\<lambda>(r, k). (c_reason_ident r, k)) (reason_table p)"

definition reason_code :: "parser \<Rightarrow> string \<Rightarrow> u16" where
  "reason_code p r =
     (case map_of (reason_enum p) (c_reason_ident r) of None \<Rightarrow> 0 | Some k \<Rightarrow> of_nat k)"

lemma reason_number_builtin [simp]:
  "reason_number p ''out of bounds'' = 1"
  "reason_number p ''max depth exceeded'' = 2"
  "reason_number p ''no matching select arm'' = 3"
  "reason_number p ''out of region bounds'' = 4"
  "reason_number p ''region out of bounds'' = 5"
  "reason_number p ''region not exhausted'' = 6"
  by (simp_all add: reason_number_def reason_table_def builtin_reasons_def)

lemma reason_code_number:
  assumes "distinct (map fst (reason_enum p))" and "r \<in> fst ` set (reason_table p)"
  shows "reason_code p r = reason_number p r"
proof -
  obtain k where k: "map_of (reason_table p) r = Some k"
    using assms(2) by (metis map_of_eq_None_iff not_None_eq)
  then have "(r, k) \<in> set (reason_table p)" by (rule map_of_SomeD)
  then have "(c_reason_ident r, k) \<in> set (reason_enum p)" by (force simp: reason_enum_def)
  then have "map_of (reason_enum p) (c_reason_ident r) = Some k" using assms(1) by simp
  then show ?thesis using k by (simp add: reason_code_def reason_number_def)
qed

lemma reject_reasons_numbered: "r \<in> set (reject_reasons p) \<Longrightarrow> r \<in> fst ` set (reason_table p)"
proof -
  have "fst ` set (number_from k xs) = set xs" for k and xs :: "string list"
    by (induction xs arbitrary: k) auto
  then show "r \<in> set (reject_reasons p) \<Longrightarrow> r \<in> fst ` set (reason_table p)"
    by (auto simp: reason_table_def image_Un)
qed

section \<open>codegen/mod.rs: residues and alignment\<close>

fun expr_mod8 :: "expr \<Rightarrow> nat option" where
  "expr_mod8 (Constant v) = Some (unat v mod 8)"
| "expr_mod8 (Field _ _) = None"
| "expr_mod8 (Metadata _) = None"
| "expr_mod8 Remaining = None"
| "expr_mod8 (Bin op a b) =
     (let l = expr_mod8 a; r = expr_mod8 b in
      case op of
        OpAdd \<Rightarrow> (case (l, r) of (Some x, Some y) \<Rightarrow> Some ((x + y) mod 8) | _ \<Rightarrow> None)
      | OpSub \<Rightarrow> (case (l, r) of (Some x, Some y) \<Rightarrow> Some ((x + 8 - y) mod 8) | _ \<Rightarrow> None)
      | OpMul \<Rightarrow>
          (if l = Some 0 \<or> r = Some 0 then Some 0
           else case (l, r) of (Some x, Some y) \<Rightarrow> Some ((x * y) mod 8) | _ \<Rightarrow> None)
      | OpShl \<Rightarrow>
          (case b of
             Constant k \<Rightarrow>
               (let k = unat k mod 64 in
                if k \<ge> 3 then Some 0
                else case l of Some x \<Rightarrow> Some ((x * 2 ^ k) mod 8) | None \<Rightarrow> None)
           | _ \<Rightarrow> None)
      | OpShr \<Rightarrow> None
      | OpAnd \<Rightarrow> (case (l, r) of (Some x, Some y) \<Rightarrow> Some (x AND y) | _ \<Rightarrow> None)
      | OpOr \<Rightarrow> (case (l, r) of (Some x, Some y) \<Rightarrow> Some (x OR y) | _ \<Rightarrow> None)
      | OpUnspecified \<Rightarrow> None)"

definition shift_amount_needs_mask :: "expr \<Rightarrow> bool" where
  "shift_amount_needs_mask e = (case e of Constant v \<Rightarrow> \<not> v < 64 | _ \<Rightarrow> True)"

text \<open>
  \<open>field_alignment\<close>: the residue mod 8 of the place where field \<open>f\<close> of instance \<open>inst\<close> starts, from
  the alignment at state entry. \<open>Past a\<close>: the field list ended at residue \<open>a\<close> without the field.
\<close>

datatype alignment = Found nat | Unknown | Past nat

primrec align_fields :: "field list \<Rightarrow> bool \<Rightarrow> string \<Rightarrow> nat \<Rightarrow> alignment" where
  "align_fields [] here f a = Past a"
| "align_fields (g # gs) here f a =
     (if here \<and> field_name g = f then Found (a mod 8)
      else case field_width g of
             Bits n \<Rightarrow> align_fields gs here f ((a + n) mod 8)
           | BitLen e \<Rightarrow>
               (case expr_mod8 e of
                  None \<Rightarrow> Unknown
                | Some m \<Rightarrow> align_fields gs here f ((a + m) mod 8)))"

primrec align_extracts ::
  "parser \<Rightarrow> extract_op list \<Rightarrow> string \<Rightarrow> string \<Rightarrow> nat \<Rightarrow> nat option"
where
  "align_extracts p [] inst f a = None"
| "align_extracts p (ex # exs) inst f a =
     (case find_header_type p (ex_header_type ex) of
        None \<Rightarrow> None
      | Some ht \<Rightarrow>
          (case align_fields (ht_fields ht) (instance_of ex = inst) f a of
             Found k \<Rightarrow> Some k
           | Unknown \<Rightarrow> None
           | Past a' \<Rightarrow> align_extracts p exs inst f (if ex_lookahead ex then a else a')))"

definition field_alignment ::
  "parser \<Rightarrow> (string \<Rightarrow> nat option) \<Rightarrow> state \<Rightarrow> string \<Rightarrow> string \<Rightarrow> nat option"
where
  "field_alignment p entry_align st inst f =
     (case entry_align (st_name st) of
        None \<Rightarrow> None
      | Some a \<Rightarrow> align_extracts p (st_extracts st) inst f a)"

section \<open>Sized regions: capacity and index mask\<close>

definition region_cap :: "parser \<Rightarrow> nat" where
  "region_cap p =
     length (filter (\<lambda>op. case op of Push _ \<Rightarrow> True | Pop \<Rightarrow> False)
       (concat (map st_region_ops (p_states p))))"

function next_pow2_from :: "nat \<Rightarrow> nat \<Rightarrow> nat" where
  "next_pow2_from k n = (if k = 0 \<or> n \<le> k then k else next_pow2_from (2 * k) n)"
  by pat_completeness auto
termination by (relation "measure (\<lambda>(k, n). n - k)") auto

declare next_pow2_from.simps [simp del]

definition region_slots :: "parser \<Rightarrow> nat" where
  "region_slots p = (if region_cap p = 0 then 0 else next_pow2_from 1 (region_cap p))"

definition region_mask :: "parser \<Rightarrow> u32" where
  "region_mask p = of_nat (region_slots p - 1)"

section \<open>Expressions and keysets\<close>

text \<open>
  The unspecified operator makes the emitter give up, and validation has refused it before; its
  clause stands for that refusal.
\<close>

fun expr_c :: "u32 \<Rightarrow> (slot \<Rightarrow> 'o \<Rightarrow> u64) \<Rightarrow> expr \<Rightarrow> 'o cexp" where
  "expr_c rmask get Remaining = c_remaining rmask"
| "expr_c rmask get (Constant v) = c_const v"
| "expr_c rmask get (Field h f) = c_out (get (SFld h f))"
| "expr_c rmask get (Metadata m) = c_out (get (SMeta m))"
| "expr_c rmask get (Bin op a b) =
     (let l = expr_c rmask get a; r = expr_c rmask get b;
          amount = (if shift_amount_needs_mask b then c_and r (c_const 63) else r)
      in case op of
           OpAdd \<Rightarrow> c_add l r
         | OpSub \<Rightarrow> c_sub l r
         | OpMul \<Rightarrow> c_mul l r
         | OpShl \<Rightarrow> c_shl l amount
         | OpShr \<Rightarrow> c_shr l amount
         | OpAnd \<Rightarrow> c_and l r
         | OpOr \<Rightarrow> c_or l r
         | OpUnspecified \<Rightarrow> (\<lambda>s. Inl Uninitialised))"

fun entry_c :: "keyset_entry \<Rightarrow> u64 \<Rightarrow> bool" where
  "entry_c (Value v) key = (key = v)"
| "entry_c (Masked v m) key = (key AND m = v AND m)"
| "entry_c (Range lo hi) key =
     (if lo = 0 \<and> hi = - 1 then True
      else if lo = 0 then key \<le> hi
      else if hi = - 1 then lo \<le> key
      else lo \<le> key \<and> key \<le> hi)"

fun conds_c :: "keyset_entry list \<Rightarrow> u64 list \<Rightarrow> bool" where
  "conds_c [e] [k] = entry_c e k"
| "conds_c (e # es) (k # ks) = (entry_c e k \<and> conds_c es ks)"
| "conds_c _ _ = True"

section \<open>State bodies\<close>

text \<open>
  A state's number is the value of the macro \<open>PK_S_\<close> with its name in upper case, after all \<open>#define\<close>
  lines; a later definition of the same macro replaces an earlier one.
\<close>

definition state_defines :: "parser \<Rightarrow> (string \<times> nat) list" where
  "state_defines p = number_from 0 (map (state_macro \<circ> st_name) (p_states p))"

definition state_id :: "parser \<Rightarrow> string \<Rightarrow> u32" where
  "state_id p n = (case map_of (rev (state_defines p)) (state_macro n) of None \<Rightarrow> 0 | Some k \<Rightarrow> of_nat k)"

text \<open>
  What a C compiler asks of the names in the core: each macro is defined once (a second definition would
  also give the switch two equal case labels), each enumerator is declared once, and every macro that
  is used is defined.
\<close>

definition core_compiles :: "parser \<Rightarrow> bool" where
  "core_compiles p =
     (distinct (map fst (state_defines p)) \<and> distinct (map fst (reason_enum p)) \<and>
      list_all (\<lambda>n. state_macro n \<in> set (map fst (state_defines p)))
        (p_start_state p # concat (map successor_states (p_states p))))"

definition byte_load :: "parser \<Rightarrow> (string \<Rightarrow> nat option) \<Rightarrow> state \<Rightarrow> string \<Rightarrow> string \<Rightarrow> nat \<Rightarrow> bool" where
  "byte_load p entry_align st inst f n =
     (n mod 8 = 0 \<and> n \<le> 64 \<and> field_alignment p entry_align st inst f = Some 0)"

definition emit_field ::
  "parser \<Rightarrow> (string \<Rightarrow> nat option) \<Rightarrow> packet_reader \<Rightarrow> u64
    \<Rightarrow> (slot \<Rightarrow> 'a pk_result_scheme \<Rightarrow> u64) \<Rightarrow> (slot \<Rightarrow> u64 \<Rightarrow> 'a pk_result_scheme \<Rightarrow> 'a pk_result_scheme)
    \<Rightarrow> state \<Rightarrow> string \<Rightarrow> bool \<Rightarrow> field \<Rightarrow> 'a pk_result_scheme stmt list"
where
  "emit_field p entry_align rd bit_len get put st inst la f =
     (let c = (if la then Poff else Off); regions = region_cap p > 0; rmask = region_mask p in
      case field_width f of
        Bits n \<Rightarrow>
          (if regions then [check_region rmask c (of_nat n)] else []) @
          [check_len bit_len c (of_nat n),
           (if byte_load p entry_align st inst (field_name f) n
            then load_bytes rd c (n div 8) (put (SFld inst (field_name f)))
            else load_bits rd c n (put (SFld inst (field_name f)))),
           advance c (of_nat n)]
      | BitLen e \<Rightarrow>
          [bind_local (expr_c rmask get e) (\<lambda>vlen.
             (if regions then [check_var_region rmask vlen] else []) @
             [check_var_len bit_len vlen,
              store_off (put (SOff inst (field_name f))),
              store (put (SLen inst (field_name f)) vlen),
              advance Off vlen])])"

definition emit_extract ::
  "parser \<Rightarrow> (string \<Rightarrow> nat option) \<Rightarrow> packet_reader \<Rightarrow> u64
    \<Rightarrow> (slot \<Rightarrow> 'a pk_result_scheme \<Rightarrow> u64) \<Rightarrow> (slot \<Rightarrow> u64 \<Rightarrow> 'a pk_result_scheme \<Rightarrow> 'a pk_result_scheme)
    \<Rightarrow> state \<Rightarrow> extract_op \<Rightarrow> 'a pk_result_scheme stmt list"
where
  "emit_extract p entry_align rd bit_len get put st ex =
     store (put (SPresent (instance_of ex)) 1) #
     (if ex_lookahead ex then [begin_lookahead] else []) @
     (case find_header_type p (ex_header_type ex) of
        None \<Rightarrow> []
      | Some ht \<Rightarrow>
          concat (map (emit_field p entry_align rd bit_len get put st (instance_of ex)
            (ex_lookahead ex)) (ht_fields ht)))"

definition emit_assign ::
  "parser \<Rightarrow> (slot \<Rightarrow> 'o \<Rightarrow> u64) \<Rightarrow> (slot \<Rightarrow> u64 \<Rightarrow> 'o \<Rightarrow> 'o) \<Rightarrow> assign \<Rightarrow> 'o stmt"
where
  "emit_assign p get put a =
     (let rhs = expr_c (region_mask p) get (as_value a);
          bits = (case find_metadata p (as_metadata a) of None \<Rightarrow> 64 | Some d \<Rightarrow> md_bits d)
      in store_exp (if bits \<ge> 64 then rhs else c_and rhs (c_const (push_bit bits 1 - 1)))
           (put (SMeta (as_metadata a))))"

definition emit_region_op ::
  "parser \<Rightarrow> (slot \<Rightarrow> 'a pk_result_scheme \<Rightarrow> u64) \<Rightarrow> region_op \<Rightarrow> 'a pk_result_scheme stmt list"
where
  "emit_region_op p get op =
     (let rmask = region_mask p in
      case op of
        Push e \<Rightarrow>
          [bind_local (expr_c rmask get e) (\<lambda>rlen.
             [push_check rmask rlen, push_clamp rmask, push_store rmask rlen])]
      | Pop \<Rightarrow> [pop_guard, pop_dec, pop_check rmask])"

definition emit_target :: "parser \<Rightarrow> target \<Rightarrow> 'a pk_result_scheme stmt" where
  "emit_target p t =
     (case t of
        ToState n \<Rightarrow> goto (state_id p n)
      | Accept \<Rightarrow> accept
      | Reject r _ \<Rightarrow> reject (reason_code p r))"

primrec emit_arms ::
  "parser \<Rightarrow> u64 list \<Rightarrow> select_arm list \<Rightarrow> target option \<Rightarrow> 'a pk_result_scheme stmt"
where
  "emit_arms p keys [] dflt =
     (case dflt of Some t \<Rightarrow> emit_target p t | None \<Rightarrow> reject PK_R_NO_MATCHING_SELECT_ARM)"
| "emit_arms p keys (a # as) dflt =
     branch (\<lambda>_. conds_c (arm_entries a) keys) (emit_target p (arm_next a)) (emit_arms p keys as dflt)"

primrec bind_keys :: "'o cexp list \<Rightarrow> u64 list \<Rightarrow> (u64 list \<Rightarrow> 'o stmt) \<Rightarrow> 'o stmt" where
  "bind_keys [] keys body = body keys"
| "bind_keys (e # es) keys body = bind_local e (\<lambda>k. [bind_keys es (keys @ [k]) body])"

definition emit_transition ::
  "parser \<Rightarrow> (slot \<Rightarrow> 'a pk_result_scheme \<Rightarrow> u64) \<Rightarrow> transition \<Rightarrow> 'a pk_result_scheme stmt"
where
  "emit_transition p get tr =
     (case tr of
        Direct t \<Rightarrow> emit_target p t
      | Select keys arms dflt \<Rightarrow>
          bind_keys (map (expr_c (region_mask p) get) keys) [] (\<lambda>ks. emit_arms p ks arms dflt))"

definition emit_state ::
  "parser \<Rightarrow> (string \<Rightarrow> nat option) \<Rightarrow> packet_reader \<Rightarrow> u64
    \<Rightarrow> (slot \<Rightarrow> 'a pk_result_scheme \<Rightarrow> u64) \<Rightarrow> (slot \<Rightarrow> u64 \<Rightarrow> 'a pk_result_scheme \<Rightarrow> 'a pk_result_scheme)
    \<Rightarrow> state \<Rightarrow> 'a pk_result_scheme stmt list"
where
  "emit_state p entry_align rd bit_len get put st =
     concat (map (emit_extract p entry_align rd bit_len get put st) (st_extracts st)) @
     map (emit_assign p get put) (st_assigns st) @
     concat (map (emit_region_op p get) (st_region_ops st)) @
     [emit_transition p get (st_transition st)]"

section \<open>The core\<close>

definition emit_switch ::
  "parser \<Rightarrow> (string \<Rightarrow> nat option) \<Rightarrow> packet_reader \<Rightarrow> u64
    \<Rightarrow> (slot \<Rightarrow> 'a pk_result_scheme \<Rightarrow> u64) \<Rightarrow> (slot \<Rightarrow> u64 \<Rightarrow> 'a pk_result_scheme \<Rightarrow> 'a pk_result_scheme)
    \<Rightarrow> 'a pk_result_scheme stmt"
where
  "emit_switch p entry_align rd bit_len get put =
     switch (map (\<lambda>st. (state_id p (st_name st), emit_state p entry_align rd bit_len get put st)) (p_states p))"

definition emit_init_meta :: "parser \<Rightarrow> (slot \<Rightarrow> u64 \<Rightarrow> 'o \<Rightarrow> 'o) \<Rightarrow> 'o \<Rightarrow> 'o" where
  "emit_init_meta p put = fold (\<lambda>m. put (SMeta (md_name m)) (md_init m)) (p_metadata p)"

definition emit_core ::
  "parser \<Rightarrow> (string \<Rightarrow> nat option) \<Rightarrow> packet_reader \<Rightarrow> u64
    \<Rightarrow> (slot \<Rightarrow> 'a pk_result_scheme \<Rightarrow> u64) \<Rightarrow> (slot \<Rightarrow> u64 \<Rightarrow> 'a pk_result_scheme \<Rightarrow> 'a pk_result_scheme)
    \<Rightarrow> 'a pk_result_scheme \<Rightarrow> 'a pk_result_scheme flow"
where
  "emit_core p entry_align rd bit_len get put o' =
     (if core_compiles p
      then depth_loop (p_max_depth p) (emit_switch p entry_align rd bit_len get put)
        (init_locals (state_id p (p_start_state p)) (region_slots p) (emit_init_meta p put o'))
      else Fault NotCompiled)"

end
