(* ===== verification/Ir_Interp.thy ===== *)
theory Ir_Interp
  imports Ir
begin

text \<open>
  The reference interpreter, rust/pakeles/src/interp (mod.rs, bits.rs, eval.rs), in reject mode,
  function by function. What the Rust returns as \<open>Err\<close> (a malformed description) is the left side
  of the sum, with one constructor per \<open>anyhow!\<close> site; an out-of-range index, which Rust answers
  with a panic, is \<open>IndexPanic\<close>. \<open>usize\<close> is 64 bits: sums that Rust checks are
  \<open>checked_add\<close>. The region stack \<open>Vec\<close> is a list with the innermost region first.
\<close>

datatype interp_error =
    UnresolvedField string string
  | UnresolvedMetadata string
  | RemainingNotAllowed
  | UnspecifiedBinop
  | UnknownState string
  | UnknownHeaderType string
  | UnresolvedAssign string
  | PopWithoutRegion
  | IndexPanic

section \<open>bits.rs\<close>

definition byte_index :: "bytes \<Rightarrow> nat \<Rightarrow> interp_error + u8" where
  "byte_index packet i = (if i < length packet then Inr (packet ! i) else Inl IndexPanic)"

primrec read_bits_loop :: "bytes \<Rightarrow> nat \<Rightarrow> nat \<Rightarrow> interp_error + u64" where
  "read_bits_loop packet bit_off 0 = Inr 0"
| "read_bits_loop packet bit_off (Suc i) =
     and_then (read_bits_loop packet bit_off i) (\<lambda>out.
     and_then (byte_index packet ((bit_off + i) div 8)) (\<lambda>byte.
       Inr (push_bit 1 out OR ucast (drop_bit (7 - (bit_off + i) mod 8) byte AND 1))))"

definition read_bits :: "bytes \<Rightarrow> nat \<Rightarrow> nat \<Rightarrow> nat \<Rightarrow> interp_error + u64 option" where
  "read_bits packet avail_bits bit_off n =
     (case checked_add bit_off n of
        None \<Rightarrow> Inr None
      | Some e \<Rightarrow>
          if e > avail_bits then Inr None
          else and_then (read_bits_loop packet bit_off n) (\<lambda>v. Inr (Some v)))"

primrec read_run_loop :: "bytes \<Rightarrow> nat \<Rightarrow> nat \<Rightarrow> bytes \<Rightarrow> interp_error + bytes" where
  "read_run_loop packet bit_off 0 out = Inr out"
| "read_run_loop packet bit_off (Suc i) out =
     and_then (read_run_loop packet bit_off i out) (\<lambda>out.
     and_then (byte_index packet ((bit_off + i) div 8)) (\<lambda>byte.
       Inr (out[i div 8 := (out ! (i div 8)) OR
              push_bit (7 - i mod 8) (drop_bit (7 - (bit_off + i) mod 8) byte AND 1)])))"

definition read_run :: "bytes \<Rightarrow> nat \<Rightarrow> nat \<Rightarrow> interp_error + bytes" where
  "read_run packet bit_off n = read_run_loop packet bit_off n (replicate ((n + 7) div 8) 0)"

section \<open>eval.rs\<close>

type_synonym env = "string \<times> string \<rightharpoonup> u64"
type_synonym meta_store = "string \<rightharpoonup> u64"

fun eval_binop :: "binop \<Rightarrow> u64 \<Rightarrow> u64 \<Rightarrow> interp_error + u64" where
  "eval_binop OpAdd l r = Inr (l + r)"
| "eval_binop OpSub l r = Inr (l - r)"
| "eval_binop OpMul l r = Inr (l * r)"
| "eval_binop OpShl l r = Inr (push_bit (unat (ucast r :: u32) mod 64) l)"
| "eval_binop OpShr l r = Inr (drop_bit (unat (ucast r :: u32) mod 64) l)"
| "eval_binop OpAnd l r = Inr (l AND r)"
| "eval_binop OpOr l r = Inr (l OR r)"
| "eval_binop OpUnspecified l r = Inl UnspecifiedBinop"

primrec eval_expr :: "expr \<Rightarrow> env \<Rightarrow> meta_store \<Rightarrow> u64 option \<Rightarrow> interp_error + u64" where
  "eval_expr (Constant v) env meta rem = Inr v"
| "eval_expr Remaining env meta rem =
     (case rem of None \<Rightarrow> Inl RemainingNotAllowed | Some r \<Rightarrow> Inr r)"
| "eval_expr (Field h f) env meta rem =
     (case env (h, f) of None \<Rightarrow> Inl (UnresolvedField h f) | Some v \<Rightarrow> Inr v)"
| "eval_expr (Metadata m) env meta rem =
     (case meta m of None \<Rightarrow> Inl (UnresolvedMetadata m) | Some v \<Rightarrow> Inr v)"
| "eval_expr (Bin op a b) env meta rem =
     and_then (eval_expr a env meta rem) (\<lambda>l.
     and_then (eval_expr b env meta rem) (\<lambda>r. eval_binop op l r))"

fun eval_entry :: "keyset_entry \<Rightarrow> u64 \<Rightarrow> bool" where
  "eval_entry (Value v) key = (key = v)"
| "eval_entry (Masked v m) key = (key AND m = v AND m)"
| "eval_entry (Range lo hi) key = (lo \<le> key \<and> key \<le> hi)"

section \<open>mod.rs: results\<close>

datatype outcome = Accepted | Rejected string

datatype field_value = Uint u64 | BitRun bytes

record parsed_field =
  pf_name :: string
  pf_bit_offset :: nat
  pf_bit_len :: nat
  pf_value :: field_value

record parsed_header =
  ph_instance :: string
  ph_header_type :: string
  ph_start_bit :: nat
  ph_fields :: "parsed_field list"

datatype decision = DArm nat | DDefault | DDirect | DNone

record parse_error =
  pe_state :: string
  pe_instance :: "string option"
  pe_field :: "string option"
  pe_bit_offset :: nat
  pe_reason :: string
  pe_severity :: severity

record parse_result =
  pr_outcome :: outcome
  pr_headers :: "parsed_header list"
  pr_trace :: "(string \<times> decision) list"
  pr_error :: "parse_error option"
  pr_consumed_bits :: nat
  pr_metadata :: "(string \<times> u64) list"

text \<open>The local variables of \<open>run_bits\<close> that its loop updates.\<close>

record machine =
  m_env :: env
  m_cursor :: nat
  m_regions :: "nat list"
  m_meta :: meta_store
  m_headers :: "parsed_header list"
  m_trace :: "(string \<times> decision) list"

text \<open>A phase of a state either goes on or ends the run with a result.\<close>

datatype 'a run = Go 'a | Stop parse_result

type_synonym 'a phase = "interp_error + 'a run"

definition then_run :: "'a phase \<Rightarrow> ('a \<Rightarrow> 'b phase) \<Rightarrow> 'b phase" where
  "then_run r f = and_then r (\<lambda>x. case x of Go a \<Rightarrow> f a | Stop res \<Rightarrow> Inr (Stop res))"

lemma then_run_simps [simp]:
  "then_run (Inl e) f = Inl e"
  "then_run (Inr (Go a)) f = f a"
  "then_run (Inr (Stop res)) f = Inr (Stop res)"
  by (simp_all add: then_run_def)

lemma then_run_cases:
  obtains (err) e where "r = Inl e" "then_run r f = Inl e"
  | (go) a where "r = Inr (Go a)" "then_run r f = f a"
  | (stop) res where "r = Inr (Stop res)" "then_run r f = Inr (Stop res)"
proof (cases r)
  case (Inl e)
  then show ?thesis by (intro err) auto
next
  case (Inr x)
  then show ?thesis by (cases x) (auto intro: go stop)
qed

lemma then_run_Go:
  "then_run r f = Inr (Go y) \<longleftrightarrow> (\<exists>x. r = Inr (Go x) \<and> f x = Inr (Go y))"
  by (cases r f rule: then_run_cases) auto

lemma then_run_Inl:
  "then_run r f = Inl e \<longleftrightarrow> r = Inl e \<or> (\<exists>x. r = Inr (Go x) \<and> f x = Inl e)"
  by (cases r f rule: then_run_cases) auto

lemma then_run_Stop:
  "then_run r f = Inr (Stop res) \<longleftrightarrow>
     r = Inr (Stop res) \<or> (\<exists>x. r = Inr (Go x) \<and> f x = Inr (Stop res))"
  by (cases r f rule: then_run_cases) auto

definition final_meta :: "parser \<Rightarrow> meta_store \<Rightarrow> (string \<times> u64) list" where
  "final_meta p meta = map (\<lambda>m. (md_name m, the (meta (md_name m)))) (p_metadata p)"

definition init_meta :: "parser \<Rightarrow> meta_store" where
  "init_meta p = map_of (rev (map (\<lambda>m. (md_name m, md_init m)) (p_metadata p)))"

definition mk_reject ::
  "parser \<Rightarrow> string \<Rightarrow> string \<Rightarrow> severity \<Rightarrow> (string \<times> string) option \<Rightarrow> nat \<Rightarrow> parsed_header list
    \<Rightarrow> machine \<Rightarrow> parse_result" where
  "mk_reject p reason cur sev ctx consumed hdrs m =
     \<lparr>pr_outcome = Rejected reason,
      pr_headers = hdrs,
      pr_trace = m_trace m,
      pr_error = Some \<lparr>pe_state = cur, pe_instance = map_option fst ctx,
                       pe_field = map_option snd ctx, pe_bit_offset = m_cursor m,
                       pe_reason = reason, pe_severity = sev\<rparr>,
      pr_consumed_bits = consumed,
      pr_metadata = final_meta p (m_meta m)\<rparr>"

abbreviation plain_reject :: "parser \<Rightarrow> string \<Rightarrow> string \<Rightarrow> severity \<Rightarrow> machine \<Rightarrow> parse_result" where
  "plain_reject p reason cur sev m \<equiv> mk_reject p reason cur sev None (m_cursor m) (m_headers m) m"

section \<open>mod.rs: extraction\<close>

definition read_bound :: "nat \<Rightarrow> machine \<Rightarrow> nat" where
  "read_bound avail m = (case m_regions m of [] \<Rightarrow> avail | e # _ \<Rightarrow> min e avail)"

definition oob_reason :: "machine \<Rightarrow> nat option \<Rightarrow> string" where
  "oob_reason m end_bits =
     (if (case m_regions m of [] \<Rightarrow> False
          | rtop # _ \<Rightarrow> (case end_bits of None \<Rightarrow> True | Some e \<Rightarrow> e > rtop))
      then ''out of region bounds'' else ''out of bounds'')"

text \<open>
  \<open>entry\<close> is the cursor where the extract began: what a reject inside a lookahead reports as
  consumed. A failed read pushes the partly filled header before it rejects.
\<close>

definition extract_fail ::
  "parser \<Rightarrow> string \<Rightarrow> extract_op \<Rightarrow> nat \<Rightarrow> field \<Rightarrow> nat option \<Rightarrow> parsed_header \<Rightarrow> machine \<Rightarrow> parse_result"
where
  "extract_fail p cur ex entry f end_bits parsed m =
     mk_reject p (oob_reason m end_bits) cur SevError (Some (instance_of ex, field_name f))
       (if ex_lookahead ex then entry else m_cursor m) (m_headers m @ [parsed]) m"

definition extract_field ::
  "parser \<Rightarrow> bytes \<Rightarrow> nat \<Rightarrow> string \<Rightarrow> extract_op \<Rightarrow> nat \<Rightarrow> field \<Rightarrow> machine \<times> parsed_header
    \<Rightarrow> (machine \<times> parsed_header) phase"
where
  "extract_field p packet avail cur ex entry f mp =
     (case mp of (m, parsed) \<Rightarrow>
      (case field_width f of
         Bits n \<Rightarrow>
           and_then (read_bits packet (read_bound avail m) (m_cursor m) n) (\<lambda>rd.
             case rd of
               None \<Rightarrow> Inr (Stop (extract_fail p cur ex entry f (checked_add (m_cursor m) n) parsed m))
             | Some value \<Rightarrow>
                 Inr (Go
                   (m\<lparr>m_env := (m_env m)((instance_of ex, field_name f) \<mapsto> value),
                      m_cursor := m_cursor m + n\<rparr>,
                    parsed\<lparr>ph_fields := ph_fields parsed @
                      [\<lparr>pf_name = field_name f, pf_bit_offset = m_cursor m, pf_bit_len = n,
                        pf_value = Uint value\<rparr>]\<rparr>)))
       | BitLen e \<Rightarrow>
           and_then (eval_expr e (m_env m) (m_meta m) None) (\<lambda>len.
             let end_bits = checked_add (unat len) (m_cursor m) in
             if (case end_bits of None \<Rightarrow> True | Some e \<Rightarrow> e > read_bound avail m)
             then Inr (Stop (extract_fail p cur ex entry f end_bits parsed m))
             else
               and_then (read_run packet (m_cursor m) (unat len)) (\<lambda>run.
                 Inr (Go
                   (m\<lparr>m_cursor := m_cursor m + unat len\<rparr>,
                    parsed\<lparr>ph_fields := ph_fields parsed @
                      [\<lparr>pf_name = field_name f, pf_bit_offset = m_cursor m,
                        pf_bit_len = unat len, pf_value = BitRun run\<rparr>]\<rparr>))))))"

primrec extract_fields ::
  "parser \<Rightarrow> bytes \<Rightarrow> nat \<Rightarrow> string \<Rightarrow> extract_op \<Rightarrow> nat \<Rightarrow> field list \<Rightarrow> machine \<times> parsed_header
    \<Rightarrow> (machine \<times> parsed_header) phase"
where
  "extract_fields p packet avail cur ex entry [] mp = Inr (Go mp)"
| "extract_fields p packet avail cur ex entry (f # fs) mp =
     then_run (extract_field p packet avail cur ex entry f mp)
       (extract_fields p packet avail cur ex entry fs)"

definition extract_header ::
  "parser \<Rightarrow> bytes \<Rightarrow> nat \<Rightarrow> string \<Rightarrow> extract_op \<Rightarrow> machine \<Rightarrow> machine phase"
where
  "extract_header p packet avail cur ex m =
     (case find_header_type p (ex_header_type ex) of
        None \<Rightarrow> Inl (UnknownHeaderType (ex_header_type ex))
      | Some ht \<Rightarrow>
          then_run
            (extract_fields p packet avail cur ex (m_cursor m) (ht_fields ht)
              (m, \<lparr>ph_instance = instance_of ex, ph_header_type = ht_name ht,
                   ph_start_bit = m_cursor m, ph_fields = []\<rparr>))
            (\<lambda>(m', parsed).
              Inr (Go (m'\<lparr>m_headers := m_headers m' @ [parsed],
                          m_cursor := (if ex_lookahead ex then m_cursor m else m_cursor m')\<rparr>))))"

primrec extract_headers ::
  "parser \<Rightarrow> bytes \<Rightarrow> nat \<Rightarrow> string \<Rightarrow> extract_op list \<Rightarrow> machine \<Rightarrow> machine phase"
where
  "extract_headers p packet avail cur [] m = Inr (Go m)"
| "extract_headers p packet avail cur (ex # exs) m =
     then_run (extract_header p packet avail cur ex m)
       (extract_headers p packet avail cur exs)"

section \<open>mod.rs: assigns, region operations, transition\<close>

definition remaining_here :: "machine \<Rightarrow> u64 option" where
  "remaining_here m =
     (case m_regions m of [] \<Rightarrow> None | rtop # _ \<Rightarrow> Some (of_nat (rtop - m_cursor m)))"

definition run_assign :: "parser \<Rightarrow> assign \<Rightarrow> machine \<Rightarrow> machine phase" where
  "run_assign p a m =
     and_then (eval_expr (as_value a) (m_env m) (m_meta m) (remaining_here m)) (\<lambda>v.
       case find_metadata p (as_metadata a) of
         None \<Rightarrow> Inl (UnresolvedAssign (as_metadata a))
       | Some d \<Rightarrow>
           Inr (Go (m\<lparr>m_meta := (m_meta m)(as_metadata a \<mapsto>
             (if md_bits d \<ge> 64 then v else v AND (push_bit (md_bits d) 1 - 1)))\<rparr>)))"

primrec run_assigns :: "parser \<Rightarrow> assign list \<Rightarrow> machine \<Rightarrow> machine phase" where
  "run_assigns p [] m = Inr (Go m)"
| "run_assigns p (a # as) m = then_run (run_assign p a m) (run_assigns p as)"

definition run_region_op ::
  "parser \<Rightarrow> nat \<Rightarrow> string \<Rightarrow> region_op \<Rightarrow> machine \<Rightarrow> machine phase"
where
  "run_region_op p avail cur op m =
     (case op of
        Push e \<Rightarrow>
          and_then (eval_expr e (m_env m) (m_meta m) (remaining_here m)) (\<lambda>len.
            case checked_add (unat len) (m_cursor m) of
              None \<Rightarrow> Inr (Stop (plain_reject p ''region out of bounds'' cur SevError m))
            | Some end_bits \<Rightarrow>
                if (case m_regions m of [] \<Rightarrow> False | rtop # _ \<Rightarrow> end_bits > rtop)
                then Inr (Stop (plain_reject p ''region out of bounds'' cur SevError m))
                else Inr (Go (m\<lparr>m_regions := end_bits # m_regions m\<rparr>)))
      | Pop \<Rightarrow>
          (case m_regions m of
             [] \<Rightarrow> Inl PopWithoutRegion
           | end_bits # rest \<Rightarrow>
               if m_cursor m < end_bits
               then Inr (Stop (plain_reject p
                      (if end_bits > avail then ''out of bounds'' else ''region not exhausted'')
                      cur SevError m))
               else Inr (Go (m\<lparr>m_regions := rest\<rparr>))))"

primrec run_region_ops ::
  "parser \<Rightarrow> nat \<Rightarrow> string \<Rightarrow> region_op list \<Rightarrow> machine \<Rightarrow> machine phase"
where
  "run_region_ops p avail cur [] m = Inr (Go m)"
| "run_region_ops p avail cur (op # ops) m =
     then_run (run_region_op p avail cur op m) (run_region_ops p avail cur ops)"

primrec eval_keys :: "expr list \<Rightarrow> machine \<Rightarrow> interp_error + u64 list" where
  "eval_keys [] m = Inr []"
| "eval_keys (k # ks) m =
     and_then (eval_expr k (m_env m) (m_meta m) (remaining_here m)) (\<lambda>v.
     and_then (eval_keys ks m) (\<lambda>vs. Inr (v # vs)))"

definition arm_matches :: "u64 list \<Rightarrow> select_arm \<Rightarrow> bool" where
  "arm_matches keys arm =
     (length (arm_entries arm) = length keys \<and> list_all2 eval_entry (arm_entries arm) keys)"

primrec arm_position :: "u64 list \<Rightarrow> select_arm list \<Rightarrow> nat \<Rightarrow> (nat \<times> target) option" where
  "arm_position keys [] i = None"
| "arm_position keys (a # as) i =
     (if arm_matches keys a then Some (i, arm_next a) else arm_position keys as (Suc i))"

lemma arm_position_target:
  "arm_position ks arms i = Some (j, t) \<Longrightarrow> t \<in> arm_next ` set arms"
  by (induction arms arbitrary: i) (auto split: if_splits)

definition set_decision :: "decision \<Rightarrow> machine \<Rightarrow> machine" where
  "set_decision d m = m\<lparr>m_trace := (case rev (m_trace m) of [] \<Rightarrow> [] | (s, _) # r \<Rightarrow> rev ((s, d) # r))\<rparr>"

definition choose_target ::
  "parser \<Rightarrow> string \<Rightarrow> transition \<Rightarrow> machine \<Rightarrow> (machine \<times> target) phase"
where
  "choose_target p cur tr m =
     (case tr of
        Direct t \<Rightarrow> Inr (Go (set_decision DDirect m, t))
      | Select keys arms dflt \<Rightarrow>
          and_then (eval_keys keys m) (\<lambda>ks.
            case arm_position ks arms 0 of
              Some (i, t) \<Rightarrow> Inr (Go (set_decision (DArm i) m, t))
            | None \<Rightarrow>
                (case dflt of
                   Some t \<Rightarrow> Inr (Go (set_decision DDefault m, t))
                 | None \<Rightarrow>
                     Inr (Stop (plain_reject p ''no matching select arm'' cur SevError
                       (set_decision DDefault m))))))"

definition run_target ::
  "parser \<Rightarrow> string \<Rightarrow> machine \<times> target \<Rightarrow> (machine \<times> string) phase"
where
  "run_target p cur mt =
     (case mt of (m, t) \<Rightarrow>
       (case t of
          ToState n \<Rightarrow> Inr (Go (m, n))
        | Accept \<Rightarrow>
            Inr (Stop \<lparr>pr_outcome = Accepted, pr_headers = m_headers m, pr_trace = m_trace m,
                       pr_error = None, pr_consumed_bits = m_cursor m,
                       pr_metadata = final_meta p (m_meta m)\<rparr>)
        | Reject reason sev \<Rightarrow> Inr (Stop (plain_reject p reason cur sev m))))"

definition run_state ::
  "parser \<Rightarrow> bytes \<Rightarrow> nat \<Rightarrow> state \<Rightarrow> machine \<Rightarrow> (machine \<times> string) phase"
where
  "run_state p packet avail st m =
     then_run (extract_headers p packet avail (st_name st) (st_extracts st) m) (\<lambda>m.
     then_run (run_assigns p (st_assigns st) m) (\<lambda>m.
     then_run (run_region_ops p avail (st_name st) (st_region_ops st) m) (\<lambda>m.
     then_run (choose_target p (st_name st) (st_transition st) m)
       (run_target p (st_name st)))))"

section \<open>mod.rs: the loop\<close>

definition enter :: "string \<Rightarrow> machine \<Rightarrow> machine" where
  "enter cur m = m\<lparr>m_trace := m_trace m @ [(cur, DNone)]\<rparr>"

function run_loop ::
  "parser \<Rightarrow> bytes \<Rightarrow> nat \<Rightarrow> nat \<Rightarrow> string \<Rightarrow> machine \<Rightarrow> interp_error + parse_result"
where
  "run_loop p packet avail depth cur m =
     (let m = enter cur m in
      if depth \<ge> p_max_depth p
      then Inr (plain_reject p ''max depth exceeded'' cur SevError m)
      else
        (case find_state p cur of
           None \<Rightarrow> Inl (UnknownState cur)
         | Some st \<Rightarrow>
             (case run_state p packet avail st m of
                Inl e \<Rightarrow> Inl e
              | Inr (Stop res) \<Rightarrow> Inr res
              | Inr (Go (m', next)) \<Rightarrow> run_loop p packet avail (Suc depth) next m')))"
  by pat_completeness auto

termination run_loop
  by (relation "measure (\<lambda>(p, packet, avail, depth, cur, m). p_max_depth p - depth)") auto

declare run_loop.simps [simp del]

definition init_machine :: "parser \<Rightarrow> machine" where
  "init_machine p =
     \<lparr>m_env = Map.empty, m_cursor = 0, m_regions = [], m_meta = init_meta p,
      m_headers = [], m_trace = []\<rparr>"

definition run_bits :: "parser \<Rightarrow> bytes \<Rightarrow> nat \<Rightarrow> interp_error + parse_result" where
  "run_bits p packet avail = run_loop p packet avail 0 (p_start_state p) (init_machine p)"

definition run_packet :: "parser \<Rightarrow> bytes \<Rightarrow> interp_error + parse_result" where
  "run_packet p packet = run_bits p packet (8 * length packet)"

section \<open>The bit reader returns the big-endian value\<close>

lemma drop_bit_and_1: "ucast (drop_bit k (b :: u8) AND 1) = (of_bool (bit b k) :: u64)"
  by (rule bit_word_eqI) (auto simp: bit_simps)

lemma read_bits_loop_ok:
  "off + n \<le> 8 * length packet \<Longrightarrow> read_bits_loop packet off n = Inr (bits_at packet off n)"
proof (induction n)
  case 0
  then show ?case by simp
next
  case (Suc n)
  then have "(off + n) div 8 < length packet" by linarith
  with Suc show ?case
    by (simp add: byte_index_def bit_at_def drop_bit_and_1)
qed

lemma read_bits_ok:
  assumes "avail \<le> 8 * length packet" and "avail < 2 ^ 64"
  shows "read_bits packet avail off n =
    Inr (if off + n \<le> avail then Some (bits_at packet off n) else None)"
  using assms by (simp add: read_bits_def checked_add_def read_bits_loop_ok)

lemma read_run_loop_ok:
  "off + n \<le> 8 * length packet \<Longrightarrow> \<exists>r. read_run_loop packet off n out = Inr r"
proof (induction n arbitrary: out)
  case 0
  then show ?case by simp
next
  case (Suc n)
  then have "(off + n) div 8 < length packet" by linarith
  moreover from Suc obtain r where "read_run_loop packet off n out = Inr r"
    by (metis add_Suc_right Suc_leD)
  ultimately show ?case by (simp add: byte_index_def)
qed

lemma read_run_ok: "off + n \<le> 8 * length packet \<Longrightarrow> \<exists>r. read_run packet off n = Inr r"
  by (simp add: read_run_def read_run_loop_ok)

end
