(* ===== verification/Codegen_Static.thy ===== *)
theory Codegen_Static
  imports Codegen_C Ir_Interp
begin

text \<open>
  The static analyses of codegen/mod.rs against the interpreter: \<open>expr_mod8\<close> predicts the residue of
  every value the interpreter computes, and \<open>field_alignment\<close> follows the cursor through a state.
  \<open>emit_ok\<close> collects what the emitter needs of a description beyond being decodable: the W-conditions
  of docs/reference/ir-semantics.md, section 2, that matter for the generated C, an entry alignment
  that is consistent along every edge, an entry region depth that is consistent along every edge, and
  a slot for everything the description stores.
\<close>

section \<open>Residues\<close>

lemma unat_mod_8_word: "unat (w :: u64) mod 8 = unat (take_bit 3 w)"
  by (simp add: take_bit_eq_mod unat_mod_distrib)

lemma take_bit_3_nat: "take_bit 3 (n :: nat) = n mod 8"
  by (simp add: take_bit_eq_mod)

lemma mod8_exp64: "(n mod 2 ^ 64) mod 8 = (n :: nat) mod 8"
  by (rule mod_mod_cancel) simp

lemma unat_plus_mod8: "unat (a + b :: u64) mod 8 = (unat a mod 8 + unat b mod 8) mod 8"
  using mod8_exp64 [of "unat a + unat b"] by (simp add: unat_word_ariths mod_add_eq)

lemma unat_times_mod8: "unat (a * b :: u64) mod 8 = (unat a mod 8) * (unat b mod 8) mod 8"
  using mod8_exp64 [of "unat a * unat b"] by (simp add: unat_word_ariths mod_mult_eq)

lemma sub_mod8: "x < 8 \<Longrightarrow> y < 8 \<Longrightarrow> x = ((x + y) mod 8 + 8 - y) mod (8 :: nat)"
  by (cases "x + y < 8") (simp_all add: mod_if)

lemma unat_minus_mod8: "unat (a - b :: u64) mod 8 = (unat a mod 8 + 8 - unat b mod 8) mod 8"
proof -
  have "unat a mod 8 = (unat (a - b) mod 8 + unat b mod 8) mod 8"
    using unat_plus_mod8 [of "a - b" b] by simp
  moreover have "unat (a - b) mod 8 < 8" "unat b mod 8 < 8" by simp_all
  ultimately show ?thesis using sub_mod8 by metis
qed

lemma unat_push_bit_mod8: "unat (push_bit k (a :: u64)) mod 8 = (unat a mod 8) * 2 ^ k mod 8"
proof -
  have "unat (push_bit k a) = take_bit 64 (push_bit k (unat a))"
    by (simp add: unsigned_push_bit_eq)
  then have "unat (push_bit k a) mod 8 = (unat a * 2 ^ k mod 2 ^ 64) mod 8"
    by (simp add: take_bit_eq_mod push_bit_eq_mult)
  also have "\<dots> = (unat a * 2 ^ k) mod 8"
    by (rule mod8_exp64)
  finally show ?thesis by (simp add: mod_mult_left_eq)
qed

lemma unat_and_mod8: "unat (a AND b :: u64) mod 8 = (unat a mod 8) AND (unat b mod 8)"
  by (simp add: unsigned_and_eq take_bit_3_nat [symmetric])

lemma unat_or_mod8: "unat (a OR b :: u64) mod 8 = (unat a mod 8) OR (unat b mod 8)"
  by (simp add: unsigned_or_eq take_bit_3_nat [symmetric] take_bit_or)

lemma mult8_shift: "3 \<le> k \<Longrightarrow> (n :: nat) * 2 ^ k mod 8 = 0"
proof -
  assume "3 \<le> k"
  then obtain j where "k = 3 + j" by (metis le_Suc_ex)
  then show ?thesis by (simp add: power_add)
qed

lemma expr_mod8_sound_aux:
  "expr_mod8 e = Some r \<Longrightarrow> eval_expr e env meta rem = Inr v \<Longrightarrow> unat v mod 8 = r"
proof (induction e arbitrary: r v)
  case (Bin op a b)
  from Bin.prems(2) obtain x y where
    x: "eval_expr a env meta rem = Inr x" and y: "eval_expr b env meta rem = Inr y"
    and v: "eval_binop op x y = Inr v"
    by (auto simp: and_then_Inr)
  have A: "expr_mod8 a \<noteq> None \<Longrightarrow> unat x mod 8 = the (expr_mod8 a)"
    using Bin.IH(1) x by fastforce
  have B: "expr_mod8 b \<noteq> None \<Longrightarrow> unat y mod 8 = the (expr_mod8 b)"
    using Bin.IH(2) y by fastforce
  show ?case
  proof (cases op)
    case OpAdd
    with Bin.prems(1) v show ?thesis
      by (auto split: option.splits simp: unat_plus_mod8 A B)
  next
    case OpSub
    with Bin.prems(1) v show ?thesis
      by (auto split: option.splits simp: unat_minus_mod8 A B)
  next
    case OpMul
    with Bin.prems(1) v show ?thesis
      by (auto split: option.splits if_splits simp: Let_def unat_times_mod8 A B)
  next
    case OpShl
    with Bin.prems(1) obtain k where b: "b = Constant k"
      by (auto split: expr.splits simp: Let_def)
    with y have "y = k" by simp
    with OpShl v have v': "v = push_bit (unat k mod 64) x"
      by (simp add: shift_amount)
    with OpShl Bin.prems(1) b show ?thesis
      by (auto split: if_splits option.splits simp: Let_def unat_push_bit_mod8 mult8_shift A)
  next
    case OpAnd
    with Bin.prems(1) v show ?thesis
      by (auto split: option.splits simp: unat_and_mod8 A B)
  next
    case OpOr
    with Bin.prems(1) v show ?thesis
      by (auto split: option.splits simp: unat_or_mod8 A B)
  qed (use Bin.prems in \<open>auto simp: Let_def\<close>)
qed auto

section \<open>The cursor's residue along a state\<close>

text \<open>What a list of fields, and a list of extracts, does to the residue of the cursor.\<close>

primrec progress_fields :: "field list \<Rightarrow> nat \<Rightarrow> nat option" where
  "progress_fields [] a = Some a"
| "progress_fields (f # fs) a =
     (case field_width f of
        Bits n \<Rightarrow> progress_fields fs ((a + n) mod 8)
      | BitLen e \<Rightarrow>
          (case expr_mod8 e of None \<Rightarrow> None | Some m \<Rightarrow> progress_fields fs ((a + m) mod 8)))"

primrec progress_extracts :: "parser \<Rightarrow> extract_op list \<Rightarrow> nat \<Rightarrow> nat option" where
  "progress_extracts p [] a = Some a"
| "progress_extracts p (ex # exs) a =
     (if ex_lookahead ex then progress_extracts p exs a
      else case find_header_type p (ex_header_type ex) of
             None \<Rightarrow> None
           | Some ht \<Rightarrow>
               (case progress_fields (ht_fields ht) a of
                  None \<Rightarrow> None
                | Some a' \<Rightarrow> progress_extracts p exs a'))"

lemma progress_fields_append:
  "progress_fields (fs @ gs) a =
     (case progress_fields fs a of None \<Rightarrow> None | Some b \<Rightarrow> progress_fields gs b)"
  by (induction fs arbitrary: a) (auto split: field_width.split option.split)

lemma progress_extracts_append:
  "progress_extracts p (xs @ ys) a =
     (case progress_extracts p xs a of None \<Rightarrow> None | Some b \<Rightarrow> progress_extracts p ys b)"
  by (induction xs arbitrary: a) (auto split: option.split)

lemma align_fields_elsewhere:
  "align_fields gs False f a =
     (case progress_fields gs a of None \<Rightarrow> Unknown | Some b \<Rightarrow> Past b)"
  by (induction gs arbitrary: a) (auto split: field_width.split option.split)

lemma align_fields_here:
  "field_name f \<notin> field_name ` set fpre \<Longrightarrow>
   align_fields (fpre @ f # fpost) True (field_name f) a =
     (case progress_fields fpre a of None \<Rightarrow> Unknown | Some b \<Rightarrow> Found (b mod 8))"
  by (induction fpre arbitrary: a) (auto split: field_width.split option.split)

lemma align_extracts_sound:
  assumes "align_extracts p (pre @ ex # post) (instance_of ex) (field_name f) a = Some k"
    and "instance_of ex \<notin> instance_of ` set pre"
    and "find_header_type p (ex_header_type ex) = Some ht"
    and "ht_fields ht = fpre @ f # fpost"
    and "field_name f \<notin> field_name ` set fpre"
  shows "\<exists>a1 a2. progress_extracts p pre a = Some a1 \<and> progress_fields fpre a1 = Some a2 \<and> k = a2 mod 8"
  using assms(1,2)
proof (induction pre arbitrary: a)
  case Nil
  then show ?case
    using assms(3-5) by (auto simp: align_fields_here split: option.splits)
next
  case (Cons e es)
  then show ?case
    by (auto simp: align_fields_elsewhere split: option.splits alignment.splits if_splits)
qed

lemma find_prefix_free:
  "distinct (map g (xs @ x # ys)) \<Longrightarrow> g x \<notin> g ` set xs"
  by auto

section \<open>What the emitter needs of a description\<close>

definition field_ok :: "slot set \<Rightarrow> (slot \<Rightarrow> nat) \<Rightarrow> string \<Rightarrow> bool \<Rightarrow> field \<Rightarrow> bool" where
  "field_ok slots width inst la f =
     (case field_width f of
        Bits n \<Rightarrow> 1 \<le> n \<and> n \<le> 64 \<and> SFld inst (field_name f) \<in> slots \<and>
                  n \<le> width (SFld inst (field_name f))
      | BitLen e \<Rightarrow>
          \<not> la \<and> SOff inst (field_name f) \<in> slots \<and> width (SOff inst (field_name f)) = 64 \<and>
          SLen inst (field_name f) \<in> slots \<and> width (SLen inst (field_name f)) = 64)"

definition extract_ok :: "parser \<Rightarrow> slot set \<Rightarrow> (slot \<Rightarrow> nat) \<Rightarrow> extract_op \<Rightarrow> bool" where
  "extract_ok p slots width ex =
     (case find_header_type p (ex_header_type ex) of
        None \<Rightarrow> False
      | Some ht \<Rightarrow>
          distinct (map field_name (ht_fields ht)) \<and>
          SPresent (instance_of ex) \<in> slots \<and> 1 \<le> width (SPresent (instance_of ex)) \<and>
          list_all (field_ok slots width (instance_of ex) (ex_lookahead ex)) (ht_fields ht))"

definition metadata_ok :: "slot set \<Rightarrow> (slot \<Rightarrow> nat) \<Rightarrow> metadata_field \<Rightarrow> bool" where
  "metadata_ok slots width d = (SMeta (md_name d) \<in> slots \<and> width (SMeta (md_name d)) = 64)"

primrec depth_after :: "nat \<Rightarrow> region_op list \<Rightarrow> nat \<Rightarrow> nat option" where
  "depth_after cap [] d = Some d"
| "depth_after cap (op # ops) d =
     (case op of
        Push _ \<Rightarrow> if d < cap then depth_after cap ops (Suc d) else None
      | Pop \<Rightarrow> if d = 0 then None else depth_after cap ops (d - 1))"

text \<open>
  An edge: the target exists, and what holds at the end of the state, the residue of the cursor and
  the number of open regions, is what the target was promised.
\<close>

definition edge_ok ::
  "string list \<Rightarrow> (string \<Rightarrow> nat option) \<Rightarrow> (string \<Rightarrow> nat) \<Rightarrow> nat option \<Rightarrow> nat option \<Rightarrow> target \<Rightarrow> bool"
where
  "edge_ok names align depth exit_res exit_depth t =
     (case t of
        ToState n \<Rightarrow>
          n \<in> set names \<and> (align n = None \<or> align n = exit_res) \<and> Some (depth n) = exit_depth
      | _ \<Rightarrow> True)"

definition exit_residue :: "parser \<Rightarrow> (string \<Rightarrow> nat option) \<Rightarrow> state \<Rightarrow> nat option" where
  "exit_residue p align st =
     (case align (st_name st) of
        None \<Rightarrow> None
      | Some a \<Rightarrow> map_option (\<lambda>c. c mod 8) (progress_extracts p (st_extracts st) a))"

definition arms_ok :: "transition \<Rightarrow> bool" where
  "arms_ok tr =
     (case tr of
        Direct _ \<Rightarrow> True
      | Select keys arms _ \<Rightarrow> list_all (\<lambda>a. length (arm_entries a) = length keys) arms)"

definition state_ok ::
  "parser \<Rightarrow> string list \<Rightarrow> nat \<Rightarrow> (string \<Rightarrow> nat option) \<Rightarrow> (string \<Rightarrow> nat) \<Rightarrow> slot set \<Rightarrow> (slot \<Rightarrow> nat) \<Rightarrow> state \<Rightarrow> bool"
where
  "state_ok p names nslots align depth slots width st =
     (list_all (extract_ok p slots width) (st_extracts st) \<and>
      distinct (map instance_of (st_extracts st)) \<and>
      depth_after nslots (st_region_ops st) (depth (st_name st)) \<noteq> None \<and>
      arms_ok (st_transition st) \<and>
      list_all
        (edge_ok names align depth (exit_residue p align st)
          (depth_after nslots (st_region_ops st) (depth (st_name st))))
        (targets_of (st_transition st)))"

text \<open>State numbers and the stack pointer are 32 bits wide.\<close>

definition fits_u32 :: "parser \<Rightarrow> bool" where
  "fits_u32 p = (length (p_states p) \<le> 65536 \<and> region_slots p \<le> 65536)"

definition emit_ok ::
  "parser \<Rightarrow> (string \<Rightarrow> nat option) \<Rightarrow> (string \<Rightarrow> nat) \<Rightarrow> slot set \<Rightarrow> (slot \<Rightarrow> nat) \<Rightarrow> bool"
where
  "emit_ok p align depth slots width =
     (distinct (map st_name (p_states p)) \<and>
      find_state p (p_start_state p) \<noteq> None \<and>
      (align (p_start_state p) = None \<or> align (p_start_state p) = Some 0) \<and>
      depth (p_start_state p) = 0 \<and>
      distinct (map md_name (p_metadata p)) \<and>
      list_all (metadata_ok slots width) (p_metadata p) \<and>
      ''out of bounds'' \<notin> set (reject_reasons p) \<and> core_compiles p \<and>
      list_all
        (state_ok p (map st_name (p_states p)) (region_slots p) align depth slots width) (p_states p))"

text \<open>
  The same over a part of the states, closed under the transitions and containing the start state:
  what a state outside it does is never run. \<open>emit_ok\<close> is the case of all states.
\<close>

definition emit_within ::
  "parser \<Rightarrow> string list \<Rightarrow> (string \<Rightarrow> nat option) \<Rightarrow> (string \<Rightarrow> nat) \<Rightarrow> slot set \<Rightarrow> (slot \<Rightarrow> nat) \<Rightarrow> bool"
where
  "emit_within p names align depth slots width =
     (set names \<subseteq> set (map st_name (p_states p)) \<and>
      p_start_state p \<in> set names \<and>
      (align (p_start_state p) = None \<or> align (p_start_state p) = Some 0) \<and>
      depth (p_start_state p) = 0 \<and>
      distinct (map md_name (p_metadata p)) \<and>
      list_all (metadata_ok slots width) (p_metadata p) \<and>
      ''out of bounds'' \<notin> set (reject_reasons p) \<and> core_compiles p \<and>
      (\<forall>n\<in>set names. \<forall>st. find_state p n = Some st \<longrightarrow>
        state_ok p names (region_slots p) align depth slots width st))"

lemma emit_ok_within:
  "emit_ok p align depth slots width \<Longrightarrow>
   emit_within p (map st_name (p_states p)) align depth slots width"
  using find_state_names [of p "p_start_state p"]
  by (auto simp: emit_ok_def emit_within_def list_all_iff dest: find_stateD)

section \<open>Keysets\<close>

lemma entry_c_eq: "entry_c e k = eval_entry e k"
  by (cases e) (auto simp: word_order.extremum)

lemma conds_c_eq: "length es = length ks \<Longrightarrow> conds_c es ks = list_all2 eval_entry es ks"
  by (induction es ks rule: conds_c.induct) (auto simp: entry_c_eq)

section \<open>The region array\<close>

lemma next_pow2_from_pow2: "\<exists>j. next_pow2_from (2 ^ i) n = 2 ^ j"
proof (induction "n - 2 ^ i" arbitrary: i rule: less_induct)
  case less
  show ?case
  proof (cases "n \<le> 2 ^ i")
    case True
    then show ?thesis by (auto simp: next_pow2_from.simps [of "2 ^ i"])
  next
    case False
    then have "\<exists>j. next_pow2_from (2 ^ Suc i) n = 2 ^ j"
      by (intro less) (simp add: diff_less_mono2)
    with False show ?thesis by (simp add: next_pow2_from.simps [of "2 ^ i"])
  qed
qed

lemma region_slots_pow2: "region_slots p \<noteq> 0 \<Longrightarrow> \<exists>j. region_slots p = 2 ^ j"
  using next_pow2_from_pow2 [of 0 "region_cap p"] by (auto simp: region_slots_def split: if_splits)

lemma region_slots_0: "region_slots p = 0 \<longleftrightarrow> region_cap p = 0"
proof -
  have "next_pow2_from 1 n \<noteq> 0" for n
    using next_pow2_from_pow2 [of 0 n] by auto
  then show ?thesis by (auto simp: region_slots_def)
qed

lemma region_mask_and:
  assumes "i < region_slots p" and "region_slots p \<le> 65536"
  shows "unat ((of_nat i :: u32) AND region_mask p) = i"
proof -
  obtain j where j: "region_slots p = 2 ^ j"
    using region_slots_pow2 assms(1) by fastforce
  have "j \<le> 16"
    using assms(2) j power_le_imp_le_exp [of "2::nat" j 16] by simp
  have "region_mask p = mask j"
    using j by (simp add: region_mask_def mask_eq_exp_minus_1 of_nat_diff)
  then have "(of_nat i :: u32) AND region_mask p = take_bit j (of_nat i)"
    by (simp add: take_bit_eq_mask)
  also have "\<dots> = of_nat (take_bit j i)"
    by (simp add: take_bit_of_nat)
  finally show ?thesis
    using assms j by (simp add: take_bit_nat_eq_self unat_of_nat)
qed

section \<open>The interpreter's cursor has the predicted residue\<close>

text \<open>
  \<open>residue \<dots> pre fpre q\<close>: having entered state \<open>st\<close> at its alignment and read the extracts \<open>pre\<close> and
  then the fields \<open>fpre\<close>, the cursor \<open>q\<close> has the residue the analysis computes, if it computes one.
\<close>

definition residue ::
  "parser \<Rightarrow> (string \<Rightarrow> nat option) \<Rightarrow> state \<Rightarrow> extract_op list \<Rightarrow> field list \<Rightarrow> nat \<Rightarrow> bool"
where
  "residue p align st pre fpre q \<longleftrightarrow>
     (\<forall>a a1 a2. align (st_name st) = Some a \<longrightarrow> progress_extracts p pre a = Some a1 \<longrightarrow>
        progress_fields fpre a1 = Some a2 \<longrightarrow> q mod 8 = a2 mod 8)"

lemma extract_field_go:
  assumes "extract_field p packet avail cn ex entry f (m, parsed) = Inr (Go (m', parsed'))"
  shows "m_regions m' = m_regions m \<and> m_headers m' = m_headers m \<and>
    (case field_width f of
       Bits n \<Rightarrow> m_cursor m' = m_cursor m + n
     | BitLen e \<Rightarrow> \<exists>v. eval_expr e (m_env m) (m_meta m) None = Inr v \<and>
                       m_cursor m' = m_cursor m + unat v)"
  using assms
  by (auto simp: extract_field_def and_then_Inr Let_def
      split: field_width.splits option.splits if_splits)

lemma progress_mod8:
  assumes "(q :: nat) mod 8 = a mod 8" and "n mod 8 = r mod 8"
  shows "(q + n) mod 8 = (a + r) mod 8 mod 8"
  using mod_add_cong [OF assms] by simp

lemma residue_field:
  assumes "residue p align st pre fpre (m_cursor m)"
    and "extract_field p packet avail cn ex entry f (m, parsed) = Inr (Go (m', parsed'))"
  shows "residue p align st pre (fpre @ [f]) (m_cursor m')"
proof (cases "field_width f")
  case (Bits n)
  then show ?thesis
    using extract_field_go [OF assms(2)] assms(1)
    by (auto simp: residue_def progress_fields_append intro!: progress_mod8 [THEN trans] split: option.splits)
next
  case (BitLen e)
  then obtain v where v: "eval_expr e (m_env m) (m_meta m) None = Inr v"
    and q: "m_cursor m' = m_cursor m + unat v"
    using extract_field_go [OF assms(2)] by auto
  have "expr_mod8 e = Some r \<Longrightarrow> unat v mod 8 = r mod 8" for r
    using expr_mod8_sound_aux [OF _ v] by (metis mod_mod_trivial)
  then show ?thesis
    using BitLen q assms(1)
    by (auto simp: residue_def progress_fields_append intro!: progress_mod8 [THEN trans] split: option.splits)
qed

lemma extract_fields_go:
  assumes "extract_fields p packet avail cn ex entry fs (m, parsed) = Inr (Go (m', parsed'))"
  shows "m_regions m' = m_regions m \<and> m_headers m' = m_headers m \<and>
    (residue p align st pre fpre (m_cursor m) \<longrightarrow> residue p align st pre (fpre @ fs) (m_cursor m'))"
  using assms
proof (induction fs arbitrary: m parsed fpre)
  case Nil
  then show ?case by simp
next
  case (Cons f fs)
  then obtain m1 p1 where 1: "extract_field p packet avail cn ex entry f (m, parsed) = Inr (Go (m1, p1))"
    and 2: "extract_fields p packet avail cn ex entry fs (m1, p1) = Inr (Go (m', parsed'))"
    by (auto simp: then_run_Go)
  show ?case
    using Cons.IH [OF 2, of "fpre @ [f]"] residue_field [OF _ 1, of align st pre fpre]
      extract_field_go [OF 1] by auto
qed

lemma extract_header_go:
  assumes "extract_header p packet avail cn ex m = Inr (Go m')"
  shows "m_regions m' = m_regions m \<and>
    (residue p align st pre [] (m_cursor m) \<longrightarrow> residue p align st (pre @ [ex]) [] (m_cursor m'))"
proof -
  from assms obtain ht m1 p1 where ht: "find_header_type p (ex_header_type ex) = Some ht"
    and fs: "extract_fields p packet avail cn ex (m_cursor m) (ht_fields ht)
      (m, \<lparr>ph_instance = instance_of ex, ph_header_type = ht_name ht,
           ph_start_bit = m_cursor m, ph_fields = []\<rparr>) = Inr (Go (m1, p1))"
    and m': "m' = m1\<lparr>m_headers := m_headers m1 @ [p1],
      m_cursor := (if ex_lookahead ex then m_cursor m else m_cursor m1)\<rparr>"
    by (auto simp: extract_header_def then_run_Go split: option.splits)
  note go = extract_fields_go [OF fs, of align st pre "[]"]
  show ?thesis
  proof (cases "ex_lookahead ex")
    case True
    then show ?thesis
      using go m' by (auto simp: residue_def progress_extracts_append split: option.splits)
  next
    case False
    then show ?thesis
      using go m' ht by (auto simp: residue_def progress_extracts_append split: option.splits)
  qed
qed

lemma extract_headers_go:
  assumes "extract_headers p packet avail cn exs m = Inr (Go m')"
  shows "m_regions m' = m_regions m \<and>
    (residue p align st pre [] (m_cursor m) \<longrightarrow> residue p align st (pre @ exs) [] (m_cursor m'))"
  using assms
proof (induction exs arbitrary: m pre)
  case Nil
  then show ?case by simp
next
  case (Cons ex exs)
  then obtain m1 where 1: "extract_header p packet avail cn ex m = Inr (Go m1)"
    and 2: "extract_headers p packet avail cn exs m1 = Inr (Go m')"
    by (auto simp: then_run_Go)
  show ?case
    using Cons.IH [OF 2, of "pre @ [ex]"] extract_header_go [OF 1, of align st pre] by auto
qed

lemma residue_alignment:
  assumes "residue p align st pre fpre q"
    and "st_extracts st = pre @ ex # post" and "distinct (map instance_of (st_extracts st))"
    and "find_header_type p (ex_header_type ex) = Some ht"
    and "ht_fields ht = fpre @ f # fpost" and "distinct (map field_name (ht_fields ht))"
    and "field_alignment p align st (instance_of ex) (field_name f) = Some k"
  shows "q mod 8 = k"
proof -
  obtain a where a: "align (st_name st) = Some a"
    and k: "align_extracts p (pre @ ex # post) (instance_of ex) (field_name f) a = Some k"
    using assms(2,7) by (auto simp: field_alignment_def split: option.splits)
  have "\<exists>a1 a2. progress_extracts p pre a = Some a1 \<and> progress_fields fpre a1 = Some a2 \<and> k = a2 mod 8"
    using assms(3,6) by (intro align_extracts_sound [OF k _ assms(4,5)]) (auto simp: assms(2,5))
  with a assms(1) show ?thesis by (auto simp: residue_def)
qed

end
