(* ===== verification/Codegen_Extract.thy ===== *)
theory Codegen_Extract
  imports Codegen_Static
begin

text \<open>
  The emitted C refines the reference interpreter. Two interfaces separate the argument from any
  particular parser: \<open>result_layout\<close> is what the emitter relies on in a result struct (a member holds
  what was last stored in it, cut to its C type, and stores do not overlap), \<open>packet_memory\<close> what it
  relies on in the packet buffer. Inside \<open>emitted_parser\<close>, which has both, each phase of a state is
  simulated in turn and \<open>emit_core_refines\<close> puts them together. Every parser's own theory interprets
  the locale on its struct.
\<close>

section \<open>What the two sides agree on\<close>

definition field_writes :: "string \<Rightarrow> parsed_field \<Rightarrow> (slot \<times> u64) list" where
  "field_writes inst pf =
     (case pf_value pf of
        Uint v \<Rightarrow> [(SFld inst (pf_name pf), v)]
      | BitRun _ \<Rightarrow> [(SOff inst (pf_name pf), of_nat (pf_bit_offset pf)),
                     (SLen inst (pf_name pf), of_nat (pf_bit_len pf))])"

definition header_writes :: "parsed_header \<Rightarrow> (slot \<times> u64) list" where
  "header_writes ph =
     (SPresent (ph_instance ph), 1) # concat (map (field_writes (ph_instance ph)) (ph_fields ph))"

text \<open>
  The result struct as a function of the interpreter's header list: zero everywhere, then the writes
  of each header in extraction order, so that the last extraction of an instance wins.
\<close>

definition replay :: "parsed_header list \<Rightarrow> slot \<Rightarrow> u64" where
  "replay hs = foldl (\<lambda>m (x, v). m(x := v)) (\<lambda>_. 0) (concat (map header_writes hs))"

fun is_meta :: "slot \<Rightarrow> bool" where
  "is_meta (SMeta _) = True"
| "is_meta _ = False"

text \<open>
  The reason the C reports. It is the interpreter's, with one exception: a pop that finds the region
  unexhausted is always \<open>PK_R_REGION_NOT_EXHAUSTED\<close> in C, while the interpreter (and rule G-Pop-Trunc
  of the semantics) says ``out of bounds'' when the region reaches past the input. In the interpreter's
  result that case is the ``out of bounds'' that names no header instance.
\<close>

definition pop_truncated :: "parse_result \<Rightarrow> bool" where
  "pop_truncated res =
     (pr_outcome res = Rejected ''out of bounds'' \<and>
      (case pr_error res of None \<Rightarrow> False | Some e \<Rightarrow> pe_instance e = None))"

definition expected_reason :: "parser \<Rightarrow> parse_result \<Rightarrow> u16" where
  "expected_reason p res =
     (case pr_outcome res of
        Accepted \<Rightarrow> PK_R_NONE
      | Rejected r \<Rightarrow> if pop_truncated res then PK_R_REGION_NOT_EXHAUSTED else reason_number p r)"

definition result_agrees ::
  "parser \<Rightarrow> (slot \<Rightarrow> 'a pk_result_scheme \<Rightarrow> u64) \<Rightarrow> slot set \<Rightarrow> parse_result \<Rightarrow> int
    \<Rightarrow> 'a pk_result_scheme \<Rightarrow> bool"
where
  "result_agrees p get slots res ret o' \<longleftrightarrow>
     ret = (if pr_outcome res = Accepted then 0 else 1) \<and>
     outcome o' = of_int ret \<and>
     reason o' = expected_reason p res \<and>
     unat (consumed_bits o') = pr_consumed_bits res \<and>
     (\<forall>x\<in>slots. \<not> is_meta x \<longrightarrow> get x o' = replay (pr_headers res) x) \<and>
     (\<forall>(n, v)\<in>set (pr_metadata res). get (SMeta n) o' = v)"

lemma replay_append:
  "replay (hs @ [h]) = foldl (\<lambda>m (x, v). m(x := v)) (replay hs) (header_writes h)"
  by (simp add: replay_def)

lemma replay_start:
  "replay (hs @ [\<lparr>ph_instance = i, ph_header_type = t, ph_start_bit = b, ph_fields = []\<rparr>])
     = (replay hs)(SPresent i := 1)"
  by (simp add: replay_append header_writes_def)

lemma replay_field:
  "replay (hs @ [h\<lparr>ph_fields := ph_fields h @ [pf]\<rparr>]) =
     foldl (\<lambda>m (x, v). m(x := v)) (replay (hs @ [h])) (field_writes (ph_instance h) pf)"
  by (simp add: replay_append header_writes_def)

section \<open>Interfaces\<close>

locale result_layout =
  fixes get :: "slot \<Rightarrow> 'a pk_result_scheme \<Rightarrow> u64"
    and put :: "slot \<Rightarrow> u64 \<Rightarrow> 'a pk_result_scheme \<Rightarrow> 'a pk_result_scheme"
    and slots :: "slot set"
    and width :: "slot \<Rightarrow> nat"
    and zero :: "'a pk_result_scheme"
  assumes get_put: "x \<in> slots \<Longrightarrow> get x (put x v o') = take_bit (width x) v"
    and get_put_other: "x \<in> slots \<Longrightarrow> y \<in> slots \<Longrightarrow> x \<noteq> y \<Longrightarrow> get y (put x v o') = get y o'"
    and get_finish: "x \<in> slots \<Longrightarrow>
      get x (o'\<lparr>outcome := a, reason := b, consumed_bits := c\<rparr>) = get x o'"
    and get_zero: "x \<in> slots \<Longrightarrow> get x zero = 0"
begin

text \<open>Storing into a slot is a function update of the view of the struct.\<close>

lemma get_put_if:
  assumes "x \<in> slots" and "y \<in> slots"
  shows "get y (put x v o') = (if y = x then take_bit (width x) v else get y o')"
  using assms get_put get_put_other by auto

lemma get_fold_put_other:
  assumes "y \<in> slots" and "\<forall>(x, v)\<in>set xs. x \<in> slots \<and> x \<noteq> y"
  shows "get y (fold (\<lambda>(x, v). put x v) xs o') = get y o'"
  using assms(2) by (induction xs arbitrary: o') (auto simp: get_put_other assms(1))

lemma get_fold_put:
  assumes "distinct (map fst xs)" and "\<forall>(x, v)\<in>set xs. x \<in> slots" and "(x, v) \<in> set xs"
  shows "get x (fold (\<lambda>(x, v). put x v) xs o') = take_bit (width x) v"
  using assms
proof (induction xs arbitrary: o')
  case Nil
  then show ?case by simp
next
  case (Cons a xs)
  obtain y w where a: "a = (y, w)" by force
  show ?case
  proof (cases "(x, v) \<in> set xs")
    case True
    with Cons a show ?thesis by auto
  next
    case False
    with Cons.prems a have eq: "y = x" "w = v" by auto
    with Cons.prems a have "\<forall>(z, u)\<in>set xs. z \<in> slots \<and> z \<noteq> x" by force
    with Cons.prems a eq show ?thesis by (auto simp: get_fold_put_other get_put)
  qed
qed

end

locale packet_memory =
  fixes reader :: "bytes \<Rightarrow> packet_reader"
    and capacity :: nat
  assumes reader_in_bounds:
      "length buf \<le> capacity \<Longrightarrow> i < length buf \<Longrightarrow> reader buf (of_nat i) = Some (buf ! i)"
    and capacity_small: "capacity < 2 ^ 60"
begin

lemma reader_at_bit:
  assumes "length buf \<le> capacity" and "unat pos < 8 * length buf"
  shows "reader buf (drop_bit 3 pos) = Some (buf ! (unat pos div 8))"
  using assms by (simp add: of_nat_unat_shiftr3 reader_in_bounds)

text \<open>\<open>pk_read_bits\<close> returns the big-endian value of the bits it is asked for.\<close>

lemma pk_read_bits_eq:
  assumes "length buf \<le> capacity" and "unat pos + n \<le> 8 * length buf"
  shows "pk_read_bits (reader buf) pos n = Inr (bits_at buf (unat pos) n)"
  using assms(2)
proof (induction n)
  case 0
  then show ?case by simp
next
  case (Suc n)
  have small: "8 * length buf < 2 ^ 64"
    using assms(1) capacity_small by simp
  have p: "unat (pos + of_nat n) = unat pos + n"
    using Suc.prems small by (intro unat_add_small) simp
  have "unat (7 - ((pos + of_nat n) AND 7)) = 7 - (unat pos + n) mod 8"
    by (subst unat_sub_le) (simp_all add: unat_and7 p)
  with Suc p show ?case
    by (simp add: Let_def reader_at_bit assms(1) bit_at_def drop_bit_and_1)
qed

text \<open>So does the byte-load expression, when the field is byte aligned.\<close>

lemma load_be_upto_eq:
  assumes "length buf \<le> capacity" and "unat pos + 8 * k \<le> 8 * length buf"
    and "unat pos mod 8 = 0" and "i \<le> k"
  shows "load_be_upto (reader buf) (drop_bit 3 pos) k i =
    Inr (push_bit (8 * (k - i)) (bits_at buf (unat pos) (8 * i)))"
  using assms(4)
proof (induction i)
  case 0
  then show ?case by simp
next
  case (Suc i)
  let ?q = "unat pos div 8"
  have q: "unat pos = 8 * ?q" using assms(3) by auto
  have "drop_bit 3 pos + of_nat i = (of_nat (?q + i) :: u64)"
    by (simp add: of_nat_unat_shiftr3)
  moreover have "?q + i < length buf"
    using assms(2) Suc.prems q by linarith
  ultimately have rd: "reader buf (drop_bit 3 pos + of_nat i) = Some (buf ! (?q + i))"
    using assms(1) by (simp only: reader_in_bounds)
  have byte: "bits_at buf (unat pos + 8 * i) 8 = ucast (buf ! (?q + i))"
    using assms(3) q by (subst bits_at_byte) (auto simp: div_mult_self2 mod_mult_self2 add.commute)
  have "8 * (k - i) = 8 * (k - Suc i) + 8"
    using Suc.prems by simp
  then have "push_bit (8 * (k - Suc i)) (bits_at buf (unat pos) (8 * Suc i)) =
      push_bit (8 * (k - i)) (bits_at buf (unat pos) (8 * i)) OR
      push_bit (8 * (k - Suc i)) (ucast (buf ! (?q + i)))"
    using bits_at_add [of buf "unat pos" "8 * i" 8] byte
    by (simp add: push_bit_or push_bit_push_bit add.commute del: push_bit_numeral)
  with Suc rd show ?case by simp
qed

lemma load_be_eq:
  assumes "length buf \<le> capacity" and "unat pos + 8 * k \<le> 8 * length buf"
    and "unat pos mod 8 = 0"
  shows "load_be (reader buf) pos k = Inr (bits_at buf (unat pos) (8 * k))"
  using load_be_upto_eq [OF assms, of k] by (simp add: load_be_def)

end

locale emitted_parser =
  result_layout get put slots width zero + packet_memory reader capacity
  for get :: "slot \<Rightarrow> 'a pk_result_scheme \<Rightarrow> u64"
    and put :: "slot \<Rightarrow> u64 \<Rightarrow> 'a pk_result_scheme \<Rightarrow> 'a pk_result_scheme"
    and slots :: "slot set"
    and width :: "slot \<Rightarrow> nat"
    and zero :: "'a pk_result_scheme"
    and reader :: "bytes \<Rightarrow> packet_reader"
    and capacity :: nat
begin

section \<open>The simulation relation\<close>

text \<open>
  \<open>bindings\<close>: what the interpreter has bound is in the struct. \<open>regions_agree\<close>: the array holds the
  open regions, outermost first, each within the one around it and none behind the cursor.
\<close>

definition bindings :: "parser \<Rightarrow> 'a pk_result_scheme \<Rightarrow> machine \<Rightarrow> bool" where
  "bindings p o' m \<longleftrightarrow>
     (\<forall>i f v. m_env m (i, f) = Some v \<longrightarrow> SFld i f \<in> slots \<and> get (SFld i f) o' = v) \<and>
     (\<forall>n v. m_meta m n = Some v \<longrightarrow> SMeta n \<in> slots \<and> get (SMeta n) o' = v) \<and>
     (\<forall>d\<in>set (p_metadata p). m_meta m (md_name d) \<noteq> None)"

definition view :: "parsed_header list \<Rightarrow> 'a pk_result_scheme \<Rightarrow> bool" where
  "view hs o' \<longleftrightarrow> (\<forall>x\<in>slots. \<not> is_meta x \<longrightarrow> get x o' = replay hs x)"

definition regions_agree :: "parser \<Rightarrow> nat list \<Rightarrow> 'a pk_result_scheme locals \<Rightarrow> nat \<Rightarrow> bool" where
  "regions_agree p rs s c \<longleftrightarrow>
     length rs \<le> region_slots p \<and> rsp s = of_nat (length rs) \<and>
     length (region_end s) = region_slots p \<and>
     (\<forall>j<length rs. region_end s ! j = Some (of_nat (rev rs ! j))) \<and>
     sorted rs \<and> (\<forall>e\<in>set rs. c \<le> e \<and> e < 2 ^ 64)"

definition sync ::
  "parser \<Rightarrow> nat \<Rightarrow> cursor \<Rightarrow> nat \<Rightarrow> parsed_header list \<Rightarrow> 'a pk_result_scheme locals \<Rightarrow> machine \<Rightarrow> bool"
where
  "sync p avail c entry hs s m \<longleftrightarrow>
     unat (cur c s) = m_cursor m \<and> m_cursor m \<le> avail \<and>
     (c = Poff \<longrightarrow> unat (off s) = entry \<and> entry \<le> m_cursor m) \<and>
     bindings p (out s) m \<and> view hs (out s) \<and>
     regions_agree p (m_regions m) s (m_cursor m)"

text \<open>A phase agrees when the C goes on in a related state, or returns the result the run stops with.\<close>

definition phase_ok ::
  "parser \<Rightarrow> ('b \<Rightarrow> 'a pk_result_scheme locals \<Rightarrow> bool) \<Rightarrow> 'b phase \<Rightarrow> 'a pk_result_scheme flow \<Rightarrow> bool"
where
  "phase_ok p R r fl =
     (case r of
        Inl _ \<Rightarrow> True
      | Inr (Go b) \<Rightarrow> (\<exists>s. fl = Next s \<and> R b s)
      | Inr (Stop res) \<Rightarrow> (\<exists>ret o'. fl = Return ret o' \<and> result_agrees p get slots res ret o'))"

lemma phase_ok_simps [simp]:
  "phase_ok p R (Inl e) fl"
  "phase_ok p R (Inr (Go b)) fl \<longleftrightarrow> (\<exists>s. fl = Next s \<and> R b s)"
  "phase_ok p R (Inr (Stop res)) fl \<longleftrightarrow>
     (\<exists>ret o'. fl = Return ret o' \<and> result_agrees p get slots res ret o')"
  by (simp_all add: phase_ok_def)

lemma phase_ok_then:
  assumes "phase_ok p R r fl" and "\<And>b s. r = Inr (Go b) \<Longrightarrow> R b s \<Longrightarrow> phase_ok p S (f b) (c s)"
  shows "phase_ok p S (then_run r f) (then_flow fl c)"
  using assms(1,2) by (cases r f rule: then_run_cases) auto

lemma phase_ok_mono:
  "phase_ok p R r fl \<Longrightarrow> (\<And>b s. R b s \<Longrightarrow> S b s) \<Longrightarrow> phase_ok p S r fl"
  by (auto simp: phase_ok_def split: sum.splits run.splits)

text \<open>Every way a run can end reads the same members of the struct.\<close>

lemma finish_agrees:
  assumes "bindings p (out s) m" and "view (pr_headers res) (out s)"
    and "pr_metadata res = final_meta p (m_meta m)"
    and "unat (off s) = pr_consumed_bits res"
    and "ret = (if pr_outcome res = Accepted then 0 else 1)"
    and "r = expected_reason p res"
  shows "\<exists>o'. finish ret r s = Return ret o' \<and> result_agrees p get slots res ret o'"
proof -
  have "get (SMeta n) (out s) = v \<and> SMeta n \<in> slots" if "(n, v) \<in> set (final_meta p (m_meta m))" for n v
    using that assms(1) by (fastforce simp: final_meta_def bindings_def)
  then show ?thesis
    using assms(2-6) by (auto simp: finish_def result_agrees_def view_def get_finish)
qed

lemma reject_agrees:
  assumes "bindings p (out s) m" and "view hs (out s)" and "unat (off s) = consumed"
    and "\<not> (ctx = None \<and> r = ''out of bounds'')"
  shows "\<exists>ret o'. reject (reason_number p r) s = Return ret o' \<and>
    result_agrees p get slots (mk_reject p r st sev ctx consumed hs m) ret o'"
  using finish_agrees [of p s m "mk_reject p r st sev ctx consumed hs m" 1 "reason_number p r"] assms
  by (force simp: reject_def mk_reject_def expected_reason_def pop_truncated_def)

section \<open>Expressions\<close>

lemma region_top_eq:
  assumes "regions_agree p (e # rs) s c" and "region_slots p \<le> 65536"
  shows "region_top (region_mask p) s = Inr (of_nat e)"
proof -
  let ?i = "length rs"
  have r: "rsp s = of_nat (Suc ?i)" and i: "?i < region_slots p"
    and len: "length (region_end s) = region_slots p"
    using assms(1) by (auto simp: regions_agree_def)
  have "rsp s - 1 = of_nat ?i" using r by simp
  then have "unat ((rsp s - 1) AND region_mask p) = ?i"
    using region_mask_and [OF i assms(2)] by simp
  moreover have "region_end s ! ?i = Some (of_nat e)"
    using assms(1) by (auto simp: regions_agree_def nth_append)
  ultimately show ?thesis
    using i len by (simp add: region_top_def region_slot_def)
qed

lemma expr_c_eq:
  assumes "eval_expr e (m_env m) (m_meta m) rem = Inr v"
    and "bindings p (out s) m" and "region_slots p \<le> 65536"
    and "rem = None \<or> rem = remaining_here m"
    and "regions_agree p (m_regions m) s (m_cursor m)" and "unat (off s) = m_cursor m"
  shows "expr_c (region_mask p) get e s = Inr v"
  using assms(1)
proof (induction e arbitrary: v)
  case (Bin op a b)
  then obtain x y where x: "expr_c (region_mask p) get a s = Inr x"
    and y: "expr_c (region_mask p) get b s = Inr y" and v: "eval_binop op x y = Inr v"
    and b: "eval_expr b (m_env m) (m_meta m) rem = Inr y"
    by (auto simp: and_then_Inr)
  have small: "\<not> shift_amount_needs_mask b \<Longrightarrow> y < 64"
    using b by (auto simp: shift_amount_needs_mask_def split: expr.splits)
  have and63: "y AND 63 < 64" "unat (y AND 63) = unat y mod 64"
  proof -
    have "y AND 63 = take_bit 6 y" by (simp add: take_bit_eq_mask mask_eq_exp_minus_1)
    then show *: "unat (y AND 63) = unat y mod 64"
      by (simp add: take_bit_eq_mod unat_mod_distrib)
    then show "y AND 63 < 64" by (simp add: word_less_nat_alt)
  qed
  have unat_small: "y < 64 \<Longrightarrow> unat y mod 64 = unat y"
    by (simp add: word_less_nat_alt)
  show ?case
    using v x y small and63 unat_small shift_amount [of y]
    by (cases op) (auto simp: Let_def c_exp_defs)
next
  case Remaining
  then obtain e rs where rs: "m_regions m = e # rs" and v: "v = of_nat (e - m_cursor m)"
    using assms(4) by (auto simp: remaining_here_def split: option.splits list.splits)
  have le: "m_cursor m \<le> e" using assms(5) rs by (simp add: regions_agree_def)
  have "off s = of_nat (m_cursor m)" using assms(6) by (metis of_nat_unat ucast_id)
  then show ?case
    using region_top_eq [of p e rs s] assms(3,5) rs v le by (simp add: c_remaining_def of_nat_diff)
qed (use assms(2) in \<open>auto simp: c_const_def c_out_def bindings_def split: option.splits\<close>)

section \<open>Extraction\<close>

definition packet_ok :: "bytes \<Rightarrow> u64 \<Rightarrow> nat \<Rightarrow> bool" where
  "packet_ok buf bit_len avail \<longleftrightarrow>
     length buf \<le> capacity \<and> avail = unat bit_len \<and> avail \<le> 8 * length buf"

lemma packet_ok_small: "packet_ok buf bit_len avail \<Longrightarrow> avail < 2 ^ 63"
  using capacity_small by (simp add: packet_ok_def)

lemma cur_plus:
  assumes "packet_ok buf bit_len avail" and "sync p avail c entry hs s m" and "n \<le> 64"
  shows "unat (cur c s + of_nat n) = m_cursor m + n"
  using packet_ok_small [OF assms(1)] assms(2,3)
  by (subst unat_add_small) (auto simp: sync_def)

lemma check_len_eq:
  assumes "packet_ok buf bit_len avail" and "sync p avail c entry hs s m" and "n \<le> 64"
  shows "check_len bit_len c (of_nat n) s =
    (if m_cursor m + n > avail then reject PK_R_OUT_OF_BOUNDS s else Next s)"
  using cur_plus [OF assms] assms(1) by (simp add: check_len_def word_less_nat_alt packet_ok_def)

lemma rsp_zero_iff:
  assumes "regions_agree p rs s c" and "region_slots p \<le> 65536"
  shows "rsp s = 0 \<longleftrightarrow> rs = []"
proof -
  have "unat (rsp s) = length rs"
    using assms by (auto simp: regions_agree_def unat_of_nat)
  then show ?thesis by (metis length_0_conv unat_eq_zero)
qed

lemma region_unat:
  "regions_agree p (e # rs) s c \<Longrightarrow> unat (of_nat e :: u64) = e"
  by (simp add: regions_agree_def unat_of_nat)

lemma check_region_eq:
  assumes "packet_ok buf bit_len avail" and "sync p avail c entry hs s m" and "n \<le> 64"
    and "region_slots p \<le> 65536"
  shows "check_region (region_mask p) c (of_nat n) s =
    (case m_regions m of
       [] \<Rightarrow> Next s
     | e # _ \<Rightarrow> if m_cursor m + n > e then reject PK_R_OUT_OF_REGION_BOUNDS s else Next s)"
proof (cases "m_regions m")
  case Nil
  with assms(2) have r: "regions_agree p [] s (m_cursor m)" by (simp add: sync_def)
  then show ?thesis
    using Nil rsp_zero_iff [OF r assms(4)] by (simp add: check_region_def)
next
  case (Cons e rs)
  with assms(2) have r: "regions_agree p (e # rs) s (m_cursor m)" by (simp add: sync_def)
  then show ?thesis
    using Cons cur_plus [OF assms(1-3)] region_unat [OF r] region_top_eq [OF r assms(4)]
      rsp_zero_iff [OF r assms(4)]
    by (simp add: check_region_def word_less_nat_alt)
qed

lemma no_regions:
  assumes "regions_agree p rs s c" and "region_cap p = 0"
  shows "rs = []"
  using assms by (simp add: regions_agree_def region_slots_0 [symmetric])

lemma set_cur_sel [simp]:
  "out (set_cur c v s) = out s" "rsp (set_cur c v s) = rsp s"
  "region_end (set_cur c v s) = region_end s" "cur_state (set_cur c v s) = cur_state s"
  "cur c (set_cur c v s) = v" "off (set_cur Poff v s) = off s"
  by (cases c; simp add: set_cur_def cur_def)+

lemma cur_out [simp]: "cur c (s\<lparr>out := o'\<rparr>) = cur c s"
  by (cases c) (simp_all add: cur_def)

lemma regions_agree_locals:
  "regions_agree p rs s c \<Longrightarrow> rsp s' = rsp s \<Longrightarrow> region_end s' = region_end s \<Longrightarrow>
   (\<forall>e\<in>set rs. c' \<le> e) \<Longrightarrow> regions_agree p rs s' c'"
  by (simp add: regions_agree_def)

lemma regions_hd:
  assumes "regions_agree p rs s c" and "rs \<noteq> [] \<Longrightarrow> c' \<le> hd rs"
  shows "\<forall>e\<in>set rs. c' \<le> e"
  using assms by (cases rs) (auto simp: regions_agree_def)

text \<open>Binding a fixed-width field.\<close>

lemma bind_field:
  assumes "bindings p o' m" and "SFld i f \<in> slots" and "n \<le> width (SFld i f)"
  shows "bindings p (put (SFld i f) (bits_at buf q n) o')
    (m\<lparr>m_env := (m_env m)((i, f) \<mapsto> bits_at buf q n), m_cursor := c\<rparr>)"
  using assms by (auto simp: bindings_def get_put_if take_bit_bits_at)

lemma bindings_frame:
  assumes "bindings p o' m" and "x \<in> slots" and "\<not> is_meta x" and "\<forall>i f. x \<noteq> SFld i f"
    and "m_env m' = m_env m" and "m_meta m' = m_meta m"
  shows "bindings p (put x v o') m'"
  using assms by (auto simp: bindings_def get_put_if)

lemma view_put:
  assumes "view hs o'" and "x \<in> slots"
    and "\<And>y. \<not> is_meta y \<Longrightarrow> replay hs' y = (if y = x then take_bit (width x) v else replay hs y)"
  shows "view hs' (put x v o')"
  using assms by (auto simp: view_def get_put_if)

lemma bits_step:
  assumes ok: "packet_ok buf bit_len avail" and sync: "sync p avail c entry hs s m"
    and n: "1 \<le> n" "n \<le> 64" and fits: "m_cursor m + n \<le> avail"
    and slot: "SFld i f \<in> slots" "n \<le> width (SFld i f)"
    and aligned: "bl \<Longrightarrow> m_cursor m mod 8 = 0 \<and> n mod 8 = 0"
    and hs': "replay hs' = (replay hs)(SFld i f := bits_at buf (m_cursor m) n)"
    and regs: "m_regions m \<noteq> [] \<Longrightarrow> m_cursor m + n \<le> hd (m_regions m)"
    and m': "m' = m\<lparr>m_env := (m_env m)((i, f) \<mapsto> bits_at buf (m_cursor m) n),
                m_cursor := m_cursor m + n\<rparr>"
  shows "\<exists>s'. block [if bl then load_bytes (reader buf) c (n div 8) (put (SFld i f))
                else load_bits (reader buf) c n (put (SFld i f)), advance c (of_nat n)] s = Next s' \<and>
    sync p avail c entry hs' s' m'"
proof -
  let ?v = "bits_at buf (m_cursor m) n"
  have pos: "unat (cur c s) = m_cursor m" using sync by (simp add: sync_def)
  have inside: "m_cursor m + n \<le> 8 * length buf" and cap: "length buf \<le> capacity"
    using ok fits by (auto simp: packet_ok_def)
  have read: "bl \<Longrightarrow> load_be (reader buf) (cur c s) (n div 8) = Inr ?v"
    using load_be_eq [OF cap, of "cur c s" "n div 8"] aligned inside pos by auto
  have read': "pk_read_bits (reader buf) (cur c s) n = Inr ?v"
    using pk_read_bits_eq [OF cap, of "cur c s" n] inside pos by simp
  let ?s = "s\<lparr>out := put (SFld i f) ?v (out s)\<rparr>"
  let ?t = "set_cur c (cur c s + of_nat n) ?s"
  have "block [if bl then load_bytes (reader buf) c (n div 8) (put (SFld i f))
      else load_bits (reader buf) c n (put (SFld i f)), advance c (of_nat n)] s = Next ?t"
    using read read' by (simp add: load_bytes_def load_bits_def store_exp_def store_def advance_def)
  moreover have "sync p avail c entry hs' ?t m'"
  proof -
    have R: "regions_agree p (m_regions m) s (m_cursor m)" using sync by (simp add: sync_def)
    have V: "view hs (out s)" and B: "bindings p (out s) m" using sync by (auto simp: sync_def)
    have "unat (cur c ?t) = m_cursor m + n"
      using cur_plus [OF ok sync n(2)] by simp
    moreover have "view hs' (out ?t)"
      using view_put [OF V slot(1), of hs' ?v] hs' slot(2) by (simp add: take_bit_bits_at)
    moreover have "regions_agree p (m_regions m) ?t (m_cursor m + n)"
      by (rule regions_agree_locals [OF R]) (use regions_hd [OF R regs] in auto)
    moreover have "c = Poff \<Longrightarrow> unat (off ?t) = entry \<and> entry \<le> m_cursor m + n"
      using sync by (auto simp: sync_def)
    ultimately show ?thesis
      using fits bind_field [OF B slot] by (simp add: sync_def m')
  qed
  ultimately show ?thesis by blast
qed

text \<open>The residue of the cursor when a field starts, if the emitter knows it.\<close>

definition byte_load_sound ::
  "parser \<Rightarrow> (string \<Rightarrow> nat option) \<Rightarrow> state \<Rightarrow> string \<Rightarrow> field \<Rightarrow> nat \<Rightarrow> bool"
where
  "byte_load_sound p align st inst f q \<longleftrightarrow>
     (field_alignment p align st inst (field_name f) = Some 0 \<longrightarrow> q mod 8 = 0)"

lemma field_reject:
  assumes "sync p avail c entry (m_headers m @ [parsed]) s m"
    and "c = (if ex_lookahead ex then Poff else Off)"
    and "r = reason_number p (oob_reason m end_bits)"
  shows "\<exists>ret o'. reject r s = Return ret o' \<and>
    result_agrees p get slots (extract_fail p cur_name ex entry f end_bits parsed m) ret o'"
proof -
  have "unat (off s) = (if ex_lookahead ex then entry else m_cursor m)"
    using assms(1,2) by (auto simp: sync_def cur_def)
  then show ?thesis
    using reject_agrees [of p s m "m_headers m @ [parsed]"] assms(1,3)
    by (simp add: extract_fail_def sync_def)
qed

lemma fixed_field_ok:
  assumes ok: "packet_ok buf bit_len avail" and cap: "region_slots p \<le> 65536"
    and sync: "sync p avail c entry (m_headers m @ [parsed]) s m"
    and inst: "ph_instance parsed = instance_of ex"
    and c: "c = (if ex_lookahead ex then Poff else Off)"
    and f: "field_width f = Bits n" "field_ok slots width (instance_of ex) (ex_lookahead ex) f"
    and bl: "byte_load_sound p align st (instance_of ex) f (m_cursor m)"
  shows "phase_ok p (\<lambda>(m', parsed') s'.
        sync p avail c entry (m_headers m' @ [parsed']) s' m' \<and> ph_instance parsed' = instance_of ex)
      (extract_field p buf avail cur_name ex entry f (m, parsed))
      (block (emit_field p align (reader buf) bit_len get put st (instance_of ex) (ex_lookahead ex) f) s)"
proof -
  let ?i = "instance_of ex" and ?fn = "field_name f"
  let ?tail = "[if byte_load p align st ?i ?fn n then load_bytes (reader buf) c (n div 8) (put (SFld ?i ?fn))
      else load_bits (reader buf) c n (put (SFld ?i ?fn)), advance c (of_nat n)]"
  have n: "1 \<le> n" "n \<le> 64" and slot: "SFld ?i ?fn \<in> slots" "n \<le> width (SFld ?i ?fn)"
    using f by (auto simp: field_ok_def)
  have R: "regions_agree p (m_regions m) s (m_cursor m)" using sync by (simp add: sync_def)
  have avail: "avail \<le> 8 * length buf" "avail < 2 ^ 63"
    using ok packet_ok_small by (auto simp: packet_ok_def)
  have bound: "read_bound avail m \<le> avail" by (auto simp: read_bound_def split: list.split)
  have ca: "checked_add (m_cursor m) n = Some (m_cursor m + n)"
    using sync avail n by (simp add: checked_add_def sync_def)
  have body: "block (emit_field p align (reader buf) bit_len get put st ?i (ex_lookahead ex) f) s =
      then_flow (case m_regions m of [] \<Rightarrow> Next s
          | e # _ \<Rightarrow> if m_cursor m + n > e then reject PK_R_OUT_OF_REGION_BOUNDS s else Next s)
        (\<lambda>s. then_flow (check_len bit_len c (of_nat n) s) (block ?tail))"
    using check_region_eq [OF ok sync n(2) cap] no_regions [OF R]
    by (simp add: emit_field_def f(1) c [symmetric] Let_def block_Cons_fun del: block.simps(2) block_single)
  have read: "read_bits buf (read_bound avail m) (m_cursor m) n =
      Inr (if m_cursor m + n \<le> read_bound avail m then Some (bits_at buf (m_cursor m) n) else None)"
    using read_bits_ok [of "read_bound avail m" buf] bound avail by simp
  note len = check_len_eq [OF ok sync n(2)]
  note rej = field_reject [OF sync c, of _ "Some (m_cursor m + n)" cur_name f]
  show ?thesis
  proof (cases "m_cursor m + n \<le> read_bound avail m")
    case False
    then have "extract_field p buf avail cur_name ex entry f (m, parsed) =
        Inr (Stop (extract_fail p cur_name ex entry f (Some (m_cursor m + n)) parsed m))"
      by (simp add: extract_field_def f(1) read ca)
    with False show ?thesis
      using len rej [of 4] rej [of 1] unfolding body
      by (auto simp: oob_reason_def read_bound_def split: list.splits)
  next
    case True
    let ?v = "bits_at buf (m_cursor m) n"
    let ?m = "m\<lparr>m_env := (m_env m)((?i, ?fn) \<mapsto> ?v), m_cursor := m_cursor m + n\<rparr>"
    let ?p = "parsed\<lparr>ph_fields := ph_fields parsed @ [\<lparr>pf_name = ?fn, pf_bit_offset = m_cursor m,
        pf_bit_len = n, pf_value = Uint ?v\<rparr>]\<rparr>"
    have "replay (m_headers m @ [?p]) = (replay (m_headers m @ [parsed]))(SFld ?i ?fn := ?v)"
      by (simp add: replay_field field_writes_def inst)
    moreover have "m_regions m \<noteq> [] \<Longrightarrow> m_cursor m + n \<le> hd (m_regions m)"
      using True by (cases "m_regions m") (auto simp: read_bound_def)
    moreover have "byte_load p align st ?i ?fn n \<Longrightarrow> m_cursor m mod 8 = 0 \<and> n mod 8 = 0"
      using bl by (simp add: byte_load_sound_def byte_load_def)
    ultimately obtain s' where s': "block ?tail s = Next s'"
      "sync p avail c entry (m_headers m @ [?p]) s' ?m"
      using bits_step [OF ok sync n, of ?i ?fn "byte_load p align st ?i ?fn n" "m_headers m @ [?p]" ?m]
        True bound slot by auto
    have "block (emit_field p align (reader buf) bit_len get put st ?i (ex_lookahead ex) f) s = Next s'"
      using True bound len s'(1) unfolding body
      by (auto simp: read_bound_def split: list.splits)
    moreover have "extract_field p buf avail cur_name ex entry f (m, parsed) = Inr (Go (?m, ?p))"
      using True by (simp add: extract_field_def f(1) read)
    ultimately show ?thesis using s'(2) inst by simp
  qed
qed

text \<open>A variable-length field: the C compares the length with the room that is left.\<close>

lemma check_var_len_eq:
  assumes "packet_ok buf bit_len avail" and "sync p avail Off entry hs s m"
  shows "check_var_len bit_len v s =
    (if m_cursor m + unat v > avail then reject PK_R_OUT_OF_BOUNDS s else Next s)"
proof -
  have le: "unat (off s) \<le> unat bit_len" and off: "unat (off s) = m_cursor m"
    using assms by (auto simp: sync_def packet_ok_def cur_def)
  have "v > bit_len - off s \<longleftrightarrow> m_cursor m + unat v > avail"
    using assms(1) le off by (auto simp: word_less_nat_alt unat_sub_le packet_ok_def)
  then show ?thesis by (simp add: check_var_len_def)
qed

lemma region_room:
  assumes "regions_agree p (e # rs) s c" and "unat (off s) = c"
  shows "unat (of_nat e - off s) = e - c"
  using assms region_unat [OF assms(1)] by (subst unat_sub_le) (auto simp: regions_agree_def)

lemma check_var_region_eq:
  assumes "sync p avail Off entry hs s m" and "region_slots p \<le> 65536"
  shows "check_var_region (region_mask p) v s =
    (case m_regions m of
       [] \<Rightarrow> Next s
     | e # _ \<Rightarrow> if m_cursor m + unat v > e then reject PK_R_OUT_OF_REGION_BOUNDS s else Next s)"
proof (cases "m_regions m")
  case Nil
  with assms(1) have r: "regions_agree p [] s (m_cursor m)" by (simp add: sync_def)
  then show ?thesis
    using Nil rsp_zero_iff [OF r assms(2)] by (simp add: check_var_region_def)
next
  case (Cons e rs)
  with assms(1) have r: "regions_agree p (e # rs) s (m_cursor m)"
    and off: "unat (off s) = m_cursor m" by (auto simp: sync_def cur_def)
  have "m_cursor m \<le> e" using r by (simp add: regions_agree_def)
  then have "v > of_nat e - off s \<longleftrightarrow> m_cursor m + unat v > e"
    using region_room [OF r off] by (auto simp: word_less_nat_alt)
  then show ?thesis
    using Cons region_top_eq [OF r assms(2)] rsp_zero_iff [OF r assms(2)]
    by (simp add: check_var_region_def)
qed

lemma var_field_step:
  assumes ok: "packet_ok buf bit_len avail" and sync: "sync p avail Off entry hs s m"
    and fits: "m_cursor m + unat v \<le> avail"
    and slot: "SOff i f \<in> slots" "width (SOff i f) = 64" "SLen i f \<in> slots" "width (SLen i f) = 64"
    and hs': "replay hs' = (replay hs)(SOff i f := of_nat (m_cursor m), SLen i f := v)"
    and regs: "m_regions m \<noteq> [] \<Longrightarrow> m_cursor m + unat v \<le> hd (m_regions m)"
  shows "\<exists>s'. block [store_off (put (SOff i f)), store (put (SLen i f) v), advance Off v] s = Next s' \<and>
    sync p avail Off entry hs' s' (m\<lparr>m_cursor := m_cursor m + unat v\<rparr>)"
proof -
  have B: "bindings p (out s) m" and V: "view hs (out s)" and off: "unat (off s) = m_cursor m"
    and R: "regions_agree p (m_regions m) s (m_cursor m)"
    using sync by (auto simp: sync_def cur_def)
  have off': "off s = of_nat (m_cursor m)" using off by (metis of_nat_unat ucast_id)
  let ?o1 = "put (SOff i f) (off s) (out s)"
  let ?o2 = "put (SLen i f) v ?o1"
  let ?t = "s\<lparr>out := ?o2, off := off s + v\<rparr>"
  have take: "take_bit 64 (w :: u64) = w" for w
    by (simp add: take_bit_word_eq_self)
  have "view hs' ?o2"
    using V slot hs' off' by (auto simp: view_def get_put_if take)
  moreover have "bindings p ?o2 (m\<lparr>m_cursor := m_cursor m + unat v\<rparr>)"
  proof (rule bindings_frame)
    show "bindings p ?o1 m" by (rule bindings_frame [OF B slot(1)]) auto
  qed (use slot in auto)
  moreover have "regions_agree p (m_regions m) ?t (m_cursor m + unat v)"
    by (rule regions_agree_locals [OF R]) (use regions_hd [OF R regs] in auto)
  moreover have "unat (off s + v) = m_cursor m + unat v"
    using fits off packet_ok_small [OF ok] by (simp add: unat_add_u64)
  ultimately have "sync p avail Off entry hs' ?t (m\<lparr>m_cursor := m_cursor m + unat v\<rparr>)"
    using fits by (simp add: sync_def cur_def)
  moreover have "block [store_off (put (SOff i f)), store (put (SLen i f) v), advance Off v] s = Next ?t"
    by (simp add: store_off_def store_def advance_def set_cur_def cur_def)
  ultimately show ?thesis by blast
qed

lemma oob_reason_hd:
  "oob_reason m end_bits =
     (if m_regions m \<noteq> [] \<and> (case end_bits of None \<Rightarrow> True | Some e \<Rightarrow> e > hd (m_regions m))
      then ''out of region bounds'' else ''out of bounds'')"
  by (cases "m_regions m") (auto simp: oob_reason_def split: option.split)

lemma bind_local_Inr: "e s = Inr v \<Longrightarrow> bind_local e body s = block (body v) s"
  by (simp add: bind_local_def)

lemma var_field_ok:
  assumes ok: "packet_ok buf bit_len avail" and cap: "region_slots p \<le> 65536"
    and sync: "sync p avail c entry (m_headers m @ [parsed]) s m"
    and inst: "ph_instance parsed = instance_of ex"
    and c: "c = (if ex_lookahead ex then Poff else Off)"
    and f: "field_width f = BitLen e" "field_ok slots width (instance_of ex) (ex_lookahead ex) f"
  shows "phase_ok p (\<lambda>(m', parsed') s'.
        sync p avail c entry (m_headers m' @ [parsed']) s' m' \<and> ph_instance parsed' = instance_of ex)
      (extract_field p buf avail cur_name ex entry f (m, parsed))
      (block (emit_field p align (reader buf) bit_len get put st (instance_of ex) (ex_lookahead ex) f) s)"
proof -
  let ?i = "instance_of ex" and ?fn = "field_name f"
  have la: "\<not> ex_lookahead ex" and slot: "SOff ?i ?fn \<in> slots" "width (SOff ?i ?fn) = 64"
    "SLen ?i ?fn \<in> slots" "width (SLen ?i ?fn) = 64"
    using f by (auto simp: field_ok_def)
  have c_Off: "c = Off" using c la by simp
  note sync' = sync [unfolded c_Off]
  have R: "regions_agree p (m_regions m) s (m_cursor m)" using sync by (simp add: sync_def)
  have avail: "avail \<le> 8 * length buf" "avail < 2 ^ 63"
    using ok packet_ok_small by (auto simp: packet_ok_def)
  have bound: "read_bound avail m \<le> avail" by (auto simp: read_bound_def split: list.split)
  show ?thesis
  proof (cases "eval_expr e (m_env m) (m_meta m) None")
    case (Inl x)
    then show ?thesis by (simp add: extract_field_def f(1))
  next
    case (Inr v)
    have "expr_c (region_mask p) get e s = Inr v"
      by (rule expr_c_eq [OF Inr _ cap]) (use sync' in \<open>auto simp: sync_def cur_def\<close>)
    note bind = bind_local_Inr [of "expr_c (region_mask p) get e" s v, OF this]
    let ?tail = "[store_off (put (SOff ?i ?fn)), store (put (SLen ?i ?fn) v), advance Off v]"
    have body: "block (emit_field p align (reader buf) bit_len get put st ?i (ex_lookahead ex) f) s =
        then_flow (case m_regions m of [] \<Rightarrow> Next s
            | e # _ \<Rightarrow> if m_cursor m + unat v > e then reject PK_R_OUT_OF_REGION_BOUNDS s else Next s)
          (\<lambda>s. then_flow (check_var_len bit_len v s) (block ?tail))"
      using check_var_region_eq [OF sync' cap, of v] no_regions [OF R] bind
      by (simp add: emit_field_def f(1) la Let_def block_Cons_fun del: block.simps(2))
    note len = check_var_len_eq [OF ok sync', of v]
    note rej = field_reject [OF sync c, of _ "checked_add (unat v) (m_cursor m)" cur_name f]
    let ?fits = "m_cursor m + unat v \<le> read_bound avail m"
    have ca: "(case checked_add (unat v) (m_cursor m) of None \<Rightarrow> True | Some e \<Rightarrow> e > b) \<longleftrightarrow>
        m_cursor m + unat v > b" if "b < 2 ^ 64" for b
      using that by (auto simp: checked_add_def)
    have rb: "read_bound avail m < 2 ^ 64" using bound avail by simp
    show ?thesis
    proof (cases ?fits)
      case False
      then have stop: "extract_field p buf avail cur_name ex entry f (m, parsed) =
          Inr (Stop (extract_fail p cur_name ex entry f (checked_add (unat v) (m_cursor m)) parsed m))"
        using ca [OF rb] by (simp add: extract_field_def f(1) Inr Let_def)
      have hd: "hd (m_regions m) < 2 ^ 64" if "m_regions m \<noteq> []"
        using R that by (cases "m_regions m") (auto simp: regions_agree_def)
      show ?thesis
      proof (cases "m_regions m \<noteq> [] \<and> m_cursor m + unat v > hd (m_regions m)")
        case True
        then have "oob_reason m (checked_add (unat v) (m_cursor m)) = ''out of region bounds''"
          using ca [of "hd (m_regions m)"] hd by (simp add: oob_reason_hd)
        with True show ?thesis
          using rej [of 4] stop unfolding body by (cases "m_regions m") auto
      next
        case inside: False
        then have "oob_reason m (checked_add (unat v) (m_cursor m)) = ''out of bounds''"
          using ca [OF hd] by (auto simp: oob_reason_hd)
        with inside False show ?thesis
          using rej [of 1] stop len unfolding body
          by (cases "m_regions m") (auto simp: read_bound_def)
      qed
    next
      case True
      let ?m = "m\<lparr>m_cursor := m_cursor m + unat v\<rparr>"
      obtain run where run: "read_run buf (m_cursor m) (unat v) = Inr run"
        using read_run_ok [of "m_cursor m" "unat v" buf] True bound avail(1) by auto
      let ?p = "parsed\<lparr>ph_fields := ph_fields parsed @ [\<lparr>pf_name = ?fn, pf_bit_offset = m_cursor m,
          pf_bit_len = unat v, pf_value = BitRun run\<rparr>]\<rparr>"
      have "replay (m_headers m @ [?p]) =
          (replay (m_headers m @ [parsed]))(SOff ?i ?fn := of_nat (m_cursor m), SLen ?i ?fn := v)"
        by (simp add: replay_field field_writes_def inst)
      moreover have "m_regions m \<noteq> [] \<Longrightarrow> m_cursor m + unat v \<le> hd (m_regions m)"
        using True by (cases "m_regions m") (auto simp: read_bound_def)
      ultimately obtain s' where s': "block ?tail s = Next s'"
        "sync p avail Off entry (m_headers m @ [?p]) s' ?m"
        using var_field_step [OF ok sync' _ slot, of v "m_headers m @ [?p]"] True bound by auto
      have "block (emit_field p align (reader buf) bit_len get put st ?i (ex_lookahead ex) f) s = Next s'"
        using True bound len s'(1) unfolding body
        by (auto simp: read_bound_def split: list.splits)
      moreover have "extract_field p buf avail cur_name ex entry f (m, parsed) = Inr (Go (?m, ?p))"
        using True ca [OF rb] run by (simp add: extract_field_def f(1) Inr Let_def)
      ultimately show ?thesis using s'(2) inst c_Off by simp
    qed
  qed
qed

lemma extract_fields_ok:
  assumes ok: "packet_ok buf bit_len avail" and cap: "region_slots p \<le> 65536"
    and c: "c = (if ex_lookahead ex then Poff else Off)"
    and st: "st_extracts st = pre @ ex # post" "distinct (map instance_of (st_extracts st))"
    and ht: "find_header_type p (ex_header_type ex) = Some ht" "distinct (map field_name (ht_fields ht))"
  shows "ht_fields ht = fpre @ fs \<Longrightarrow>
    list_all (field_ok slots width (instance_of ex) (ex_lookahead ex)) fs \<Longrightarrow>
    residue p align st pre fpre (m_cursor m) \<Longrightarrow>
    sync p avail c entry (m_headers m @ [parsed]) s m \<Longrightarrow> ph_instance parsed = instance_of ex \<Longrightarrow>
    phase_ok p (\<lambda>(m', parsed') s'.
        sync p avail c entry (m_headers m' @ [parsed']) s' m' \<and> ph_instance parsed' = instance_of ex)
      (extract_fields p buf avail cur_name ex entry fs (m, parsed))
      (block (concat (map (emit_field p align (reader buf) bit_len get put st (instance_of ex)
         (ex_lookahead ex)) fs)) s)"
proof (induction fs arbitrary: fpre m parsed s)
  case Nil
  then show ?case by simp
next
  case (Cons f fs)
  let ?R = "\<lambda>(m', parsed') s'.
    sync p avail c entry (m_headers m' @ [parsed']) s' m' \<and> ph_instance parsed' = instance_of ex"
  have f: "field_ok slots width (instance_of ex) (ex_lookahead ex) f" using Cons.prems(2) by simp
  have bl: "byte_load_sound p align st (instance_of ex) f (m_cursor m)"
    unfolding byte_load_sound_def
    using residue_alignment [OF Cons.prems(3) st ht(1) Cons.prems(1) ht(2)] by auto
  have one: "phase_ok p ?R (extract_field p buf avail cur_name ex entry f (m, parsed))
      (block (emit_field p align (reader buf) bit_len get put st (instance_of ex) (ex_lookahead ex) f) s)"
  proof (cases "field_width f")
    case (Bits n)
    show ?thesis by (rule fixed_field_ok [OF ok cap Cons.prems(4,5) c Bits f bl])
  next
    case (BitLen e)
    show ?thesis by (rule var_field_ok [OF ok cap Cons.prems(4,5) c BitLen f])
  qed
  have "phase_ok p ?R (then_run (extract_field p buf avail cur_name ex entry f (m, parsed))
        (extract_fields p buf avail cur_name ex entry fs))
      (then_flow (block (emit_field p align (reader buf) bit_len get put st (instance_of ex) (ex_lookahead ex) f) s)
        (block (concat (map (emit_field p align (reader buf) bit_len get put st (instance_of ex)
          (ex_lookahead ex)) fs))))"
  proof (rule phase_ok_then [OF one])
    fix b s'
    assume go: "extract_field p buf avail cur_name ex entry f (m, parsed) = Inr (Go b)" and R: "?R b s'"
    obtain m1 p1 where b: "b = (m1, p1)" by force
    show "phase_ok p ?R (extract_fields p buf avail cur_name ex entry fs b)
      (block (concat (map (emit_field p align (reader buf) bit_len get put st (instance_of ex)
          (ex_lookahead ex)) fs)) s')"
      using Cons.IH [of "fpre @ [f]" m1 p1 s'] Cons.prems(1,2) R
        residue_field [OF Cons.prems(3) go [unfolded b]] unfolding b by simp
  qed
  then show ?case by (simp add: block_append)
qed

lemma sync_end:
  assumes sync: "sync p avail c entry (m_headers m @ [parsed]) s m"
    and c: "c = (if la then Poff else Off)"
  shows "sync p avail Off 0 (m_headers m @ [parsed]) s
    (m\<lparr>m_headers := m_headers m @ [parsed], m_cursor := (if la then entry else m_cursor m)\<rparr>)"
proof -
  have R: "regions_agree p (m_regions m) s (m_cursor m)" using sync by (simp add: sync_def)
  have "regions_agree p (m_regions m) s (if la then entry else m_cursor m)"
    by (rule regions_agree_locals [OF R])
      (use R sync c in \<open>auto simp: sync_def regions_agree_def\<close>)
  then show ?thesis
    using sync c by (auto simp: sync_def bindings_def cur_def)
qed

lemma extract_header_ok:
  assumes ok: "packet_ok buf bit_len avail" and cap: "region_slots p \<le> 65536"
    and st: "st_extracts st = pre @ ex # post" "distinct (map instance_of (st_extracts st))"
    and ex: "extract_ok p slots width ex"
    and res: "residue p align st pre [] (m_cursor m)"
    and sync: "sync p avail Off 0 (m_headers m) s m"
  shows "phase_ok p (\<lambda>m' s'. sync p avail Off 0 (m_headers m') s' m')
      (extract_header p buf avail cur_name ex m)
      (block (emit_extract p align (reader buf) bit_len get put st ex) s)"
proof -
  obtain ht where ht: "find_header_type p (ex_header_type ex) = Some ht" "distinct (map field_name (ht_fields ht))"
    and slot: "SPresent (instance_of ex) \<in> slots" "1 \<le> width (SPresent (instance_of ex))"
    and fs: "list_all (field_ok slots width (instance_of ex) (ex_lookahead ex)) (ht_fields ht)"
    using ex by (auto simp: extract_ok_def split: option.splits)
  let ?c = "if ex_lookahead ex then Poff else Off" and ?i = "instance_of ex"
  let ?p = "\<lparr>ph_instance = ?i, ph_header_type = ht_name ht, ph_start_bit = m_cursor m, ph_fields = []\<rparr>"
  let ?s1 = "s\<lparr>out := put (SPresent ?i) 1 (out s)\<rparr>"
  let ?s2 = "if ex_lookahead ex then ?s1\<lparr>poff := off s\<rparr> else ?s1"
  let ?R = "\<lambda>(m', parsed') s'.
    sync p avail ?c (m_cursor m) (m_headers m' @ [parsed']) s' m' \<and> ph_instance parsed' = ?i"
  have one: "take_bit w (1 :: u64) = 1" if "1 \<le> w" for w using that by (cases w) auto
  have B: "bindings p (out s) m" and V: "view (m_headers m) (out s)" and off: "unat (off s) = m_cursor m"
    and R: "regions_agree p (m_regions m) s (m_cursor m)" and le: "m_cursor m \<le> avail"
    using sync by (auto simp: sync_def cur_def)
  have "view (m_headers m @ [?p]) (put (SPresent ?i) 1 (out s))"
    by (rule view_put [OF V slot(1)]) (use slot(2) in \<open>auto simp: replay_start one\<close>)
  moreover have "bindings p (put (SPresent ?i) 1 (out s)) m"
    by (rule bindings_frame [OF B slot(1)]) auto
  moreover have "regions_agree p (m_regions m) ?s2 (m_cursor m)"
    by (rule regions_agree_locals [OF R]) (use R in \<open>auto simp: regions_agree_def\<close>)
  ultimately have sync2: "sync p avail ?c (m_cursor m) (m_headers m @ [?p]) ?s2 m"
    using off le by (auto simp: sync_def cur_def)
  have body: "block (emit_extract p align (reader buf) bit_len get put st ex) s =
      then_flow (block (concat (map (emit_field p align (reader buf) bit_len get put st ?i
        (ex_lookahead ex)) (ht_fields ht))) ?s2) Next"
    by (auto simp: emit_extract_def ht(1) store_def begin_lookahead_def then_flow_def split: flow.split)
  have fields: "phase_ok p ?R
      (extract_fields p buf avail cur_name ex (m_cursor m) (ht_fields ht) (m, ?p))
      (block (concat (map (emit_field p align (reader buf) bit_len get put st ?i
        (ex_lookahead ex)) (ht_fields ht))) ?s2)"
    by (rule extract_fields_ok [OF ok cap refl st ht _ fs res sync2]) simp_all
  show ?thesis
    unfolding body extract_header_def ht(1) option.case
  proof (rule phase_ok_then [OF fields])
    fix b s'
    assume R: "?R b s'"
    obtain m1 p1 where b: "b = (m1, p1)" by force
    show "phase_ok p (\<lambda>m' s'. sync p avail Off 0 (m_headers m') s' m')
        (case b of (m', parsed) \<Rightarrow> Inr (Go (m'\<lparr>m_headers := m_headers m' @ [parsed],
           m_cursor := if ex_lookahead ex then m_cursor m else m_cursor m'\<rparr>))) (Next s')"
      using sync_end [of p avail ?c "m_cursor m" m1 p1 s' "ex_lookahead ex"] R by (simp add: b)
  qed
qed

lemma extract_headers_ok:
  assumes ok: "packet_ok buf bit_len avail" and cap: "region_slots p \<le> 65536"
    and dist: "distinct (map instance_of (st_extracts st))"
  shows "st_extracts st = pre @ exs \<Longrightarrow> list_all (extract_ok p slots width) exs \<Longrightarrow>
    residue p align st pre [] (m_cursor m) \<Longrightarrow> sync p avail Off 0 (m_headers m) s m \<Longrightarrow>
    phase_ok p (\<lambda>m' s'. sync p avail Off 0 (m_headers m') s' m')
      (extract_headers p buf avail cur_name exs m)
      (block (concat (map (emit_extract p align (reader buf) bit_len get put st) exs)) s)"
proof (induction exs arbitrary: pre m s)
  case Nil
  then show ?case by simp
next
  case (Cons ex exs)
  have ex: "extract_ok p slots width ex" using Cons.prems(2) by simp
  note one = extract_header_ok [OF ok cap Cons.prems(1) dist ex Cons.prems(3,4), of cur_name]
  have "phase_ok p (\<lambda>m' s'. sync p avail Off 0 (m_headers m') s' m')
     (then_run (extract_header p buf avail cur_name ex m) (extract_headers p buf avail cur_name exs))
     (then_flow (block (emit_extract p align (reader buf) bit_len get put st ex) s)
       (block (concat (map (emit_extract p align (reader buf) bit_len get put st) exs))))"
  proof (rule phase_ok_then [OF one])
    fix m1 s1
    assume go: "extract_header p buf avail cur_name ex m = Inr (Go m1)"
      and "sync p avail Off 0 (m_headers m1) s1 m1"
    then show "phase_ok p (\<lambda>m' s'. sync p avail Off 0 (m_headers m') s' m')
        (extract_headers p buf avail cur_name exs m1)
        (block (concat (map (emit_extract p align (reader buf) bit_len get put st) exs)) s1)"
      using Cons.IH [of "pre @ [ex]" m1 s1] Cons.prems(1-3) extract_header_go [OF go, of align st pre]
      by simp
  qed
  then show ?case by (simp add: block_append)
qed

end

end
