(* ===== verification/Codegen_Correct.thy ===== *)
theory Codegen_Correct
  imports Codegen_Extract
begin

text \<open>
  The emitted C refines the reference interpreter, continued: metadata assignments, sized regions,
  the transition of a state, the dispatch on the state number and the depth-bounded loop. The result
  is \<open>emit_core_refines\<close>: on every packet the memory can hold, whenever the interpreter produces a
  result at all, the emitted core returns, without any fault, a struct that agrees with it.
\<close>

section \<open>What the interpreter's phases leave unchanged\<close>

lemma run_assigns_go:
  "run_assigns p as m = Inr (Go m') \<Longrightarrow>
   m_regions m' = m_regions m \<and> m_cursor m' = m_cursor m \<and> m_headers m' = m_headers m"
proof (induction as arbitrary: m)
  case Nil
  then show ?case by simp
next
  case (Cons a as)
  then obtain m1 where 1: "run_assign p a m = Inr (Go m1)" and 2: "run_assigns p as m1 = Inr (Go m')"
    by (auto simp: then_run_Go)
  have "m_regions m1 = m_regions m \<and> m_cursor m1 = m_cursor m \<and> m_headers m1 = m_headers m"
    using 1 by (auto simp: run_assign_def and_then_Inr split: option.splits)
  then show ?case using Cons.IH [OF 2] by simp
qed

lemma run_region_op_go:
  assumes "run_region_op p avail cn op m = Inr (Go m')"
  shows "m_cursor m' = m_cursor m \<and> m_headers m' = m_headers m \<and>
    length (m_regions m') = (case op of Push _ \<Rightarrow> Suc (length (m_regions m)) | Pop \<Rightarrow> length (m_regions m) - 1)"
proof (cases op)
  case (Push e)
  with assms obtain v where v: "eval_expr e (m_env m) (m_meta m) (remaining_here m) = Inr v"
    by (auto simp: run_region_op_def and_then_Inr)
  show ?thesis
    using assms unfolding Push run_region_op_def region_op.case v and_then_simps
    by (auto split: option.splits list.splits if_splits)
next
  case Pop
  then show ?thesis using assms by (auto simp: run_region_op_def split: list.splits if_splits)
qed

lemma run_region_ops_go:
  "run_region_ops p avail cn ops m = Inr (Go m') \<Longrightarrow> depth_after cap ops (length (m_regions m)) = Some d \<Longrightarrow>
   m_cursor m' = m_cursor m \<and> m_headers m' = m_headers m \<and> length (m_regions m') = d"
proof (induction ops arbitrary: m)
  case Nil
  then show ?case by simp
next
  case (Cons op ops)
  from Cons.prems(1) obtain m1 where 1: "run_region_op p avail cn op m = Inr (Go m1)"
    and 2: "run_region_ops p avail cn ops m1 = Inr (Go m')"
    by (auto simp: then_run_Go)
  show ?case
    using Cons.IH [OF 2] run_region_op_go [OF 1] Cons.prems(2)
    by (auto split: region_op.splits if_splits)
qed

lemma set_decision_sel [simp]:
  "m_env (set_decision d m) = m_env m" "m_cursor (set_decision d m) = m_cursor m"
  "m_regions (set_decision d m) = m_regions m" "m_meta (set_decision d m) = m_meta m"
  "m_headers (set_decision d m) = m_headers m"
  by (simp_all add: set_decision_def)

lemma choose_target_go:
  assumes "choose_target p cn tr m = Inr (Go (m', t))"
  shows "(\<exists>d. m' = set_decision d m) \<and> t \<in> set (targets_of tr)"
proof (cases tr)
  case (Direct t')
  then show ?thesis using assms by (auto simp: choose_target_def)
next
  case (Select keys arms dflt)
  with assms obtain ks where ks: "eval_keys keys m = Inr ks"
    by (auto simp: choose_target_def and_then_Inr)
  show ?thesis
    using assms unfolding Select choose_target_def transition.case ks and_then_simps
    by (auto dest!: arm_position_target split: option.splits)
qed

lemma run_state_go:
  assumes "run_state p packet avail st m = Inr (Go (m', n))"
    and "depth_after cap (st_region_ops st) (length (m_regions m)) = Some d"
    and "residue p align st [] [] (m_cursor m)"
  shows "ToState n \<in> set (targets_of (st_transition st)) \<and> length (m_regions m') = d \<and>
    residue p align st (st_extracts st) [] (m_cursor m')"
proof -
  from assms(1) obtain m1 m2 m3 m4 t where
    1: "extract_headers p packet avail (st_name st) (st_extracts st) m = Inr (Go m1)" and
    2: "run_assigns p (st_assigns st) m1 = Inr (Go m2)" and
    3: "run_region_ops p avail (st_name st) (st_region_ops st) m2 = Inr (Go m3)" and
    4: "choose_target p (st_name st) (st_transition st) m3 = Inr (Go (m4, t))" and
    5: "run_target p (st_name st) (m4, t) = Inr (Go (m', n))"
    by (auto simp: run_state_def then_run_Go)
  have "t = ToState n" "m' = m4"
    using 5 by (auto simp: run_target_def split: target.splits)
  moreover have "length (m_regions m2) = length (m_regions m)"
    using run_assigns_go [OF 2] extract_headers_go [OF 1] by simp
  ultimately show ?thesis
    using choose_target_go [OF 4] run_region_ops_go [OF 3, of cap d] run_assigns_go [OF 2]
      extract_headers_go [OF 1, of align st "[]"] assms(2,3)
    by auto
qed

section \<open>The dispatch\<close>

lemma map_fst_number_from [simp]: "map fst (number_from k xs) = xs"
  by (induction xs arbitrary: k) auto

lemma number_from_nth: "i < length xs \<Longrightarrow> (xs ! i, k + i) \<in> set (number_from k xs)"
proof (induction xs arbitrary: k i)
  case Nil
  then show ?case by simp
next
  case (Cons x xs)
  then show ?case using Cons.IH [of "i - 1" "Suc k"] by (cases i) auto
qed

lemma state_id_nth:
  assumes "core_compiles p" and "i < length (p_states p)"
  shows "state_id p (st_name (p_states p ! i)) = of_nat i"
proof -
  let ?ms = "map (state_macro \<circ> st_name) (p_states p)"
  have "distinct ?ms" using assms(1) by (simp add: core_compiles_def state_defines_def)
  then have "distinct (map fst (rev (number_from 0 ?ms)))" by (simp add: rev_map [symmetric])
  then have "map_of (rev (state_defines p)) (?ms ! i) = Some i"
    using number_from_nth [of i ?ms 0] assms(2) unfolding state_defines_def
    by (intro map_of_is_SomeI) auto
  then show ?thesis using assms(2) by (simp add: state_id_def)
qed

lemma find_mem: "find P xs = Some y \<Longrightarrow> y \<in> set xs \<and> P y"
  by (induction xs) (auto split: if_splits)

lemma switch_label:
  assumes "inj_on (\<lambda>x. label (name x)) (set xs)" and "find (\<lambda>x. name x = n) xs = Some y"
    and "cur_state s = label n"
  shows "switch (map (\<lambda>x. (label (name x), body x)) xs) s = block (body y) s"
  using assms
proof (induction xs)
  case Nil
  then show ?case by simp
next
  case (Cons x xs)
  have y: "y \<in> set (x # xs) \<and> name y = n"
    using Cons.prems(2) by (auto split: if_splits dest: find_mem)
  then have "label (name x) = label n \<Longrightarrow> x = y"
    using Cons.prems(1) by (auto simp: inj_on_def)
  then show ?case using Cons y by (auto split: if_splits)
qed

lemma emit_switch_eq:
  assumes compiles: "core_compiles p" and find: "find_state p n = Some st"
    and few: "length (p_states p) \<le> 65536" and s: "cur_state s = state_id p n"
  shows "emit_switch p align rd bit_len get put s = block (emit_state p align rd bit_len get put st) s"
proof -
  have "inj_on (\<lambda>st. state_id p (st_name st)) (set (p_states p))"
  proof (rule inj_onI)
    fix x y
    assume x: "x \<in> set (p_states p)" and y: "y \<in> set (p_states p)"
      and eq: "state_id p (st_name x) = state_id p (st_name y)"
    obtain i j where ij: "i < length (p_states p)" "x = p_states p ! i"
      "j < length (p_states p)" "y = p_states p ! j"
      using x y by (auto simp: in_set_conv_nth)
    then have "(of_nat i :: u32) = of_nat j" using eq state_id_nth [OF compiles] by simp
    then have "unat (of_nat i :: u32) = unat (of_nat j :: u32)" by simp
    then show "x = y" using ij few by (simp add: unat_of_nat)
  qed
  then show ?thesis
    unfolding emit_switch_def
    by (rule switch_label) (use find s in \<open>simp_all add: find_state_def\<close>)
qed

context emitted_parser
begin

text \<open>The relation between two phases of a state: the cursors are level again.\<close>

definition level :: "parser \<Rightarrow> nat \<Rightarrow> machine \<Rightarrow> 'a pk_result_scheme locals \<Rightarrow> bool" where
  "level p avail m s \<longleftrightarrow> sync p avail Off 0 (m_headers m) s m"

lemma levelD:
  assumes "level p avail m s"
  shows "unat (off s) = m_cursor m" "m_cursor m \<le> avail" "bindings p (out s) m"
    "view (m_headers m) (out s)" "regions_agree p (m_regions m) s (m_cursor m)"
    "off s = of_nat (m_cursor m)"
proof -
  show off: "unat (off s) = m_cursor m"
    using assms by (simp add: level_def sync_def cur_def)
  show "m_cursor m \<le> avail" "bindings p (out s) m" "view (m_headers m) (out s)"
    "regions_agree p (m_regions m) s (m_cursor m)"
    using assms by (simp_all add: level_def sync_def)
  show "off s = of_nat (m_cursor m)"
    using off by (metis of_nat_unat ucast_id)
qed

lemma levelI:
  "unat (off s) = m_cursor m \<Longrightarrow> m_cursor m \<le> avail \<Longrightarrow> bindings p (out s) m \<Longrightarrow>
   view (m_headers m) (out s) \<Longrightarrow> regions_agree p (m_regions m) s (m_cursor m) \<Longrightarrow> level p avail m s"
  by (simp add: level_def sync_def cur_def)

lemma level_expr:
  assumes "level p avail m s" and "region_slots p \<le> 65536"
    and "eval_expr e (m_env m) (m_meta m) (remaining_here m) = Inr v"
  shows "expr_c (region_mask p) get e s = Inr v"
  using levelD [OF assms(1)] by (intro expr_c_eq [OF assms(3) _ assms(2)]) auto

section \<open>Assignments\<close>

lemma assign_ok:
  assumes level: "level p avail m s" and cap: "region_slots p \<le> 65536"
    and meta: "list_all (metadata_ok slots width) (p_metadata p)"
  shows "phase_ok p (level p avail) (run_assign p a m) (emit_assign p get put a s)"
proof (cases "eval_expr (as_value a) (m_env m) (m_meta m) (remaining_here m)")
  case (Inl e)
  then show ?thesis by (simp add: run_assign_def)
next
  case (Inr v)
  show ?thesis
  proof (cases "find_metadata p (as_metadata a)")
    case None
    then show ?thesis by (simp add: run_assign_def Inr)
  next
    case (Some d)
    let ?x = "SMeta (as_metadata a)"
    let ?v = "if md_bits d \<ge> 64 then v else v AND (push_bit (md_bits d) 1 - 1)"
    have slot: "?x \<in> slots" "width ?x = 64"
      using find_metadataD [OF Some] meta by (auto simp: list_all_iff metadata_ok_def)
    let ?s = "s\<lparr>out := put ?x ?v (out s)\<rparr>"
    have take: "take_bit 64 (w :: u64) = w" for w
      by (simp add: take_bit_word_eq_self)
    have "emit_assign p get put a s = Next ?s"
      using level_expr [OF level cap Inr] Some
      by (simp add: emit_assign_def store_exp_def store_def c_and_def c_bin_def c_const_def)
    moreover have "bindings p (out ?s) (m\<lparr>m_meta := (m_meta m)(as_metadata a \<mapsto> ?v)\<rparr>)"
      using levelD(3) [OF level] slot by (auto simp: bindings_def get_put_if take)
    moreover have "view (m_headers m) (out ?s)"
      using levelD(4) [OF level] slot by (auto simp: view_def get_put_if)
    moreover have "regions_agree p (m_regions m) ?s (m_cursor m)"
      using levelD(5) [OF level] by (simp add: regions_agree_def)
    ultimately show ?thesis
      using levelD(1,2) [OF level] by (auto simp: run_assign_def Inr Some intro!: levelI)
  qed
qed

lemma assigns_ok:
  assumes cap: "region_slots p \<le> 65536"
    and meta: "list_all (metadata_ok slots width) (p_metadata p)"
  shows "level p avail m s \<Longrightarrow>
    phase_ok p (level p avail) (run_assigns p as m) (block (map (emit_assign p get put) as) s)"
proof (induction as arbitrary: m s)
  case Nil
  then show ?case by simp
next
  case (Cons a as)
  show ?case
    unfolding run_assigns.simps list.map block_Cons
    by (rule phase_ok_then [OF assign_ok [OF Cons.prems cap meta]]) (rule Cons.IH)
qed

section \<open>Region operations\<close>

lemma plain_reject_agrees:
  assumes "level p avail m s" and "r = expected_reason p (plain_reject p why st sev m)"
  shows "\<exists>ret o'. reject r s = Return ret o' \<and>
    result_agrees p get slots (plain_reject p why st sev m) ret o'"
  using finish_agrees [of p s m "plain_reject p why st sev m" 1 r] levelD [OF assms(1)] assms(2)
  by (force simp: reject_def mk_reject_def)

lemma expected_reason_plain:
  "expected_reason p (mk_reject p why st sev None c hs m) =
     (if why = ''out of bounds'' then PK_R_REGION_NOT_EXHAUSTED else reason_number p why)"
  by (simp add: expected_reason_def pop_truncated_def mk_reject_def)

text \<open>The clamp never fires: a well-formed description opens fewer regions than there are slots.\<close>

lemma push_tail:
  assumes level: "level p avail m s" and cap: "region_slots p \<le> 65536"
    and room: "length (m_regions m) < region_slots p"
    and fits: "unat v + m_cursor m < 2 ^ 64"
    and inner: "m_regions m \<noteq> [] \<Longrightarrow> unat v + m_cursor m \<le> hd (m_regions m)"
  shows "\<exists>s'. block [push_clamp (region_mask p), push_store (region_mask p) v] s = Next s' \<and>
    level p avail (m\<lparr>m_regions := (unat v + m_cursor m) # m_regions m\<rparr>) s'"
proof -
  let ?k = "length (m_regions m)" and ?e = "unat v + m_cursor m"
  note R = levelD(5) [OF level]
  have rsp: "rsp s = of_nat ?k" and len: "length (region_end s) = region_slots p"
    using R by (auto simp: regions_agree_def)
  have idx: "unat (rsp s AND region_mask p) = ?k"
    using region_mask_and [OF room cap] rsp by simp
  have "unat (rsp s) = ?k" using rsp room cap by (simp add: unat_of_nat)
  moreover have "unat (region_mask p) = region_slots p - 1"
    using cap by (simp add: region_mask_def unat_of_nat)
  ultimately have "\<not> rsp s > region_mask p"
    using room by (simp add: word_less_nat_alt)
  let ?t = "s\<lparr>region_end := (region_end s)[?k := Some (off s + v)], rsp := rsp s + 1\<rparr>"
  have e: "off s + v = of_nat ?e" using levelD(6) [OF level] by (simp add: add.commute)
  have "regions_agree p (?e # m_regions m) ?t (m_cursor m)"
    using R room fits inner regions_hd [OF R] e len
    by (cases "m_regions m") (auto simp: regions_agree_def nth_append nth_list_update less_Suc_eq)
  then have "level p avail (m\<lparr>m_regions := ?e # m_regions m\<rparr>) ?t"
    using levelD(1-4) [OF level] by (intro levelI) (auto simp: bindings_def)
  moreover have "block [push_clamp (region_mask p), push_store (region_mask p) v] s = Next ?t"
    using \<open>\<not> rsp s > region_mask p\<close> idx room len by (simp add: push_clamp_def push_store_def)
  ultimately show ?thesis by blast
qed

lemma push_check_eq:
  assumes level: "level p avail m s" and cap: "region_slots p \<le> 65536"
  shows "push_check (region_mask p) v s =
    (if unat v + m_cursor m \<ge> 2 ^ 64 \<or> (m_regions m \<noteq> [] \<and> unat v + m_cursor m > hd (m_regions m))
     then reject PK_R_REGION_OUT_OF_BOUNDS s else Next s)"
proof (cases "m_regions m")
  case Nil
  have R: "regions_agree p [] s (m_cursor m)" using levelD(5) [OF level] Nil by simp
  have "unat (0xffffffffffffffff - off s) = 18446744073709551615 - m_cursor m"
    using levelD(1) [OF level] unat_u64_less [of "off s"] by (subst unat_sub_le) auto
  then have "v > 0xffffffffffffffff - off s \<longleftrightarrow> unat v + m_cursor m \<ge> 2 ^ 64"
    using levelD(1) [OF level] unat_u64_less [of "off s"]
    by (auto simp: word_less_nat_alt simp del: unat_u64_less)
  then show ?thesis
    using rsp_zero_iff [OF R cap] Nil by (simp add: push_check_def)
next
  case (Cons e rs)
  have R: "regions_agree p (e # rs) s (m_cursor m)" using levelD(5) [OF level] Cons by simp
  have "m_cursor m \<le> e" "e < 2 ^ 64" using R by (auto simp: regions_agree_def)
  then have "v > of_nat e - off s \<longleftrightarrow> unat v + m_cursor m > e"
    "unat v + m_cursor m \<ge> 2 ^ 64 \<Longrightarrow> unat v + m_cursor m > e"
    using region_room [OF R levelD(1) [OF level]] by (auto simp: word_less_nat_alt)
  then show ?thesis
    using rsp_zero_iff [OF R cap] region_top_eq [OF R cap] Cons by (auto simp: push_check_def)
qed

lemma push_ok:
  assumes level: "level p avail m s" and cap: "region_slots p \<le> 65536"
    and room: "length (m_regions m) < region_slots p"
  shows "phase_ok p (level p avail) (run_region_op p avail st (Push e) m)
    (block (emit_region_op p get (Push e)) s)"
proof (cases "eval_expr e (m_env m) (m_meta m) (remaining_here m)")
  case (Inl x)
  then show ?thesis by (simp add: run_region_op_def)
next
  case (Inr v)
  let ?e = "unat v + m_cursor m"
  let ?out = "?e \<ge> 2 ^ 64 \<or> (m_regions m \<noteq> [] \<and> ?e > hd (m_regions m))"
  have body: "block (emit_region_op p get (Push e)) s =
      then_flow (push_check (region_mask p) v s)
        (block [push_clamp (region_mask p), push_store (region_mask p) v])"
    using bind_local_Inr [of "expr_c (region_mask p) get e" s v, OF level_expr [OF level cap Inr]]
    by (simp add: emit_region_op_def Let_def block_Cons_fun del: block.simps(2))
  show ?thesis
  proof (cases ?out)
    case True
    then have "run_region_op p avail st (Push e) m =
        Inr (Stop (plain_reject p ''region out of bounds'' st SevError m))"
      by (cases "m_regions m") (auto simp: run_region_op_def Inr checked_add_def)
    then show ?thesis
      using True plain_reject_agrees [OF level, of 5 "''region out of bounds''" st SevError]
      unfolding body push_check_eq [OF level cap] by (auto simp: expected_reason_plain)
  next
    case False
    then have "run_region_op p avail st (Push e) m = Inr (Go (m\<lparr>m_regions := ?e # m_regions m\<rparr>))"
      by (cases "m_regions m") (auto simp: run_region_op_def Inr checked_add_def)
    then show ?thesis
      using False push_tail [OF level cap room, of v]
      unfolding body push_check_eq [OF level cap] by (auto simp: not_le)
  qed
qed

lemma pop_ok:
  assumes level: "level p avail m s" and cap: "region_slots p \<le> 65536"
  shows "phase_ok p (level p avail) (run_region_op p avail st Pop m)
    (block (emit_region_op p get Pop) s)"
proof (cases "m_regions m")
  case Nil
  then show ?thesis by (simp add: run_region_op_def)
next
  case (Cons e rest)
  have R: "regions_agree p (e # rest) s (m_cursor m)" using levelD(5) [OF level] Cons by simp
  have nz: "rsp s \<noteq> 0" using rsp_zero_iff [OF R cap] by simp
  let ?s = "s\<lparr>rsp := rsp s - 1\<rparr>"
  have top: "region_slot (rsp ?s AND region_mask p) ?s = Inr (of_nat e)"
    using region_top_eq [OF R cap] by (simp add: region_top_def region_slot_def split: if_split_asm)
  have lt: "off s < of_nat e \<longleftrightarrow> m_cursor m < e"
    using region_unat [OF R] levelD(1) [OF level] by (simp add: word_less_nat_alt)
  have body: "block (emit_region_op p get Pop) s =
      (if m_cursor m < e then reject PK_R_REGION_NOT_EXHAUSTED ?s else Next ?s)"
    using nz top lt by (simp add: emit_region_op_def Let_def pop_guard_def pop_dec_def pop_check_def
        reject_def finish_def)
  show ?thesis
  proof (cases "m_cursor m < e")
    case True
    let ?why = "if e > avail then ''out of bounds'' else ''region not exhausted''"
    have "reject PK_R_REGION_NOT_EXHAUSTED ?s = reject PK_R_REGION_NOT_EXHAUSTED s"
      by (simp add: reject_def finish_def)
    then show ?thesis
      using True plain_reject_agrees [OF level, of 6 ?why st SevError] unfolding body
      by (auto simp: expected_reason_plain run_region_op_def Cons)
  next
    case False
    have "regions_agree p rest ?s (m_cursor m)"
      using R by (auto simp: regions_agree_def nth_append)
    then have "level p avail (m\<lparr>m_regions := rest\<rparr>) ?s"
      using levelD(1-4) [OF level] by (intro levelI) (auto simp: bindings_def)
    then show ?thesis
      using False unfolding body by (simp add: run_region_op_def Cons)
  qed
qed

lemma region_ops_ok:
  assumes cap: "region_slots p \<le> 65536"
  shows "level p avail m s \<Longrightarrow> depth_after (region_slots p) ops (length (m_regions m)) \<noteq> None \<Longrightarrow>
    phase_ok p (level p avail) (run_region_ops p avail st ops m)
      (block (concat (map (emit_region_op p get) ops)) s)"
proof (induction ops arbitrary: m s)
  case Nil
  then show ?case by simp
next
  case (Cons op ops)
  have one: "phase_ok p (level p avail) (run_region_op p avail st op m)
      (block (emit_region_op p get op) s)"
    using push_ok [OF Cons.prems(1) cap] pop_ok [OF Cons.prems(1) cap] Cons.prems(2)
    by (cases op) (auto split: if_splits)
  show ?case
    unfolding run_region_ops.simps list.map concat.simps block_append
  proof (rule phase_ok_then [OF one])
    fix m1 s1
    assume go: "run_region_op p avail st op m = Inr (Go m1)" and "level p avail m1 s1"
    then show "phase_ok p (level p avail) (run_region_ops p avail st ops m1)
        (block (concat (map (emit_region_op p get) ops)) s1)"
      using Cons.IH [of m1 s1] Cons.prems(2) run_region_op_go [OF go]
      by (auto split: region_op.splits if_splits)
  qed
qed

section \<open>Transitions\<close>

text \<open>How a whole state ends: a jump to the next state's number, or a result.\<close>

definition jump_ok :: "parser \<Rightarrow> nat \<Rightarrow> (machine \<times> string) phase \<Rightarrow> 'a pk_result_scheme flow \<Rightarrow> bool" where
  "jump_ok p avail r fl =
     (case r of
        Inl _ \<Rightarrow> True
      | Inr (Go (m, n)) \<Rightarrow> (\<exists>s. fl = Continue s \<and> level p avail m s \<and> cur_state s = state_id p n)
      | Inr (Stop res) \<Rightarrow> (\<exists>ret o'. fl = Return ret o' \<and> result_agrees p get slots res ret o'))"

lemma jump_ok_then:
  assumes "phase_ok p R r fl" and "\<And>b s. r = Inr (Go b) \<Longrightarrow> R b s \<Longrightarrow> jump_ok p avail (f b) (c s)"
  shows "jump_ok p avail (then_run r f) (then_flow fl c)"
proof (cases r f rule: then_run_cases)
  case (err e)
  then show ?thesis by (simp add: jump_ok_def)
next
  case (go a)
  then show ?thesis using assms by auto
next
  case (stop res)
  then show ?thesis using assms(1) by (auto simp: jump_ok_def)
qed

lemma target_ok:
  assumes level: "level p avail m s"
    and oob: "\<And>r sev. t = Reject r sev \<Longrightarrow> r \<noteq> ''out of bounds'' \<and> reason_code p r = reason_number p r"
  shows "jump_ok p avail (run_target p st (m, t)) (emit_target p t s)"
proof (cases t)
  case (ToState n)
  have "level p avail m (s\<lparr>cur_state := state_id p n\<rparr>)"
    using levelD [OF level] by (intro levelI) (auto simp: regions_agree_def)
  then show ?thesis by (simp add: ToState jump_ok_def run_target_def emit_target_def goto_def)
next
  case Accept
  let ?res = "\<lparr>pr_outcome = Accepted, pr_headers = m_headers m, pr_trace = m_trace m, pr_error = None,
    pr_consumed_bits = m_cursor m, pr_metadata = final_meta p (m_meta m)\<rparr>"
  show ?thesis
    using finish_agrees [of p s m ?res 0 0] levelD [OF level]
    by (auto simp: Accept jump_ok_def run_target_def emit_target_def accept_def
        expected_reason_def)
next
  case (Reject r' sev')
  then show ?thesis
    using plain_reject_agrees [OF level, of "reason_code p r'" r' st sev'] oob
    by (cases "r' = ''out of bounds''")
      (auto simp: jump_ok_def run_target_def emit_target_def expected_reason_plain)
qed

lemma level_decision: "level p avail (set_decision d m) s = level p avail m s"
  by (simp add: level_def sync_def bindings_def)

text \<open>No target rejects for the reason that names a truncation, and the enumerators have the table's values.\<close>

definition no_oob :: "parser \<Rightarrow> target list \<Rightarrow> bool" where
  "no_oob p ts =
     (\<forall>r sev. Reject r sev \<in> set ts \<longrightarrow> r \<noteq> ''out of bounds'' \<and> reason_code p r = reason_number p r)"

lemma target_in_ok:
  assumes "level p avail m s" and "no_oob p ts" and "t \<in> set ts"
  shows "jump_ok p avail (run_target p st (m, t)) (emit_target p t s)"
  by (rule target_ok [OF assms(1)]) (use assms(2,3) in \<open>auto simp: no_oob_def\<close>)

lemma eval_keys_length: "eval_keys ks m = Inr vs \<Longrightarrow> length vs = length ks"
  by (induction ks arbitrary: vs) (auto simp: and_then_Inr)

lemma bind_keys_ok:
  assumes "level p avail m s" and "region_slots p \<le> 65536"
  shows "eval_keys keys m = Inr vs \<Longrightarrow>
    bind_keys (map (expr_c (region_mask p) get) keys) pre body s = body (pre @ vs) s"
proof (induction keys arbitrary: pre vs)
  case Nil
  then show ?case by simp
next
  case (Cons k ks)
  then obtain v ws where v: "eval_expr k (m_env m) (m_meta m) (remaining_here m) = Inr v"
    and ws: "eval_keys ks m = Inr ws" "vs = v # ws"
    by (auto simp: and_then_Inr)
  show ?case
    using Cons.IH [OF ws(1), of "pre @ [v]"] ws(2)
      bind_local_Inr [of "expr_c (region_mask p) get k" s v, OF level_expr [OF assms v]]
    by (simp del: block.simps(2))
qed

lemma arms_ok_select:
  assumes "list_all (\<lambda>a. length (arm_entries a) = length ks) arms"
  shows "emit_arms p ks arms dflt =
    (case arm_position ks arms i of
       Some (_, t) \<Rightarrow> emit_target p t
     | None \<Rightarrow> (case dflt of Some t \<Rightarrow> emit_target p t | None \<Rightarrow> reject PK_R_NO_MATCHING_SELECT_ARM))"
  using assms
proof (induction arms arbitrary: i)
  case Nil
  then show ?case by simp
next
  case (Cons a as)
  then show ?case
    by (auto simp: fun_eq_iff branch_def arm_matches_def conds_c_eq)
qed

lemma transition_ok:
  assumes level: "level p avail m s" and cap: "region_slots p \<le> 65536"
    and arms: "arms_ok tr" and oob: "no_oob p (targets_of tr)"
  shows "jump_ok p avail (then_run (choose_target p st tr m) (run_target p st)) (emit_transition p get tr s)"
proof (cases tr)
  case (Direct t)
  then show ?thesis
    using target_in_ok [of p avail "set_decision DDirect m" s "targets_of tr" t] level oob
    by (simp add: choose_target_def emit_transition_def level_decision)
next
  case (Select keys arms' dflt)
  show ?thesis
  proof (cases "eval_keys keys m")
    case (Inl e)
    then show ?thesis by (simp add: Select choose_target_def jump_ok_def)
  next
    case (Inr ks)
    have len: "list_all (\<lambda>a. length (arm_entries a) = length ks) arms'"
      using arms eval_keys_length [OF Inr] by (simp add: Select arms_ok_def)
    have emit: "emit_transition p get tr s = emit_arms p ks arms' dflt s"
      using bind_keys_ok [OF level cap Inr] by (simp add: Select emit_transition_def)
    show ?thesis
    proof (cases "arm_position ks arms' 0")
      case (Some it)
      obtain i t where it: "it = (i, t)" by force
      have "t \<in> set (targets_of tr)"
        using arm_position_target Some it by (auto simp: Select)
      then show ?thesis
        using target_in_ok [of p avail "set_decision (DArm i) m" s "targets_of tr" t] level oob Some it
        unfolding emit arms_ok_select [OF len, of p dflt 0]
        by (simp add: Select choose_target_def Inr level_decision)
    next
      case None
      show ?thesis
      proof (cases dflt)
        case (Some t)
        then show ?thesis
          using target_in_ok [of p avail "set_decision DDefault m" s "targets_of tr" t] level oob None
          unfolding emit arms_ok_select [OF len, of p dflt 0]
          by (simp add: Select choose_target_def Inr level_decision)
      next
        case dNone: None
        have "level p avail (set_decision DDefault m) s" using level by (simp add: level_decision)
        from plain_reject_agrees [OF this, of 3 "''no matching select arm''" st SevError]
        show ?thesis
          using None dNone unfolding emit arms_ok_select [OF len, of p dflt 0]
          by (auto simp: Select choose_target_def Inr jump_ok_def expected_reason_plain)
      qed
    qed
  qed
qed

section \<open>A state\<close>

lemma emit_state_ok:
  assumes packet: "packet_ok buf bit_len avail" and ok: "emit_within p names align depth slots width" "fits_u32 p"
    and n: "n \<in> set names" and st: "find_state p n = Some st"
    and level: "level p avail m s"
    and res: "residue p align st [] [] (m_cursor m)"
    and depth: "length (m_regions m) = depth (st_name st)"
  shows "jump_ok p avail (run_state p buf avail st m)
    (block (emit_state p align (reader buf) bit_len get put st) s)"
proof -
  have cap: "region_slots p \<le> 65536" and meta: "list_all (metadata_ok slots width) (p_metadata p)"
    and sok: "state_ok p names (region_slots p) align depth slots width st"
    and rr: "''out of bounds'' \<notin> set (reject_reasons p)" and compiles: "core_compiles p"
    using ok n st by (auto simp: emit_within_def fits_u32_def)
  have exs: "list_all (extract_ok p slots width) (st_extracts st)"
    and dist: "distinct (map instance_of (st_extracts st))"
    and regs: "depth_after (region_slots p) (st_region_ops st) (depth (st_name st)) \<noteq> None"
    and arms: "arms_ok (st_transition st)"
    using sok by (auto simp: state_ok_def)
  have oob: "no_oob p (targets_of (st_transition st))"
    unfolding no_oob_def
  proof (intro allI impI)
    fix r sev
    assume "Reject r sev \<in> set (targets_of (st_transition st))"
    then have r: "r \<in> set (reject_reasons p)"
      using find_stateD [OF st] by (force simp: reject_reasons_def)
    have "distinct (map fst (reason_enum p))" using compiles by (simp add: core_compiles_def)
    from reason_code_number [OF this reject_reasons_numbered [OF r]] r rr
    show "r \<noteq> ''out of bounds'' \<and> reason_code p r = reason_number p r" by auto
  qed
  note extracts = extract_headers_ok [OF packet cap dist, of "[]" "st_extracts st" align m s "st_name st"]
  show ?thesis
    unfolding emit_state_def run_state_def
  proof (subst block_append, rule jump_ok_then [where R = "level p avail"])
    show "phase_ok p (level p avail) (extract_headers p buf avail (st_name st) (st_extracts st) m)
        (block (concat (map (emit_extract p align (reader buf) bit_len get put st) (st_extracts st))) s)"
      using extracts exs res level by (simp add: level_def [abs_def])
  next
    fix m1 s1
    assume go1: "extract_headers p buf avail (st_name st) (st_extracts st) m = Inr (Go m1)"
      and l1: "level p avail m1 s1"
    show "jump_ok p avail (then_run (run_assigns p (st_assigns st) m1) (\<lambda>m.
         then_run (run_region_ops p avail (st_name st) (st_region_ops st) m) (\<lambda>m.
         then_run (choose_target p (st_name st) (st_transition st) m) (run_target p (st_name st)))))
       (block (map (emit_assign p get put) (st_assigns st) @
          concat (map (emit_region_op p get) (st_region_ops st)) @
             [emit_transition p get (st_transition st)]) s1)"
    proof (subst block_append, rule jump_ok_then [OF assigns_ok [OF cap meta l1]])
      fix m2 s2
      assume go2: "run_assigns p (st_assigns st) m1 = Inr (Go m2)" and l2: "level p avail m2 s2"
      have d2: "depth_after (region_slots p) (st_region_ops st) (length (m_regions m2)) \<noteq> None"
        using regs depth run_assigns_go [OF go2] extract_headers_go [OF go1] by simp
      show "jump_ok p avail (then_run (run_region_ops p avail (st_name st) (st_region_ops st) m2) (\<lambda>m.
         then_run (choose_target p (st_name st) (st_transition st) m) (run_target p (st_name st))))
       (block (concat (map (emit_region_op p get) (st_region_ops st)) @
          [emit_transition p get (st_transition st)]) s2)"
      proof (subst block_append, rule jump_ok_then [OF region_ops_ok [OF cap l2 d2]])
        fix m3 s3
        assume "level p avail m3 s3"
        then show "jump_ok p avail
            (then_run (choose_target p (st_name st) (st_transition st) m3) (run_target p (st_name st)))
            (block [emit_transition p get (st_transition st)] s3)"
          unfolding block_single by (rule transition_ok [OF _ cap arms oob])
      qed
    qed
  qed
qed

section \<open>The loop\<close>

lemma level_enter: "level p avail (enter n m) s = level p avail m s"
  by (simp add: level_def sync_def bindings_def enter_def)

lemma edge_residue:
  assumes "edge_ok names align depth (exit_residue p align st) d (ToState n)"
    and "residue p align st (st_extracts st) [] q" and "find_state p n = Some st'"
  shows "residue p align st' [] [] q"
proof -
  have "st_name st' = n" using find_stateD [OF assms(3)] by simp
  with assms(1,2) show ?thesis
    by (auto simp: edge_ok_def exit_residue_def residue_def split: option.splits)
qed

lemma loop_ok:
  assumes packet: "packet_ok buf bit_len avail" and ok: "emit_within p names align depth slots width" "fits_u32 p"
  shows "run_loop p buf avail d n m = Inr res \<Longrightarrow> k = p_max_depth p - d \<Longrightarrow> n \<in> set names \<Longrightarrow>
    find_state p n = Some st \<Longrightarrow> residue p align st [] [] (m_cursor m) \<Longrightarrow>
    length (m_regions m) = depth n \<Longrightarrow> level p avail m s \<Longrightarrow> cur_state s = state_id p n \<Longrightarrow>
    \<exists>ret o'. depth_loop k (emit_switch p align (reader buf) bit_len get put) s = Return ret o' \<and>
      result_agrees p get slots res ret o'"
proof (induction k arbitrary: d n m s st)
  case 0
  then have "res = plain_reject p ''max depth exceeded'' n SevError (enter n m)"
    by (simp add: run_loop.simps [of p buf avail d] Let_def)
  moreover have "level p avail (enter n m) s" using 0(7) by (simp add: level_enter)
  ultimately show ?case
    using plain_reject_agrees [of p avail "enter n m" s 2 "''max depth exceeded''" n SevError]
    by (simp add: expected_reason_plain)
next
  case (Suc k)
  note prems = Suc.prems
  have lt: "d < p_max_depth p" using prems(2) by simp
  have st: "st \<in> set (p_states p)" "st_name st = n" using find_stateD [OF prems(4)] by auto
  have few: "length (p_states p) \<le> 65536" using ok by (simp add: fits_u32_def)
  let ?m = "enter n m"
  have m_sel: "m_cursor ?m = m_cursor m" "m_regions ?m = m_regions m" by (simp_all add: enter_def)
  have switch: "emit_switch p align (reader buf) bit_len get put s =
      block (emit_state p align (reader buf) bit_len get put st) s"
    by (rule emit_switch_eq [OF _ prems(4) few prems(8)]) (use ok in \<open>simp add: emit_within_def\<close>)
  have jump: "jump_ok p avail (run_state p buf avail st ?m)
      (block (emit_state p align (reader buf) bit_len get put st) s)"
    using prems(5-7) st m_sel by (intro emit_state_ok [OF packet ok prems(3,4)]) (simp_all add: level_enter)
  show ?case
  proof (cases "run_state p buf avail st ?m")
    case (Inl e)
    then show ?thesis using prems(1,4) lt by (simp add: run_loop.simps [of p buf avail d] Let_def)
  next
    case (Inr r)
    show ?thesis
    proof (cases r)
      case (Stop res')
      then show ?thesis
        using Inr prems(1,4) lt jump switch
        by (auto simp: run_loop.simps [of p buf avail d] Let_def jump_ok_def)
    next
      case (Go mn)
      obtain m' n' where mn: "mn = (m', n')" by force
      have go: "run_state p buf avail st ?m = Inr (Go (m', n'))" using Inr Go mn by simp
      have loop: "run_loop p buf avail (Suc d) n' m' = Inr res"
        using go prems(1,4) lt by (simp add: run_loop.simps [of p buf avail d] Let_def)
      obtain s' where s': "emit_switch p align (reader buf) bit_len get put s = Continue s'"
        "level p avail m' s'" "cur_state s' = state_id p n'"
        using jump go switch by (auto simp: jump_ok_def)
      have sok: "state_ok p names (region_slots p) align depth slots width st"
        using ok prems(3,4) by (auto simp: emit_within_def)
      obtain d' where d': "depth_after (region_slots p) (st_region_ops st) (length (m_regions ?m)) = Some d'"
        using sok prems(6) st m_sel by (auto simp: state_ok_def)
      have res0: "residue p align st [] [] (m_cursor ?m)" using prems(5) m_sel by simp
      note after = run_state_go [OF go d' res0]
      have edge: "edge_ok names align depth (exit_residue p align st) (Some d') (ToState n')"
        using sok after d' prems(6) st m_sel by (auto simp: state_ok_def list_all_iff)
      have n': "n' \<in> set names" using edge by (auto simp: edge_ok_def)
      then have "n' \<in> set (map st_name (p_states p))" using ok by (auto simp: emit_within_def)
      then obtain st' where st': "find_state p n' = Some st'" and "d' = depth n'"
        using edge find_state_names [of p n'] by (auto simp: edge_ok_def)
      moreover have "k = p_max_depth p - Suc d" using prems(2) by simp
      ultimately obtain ret o' where
        "depth_loop k (emit_switch p align (reader buf) bit_len get put) s' = Return ret o'"
        "result_agrees p get slots res ret o'"
        using Suc.IH [OF loop _ n' st' _ _ s'(2,3)] after edge_residue [OF edge _ st'] by blast
      then show ?thesis using s'(1) by simp
    qed
  qed
qed

section \<open>The core\<close>

lemma emit_init_meta_eq:
  "emit_init_meta p put o' =
     fold (\<lambda>(x, v). put x v) (map (\<lambda>d. (SMeta (md_name d), md_init d)) (p_metadata p)) o'"
  by (simp add: emit_init_meta_def fold_map comp_def)

lemma init_level:
  assumes ok: "emit_within p names align depth slots width"
  shows "level p avail (init_machine p)
    (init_locals start (region_slots p) (emit_init_meta p put zero))"
proof -
  let ?ds = "p_metadata p"
  let ?xs = "map (\<lambda>d. (SMeta (md_name d), md_init d)) ?ds"
  have dist: "distinct (map md_name ?ds)" and meta: "list_all (metadata_ok slots width) ?ds"
    using ok by (auto simp: emit_within_def)
  have in_slots: "\<forall>(x, v)\<in>set ?xs. x \<in> slots"
    using meta by (auto simp: list_all_iff metadata_ok_def)
  have dx: "distinct (map fst ?xs)"
    using dist by (auto simp: comp_def distinct_map inj_on_def)
  have take: "take_bit 64 (w :: u64) = w" for w
    by (simp add: take_bit_word_eq_self)
  have md: "map_of (rev (map (\<lambda>d. (md_name d, md_init d)) ?ds)) n = Some v \<longleftrightarrow>
      (\<exists>d\<in>set ?ds. md_name d = n \<and> md_init d = v)" for n v
    using dist by (subst map_of_eq_Some_iff) (auto simp: comp_def rev_map [symmetric])
  have "bindings p (emit_init_meta p put zero) (init_machine p)"
    unfolding bindings_def
  proof (intro conjI allI impI ballI)
    fix n v
    assume "m_meta (init_machine p) n = Some v"
    then obtain d where d: "d \<in> set ?ds" "md_name d = n" "md_init d = v"
      using md by (auto simp: init_machine_def init_meta_def)
    then have "(SMeta n, v) \<in> set ?xs" by auto
    from get_fold_put [OF dx in_slots this, of zero] d meta
    show "SMeta n \<in> slots" "get (SMeta n) (emit_init_meta p put zero) = v"
      by (auto simp: emit_init_meta_eq list_all_iff metadata_ok_def take)
  next
    fix d
    assume "d \<in> set ?ds"
    then show "m_meta (init_machine p) (md_name d) \<noteq> None"
      using md [of "md_name d" "md_init d"] by (auto simp: init_machine_def init_meta_def)
  qed (simp_all add: init_machine_def)
  moreover have "view [] (emit_init_meta p put zero)"
  proof -
    have "get x (emit_init_meta p put zero) = 0" if x: "x \<in> slots" "\<not> is_meta x" for x
    proof -
      have "\<forall>(y, v)\<in>set ?xs. y \<in> slots \<and> y \<noteq> x" using in_slots x by auto
      from get_fold_put_other [OF x(1) this] show ?thesis
        by (simp add: emit_init_meta_eq get_zero x)
    qed
    then show ?thesis by (simp add: view_def replay_def)
  qed
  ultimately show ?thesis
    by (intro levelI) (simp_all add: init_machine_def init_locals_def regions_agree_def)
qed

theorem emit_within_refines:
  assumes ok: "emit_within p names align depth slots width" "fits_u32 p"
    and packet: "length buf \<le> capacity" "unat bit_len \<le> 8 * length buf"
    and run: "run_bits p buf (unat bit_len) = Inr res"
  shows "\<exists>ret o'. emit_core p align (reader buf) bit_len get put zero = Return ret o' \<and>
    result_agrees p get slots res ret o'"
proof -
  have start: "p_start_state p \<in> set names" "align (p_start_state p) = None \<or> align (p_start_state p) = Some 0"
    "depth (p_start_state p) = 0" using ok by (auto simp: emit_within_def)
  then obtain st where st: "find_state p (p_start_state p) = Some st"
    using ok find_state_names [of p "p_start_state p"] by (auto simp: emit_within_def)
  have name: "st_name st = p_start_state p" using find_stateD [OF st] by simp
  have compiles: "core_compiles p" using ok by (simp add: emit_within_def)
  have packet': "packet_ok buf bit_len (unat bit_len)" using packet by (simp add: packet_ok_def)
  show ?thesis
    unfolding emit_core_def if_P [OF compiles]
    by (rule loop_ok [OF packet' ok run [unfolded run_bits_def] _ _ st _ _ init_level [OF ok(1)]])
      (use start name in \<open>auto simp: residue_def init_machine_def init_locals_def\<close>)
qed

lemmas emit_core_refines = emit_within_refines [OF emit_ok_within]

end

end
