(* ===== verification/C_Layout.thy ===== *)
theory C_Layout
  imports Codegen_Correct
begin

text \<open>
  Result structs. A parser lists the members of its struct once, as a table of slots with the C
  expression that reads each, the assignment that writes it and the width of its C type;
  \<open>layout_ok\<close> is a finite check of that table (distinct names, a store changes its own member and no
  other, a zeroed struct reads zero) that gives the \<open>result_layout\<close> interface of the refinement
  proof. The two packet memories of the generated code, the plain buffer of parser.c and the masked
  one of parser.bpf.c, are shown to provide the \<open>packet_memory\<close> interface.
\<close>

type_synonym 'o member = "slot \<times> ('o \<Rightarrow> u64) \<times> (u64 \<Rightarrow> 'o \<Rightarrow> 'o) \<times> nat"

definition member_get :: "'o member list \<Rightarrow> slot \<Rightarrow> 'o \<Rightarrow> u64" where
  "member_get t x o' = (case map_of t x of None \<Rightarrow> 0 | Some (g, p, w) \<Rightarrow> g o')"

definition member_put :: "'o member list \<Rightarrow> slot \<Rightarrow> u64 \<Rightarrow> 'o \<Rightarrow> 'o" where
  "member_put t x v o' = (case map_of t x of None \<Rightarrow> o' | Some (g, p, w) \<Rightarrow> p v o')"

definition member_width :: "'o member list \<Rightarrow> slot \<Rightarrow> nat" where
  "member_width t x = (case map_of t x of None \<Rightarrow> 0 | Some (g, p, w) \<Rightarrow> w)"

definition member_slots :: "'o member list \<Rightarrow> slot set" where
  "member_slots t = set (map fst t)"

definition read_all :: "'o member list \<Rightarrow> 'o \<Rightarrow> u64 list" where
  "read_all t o' = map (\<lambda>m. fst (snd m) o') t"

primrec rows_ok :: "'o member list \<Rightarrow> nat \<Rightarrow> 'o member list \<Rightarrow> bool" where
  "rows_ok t k [] = True"
| "rows_ok t k (m # ms) =
     ((\<forall>v o'. read_all t (fst (snd (snd m)) v o') = (read_all t o')[k := take_bit (snd (snd (snd m))) v])
      \<and> rows_ok t (Suc k) ms)"

definition layout_ok :: "('a pk_result_scheme) member list \<Rightarrow> 'a pk_result_scheme \<Rightarrow> bool" where
  "layout_ok t zero =
     (distinct (map fst t) \<and> rows_ok t 0 t \<and> list_all (\<lambda>v. v = 0) (read_all t zero) \<and>
      (\<forall>o' a b c. read_all t (o'\<lparr>outcome := a, reason := b, consumed_bits := c\<rparr>) = read_all t o'))"

text \<open>The casts between \<open>uint64_t\<close> and the member's own type.\<close>

lemma member_cast [simp]:
  "ucast (ucast (v :: u64) :: u8) = (take_bit 8 v :: u64)"
  "ucast (ucast (v :: u64) :: u16) = (take_bit 16 v :: u64)"
  "ucast (ucast (v :: u64) :: u32) = (take_bit 32 v :: u64)"
  by (rule bit_word_eqI; simp add: bit_simps)+

lemma take_bit_64 [simp]: "take_bit 64 (v :: u64) = v"
  by (simp add: take_bit_word_eq_self)

lemma rows_ok_nth:
  "rows_ok t k ms \<Longrightarrow> i < length ms \<Longrightarrow> ms ! i = (x, g, p, w) \<Longrightarrow>
   read_all t (p v o') = (read_all t o')[k + i := take_bit w v]"
proof (induction ms arbitrary: k i)
  case Nil
  then show ?case by simp
next
  case (Cons m ms)
  then show ?case using Cons.IH [of "Suc k" "i - 1"] by (cases i) auto
qed

lemma member_at:
  assumes "distinct (map fst t)" and "x \<in> member_slots t"
  obtains i g p w where "i < length t" "t ! i = (x, g, p, w)" "member_get t x = g"
    "member_put t x = p" "member_width t x = w"
proof -
  from assms(2) obtain i where i: "i < length t" "fst (t ! i) = x"
    by (auto simp: member_slots_def in_set_conv_nth)
  obtain g p w where e: "t ! i = (x, g, p, w)"
    using i(2) by (cases "t ! i") auto
  have "map_of t x = Some (g, p, w)"
    using assms(1) i(1) e by (metis map_of_is_SomeI nth_mem)
  then show ?thesis
    using i(1) e by (intro that) (auto simp: member_get_def member_put_def member_width_def fun_eq_iff)
qed

lemma read_all_nth: "i < length t \<Longrightarrow> t ! i = (x, g, p, w) \<Longrightarrow> read_all t o' ! i = g o'"
  by (simp add: read_all_def)

lemma layout_result:
  assumes "layout_ok t zero"
  shows "result_layout (member_get t) (member_put t) (member_slots t) (member_width t) zero"
proof
  have dist: "distinct (map fst t)" and rows: "rows_ok t 0 t"
    and zero: "list_all (\<lambda>v. v = 0) (read_all t zero)"
    and fin: "\<And>o' a b c. read_all t (o'\<lparr>outcome := a, reason := b, consumed_bits := c\<rparr>) = read_all t o'"
    using assms by (auto simp: layout_ok_def)
  have len: "length (read_all t o') = length t" for o' by (simp add: read_all_def)
  fix x v o'
  assume x: "x \<in> member_slots t"
  obtain i g p w where i: "i < length t" "t ! i = (x, g, p, w)" "member_get t x = g"
    "member_put t x = p" "member_width t x = w"
    by (rule member_at [OF dist x])
  have put: "read_all t (p v o') = (read_all t o')[i := take_bit w v]" for v o'
    using rows_ok_nth [OF rows i(1,2)] by simp
  show "member_get t x (member_put t x v o') = take_bit (member_width t x) v"
    using read_all_nth [OF i(1,2), where o' = "p v o'"] put i len by simp
  show "member_get t x zero = 0"
    using read_all_nth [OF i(1,2), where o' = zero] zero i(1,3) len by (auto simp: list_all_length)
  show "member_get t x (o'\<lparr>outcome := a, reason := b, consumed_bits := c\<rparr>) = member_get t x o'" for a b c
    using fin read_all_nth [OF i(1,2)] i(3) by metis
  fix y
  assume y: "y \<in> member_slots t" and ne: "x \<noteq> y"
  obtain j g' p' w' where j: "j < length t" "t ! j = (y, g', p', w')" "member_get t y = g'"
    "member_put t y = p'" "member_width t y = w'"
    by (rule member_at [OF dist y])
  have "i \<noteq> j" using i(2) j(2) ne by auto
  then show "member_get t y (member_put t x v o') = member_get t y o'"
    using read_all_nth [OF j(1,2), where o' = "p v o'"] read_all_nth [OF j(1,2), where o' = o'] put i(4) j(3)
    by simp
qed

text \<open>The look-ups of every member at once.\<close>

lemma members_all:
  assumes "layout_ok t zero" and "t = ms"
  shows "list_all (\<lambda>(x, g, p, w). member_get t x = g \<and> member_put t x = p \<and>
    member_width t x = w \<and> x \<in> member_slots t) ms"
proof -
  have dist: "distinct (map fst t)" using assms(1) by (simp add: layout_ok_def)
  then have "member_get t x = g \<and> member_put t x = p \<and> member_width t x = w \<and> x \<in> member_slots t"
    if "(x, g, p, w) \<in> set t" for x g p w
    using map_of_is_SomeI [OF dist that] that
    by (force simp: member_get_def member_put_def member_width_def member_slots_def fun_eq_iff)
  then show ?thesis using assms(2) by (auto simp: list_all_iff)
qed

section \<open>The packet buffers\<close>

abbreviation plain_capacity :: nat where
  "plain_capacity \<equiv> 2 ^ 60 - 1"

abbreviation masked_capacity :: nat where
  "masked_capacity \<equiv> 4096"

interpretation plain_buf: packet_memory buf_at plain_capacity
proof
  fix buf i
  assume "length (buf :: bytes) \<le> plain_capacity" "i < length buf"
  then show "buf_at buf (of_nat i) = Some (buf ! i)"
    by (simp add: buf_at_def unat_of_nat)
qed simp

lemma and_4095: "(w :: u64) AND 4095 = take_bit 12 w"
  by (simp add: take_bit_eq_mask mask_eq_exp_minus_1)

lemma masked_index: "i < 4096 \<Longrightarrow> (of_nat i :: u64) AND PK_BUF_MASK = of_nat i"
  by (simp add: PK_BUF_MASK_def and_4095 take_bit_of_nat take_bit_nat_eq_self)

interpretation masked_buf: packet_memory buf_at_masked masked_capacity
proof
  fix buf i
  assume "length (buf :: bytes) \<le> masked_capacity" "i < length buf"
  then show "buf_at_masked buf (of_nat i) = Some (buf ! i)"
    by (simp add: masked_def masked_index buf_at_def unat_of_nat)
qed simp

lemma emitted_plain:
  assumes "layout_ok t zero"
  shows "emitted_parser (member_get t) (member_put t) (member_slots t) (member_width t) zero
    buf_at plain_capacity"
  by (intro emitted_parser.intro layout_result [OF assms] plain_buf.packet_memory_axioms)

lemma emitted_masked:
  assumes "layout_ok t zero"
  shows "emitted_parser (member_get t) (member_put t) (member_slots t) (member_width t) zero
    buf_at_masked masked_capacity"
  by (intro emitted_parser.intro layout_result [OF assms] masked_buf.packet_memory_axioms)

text \<open>What evaluates the emitter on a concrete state.\<close>

lemmas emit_ok_eval = emit_ok_def state_ok_def extract_ok_def field_ok_def metadata_ok_def edge_ok_def
  exit_residue_def arms_ok_def reject_reasons_def find_state_def instance_of_def

lemmas emit_eval = emit_state_def emit_extract_def emit_field_def emit_assign_def emit_region_op_def
  emit_transition_def emit_target_def Let_def instance_of_def shift_amount_needs_mask_def fun_eq_iff

end
