(* ===== verification/Ir_Total.thy ===== *)
theory Ir_Total
  imports Ir_Interp
begin

text \<open>
  Totality of the reference interpreter. \<open>wf_ok\<close> is an executable check of a description against a
  certificate: for every state, the fields that every path to it has read (\<open>known\<close>, the definite
  extraction of rule W7 in docs/reference/ir-semantics.md) and the number of regions open on entry
  (\<open>depth\<close>). A description that passes never makes the interpreter raise an error
  (\<open>run_bits_total\<close>): no look-up of a name fails, \<open>remaining\<close> always has a region to measure, no pop
  meets an empty stack and the bit reader never indexes past the packet.
\<close>

type_synonym names = "(string \<times> string) list"

primrec expr_ok :: "names \<Rightarrow> string list \<Rightarrow> bool \<Rightarrow> expr \<Rightarrow> bool" where
  "expr_ok bound metas region (Constant v) = True"
| "expr_ok bound metas region (Field i f) = ((i, f) \<in> set bound)"
| "expr_ok bound metas region (Metadata m) = (m \<in> set metas)"
| "expr_ok bound metas region Remaining = region"
| "expr_ok bound metas region (Bin op a b) =
     (op \<noteq> OpUnspecified \<and> expr_ok bound metas region a \<and> expr_ok bound metas region b)"

definition metas_of :: "parser \<Rightarrow> string list" where
  "metas_of p = map md_name (p_metadata p)"

primrec fields_known :: "string list \<Rightarrow> string \<Rightarrow> field list \<Rightarrow> names \<Rightarrow> names option" where
  "fields_known metas inst [] bound = Some bound"
| "fields_known metas inst (f # fs) bound =
     (case field_width f of
        Bits n \<Rightarrow> fields_known metas inst fs ((inst, field_name f) # bound)
      | BitLen e \<Rightarrow> if expr_ok bound metas False e then fields_known metas inst fs bound else None)"

primrec extracts_known :: "parser \<Rightarrow> extract_op list \<Rightarrow> names \<Rightarrow> names option" where
  "extracts_known p [] bound = Some bound"
| "extracts_known p (ex # exs) bound =
     (case find_header_type p (ex_header_type ex) of
        None \<Rightarrow> None
      | Some ht \<Rightarrow>
          (case fields_known (metas_of p) (instance_of ex) (ht_fields ht) bound of
             None \<Rightarrow> None
           | Some bound' \<Rightarrow> extracts_known p exs bound'))"

definition assign_total :: "parser \<Rightarrow> names \<Rightarrow> nat \<Rightarrow> assign \<Rightarrow> bool" where
  "assign_total p bound d a =
     (find_metadata p (as_metadata a) \<noteq> None \<and> expr_ok bound (metas_of p) (d > 0) (as_value a))"

primrec ops_total :: "parser \<Rightarrow> names \<Rightarrow> nat \<Rightarrow> region_op list \<Rightarrow> nat option" where
  "ops_total p bound d [] = Some d"
| "ops_total p bound d (op # ops) =
     (case op of
        Push e \<Rightarrow> if expr_ok bound (metas_of p) (d > 0) e then ops_total p bound (Suc d) ops else None
      | Pop \<Rightarrow> if d > 0 then ops_total p bound (d - 1) ops else None)"

definition keys_total :: "parser \<Rightarrow> names \<Rightarrow> nat \<Rightarrow> transition \<Rightarrow> bool" where
  "keys_total p bound d tr =
     (case tr of
        Direct _ \<Rightarrow> True
      | Select keys _ _ \<Rightarrow> list_all (expr_ok bound (metas_of p) (d > 0)) keys)"

definition target_total ::
  "string list \<Rightarrow> (string \<Rightarrow> names) \<Rightarrow> (string \<Rightarrow> nat) \<Rightarrow> names \<Rightarrow> nat \<Rightarrow> target \<Rightarrow> bool"
where
  "target_total states known depth bound d t =
     (case t of
        ToState n \<Rightarrow> n \<in> set states \<and> set (known n) \<subseteq> set bound \<and> depth n = d
      | _ \<Rightarrow> True)"

definition state_total :: "parser \<Rightarrow> string list \<Rightarrow> (string \<Rightarrow> names) \<Rightarrow> (string \<Rightarrow> nat) \<Rightarrow> state \<Rightarrow> bool" where
  "state_total p states known depth st =
     (case extracts_known p (st_extracts st) (known (st_name st)) of
        None \<Rightarrow> False
      | Some bound \<Rightarrow>
          list_all (assign_total p bound (depth (st_name st))) (st_assigns st) \<and>
          (case ops_total p bound (depth (st_name st)) (st_region_ops st) of
             None \<Rightarrow> False
           | Some d \<Rightarrow>
               keys_total p bound d (st_transition st) \<and>
               list_all (target_total states known depth bound d) (targets_of (st_transition st))))"

text \<open>
  The check over the states of \<open>names\<close>, closed under the transitions and containing the start state;
  \<open>wf_ok\<close> is the check over all of them.
\<close>

definition wf_within :: "parser \<Rightarrow> string list \<Rightarrow> (string \<Rightarrow> names) \<Rightarrow> (string \<Rightarrow> nat) \<Rightarrow> bool" where
  "wf_within p names known depth =
     (set names \<subseteq> set (map st_name (p_states p)) \<and> p_start_state p \<in> set names \<and>
      known (p_start_state p) = [] \<and> depth (p_start_state p) = 0 \<and>
      (\<forall>n\<in>set names. \<forall>st. find_state p n = Some st \<longrightarrow> state_total p names known depth st))"

definition wf_ok :: "parser \<Rightarrow> (string \<Rightarrow> names) \<Rightarrow> (string \<Rightarrow> nat) \<Rightarrow> bool" where
  "wf_ok p known depth =
     (find_state p (p_start_state p) \<noteq> None \<and> known (p_start_state p) = [] \<and>
      depth (p_start_state p) = 0 \<and> list_all (state_total p (map st_name (p_states p)) known depth) (p_states p))"

lemma wf_ok_within: "wf_ok p known depth \<Longrightarrow> wf_within p (map st_name (p_states p)) known depth"
  using find_state_names [of p "p_start_state p"]
  by (auto simp: wf_ok_def wf_within_def list_all_iff dest: find_stateD)

section \<open>Expressions\<close>

text \<open>\<open>holds p bound m\<close>: what the certificate promises is there.\<close>

definition holds :: "parser \<Rightarrow> names \<Rightarrow> machine \<Rightarrow> bool" where
  "holds p bound m \<longleftrightarrow>
     (\<forall>x\<in>set bound. m_env m x \<noteq> None) \<and> (\<forall>n\<in>set (metas_of p). m_meta m n \<noteq> None)"

lemma holds_subset: "holds p bound m \<Longrightarrow> set b \<subseteq> set bound \<Longrightarrow> holds p b m"
  by (auto simp: holds_def)

lemma binop_total: "op \<noteq> OpUnspecified \<Longrightarrow> \<exists>v. eval_binop op l r = Inr v"
  by (cases op) auto

lemma expr_total:
  assumes "holds p bound m" and "region \<Longrightarrow> rem \<noteq> None"
  shows "expr_ok bound (metas_of p) region e \<Longrightarrow> \<exists>v. eval_expr e (m_env m) (m_meta m) rem = Inr v"
proof (induction e)
  case (Bin op a b)
  then show ?case by (auto simp: binop_total)
qed (use assms in \<open>auto simp: holds_def\<close>)

lemma expr_total_here:
  assumes "holds p bound m" and "expr_ok bound (metas_of p) (length (m_regions m) > 0) e"
  shows "\<exists>v. eval_expr e (m_env m) (m_meta m) (remaining_here m) = Inr v"
  using assms by (intro expr_total) (auto simp: remaining_here_def split: list.splits)

section \<open>The phases\<close>

text \<open>A phase is total when it never raises and what it goes on with satisfies \<open>Q\<close>.\<close>

definition total :: "('b \<Rightarrow> bool) \<Rightarrow> 'b phase \<Rightarrow> bool" where
  "total Q r = (case r of Inl _ \<Rightarrow> False | Inr (Go b) \<Rightarrow> Q b | Inr (Stop _) \<Rightarrow> True)"

lemma total_simps [simp]:
  "\<not> total Q (Inl e)" "total Q (Inr (Go b)) = Q b" "total Q (Inr (Stop res))"
  by (simp_all add: total_def)

lemma total_then:
  assumes "total Q r" and "\<And>b. Q b \<Longrightarrow> total S (f b)"
  shows "total S (then_run r f)"
  using assms by (cases r f rule: then_run_cases) auto

definition input_ok :: "bytes \<Rightarrow> nat \<Rightarrow> bool" where
  "input_ok packet avail \<longleftrightarrow> avail \<le> 8 * length packet \<and> avail < 2 ^ 64"

lemma read_bound_le: "read_bound avail m \<le> avail"
  by (auto simp: read_bound_def split: list.split)

lemma extract_field_total:
  assumes "input_ok packet avail" and "holds p bound m"
    and "fields_known (metas_of p) (instance_of ex) (f # fs) bound = Some bound'"
  shows "total (\<lambda>(m', parsed'). m_regions m' = m_regions m \<and>
      (\<exists>b. fields_known (metas_of p) (instance_of ex) fs b = Some bound' \<and> holds p b m'))
    (extract_field p packet avail cn ex entry f (m, parsed))"
proof (cases "field_width f")
  case (Bits n)
  have "read_bound avail m \<le> 8 * length packet" "read_bound avail m < 2 ^ 64"
    using read_bound_le [of avail m] assms(1) by (auto simp: input_ok_def)
  from read_bits_ok [OF this] show ?thesis
    using assms(2,3) Bits
    by (auto simp: extract_field_def holds_def
        intro!: exI [of _ "(instance_of ex, field_name f) # bound"])
next
  case (BitLen e)
  then have e: "expr_ok bound (metas_of p) False e"
    and rest: "fields_known (metas_of p) (instance_of ex) fs bound = Some bound'"
    using assms(3) by (auto split: if_splits)
  obtain v where v: "eval_expr e (m_env m) (m_meta m) None = Inr v"
    using expr_total [OF assms(2) _ e, of None] by auto
  show ?thesis
  proof (cases "case checked_add (unat v) (m_cursor m) of None \<Rightarrow> True | Some e \<Rightarrow> e > read_bound avail m")
    case True
    then show ?thesis by (simp add: extract_field_def BitLen v Let_def)
  next
    case False
    then have "m_cursor m + unat v \<le> 8 * length packet"
      using read_bound_le [of avail m] assms(1)
      by (auto simp: checked_add_def input_ok_def split: if_splits)
    then obtain r where "read_run packet (m_cursor m) (unat v) = Inr r"
      using read_run_ok by blast
    then show ?thesis
      using False rest assms(2) by (auto simp: extract_field_def BitLen v Let_def holds_def)
  qed
qed

lemma extract_fields_total:
  assumes "input_ok packet avail"
  shows "holds p bound m \<Longrightarrow> fields_known (metas_of p) (instance_of ex) fs bound = Some bound' \<Longrightarrow>
    total (\<lambda>(m', parsed'). m_regions m' = m_regions m \<and> holds p bound' m')
      (extract_fields p packet avail cn ex entry fs (m, parsed))"
proof (induction fs arbitrary: bound m parsed)
  case Nil
  then show ?case by simp
next
  case (Cons f fs)
  show ?case
    unfolding extract_fields.simps
  proof (rule total_then [OF extract_field_total [OF assms Cons.prems]], clarify)
    fix m1 parsed1 b
    assume "m_regions m1 = m_regions m" "holds p b m1"
      "fields_known (metas_of p) (instance_of ex) fs b = Some bound'"
    then show "total (\<lambda>(m', parsed'). m_regions m' = m_regions m \<and> holds p bound' m')
        (extract_fields p packet avail cn ex entry fs (m1, parsed1))"
      using Cons.IH [of b m1 parsed1] by simp
  qed
qed

lemma extract_headers_total:
  assumes "input_ok packet avail"
  shows "holds p bound m \<Longrightarrow> extracts_known p exs bound = Some bound' \<Longrightarrow>
    total (\<lambda>m'. m_regions m' = m_regions m \<and> holds p bound' m')
      (extract_headers p packet avail cn exs m)"
proof (induction exs arbitrary: bound m)
  case Nil
  then show ?case by simp
next
  case (Cons ex exs)
  from Cons.prems(2) obtain ht b where ht: "find_header_type p (ex_header_type ex) = Some ht"
    and fs: "fields_known (metas_of p) (instance_of ex) (ht_fields ht) bound = Some b"
    and rest: "extracts_known p exs b = Some bound'"
    by (auto split: option.splits)
  have one: "total (\<lambda>m'. m_regions m' = m_regions m \<and> holds p b m')
      (extract_header p packet avail cn ex m)"
    unfolding extract_header_def ht option.case
    by (rule total_then [OF extract_fields_total [OF assms Cons.prems(1) fs]])
      (auto simp: holds_def)
  show ?case
    unfolding extract_headers.simps
  proof (rule total_then [OF one])
    fix m1
    assume "m_regions m1 = m_regions m \<and> holds p b m1"
    then show "total (\<lambda>m'. m_regions m' = m_regions m \<and> holds p bound' m')
        (extract_headers p packet avail cn exs m1)"
      using Cons.IH [of b m1] rest by simp
  qed
qed

lemma run_assign_total:
  assumes "holds p bound m" and "assign_total p bound (length (m_regions m)) a"
  shows "total (\<lambda>m'. m_regions m' = m_regions m \<and> holds p bound m') (run_assign p a m)"
proof -
  obtain v where "eval_expr (as_value a) (m_env m) (m_meta m) (remaining_here m) = Inr v"
    using expr_total_here assms unfolding assign_total_def by blast
  moreover obtain d where "find_metadata p (as_metadata a) = Some d"
    using assms(2) by (auto simp: assign_total_def)
  ultimately show ?thesis
    using assms(1) by (auto simp: run_assign_def holds_def)
qed

lemma run_assigns_total:
  "holds p bound m \<Longrightarrow> list_all (assign_total p bound (length (m_regions m))) as \<Longrightarrow>
   total (\<lambda>m'. m_regions m' = m_regions m \<and> holds p bound m') (run_assigns p as m)"
proof (induction as arbitrary: m)
  case Nil
  then show ?case by simp
next
  case (Cons a as)
  show ?case
    unfolding run_assigns.simps
  proof (rule total_then [OF run_assign_total [OF Cons.prems(1)]])
    show "assign_total p bound (length (m_regions m)) a" using Cons.prems(2) by simp
  next
    fix m1
    assume "m_regions m1 = m_regions m \<and> holds p bound m1"
    then show "total (\<lambda>m'. m_regions m' = m_regions m \<and> holds p bound m') (run_assigns p as m1)"
      using Cons.IH [of m1] Cons.prems(2) by simp
  qed
qed

lemma run_region_ops_total:
  "holds p bound m \<Longrightarrow> ops_total p bound (length (m_regions m)) ops = Some d \<Longrightarrow>
   total (\<lambda>m'. length (m_regions m') = d \<and> holds p bound m') (run_region_ops p avail cn ops m)"
proof (induction ops arbitrary: m)
  case Nil
  then show ?case by simp
next
  case (Cons op ops)
  have one: "total (\<lambda>m'. ops_total p bound (length (m_regions m')) ops = Some d \<and> holds p bound m')
      (run_region_op p avail cn op m)"
  proof (cases op)
    case (Push e)
    then have "expr_ok bound (metas_of p) (length (m_regions m) > 0) e"
      and rest: "ops_total p bound (Suc (length (m_regions m))) ops = Some d"
      using Cons.prems(2) by (auto split: if_splits)
    then obtain v where "eval_expr e (m_env m) (m_meta m) (remaining_here m) = Inr v"
      using expr_total_here Cons.prems(1) by blast
    then show ?thesis
      using rest Cons.prems(1)
      by (auto simp: run_region_op_def Push holds_def split: option.split)
  next
    case Pop
    then obtain e rs where "m_regions m = e # rs" and "ops_total p bound (length rs) ops = Some d"
      using Cons.prems(2) by (cases "m_regions m") (auto split: if_splits)
    then show ?thesis
      using Cons.prems(1) by (auto simp: run_region_op_def Pop holds_def)
  qed
  show ?case
    unfolding run_region_ops.simps by (rule total_then [OF one]) (use Cons.IH in blast)
qed

lemma eval_keys_total:
  "holds p bound m \<Longrightarrow> list_all (expr_ok bound (metas_of p) (length (m_regions m) > 0)) keys \<Longrightarrow>
   \<exists>vs. eval_keys keys m = Inr vs"
proof (induction keys)
  case Nil
  then show ?case by simp
next
  case (Cons k ks)
  then obtain v vs where "eval_expr k (m_env m) (m_meta m) (remaining_here m) = Inr v"
    "eval_keys ks m = Inr vs"
    using expr_total_here [of p bound m k] by auto
  then show ?case by simp
qed

lemma set_decision_keeps [simp]:
  "m_regions (set_decision d m) = m_regions m" "holds p bound (set_decision d m) = holds p bound m"
  by (simp_all add: set_decision_def holds_def)

lemma choose_target_total:
  assumes "holds p bound m" and "keys_total p bound (length (m_regions m)) tr"
  shows "total (\<lambda>(m', t). m_regions m' = m_regions m \<and> holds p bound m' \<and> t \<in> set (targets_of tr))
    (choose_target p cn tr m)"
proof (cases tr)
  case (Direct t)
  then show ?thesis using assms(1) by (simp add: choose_target_def)
next
  case (Select keys arms dflt)
  then obtain vs where "eval_keys keys m = Inr vs"
    using eval_keys_total [OF assms(1)] assms(2) by (auto simp: keys_total_def)
  then show ?thesis
    using assms(1) by (auto simp: choose_target_def Select dest!: arm_position_target split: option.split)
qed

lemma run_state_total:
  assumes wf: "state_total p names known depth st" and input: "input_ok packet avail"
    and m: "holds p (known (st_name st)) m" "length (m_regions m) = depth (st_name st)"
  shows "total (\<lambda>(m', n). n \<in> set names \<and> holds p (known n) m' \<and> length (m_regions m') = depth n)
    (run_state p packet avail st m)"
proof -
  obtain bound d where exs: "extracts_known p (st_extracts st) (known (st_name st)) = Some bound"
    and as: "list_all (assign_total p bound (depth (st_name st))) (st_assigns st)"
    and ops: "ops_total p bound (depth (st_name st)) (st_region_ops st) = Some d"
    and keys: "keys_total p bound d (st_transition st)"
    and ts: "list_all (target_total names known depth bound d) (targets_of (st_transition st))"
    using wf by (auto simp: state_total_def split: option.splits)
  show ?thesis
    unfolding run_state_def
  proof (rule total_then [OF extract_headers_total [OF input m(1) exs]])
    fix m1
    assume 1: "m_regions m1 = m_regions m \<and> holds p bound m1"
    show "total (\<lambda>(m', n). n \<in> set names \<and> holds p (known n) m' \<and> length (m_regions m') = depth n)
      (then_run (run_assigns p (st_assigns st) m1) (\<lambda>m.
       then_run (run_region_ops p avail (st_name st) (st_region_ops st) m) (\<lambda>m.
       then_run (choose_target p (st_name st) (st_transition st) m) (run_target p (st_name st)))))"
    proof (rule total_then [OF run_assigns_total])
      show "holds p bound m1" "list_all (assign_total p bound (length (m_regions m1))) (st_assigns st)"
        using 1 as m(2) by auto
    next
      fix m2
      assume 2: "m_regions m2 = m_regions m1 \<and> holds p bound m2"
      show "total (\<lambda>(m', n). n \<in> set names \<and> holds p (known n) m' \<and> length (m_regions m') = depth n)
        (then_run (run_region_ops p avail (st_name st) (st_region_ops st) m2) (\<lambda>m.
         then_run (choose_target p (st_name st) (st_transition st) m) (run_target p (st_name st))))"
      proof (rule total_then [OF run_region_ops_total [where d = d]])
        show "holds p bound m2" "ops_total p bound (length (m_regions m2)) (st_region_ops st) = Some d"
          using 1 2 ops m(2) by auto
      next
        fix m3
        assume 3: "length (m_regions m3) = d \<and> holds p bound m3"
        show "total (\<lambda>(m', n). n \<in> set names \<and> holds p (known n) m' \<and> length (m_regions m') = depth n)
          (then_run (choose_target p (st_name st) (st_transition st) m3) (run_target p (st_name st)))"
        proof (rule total_then [OF choose_target_total])
          show "holds p bound m3" "keys_total p bound (length (m_regions m3)) (st_transition st)"
            using 3 keys by auto
        next
          fix mt
          assume "case mt of (m', t) \<Rightarrow> m_regions m' = m_regions m3 \<and> holds p bound m' \<and>
            t \<in> set (targets_of (st_transition st))"
          then show "total (\<lambda>(m', n). n \<in> set names \<and> holds p (known n) m' \<and>
              length (m_regions m') = depth n) (run_target p (st_name st) mt)"
            using 3 ts holds_subset [of p bound]
            by (auto simp: run_target_def target_total_def list_all_iff split: target.splits)
        qed
      qed
    qed
  qed
qed

section \<open>The loop\<close>

lemma run_loop_total:
  assumes wf: "wf_within p names known depth" and input: "input_ok packet avail"
  shows "n \<in> set names \<Longrightarrow> holds p (known n) m \<Longrightarrow> length (m_regions m) = depth n \<Longrightarrow>
    k = p_max_depth p - d \<Longrightarrow> \<exists>res. run_loop p packet avail d n m = Inr res"
proof (induction k arbitrary: d n m)
  case 0
  then show ?case by (simp add: run_loop.simps [of p packet avail d] Let_def)
next
  case (Suc k)
  have "n \<in> set (map st_name (p_states p))" using Suc.prems(1) wf by (auto simp: wf_within_def)
  then obtain st where st: "find_state p n = Some st" using find_state_names [of p n] by auto
  then have "st_name st = n" using find_stateD by auto
  then have total: "total (\<lambda>(m', n). n \<in> set names \<and> holds p (known n) m' \<and>
      length (m_regions m') = depth n) (run_state p packet avail st (enter n m))"
    using wf Suc.prems(1-3) st
    by (intro run_state_total [OF _ input]) (auto simp: wf_within_def enter_def holds_def)
  have lt: "d < p_max_depth p" "k = p_max_depth p - Suc d" using Suc.prems(4) by auto
  show ?case
    using total st lt Suc.IH
    by (simp add: run_loop.simps [of p packet avail d] Let_def total_def
        split: sum.splits run.splits prod.splits)
qed

lemma init_holds: "holds p [] (init_machine p)"
proof -
  have "map_of (rev (map (\<lambda>m. (md_name m, md_init m)) (p_metadata p))) n \<noteq> None"
    if "n \<in> set (metas_of p)" for n
    using that by (auto simp: map_of_eq_None_iff metas_of_def image_image)
  then show ?thesis by (simp add: holds_def init_machine_def init_meta_def)
qed

text \<open>The interpreter is total on a description that passes the check.\<close>

lemma run_bits_total_within:
  assumes "wf_within p names known depth" and "avail \<le> 8 * length packet" and "avail < 2 ^ 64"
  shows "\<exists>res. run_bits p packet avail = Inr res"
  unfolding run_bits_def
  by (rule run_loop_total [OF assms(1) _ _ _ _ refl])
    (use assms init_holds in \<open>auto simp: input_ok_def wf_within_def init_machine_def\<close>)

lemmas run_bits_total = run_bits_total_within [OF wf_ok_within]

end
