(* ===== verification/Ir_Invariants.thy ===== *)
theory Ir_Invariants
  imports Ir_Total
begin

text \<open>
  What every run of the interpreter keeps: the cursor stays within the declared input, lookahead
  included, so \<open>consumed_bits\<close> does too; the trace gains one entry per state entered, so it is never
  longer than the depth bound allows; and a metadata slot never exceeds its declared width.
\<close>

section \<open>Phases that keep an invariant\<close>

definition keeps :: "('b \<Rightarrow> bool) \<Rightarrow> (parse_result \<Rightarrow> bool) \<Rightarrow> 'b phase \<Rightarrow> bool" where
  "keeps I J r = (case r of Inl _ \<Rightarrow> True | Inr (Go b) \<Rightarrow> I b | Inr (Stop res) \<Rightarrow> J res)"

lemma keeps_simps [simp]:
  "keeps I J (Inl e)" "keeps I J (Inr (Go b)) = I b" "keeps I J (Inr (Stop res)) = J res"
  by (simp_all add: keeps_def)

lemma keeps_then:
  "keeps I J r \<Longrightarrow> (\<And>b. I b \<Longrightarrow> keeps K J (f b)) \<Longrightarrow> keeps K J (then_run r f)"
  by (cases r f rule: then_run_cases) auto

lemma keeps_bind: "(\<And>x. r = Inr x \<Longrightarrow> keeps I J (f x)) \<Longrightarrow> keeps I J (and_then r f)"
  by (cases r) auto

lemma then_run_assoc: "then_run (then_run r f) g = then_run r (\<lambda>x. then_run (f x) g)"
  by (cases r f rule: then_run_cases) simp_all

definition fits_width :: "metadata_field \<Rightarrow> u64 \<Rightarrow> bool" where
  "fits_width d v = (md_bits d < 64 \<longrightarrow> unat v < 2 ^ md_bits d)"

lemma fits_width_code [code]:
  "fits_width d v = (md_bits d < 64 \<longrightarrow> take_bit (md_bits d) v = v)"
proof -
  have "unat v < 2 ^ n \<longleftrightarrow> take_bit n v = v" for n
    by (metis take_bit_nat_eq_self_iff unsigned_take_bit_eq word_unat_eq_iff)
  then show ?thesis by (simp add: fits_width_def)
qed

definition meta_fits :: "parser \<Rightarrow> meta_store \<Rightarrow> bool" where
  "meta_fits p meta \<longleftrightarrow> (\<forall>d\<in>set (p_metadata p). \<exists>v. meta (md_name d) = Some v \<and> fits_width d v)"

text \<open>The metadata declarations themselves: distinct names, initial values of the declared width.\<close>

definition meta_decl_ok :: "parser \<Rightarrow> bool" where
  "meta_decl_ok p =
     (distinct (map md_name (p_metadata p)) \<and> list_all (\<lambda>d. fits_width d (md_init d)) (p_metadata p))"

text \<open>\<open>k\<close> is the number of states entered so far.\<close>

definition machine_ok :: "parser \<Rightarrow> nat \<Rightarrow> nat \<Rightarrow> machine \<Rightarrow> bool" where
  "machine_ok p avail k m \<longleftrightarrow> m_cursor m \<le> avail \<and> meta_fits p (m_meta m) \<and> length (m_trace m) = k"

definition result_ok :: "parser \<Rightarrow> nat \<Rightarrow> nat \<Rightarrow> parse_result \<Rightarrow> bool" where
  "result_ok p avail k res \<longleftrightarrow>
     pr_consumed_bits res \<le> avail \<and> length (pr_trace res) = k \<and>
     (\<forall>d\<in>set (p_metadata p). \<exists>v. (md_name d, v) \<in> set (pr_metadata res) \<and> fits_width d v)"

lemma final_meta_fits:
  assumes "meta_fits p meta" and "d \<in> set (p_metadata p)"
  shows "\<exists>v. (md_name d, v) \<in> set (final_meta p meta) \<and> fits_width d v"
  using assms by (force simp: meta_fits_def final_meta_def)

lemma reject_ok:
  assumes "machine_ok p avail k m" and "consumed \<le> avail"
  shows "result_ok p avail k (mk_reject p why st sev ctx consumed hs m)"
  using assms final_meta_fits by (auto simp: machine_ok_def result_ok_def mk_reject_def)

section \<open>The phases of a state\<close>

lemma extract_field_keeps:
  assumes "machine_ok p avail k m" and "entry \<le> avail"
  shows "keeps (\<lambda>(m', parsed'). machine_ok p avail k m') (result_ok p avail k)
    (extract_field p packet avail st ex entry f (m, parsed))"
proof -
  have le: "read_bound avail m \<le> avail" by (auto simp: read_bound_def split: list.split)
  have fail: "result_ok p avail k (extract_fail p st ex entry f e parsed m)" for e
    using assms by (auto simp: extract_fail_def machine_ok_def intro!: reject_ok)
  show ?thesis
  proof (cases "field_width f")
    case (Bits n)
    have "keeps (\<lambda>(m', parsed'). machine_ok p avail k m') (result_ok p avail k)
      (case rd of
         None \<Rightarrow> Inr (Stop (extract_fail p st ex entry f (checked_add (m_cursor m) n) parsed m))
       | Some value \<Rightarrow> Inr (Go
           (m\<lparr>m_env := (m_env m)((instance_of ex, field_name f) \<mapsto> value), m_cursor := m_cursor m + n\<rparr>,
            parsed\<lparr>ph_fields := ph_fields parsed @ [\<lparr>pf_name = field_name f,
              pf_bit_offset = m_cursor m, pf_bit_len = n, pf_value = Uint value\<rparr>]\<rparr>)))"
      if "read_bits packet (read_bound avail m) (m_cursor m) n = Inr rd" for rd
    proof (cases rd)
      case None
      then show ?thesis using fail by simp
    next
      case (Some v)
      then have "m_cursor m + n \<le> avail"
        using that le by (auto simp: read_bits_def checked_add_def and_then_Inr split: if_splits)
      then show ?thesis using Some assms(1) by (simp add: machine_ok_def)
    qed
    then show ?thesis by (auto simp: extract_field_def Bits intro!: keeps_bind)
  next
    case (BitLen e)
    have "m_cursor m + unat v \<le> avail"
      if "\<not> (case checked_add (unat v) (m_cursor m) of None \<Rightarrow> True | Some e \<Rightarrow> read_bound avail m < e)" for v
      using that le by (auto simp: checked_add_def split: if_splits)
    then show ?thesis
      using fail assms(1)
      by (auto simp: extract_field_def BitLen Let_def machine_ok_def intro!: keeps_bind)
  qed
qed

lemma extract_fields_keeps:
  "machine_ok p avail k m \<Longrightarrow> entry \<le> avail \<Longrightarrow>
   keeps (\<lambda>(m', parsed'). machine_ok p avail k m') (result_ok p avail k)
     (extract_fields p packet avail st ex entry fs (m, parsed))"
proof (induction fs arbitrary: m parsed)
  case Nil
  then show ?case by simp
next
  case (Cons f fs)
  show ?case
    unfolding extract_fields.simps
    by (rule keeps_then [OF extract_field_keeps [OF Cons.prems]]) (use Cons in auto)
qed

lemma extract_header_keeps:
  assumes "machine_ok p avail k m"
  shows "keeps (machine_ok p avail k) (result_ok p avail k) (extract_header p packet avail st ex m)"
proof (cases "find_header_type p (ex_header_type ex)")
  case None
  then show ?thesis by (simp add: extract_header_def)
next
  case (Some ht)
  have le: "m_cursor m \<le> avail" using assms by (simp add: machine_ok_def)
  show ?thesis
    unfolding extract_header_def Some option.case
    by (rule keeps_then [OF extract_fields_keeps [OF assms le]]) (use le in \<open>auto simp: machine_ok_def\<close>)
qed

lemma extract_headers_keeps:
  "machine_ok p avail k m \<Longrightarrow>
   keeps (machine_ok p avail k) (result_ok p avail k) (extract_headers p packet avail st exs m)"
proof (induction exs arbitrary: m)
  case Nil
  then show ?case by simp
next
  case (Cons ex exs)
  show ?case
    unfolding extract_headers.simps
    by (rule keeps_then [OF extract_header_keeps [OF Cons.prems]]) (rule Cons.IH)
qed

lemma masked_fits: "unat (v AND (push_bit b 1 - 1) :: u64) < 2 ^ b"
proof -
  have "v AND (push_bit b 1 - 1) = take_bit b v"
    by (simp only: take_bit_eq_mask mask_eq_exp_minus_1 push_bit_eq_mult mult_1_left)
  moreover have "unat (take_bit b v) < 2 ^ b"
    by (metis take_bit_nat_less_exp unsigned_take_bit_eq)
  ultimately show ?thesis by simp
qed

lemma run_assign_keeps:
  assumes "machine_ok p avail k m" and "distinct (map md_name (p_metadata p))"
  shows "keeps (machine_ok p avail k) (result_ok p avail k) (run_assign p a m)"
proof -
  have "meta_fits p ((m_meta m)(as_metadata a \<mapsto>
      (if md_bits d \<ge> 64 then v else v AND (push_bit (md_bits d) 1 - 1))))"
    if d: "find_metadata p (as_metadata a) = Some d" for d v
  proof -
    have fits: "fits_width d (if md_bits d \<ge> 64 then v else v AND (push_bit (md_bits d) 1 - 1))"
      using masked_fits [of v "md_bits d"] by (simp add: fits_width_def)
    have same: "d' = d" if "d' \<in> set (p_metadata p)" "md_name d' = as_metadata a" for d'
      using that find_metadataD [OF d] assms(2) by (metis distinct_map inj_onD)
    show ?thesis
      unfolding meta_fits_def
    proof
      fix d'
      assume d': "d' \<in> set (p_metadata p)"
      obtain w where "m_meta m (md_name d') = Some w \<and> fits_width d' w"
        using assms(1) d' unfolding machine_ok_def meta_fits_def by blast
      then show "\<exists>w. ((m_meta m)(as_metadata a \<mapsto>
          (if md_bits d \<ge> 64 then v else v AND (push_bit (md_bits d) 1 - 1)))) (md_name d') = Some w \<and>
          fits_width d' w"
        using fits same [OF d'] by (cases "md_name d' = as_metadata a") auto
    qed
  qed
  then show ?thesis
    using assms(1)
    by (auto simp: run_assign_def machine_ok_def intro!: keeps_bind split: option.split)
qed

lemma run_assigns_keeps:
  assumes "distinct (map md_name (p_metadata p))"
  shows "machine_ok p avail k m \<Longrightarrow>
    keeps (machine_ok p avail k) (result_ok p avail k) (run_assigns p as m)"
proof (induction as arbitrary: m)
  case Nil
  then show ?case by simp
next
  case (Cons a as)
  show ?case
    unfolding run_assigns.simps
    by (rule keeps_then [OF run_assign_keeps [OF Cons.prems assms]]) (rule Cons.IH)
qed

lemma plain_reject_ok:
  "machine_ok p avail k m \<Longrightarrow> result_ok p avail k (plain_reject p why st sev m)"
  by (auto simp: machine_ok_def intro!: reject_ok)

lemma run_region_op_keeps:
  assumes "machine_ok p avail k m"
  shows "keeps (machine_ok p avail k) (result_ok p avail k) (run_region_op p avail st op m)"
proof (cases op)
  case (Push e)
  then show ?thesis
    using assms plain_reject_ok [OF assms]
    by (auto simp: run_region_op_def machine_ok_def intro!: keeps_bind split: option.split list.split)
next
  case Pop
  then show ?thesis
    using assms plain_reject_ok [OF assms]
    by (auto simp: run_region_op_def machine_ok_def split: list.split)
qed

lemma run_region_ops_keeps:
  "machine_ok p avail k m \<Longrightarrow>
   keeps (machine_ok p avail k) (result_ok p avail k) (run_region_ops p avail st ops m)"
proof (induction ops arbitrary: m)
  case Nil
  then show ?case by simp
next
  case (Cons op ops)
  show ?case
    unfolding run_region_ops.simps
    by (rule keeps_then [OF run_region_op_keeps [OF Cons.prems]]) (rule Cons.IH)
qed

lemma set_decision_ok: "machine_ok p avail k m \<Longrightarrow> machine_ok p avail k (set_decision d m)"
proof (cases "m_trace m" rule: rev_cases)
  case Nil
  then show "machine_ok p avail k m \<Longrightarrow> ?thesis" by (simp add: machine_ok_def set_decision_def)
next
  case (snoc xs x)
  then show "machine_ok p avail k m \<Longrightarrow> ?thesis"
    by (cases x) (simp add: machine_ok_def set_decision_def)
qed

lemma choose_target_keeps:
  assumes "machine_ok p avail k m"
  shows "keeps (\<lambda>(m', t). machine_ok p avail k m') (result_ok p avail k) (choose_target p st tr m)"
proof (cases tr)
  case (Direct t)
  then show ?thesis using set_decision_ok [OF assms] by (simp add: choose_target_def)
next
  case (Select keys arms dflt)
  have "result_ok p avail k (plain_reject p ''no matching select arm'' st SevError (set_decision DDefault m))"
    by (rule plain_reject_ok [OF set_decision_ok [OF assms]])
  then show ?thesis
    using set_decision_ok [OF assms]
    by (auto simp: choose_target_def Select intro!: keeps_bind split: option.split)
qed

lemma run_target_keeps:
  assumes "machine_ok p avail k m"
  shows "keeps (\<lambda>(m', n). machine_ok p avail k m') (result_ok p avail k) (run_target p st (m, t))"
  using assms plain_reject_ok [OF assms] final_meta_fits
  by (auto simp: run_target_def machine_ok_def result_ok_def split: target.split)

lemma run_state_keeps:
  assumes "machine_ok p avail k m" and "distinct (map md_name (p_metadata p))"
  shows "keeps (\<lambda>(m', n). machine_ok p avail k m') (result_ok p avail k) (run_state p packet avail st m)"
  unfolding run_state_def
  by (intro keeps_then [OF extract_headers_keeps [OF assms(1)]] keeps_then [OF run_assigns_keeps [OF assms(2)]]
      keeps_then [OF run_region_ops_keeps] keeps_then [OF choose_target_keeps])
    (auto intro: run_target_keeps)

section \<open>The loop\<close>

lemma enter_ok: "machine_ok p avail k m \<Longrightarrow> machine_ok p avail (Suc k) (enter n m)"
  by (simp add: machine_ok_def enter_def)

lemma run_loop_keeps:
  assumes "distinct (map md_name (p_metadata p))"
  shows "run_loop p packet avail d n m = Inr res \<Longrightarrow> machine_ok p avail d m \<Longrightarrow> d \<le> p_max_depth p \<Longrightarrow>
    \<exists>k. k \<le> Suc (p_max_depth p) \<and> result_ok p avail k res"
proof (induction "p_max_depth p - d" arbitrary: d n m)
  case 0
  then show ?case
    using plain_reject_ok [OF enter_ok [OF 0(3)]]
    by (auto simp: run_loop.simps [of p packet avail d] Let_def)
next
  case (Suc j)
  then have lt: "d < p_max_depth p" by simp
  obtain st where st: "find_state p n = Some st"
    using Suc.prems(1) lt by (auto simp: run_loop.simps [of p packet avail d] Let_def split: option.splits)
  note keep = run_state_keeps [OF enter_ok [OF Suc.prems(2)] assms, of packet st n]
  show ?case
  proof (cases "run_state p packet avail st (enter n m)")
    case (Inl e)
    then show ?thesis using Suc.prems(1) lt st by (simp add: run_loop.simps [of p packet avail d] Let_def)
  next
    case (Inr r)
    show ?thesis
    proof (cases r)
      case (Stop res')
      then have "res' = res" using Inr Suc.prems(1) lt st
        by (simp add: run_loop.simps [of p packet avail d] Let_def)
      then show ?thesis using keep Inr Stop lt by (intro exI [of _ "Suc d"]) simp
    next
      case (Go mn)
      obtain m' n' where mn: "mn = (m', n')" by force
      have "run_loop p packet avail (Suc d) n' m' = Inr res" "machine_ok p avail (Suc d) m'"
        using keep Inr Go mn Suc.prems(1) lt st
        by (auto simp: run_loop.simps [of p packet avail d] Let_def)
      then show ?thesis using Suc.hyps lt by (intro Suc.hyps(1) [of "Suc d" n' m']) auto
    qed
  qed
qed

lemma init_meta_fits:
  assumes "meta_decl_ok p"
  shows "meta_fits p (init_meta p)"
proof -
  have dist: "distinct (map md_name (p_metadata p))" using assms by (simp add: meta_decl_ok_def)
  have "init_meta p (md_name d) = Some (md_init d)" if "d \<in> set (p_metadata p)" for d
    using that dist unfolding init_meta_def
    by (subst map_of_eq_Some_iff) (auto simp: comp_def rev_map [symmetric])
  then show ?thesis
    using assms by (auto simp: meta_fits_def meta_decl_ok_def list_all_iff)
qed

lemma run_bits_keeps:
  assumes "run_bits p packet avail = Inr res" and "meta_decl_ok p"
  shows "\<exists>k. k \<le> Suc (p_max_depth p) \<and> result_ok p avail k res"
proof -
  have dist: "distinct (map md_name (p_metadata p))" using assms(2) by (simp add: meta_decl_ok_def)
  have "machine_ok p avail 0 (init_machine p)"
    using init_meta_fits [OF assms(2)] by (simp add: machine_ok_def init_machine_def)
  then show ?thesis
    using run_loop_keeps [OF dist] assms(1) unfolding run_bits_def by blast
qed

end
