(* ===== verification/Bpf_Entry.thy ===== *)
theory Bpf_Entry
  imports C_Layout Ir_Invariants
begin

text \<open>
  The eBPF entry point: the length prefix, the verdict word and what they carry. \<open>entry_decodes\<close> is
  the composition of the whole chain, from a framed packet to the fields of the verdict word, for any
  parser whose core refines the interpreter on a masked buffer.
\<close>

section \<open>The length prefix\<close>

definition le64 :: "u64 \<Rightarrow> bytes" where
  "le64 n = map (\<lambda>i. ucast (drop_bit (8 * i) n)) [0..<8]"

lemma length_le64 [simp]: "length (le64 n) = 8"
  by (simp add: le64_def)

lemma entry_len_upto_le64:
  "i \<le> 8 \<Longrightarrow> entry_len_upto (le64 n @ pkt) i = Inr (take_bit (8 * i) n)"
proof (induction i)
  case 0
  then show ?case by simp
next
  case (Suc i)
  have byte: "buf_at (le64 n @ pkt) (of_nat i) = Some (ucast (drop_bit (8 * i) n))"
    using Suc.prems by (simp add: buf_at_def unat_of_nat nth_append le64_def)
  have "take_bit (8 * i) n OR push_bit (8 * i) (ucast (ucast (drop_bit (8 * i) n) :: u8)) =
      take_bit (8 * Suc i) n"
    using Suc.prems by (intro bit_word_eqI) (auto simp: bit_simps)
  with Suc byte show ?case by simp
qed

lemma entry_bit_len_le64: "entry_bit_len (le64 n @ pkt) = Inr n"
  by (simp add: entry_bit_len_def entry_len_upto_le64)

section \<open>The verdict word\<close>

definition verdict_outcome :: "u64 \<Rightarrow> nat" where
  "verdict_outcome w = unat (drop_bit 56 w)"

definition verdict_reason :: "u64 \<Rightarrow> nat" where
  "verdict_reason w = unat (drop_bit 48 w AND 0xff)"

definition verdict_consumed :: "u64 \<Rightarrow> nat" where
  "verdict_consumed w = unat (w AND 0xFFFFFFFFFFFF)"

lemma and_48: "(w :: u64) AND 0xFFFFFFFFFFFF = take_bit 48 w"
  by (simp add: take_bit_eq_mask mask_eq_exp_minus_1)

lemma and_8: "(w :: u64) AND 0xff = take_bit 8 w"
  by (simp add: take_bit_eq_mask mask_eq_exp_minus_1)

lemma bit_less_word: "unat (w :: 'a::len word) < 2 ^ n \<Longrightarrow> bit w k \<Longrightarrow> k < n"
proof -
  assume w: "unat w < 2 ^ n" "bit w k"
  then have "take_bit n w = w"
    by (metis take_bit_nat_eq_self unsigned_take_bit_eq word_unat_eq_iff)
  with w(2) show "k < n" by (metis bit_take_bit_iff)
qed

lemma unat_widen:
  "unat (ucast (b :: u8) :: u64) = unat b" "unat (ucast (r :: u16) :: u64) = unat r"
proof -
  have "unat b < 2 ^ LENGTH(8)" "unat r < 2 ^ LENGTH(16)"
    by (rule unsigned_less)+
  then show "unat (ucast b :: u64) = unat b" "unat (ucast r :: u64) = unat r"
    by (simp_all add: unsigned_ucast_eq take_bit_nat_eq_self)
qed

lemma verdict_fields:
  fixes r :: u16 and c :: u64 and b :: u8
  assumes "unat r < 2 ^ 8" and "unat c < 2 ^ 48"
  shows "verdict_outcome (push_bit 56 (ucast b) OR push_bit 48 (ucast r) OR (c AND 0xFFFFFFFFFFFF)) = unat b"
    and "verdict_reason (push_bit 56 (ucast b) OR push_bit 48 (ucast r) OR (c AND 0xFFFFFFFFFFFF)) = unat r"
    and "verdict_consumed (push_bit 56 (ucast b) OR push_bit 48 (ucast r) OR (c AND 0xFFFFFFFFFFFF)) = unat c"
proof -
  let ?w = "push_bit 56 (ucast b) OR push_bit 48 (ucast r) OR (c AND 0xFFFFFFFFFFFF) :: u64"
  note r = bit_less_word [OF assms(1)] and c = bit_less_word [OF assms(2)]
  have b: "bit b k \<Longrightarrow> k < 8" for k using bit_imp_le_length by fastforce
  have "drop_bit 56 ?w = ucast b"
    by (rule bit_word_eqI) (auto simp: bit_simps and_48 dest: r c b)
  then show "verdict_outcome ?w = unat b"
    by (simp add: verdict_outcome_def unat_widen)
  have "drop_bit 48 ?w AND 0xff = ucast r"
    unfolding and_8 by (rule bit_word_eqI) (auto simp: bit_simps and_48 dest: r c b)
  then show "verdict_reason ?w = unat r"
    by (simp add: verdict_reason_def unat_widen)
  have "?w AND 0xFFFFFFFFFFFF = c"
    unfolding and_48 by (rule bit_word_eqI) (auto simp: bit_simps dest: r c b)
  then show "verdict_consumed ?w = unat c"
    by (simp add: verdict_consumed_def)
qed

section \<open>Reason codes\<close>

definition reasons_fit :: "parser \<Rightarrow> bool" where
  "reasons_fit p = list_all (\<lambda>(r, k). k < 256) (reason_table p)"

lemma reason_number_fits: "reasons_fit p \<Longrightarrow> unat (reason_number p r) < 2 ^ 8"
proof (cases "map_of (reason_table p) r")
  case (Some k)
  assume "reasons_fit p"
  with map_of_SomeD [OF Some] have "k < 256" by (auto simp: reasons_fit_def list_all_iff)
  then show ?thesis using Some by (simp add: reason_number_def unat_of_nat)
qed (simp add: reason_number_def)

lemma expected_reason_fits: "reasons_fit p \<Longrightarrow> unat (expected_reason p res) < 2 ^ 8"
  using reason_number_fits [of p] by (auto simp: expected_reason_def split: outcome.split)

section \<open>From the framed packet to the verdict\<close>

definition verdict_agrees :: "parser \<Rightarrow> parse_result \<Rightarrow> u64 \<Rightarrow> bool" where
  "verdict_agrees p res w \<longleftrightarrow>
     verdict_outcome w = (if pr_outcome res = Accepted then 0 else 1) \<and>
     verdict_reason w = unat (expected_reason p res) \<and>
     verdict_consumed w = pr_consumed_bits res"

lemma entry_decodes:
  assumes agrees: "result_agrees p get slots res ret r"
    and run: "run_bits p pkt avail = Inr res" and meta: "meta_decl_ok p" and fit: "reasons_fit p"
    and avail: "avail < 2 ^ 48"
  shows "\<exists>w. entry_verdict (Return ret r) = Inr w \<and> verdict_agrees p res w"
proof -
  have "pr_consumed_bits res \<le> avail"
    using run_bits_keeps [OF run meta] by (auto simp: result_ok_def)
  then have c: "unat (consumed_bits r) < 2 ^ 48"
    using agrees avail by (simp add: result_agrees_def)
  have "reason r = expected_reason p res" using agrees by (simp add: result_agrees_def)
  then have rr: "unat (reason r) < 2 ^ 8" using expected_reason_fits [OF fit] by simp
  have "unat (outcome r) = (if pr_outcome res = Accepted then 0 else 1)"
    using agrees by (auto simp: result_agrees_def)
  then show ?thesis
    using verdict_fields [OF rr c, of "outcome r"] agrees
    by (auto simp: entry_verdict_def verdict_agrees_def result_agrees_def)
qed

end
