(* ===== verification/Tls_Clienthello_Refine.thy ===== *)
theory Tls_Clienthello_Refine
  imports Tls_Clienthello Bpf_Entry
begin

text \<open>
  The generated parser benchmarks/industry/tls_clienthello/gen/parser.c is what the emitter makes of
  benchmarks/industry/tls_clienthello/tls_clienthello.ir.json, and it does what the interpreter does: the description as a term of the
  IR, the members of the result struct, the certificates of the two static checks, the proof that
  every case of the file equals the emitted one, and the refinement theorem.
\<close>

section \<open>The description\<close>

definition tls_ht_record_hdr :: header_type where
  "tls_ht_record_hdr = \<lparr>ht_name = ''record_hdr'', ht_fields =
     [\<lparr>field_name = ''ctype'', field_width = Bits 8\<rparr>,
      \<lparr>field_name = ''ver_major'', field_width = Bits 8\<rparr>,
      \<lparr>field_name = ''ver_minor'', field_width = Bits 8\<rparr>,
      \<lparr>field_name = ''rlen'', field_width = Bits 16\<rparr>]\<rparr>"

definition tls_ht_handshake_hdr :: header_type where
  "tls_ht_handshake_hdr = \<lparr>ht_name = ''handshake_hdr'', ht_fields =
     [\<lparr>field_name = ''typ'', field_width = Bits 8\<rparr>,
      \<lparr>field_name = ''hlen'', field_width = Bits 24\<rparr>]\<rparr>"

definition tls_ht_body_fixed :: header_type where
  "tls_ht_body_fixed = \<lparr>ht_name = ''body_fixed'', ht_fields =
     [\<lparr>field_name = ''ver'', field_width = Bits 16\<rparr>,
      \<lparr>field_name = ''random'', field_width = BitLen (Bin OpMul (Constant 32) (Constant 8))\<rparr>]\<rparr>"

definition tls_ht_sid_len :: header_type where
  "tls_ht_sid_len = \<lparr>ht_name = ''sid_len'', ht_fields =
     [\<lparr>field_name = ''slen'', field_width = Bits 8\<rparr>]\<rparr>"

definition tls_ht_sid :: header_type where
  "tls_ht_sid = \<lparr>ht_name = ''sid'', ht_fields =
     [\<lparr>field_name = ''body'', field_width = BitLen (Bin OpMul (Field ''sid_len'' ''slen'') (Constant 8))\<rparr>]\<rparr>"

definition tls_ht_cs_len :: header_type where
  "tls_ht_cs_len = \<lparr>ht_name = ''cs_len'', ht_fields =
     [\<lparr>field_name = ''clen'', field_width = Bits 16\<rparr>]\<rparr>"

definition tls_ht_cs :: header_type where
  "tls_ht_cs = \<lparr>ht_name = ''cs'', ht_fields =
     [\<lparr>field_name = ''body'', field_width = BitLen (Bin OpMul (Field ''cs_len'' ''clen'') (Constant 8))\<rparr>]\<rparr>"

definition tls_ht_comp_len :: header_type where
  "tls_ht_comp_len = \<lparr>ht_name = ''comp_len'', ht_fields =
     [\<lparr>field_name = ''plen'', field_width = Bits 8\<rparr>]\<rparr>"

definition tls_ht_comp :: header_type where
  "tls_ht_comp = \<lparr>ht_name = ''comp'', ht_fields =
     [\<lparr>field_name = ''body'', field_width = BitLen (Bin OpMul (Field ''comp_len'' ''plen'') (Constant 8))\<rparr>]\<rparr>"

definition tls_ht_ext_len :: header_type where
  "tls_ht_ext_len = \<lparr>ht_name = ''ext_len'', ht_fields =
     [\<lparr>field_name = ''total'', field_width = Bits 16\<rparr>]\<rparr>"

definition tls_ht_ext :: header_type where
  "tls_ht_ext = \<lparr>ht_name = ''ext'', ht_fields =
     [\<lparr>field_name = ''typ'', field_width = Bits 16\<rparr>,
      \<lparr>field_name = ''elen'', field_width = Bits 16\<rparr>]\<rparr>"

definition tls_ht_skip :: header_type where
  "tls_ht_skip = \<lparr>ht_name = ''skip'', ht_fields =
     [\<lparr>field_name = ''body'', field_width = BitLen (Bin OpMul (Field ''ext'' ''elen'') (Constant 8))\<rparr>]\<rparr>"

definition tls_ht_sni_list :: header_type where
  "tls_ht_sni_list = \<lparr>ht_name = ''sni_list'', ht_fields =
     [\<lparr>field_name = ''list_len'', field_width = Bits 16\<rparr>]\<rparr>"

definition tls_ht_sni_entry :: header_type where
  "tls_ht_sni_entry = \<lparr>ht_name = ''sni_entry'', ht_fields =
     [\<lparr>field_name = ''ntype'', field_width = Bits 8\<rparr>,
      \<lparr>field_name = ''hlen'', field_width = Bits 16\<rparr>]\<rparr>"

definition tls_ht_host :: header_type where
  "tls_ht_host = \<lparr>ht_name = ''host'', ht_fields =
     [\<lparr>field_name = ''name'', field_width = BitLen (Bin OpMul (Field ''sni_entry'' ''hlen'') (Constant 8))\<rparr>]\<rparr>"

definition tls_st_s_record :: state where
  "tls_st_s_record =
     \<lparr>st_name = ''s_record'',
      st_extracts = [\<lparr>ex_header_type = ''record_hdr'', ex_instance = [], ex_lookahead = False\<rparr>],
      st_assigns = [],
      st_region_ops = [Push (Bin OpMul (Field ''record_hdr'' ''rlen'') (Constant 8))],
      st_transition = Select [Field ''record_hdr'' ''ctype'']
       [\<lparr>arm_entries = [Value 22], arm_next = ToState ''s_recver''\<rparr>]
       (Some (Reject ''not a handshake record'' SevError))\<rparr>"

definition tls_st_s_recver :: state where
  "tls_st_s_recver =
     \<lparr>st_name = ''s_recver'',
      st_extracts = [],
      st_assigns = [],
      st_region_ops = [],
      st_transition = Select [Field ''record_hdr'' ''ver_major'']
       [\<lparr>arm_entries = [Value 3], arm_next = ToState ''s_hs''\<rparr>]
       (Some (Reject ''unsupported record version'' SevError))\<rparr>"

definition tls_st_s_hs :: state where
  "tls_st_s_hs =
     \<lparr>st_name = ''s_hs'',
      st_extracts = [\<lparr>ex_header_type = ''handshake_hdr'', ex_instance = [], ex_lookahead = False\<rparr>],
      st_assigns = [],
      st_region_ops = [Push (Bin OpMul (Field ''handshake_hdr'' ''hlen'') (Constant 8))],
      st_transition = Select [Field ''handshake_hdr'' ''typ'']
       [\<lparr>arm_entries = [Value 1], arm_next = ToState ''s_fixed''\<rparr>]
       (Some (Reject ''not a client hello'' SevError))\<rparr>"

definition tls_st_s_fixed :: state where
  "tls_st_s_fixed =
     \<lparr>st_name = ''s_fixed'',
      st_extracts = [\<lparr>ex_header_type = ''body_fixed'', ex_instance = [], ex_lookahead = False\<rparr>],
      st_assigns = [],
      st_region_ops = [],
      st_transition = Direct (ToState ''s_sid_len'')\<rparr>"

definition tls_st_s_sid_len :: state where
  "tls_st_s_sid_len =
     \<lparr>st_name = ''s_sid_len'',
      st_extracts = [\<lparr>ex_header_type = ''sid_len'', ex_instance = [], ex_lookahead = False\<rparr>],
      st_assigns = [],
      st_region_ops = [],
      st_transition = Select [Field ''sid_len'' ''slen'']
       [\<lparr>arm_entries = [Range 0 32], arm_next = ToState ''s_sid''\<rparr>]
       (Some (Reject ''session id too long'' SevError))\<rparr>"

definition tls_st_s_sid :: state where
  "tls_st_s_sid =
     \<lparr>st_name = ''s_sid'',
      st_extracts = [\<lparr>ex_header_type = ''sid'', ex_instance = [], ex_lookahead = False\<rparr>],
      st_assigns = [],
      st_region_ops = [],
      st_transition = Direct (ToState ''s_cs_len'')\<rparr>"

definition tls_st_s_cs_len :: state where
  "tls_st_s_cs_len =
     \<lparr>st_name = ''s_cs_len'',
      st_extracts = [\<lparr>ex_header_type = ''cs_len'', ex_instance = [], ex_lookahead = False\<rparr>],
      st_assigns = [\<lparr>as_metadata = ''cs_odd'', as_value = Bin OpAnd (Field ''cs_len'' ''clen'') (Constant 1)\<rparr>],
      st_region_ops = [],
      st_transition = Select [Field ''cs_len'' ''clen'']
       [\<lparr>arm_entries = [Value 0], arm_next = Reject ''empty cipher suites'' SevError\<rparr>]
       (Some (ToState ''s_cs_parity''))\<rparr>"

definition tls_st_s_cs_parity :: state where
  "tls_st_s_cs_parity =
     \<lparr>st_name = ''s_cs_parity'',
      st_extracts = [],
      st_assigns = [],
      st_region_ops = [],
      st_transition = Select [Metadata ''cs_odd'']
       [\<lparr>arm_entries = [Value 1], arm_next = Reject ''odd cipher suites length'' SevError\<rparr>]
       (Some (ToState ''s_cs''))\<rparr>"

definition tls_st_s_cs :: state where
  "tls_st_s_cs =
     \<lparr>st_name = ''s_cs'',
      st_extracts = [\<lparr>ex_header_type = ''cs'', ex_instance = [], ex_lookahead = False\<rparr>],
      st_assigns = [],
      st_region_ops = [],
      st_transition = Direct (ToState ''s_comp_len'')\<rparr>"

definition tls_st_s_comp_len :: state where
  "tls_st_s_comp_len =
     \<lparr>st_name = ''s_comp_len'',
      st_extracts = [\<lparr>ex_header_type = ''comp_len'', ex_instance = [], ex_lookahead = False\<rparr>],
      st_assigns = [],
      st_region_ops = [],
      st_transition = Select [Field ''comp_len'' ''plen'']
       [\<lparr>arm_entries = [Value 0], arm_next = Reject ''empty compressions'' SevError\<rparr>]
       (Some (ToState ''s_comp''))\<rparr>"

definition tls_st_s_comp :: state where
  "tls_st_s_comp =
     \<lparr>st_name = ''s_comp'',
      st_extracts = [\<lparr>ex_header_type = ''comp'', ex_instance = [], ex_lookahead = False\<rparr>],
      st_assigns = [],
      st_region_ops = [],
      st_transition = Direct (ToState ''s_ext_check'')\<rparr>"

definition tls_st_s_ext_check :: state where
  "tls_st_s_ext_check =
     \<lparr>st_name = ''s_ext_check'',
      st_extracts = [],
      st_assigns = [],
      st_region_ops = [],
      st_transition = Select [Bin OpShr (Remaining) (Constant 3)]
       [\<lparr>arm_entries = [Value 0], arm_next = ToState ''s_done_noext''\<rparr>,
        \<lparr>arm_entries = [Value 1], arm_next = Reject ''partial extensions length'' SevError\<rparr>]
       (Some (ToState ''s_ext_len''))\<rparr>"

definition tls_st_s_ext_len :: state where
  "tls_st_s_ext_len =
     \<lparr>st_name = ''s_ext_len'',
      st_extracts = [\<lparr>ex_header_type = ''ext_len'', ex_instance = [], ex_lookahead = False\<rparr>],
      st_assigns = [],
      st_region_ops = [Push (Bin OpMul (Field ''ext_len'' ''total'') (Constant 8))],
      st_transition = Direct (ToState ''s_tlv'')\<rparr>"

definition tls_st_s_tlv :: state where
  "tls_st_s_tlv =
     \<lparr>st_name = ''s_tlv'',
      st_extracts = [],
      st_assigns = [],
      st_region_ops = [],
      st_transition = Select [Bin OpShr (Remaining) (Constant 3)]
       [\<lparr>arm_entries = [Value 0], arm_next = ToState ''s_done''\<rparr>,
        \<lparr>arm_entries = [Value 1], arm_next = Reject ''partial extension header'' SevError\<rparr>,
        \<lparr>arm_entries = [Value 2], arm_next = Reject ''partial extension header'' SevError\<rparr>,
        \<lparr>arm_entries = [Value 3], arm_next = Reject ''partial extension header'' SevError\<rparr>]
       (Some (ToState ''s_ext''))\<rparr>"

definition tls_st_s_ext :: state where
  "tls_st_s_ext =
     \<lparr>st_name = ''s_ext'',
      st_extracts = [\<lparr>ex_header_type = ''ext'', ex_instance = [], ex_lookahead = False\<rparr>],
      st_assigns = [],
      st_region_ops = [],
      st_transition = Select [Field ''ext'' ''typ'', Metadata ''seen_sni'']
       [\<lparr>arm_entries = [Value 0, Value 0], arm_next = ToState ''s_sni''\<rparr>,
        \<lparr>arm_entries = [Value 0, Value 1], arm_next = Reject ''duplicate sni'' SevError\<rparr>]
       (Some (ToState ''s_skip''))\<rparr>"

definition tls_st_s_skip :: state where
  "tls_st_s_skip =
     \<lparr>st_name = ''s_skip'',
      st_extracts = [\<lparr>ex_header_type = ''skip'', ex_instance = [], ex_lookahead = False\<rparr>],
      st_assigns = [],
      st_region_ops = [],
      st_transition = Direct (ToState ''s_tlv'')\<rparr>"

definition tls_st_s_sni :: state where
  "tls_st_s_sni =
     \<lparr>st_name = ''s_sni'',
      st_extracts = [],
      st_assigns = [\<lparr>as_metadata = ''seen_sni'', as_value = Constant 1\<rparr>],
      st_region_ops = [Push (Bin OpMul (Field ''ext'' ''elen'') (Constant 8))],
      st_transition = Direct (ToState ''s_sni_list'')\<rparr>"

definition tls_st_s_sni_list :: state where
  "tls_st_s_sni_list =
     \<lparr>st_name = ''s_sni_list'',
      st_extracts = [\<lparr>ex_header_type = ''sni_list'', ex_instance = [], ex_lookahead = False\<rparr>],
      st_assigns = [],
      st_region_ops = [Push (Bin OpMul (Field ''sni_list'' ''list_len'') (Constant 8))],
      st_transition = Direct (ToState ''s_sni_entry'')\<rparr>"

definition tls_st_s_sni_entry :: state where
  "tls_st_s_sni_entry =
     \<lparr>st_name = ''s_sni_entry'',
      st_extracts = [\<lparr>ex_header_type = ''sni_entry'', ex_instance = [], ex_lookahead = False\<rparr>],
      st_assigns = [],
      st_region_ops = [],
      st_transition = Select [Field ''sni_entry'' ''ntype'']
       [\<lparr>arm_entries = [Value 0], arm_next = ToState ''s_host''\<rparr>]
       (Some (Reject ''unsupported sni name type'' SevError))\<rparr>"

definition tls_st_s_host :: state where
  "tls_st_s_host =
     \<lparr>st_name = ''s_host'',
      st_extracts = [\<lparr>ex_header_type = ''host'', ex_instance = [], ex_lookahead = False\<rparr>],
      st_assigns = [],
      st_region_ops = [Pop, Pop],
      st_transition = Direct (ToState ''s_tlv'')\<rparr>"

definition tls_st_s_done :: state where
  "tls_st_s_done =
     \<lparr>st_name = ''s_done'',
      st_extracts = [],
      st_assigns = [],
      st_region_ops = [Pop, Pop, Pop],
      st_transition = Direct (Accept)\<rparr>"

definition tls_st_s_done_noext :: state where
  "tls_st_s_done_noext =
     \<lparr>st_name = ''s_done_noext'',
      st_extracts = [],
      st_assigns = [],
      st_region_ops = [Pop, Pop],
      st_transition = Direct (Accept)\<rparr>"

definition tls_ir :: parser where
  "tls_ir =
     \<lparr>p_header_types = [tls_ht_record_hdr, tls_ht_handshake_hdr, tls_ht_body_fixed, tls_ht_sid_len, tls_ht_sid, tls_ht_cs_len, tls_ht_cs, tls_ht_comp_len, tls_ht_comp, tls_ht_ext_len, tls_ht_ext, tls_ht_skip, tls_ht_sni_list, tls_ht_sni_entry, tls_ht_host],
      p_states = [tls_st_s_record,
        tls_st_s_recver,
        tls_st_s_hs,
        tls_st_s_fixed,
        tls_st_s_sid_len,
        tls_st_s_sid,
        tls_st_s_cs_len,
        tls_st_s_cs_parity,
        tls_st_s_cs,
        tls_st_s_comp_len,
        tls_st_s_comp,
        tls_st_s_ext_check,
        tls_st_s_ext_len,
        tls_st_s_tlv,
        tls_st_s_ext,
        tls_st_s_skip,
        tls_st_s_sni,
        tls_st_s_sni_list,
        tls_st_s_sni_entry,
        tls_st_s_host,
        tls_st_s_done,
        tls_st_s_done_noext],
      p_start_state = ''s_record'', p_max_depth = 96,
      p_metadata = [\<lparr>md_name = ''seen_sni'', md_bits = 1, md_init = 0\<rparr>, \<lparr>md_name = ''cs_odd'', md_bits = 1, md_init = 0\<rparr>]\<rparr>"

section \<open>The members of the result struct\<close>

definition tls_members :: "tls_result member list" where
  "tls_members =
     [(SPresent ''record_hdr'', (\<lambda>o'. ucast (tls_record_hdr_present o')), (\<lambda>v o'. o'\<lparr>tls_record_hdr_present := ucast v\<rparr>), 8),
      (SFld ''record_hdr'' ''ctype'', (\<lambda>o'. ucast (tls_record_hdr_ctype (tls_record_hdr o'))), tls_set_record_hdr_ctype, 8),
      (SFld ''record_hdr'' ''ver_major'', (\<lambda>o'. ucast (tls_record_hdr_ver_major (tls_record_hdr o'))), tls_set_record_hdr_ver_major, 8),
      (SFld ''record_hdr'' ''ver_minor'', (\<lambda>o'. ucast (tls_record_hdr_ver_minor (tls_record_hdr o'))), tls_set_record_hdr_ver_minor, 8),
      (SFld ''record_hdr'' ''rlen'', (\<lambda>o'. ucast (tls_record_hdr_rlen (tls_record_hdr o'))), tls_set_record_hdr_rlen, 16),
      (SPresent ''handshake_hdr'', (\<lambda>o'. ucast (tls_handshake_hdr_present o')), (\<lambda>v o'. o'\<lparr>tls_handshake_hdr_present := ucast v\<rparr>), 8),
      (SFld ''handshake_hdr'' ''typ'', (\<lambda>o'. ucast (tls_handshake_hdr_typ (tls_handshake_hdr o'))), tls_set_handshake_hdr_typ, 8),
      (SFld ''handshake_hdr'' ''hlen'', (\<lambda>o'. ucast (tls_handshake_hdr_hlen (tls_handshake_hdr o'))), tls_set_handshake_hdr_hlen, 32),
      (SPresent ''body_fixed'', (\<lambda>o'. ucast (tls_body_fixed_present o')), (\<lambda>v o'. o'\<lparr>tls_body_fixed_present := ucast v\<rparr>), 8),
      (SFld ''body_fixed'' ''ver'', (\<lambda>o'. ucast (tls_body_fixed_ver (tls_body_fixed o'))), tls_set_body_fixed_ver, 16),
      (SOff ''body_fixed'' ''random'', (\<lambda>o'. tls_body_fixed_random_bit_off (tls_body_fixed o')), tls_set_body_fixed_random_bit_off, 64),
      (SLen ''body_fixed'' ''random'', (\<lambda>o'. tls_body_fixed_random_bit_len (tls_body_fixed o')), tls_set_body_fixed_random_bit_len, 64),
      (SPresent ''sid_len'', (\<lambda>o'. ucast (tls_sid_len_present o')), (\<lambda>v o'. o'\<lparr>tls_sid_len_present := ucast v\<rparr>), 8),
      (SFld ''sid_len'' ''slen'', (\<lambda>o'. ucast (tls_sid_len_slen (tls_sid_len o'))), tls_set_sid_len_slen, 8),
      (SPresent ''sid'', (\<lambda>o'. ucast (tls_sid_present o')), (\<lambda>v o'. o'\<lparr>tls_sid_present := ucast v\<rparr>), 8),
      (SOff ''sid'' ''body'', (\<lambda>o'. tls_sid_body_bit_off (tls_sid o')), tls_set_sid_body_bit_off, 64),
      (SLen ''sid'' ''body'', (\<lambda>o'. tls_sid_body_bit_len (tls_sid o')), tls_set_sid_body_bit_len, 64),
      (SPresent ''cs_len'', (\<lambda>o'. ucast (tls_cs_len_present o')), (\<lambda>v o'. o'\<lparr>tls_cs_len_present := ucast v\<rparr>), 8),
      (SFld ''cs_len'' ''clen'', (\<lambda>o'. ucast (tls_cs_len_clen (tls_cs_len o'))), tls_set_cs_len_clen, 16),
      (SPresent ''cs'', (\<lambda>o'. ucast (tls_cs_present o')), (\<lambda>v o'. o'\<lparr>tls_cs_present := ucast v\<rparr>), 8),
      (SOff ''cs'' ''body'', (\<lambda>o'. tls_cs_body_bit_off (tls_cs o')), tls_set_cs_body_bit_off, 64),
      (SLen ''cs'' ''body'', (\<lambda>o'. tls_cs_body_bit_len (tls_cs o')), tls_set_cs_body_bit_len, 64),
      (SPresent ''comp_len'', (\<lambda>o'. ucast (tls_comp_len_present o')), (\<lambda>v o'. o'\<lparr>tls_comp_len_present := ucast v\<rparr>), 8),
      (SFld ''comp_len'' ''plen'', (\<lambda>o'. ucast (tls_comp_len_plen (tls_comp_len o'))), tls_set_comp_len_plen, 8),
      (SPresent ''comp'', (\<lambda>o'. ucast (tls_comp_present o')), (\<lambda>v o'. o'\<lparr>tls_comp_present := ucast v\<rparr>), 8),
      (SOff ''comp'' ''body'', (\<lambda>o'. tls_comp_body_bit_off (tls_comp o')), tls_set_comp_body_bit_off, 64),
      (SLen ''comp'' ''body'', (\<lambda>o'. tls_comp_body_bit_len (tls_comp o')), tls_set_comp_body_bit_len, 64),
      (SPresent ''ext_len'', (\<lambda>o'. ucast (tls_ext_len_present o')), (\<lambda>v o'. o'\<lparr>tls_ext_len_present := ucast v\<rparr>), 8),
      (SFld ''ext_len'' ''total'', (\<lambda>o'. ucast (tls_ext_len_total (tls_ext_len o'))), tls_set_ext_len_total, 16),
      (SPresent ''ext'', (\<lambda>o'. ucast (tls_ext_present o')), (\<lambda>v o'. o'\<lparr>tls_ext_present := ucast v\<rparr>), 8),
      (SFld ''ext'' ''typ'', (\<lambda>o'. ucast (tls_ext_typ (tls_ext o'))), tls_set_ext_typ, 16),
      (SFld ''ext'' ''elen'', (\<lambda>o'. ucast (tls_ext_elen (tls_ext o'))), tls_set_ext_elen, 16),
      (SPresent ''skip'', (\<lambda>o'. ucast (tls_skip_present o')), (\<lambda>v o'. o'\<lparr>tls_skip_present := ucast v\<rparr>), 8),
      (SOff ''skip'' ''body'', (\<lambda>o'. tls_skip_body_bit_off (tls_skip o')), tls_set_skip_body_bit_off, 64),
      (SLen ''skip'' ''body'', (\<lambda>o'. tls_skip_body_bit_len (tls_skip o')), tls_set_skip_body_bit_len, 64),
      (SPresent ''sni_list'', (\<lambda>o'. ucast (tls_sni_list_present o')), (\<lambda>v o'. o'\<lparr>tls_sni_list_present := ucast v\<rparr>), 8),
      (SFld ''sni_list'' ''list_len'', (\<lambda>o'. ucast (tls_sni_list_list_len (tls_sni_list o'))), tls_set_sni_list_list_len, 16),
      (SPresent ''sni_entry'', (\<lambda>o'. ucast (tls_sni_entry_present o')), (\<lambda>v o'. o'\<lparr>tls_sni_entry_present := ucast v\<rparr>), 8),
      (SFld ''sni_entry'' ''ntype'', (\<lambda>o'. ucast (tls_sni_entry_ntype (tls_sni_entry o'))), tls_set_sni_entry_ntype, 8),
      (SFld ''sni_entry'' ''hlen'', (\<lambda>o'. ucast (tls_sni_entry_hlen (tls_sni_entry o'))), tls_set_sni_entry_hlen, 16),
      (SPresent ''host'', (\<lambda>o'. ucast (tls_host_present o')), (\<lambda>v o'. o'\<lparr>tls_host_present := ucast v\<rparr>), 8),
      (SOff ''host'' ''name'', (\<lambda>o'. tls_host_name_bit_off (tls_host o')), tls_set_host_name_bit_off, 64),
      (SLen ''host'' ''name'', (\<lambda>o'. tls_host_name_bit_len (tls_host o')), tls_set_host_name_bit_len, 64),
      (SMeta ''seen_sni'', tls_m_seen_sni, tls_set_m_seen_sni, 64),
      (SMeta ''cs_odd'', tls_m_cs_odd, tls_set_m_cs_odd, 64)]"

lemma tls_layout: "layout_ok tls_members tls_zero"
  by (simp add: layout_ok_def tls_members_def tls_zero_def read_all_def)

lemmas tls_member [simp] = members_all [OF tls_layout tls_members_def, unfolded list.pred_inject prod.case]

section \<open>The certificate\<close>

definition tls_align :: "string \<Rightarrow> nat option" where
  "tls_align = map_of [(''s_record'', 0), (''s_recver'', 0), (''s_hs'', 0), (''s_fixed'', 0), (''s_sid_len'', 0), (''s_sid'', 0), (''s_cs_len'', 0), (''s_cs_parity'', 0), (''s_cs'', 0), (''s_comp_len'', 0), (''s_comp'', 0), (''s_ext_check'', 0), (''s_ext_len'', 0), (''s_tlv'', 0), (''s_ext'', 0), (''s_skip'', 0), (''s_sni'', 0), (''s_sni_list'', 0), (''s_sni_entry'', 0), (''s_host'', 0), (''s_done'', 0), (''s_done_noext'', 0)]"

definition tls_depth :: "string \<Rightarrow> nat" where
  "tls_depth n = (case map_of [(''s_recver'', 1), (''s_hs'', 1), (''s_fixed'', 2), (''s_sid_len'', 2), (''s_sid'', 2), (''s_cs_len'', 2), (''s_cs_parity'', 2), (''s_cs'', 2), (''s_comp_len'', 2), (''s_comp'', 2), (''s_ext_check'', 2), (''s_ext_len'', 2), (''s_tlv'', 3), (''s_ext'', 3), (''s_skip'', 3), (''s_sni'', 3), (''s_sni_list'', 4), (''s_sni_entry'', 5), (''s_host'', 5), (''s_done'', 3), (''s_done_noext'', 2)] n of None \<Rightarrow> 0 | Some d \<Rightarrow> d)"

definition tls_known :: "string \<Rightarrow> names" where
  "tls_known n = (case map_of
     [(''s_recver'', [(''record_hdr'', ''ctype''), (''record_hdr'', ''rlen''), (''record_hdr'', ''ver_major'')]),
      (''s_hs'', [(''record_hdr'', ''ctype''), (''record_hdr'', ''rlen''), (''record_hdr'', ''ver_major'')]),
      (''s_fixed'', [(''handshake_hdr'', ''hlen''), (''handshake_hdr'', ''typ''), (''record_hdr'', ''ctype''), (''record_hdr'', ''rlen''), (''record_hdr'', ''ver_major'')]),
      (''s_sid_len'', [(''handshake_hdr'', ''hlen''), (''handshake_hdr'', ''typ''), (''record_hdr'', ''ctype''), (''record_hdr'', ''rlen''), (''record_hdr'', ''ver_major'')]),
      (''s_sid'', [(''handshake_hdr'', ''hlen''), (''handshake_hdr'', ''typ''), (''record_hdr'', ''ctype''), (''record_hdr'', ''rlen''), (''record_hdr'', ''ver_major''), (''sid_len'', ''slen'')]),
      (''s_cs_len'', [(''handshake_hdr'', ''hlen''), (''handshake_hdr'', ''typ''), (''record_hdr'', ''ctype''), (''record_hdr'', ''rlen''), (''record_hdr'', ''ver_major''), (''sid_len'', ''slen'')]),
      (''s_cs_parity'', [(''cs_len'', ''clen''), (''handshake_hdr'', ''hlen''), (''handshake_hdr'', ''typ''), (''record_hdr'', ''ctype''), (''record_hdr'', ''rlen''), (''record_hdr'', ''ver_major''), (''sid_len'', ''slen'')]),
      (''s_cs'', [(''cs_len'', ''clen''), (''handshake_hdr'', ''hlen''), (''handshake_hdr'', ''typ''), (''record_hdr'', ''ctype''), (''record_hdr'', ''rlen''), (''record_hdr'', ''ver_major''), (''sid_len'', ''slen'')]),
      (''s_comp_len'', [(''cs_len'', ''clen''), (''handshake_hdr'', ''hlen''), (''handshake_hdr'', ''typ''), (''record_hdr'', ''ctype''), (''record_hdr'', ''rlen''), (''record_hdr'', ''ver_major''), (''sid_len'', ''slen'')]),
      (''s_comp'', [(''comp_len'', ''plen''), (''cs_len'', ''clen''), (''handshake_hdr'', ''hlen''), (''handshake_hdr'', ''typ''), (''record_hdr'', ''ctype''), (''record_hdr'', ''rlen''), (''record_hdr'', ''ver_major''), (''sid_len'', ''slen'')]),
      (''s_ext_check'', [(''comp_len'', ''plen''), (''cs_len'', ''clen''), (''handshake_hdr'', ''hlen''), (''handshake_hdr'', ''typ''), (''record_hdr'', ''ctype''), (''record_hdr'', ''rlen''), (''record_hdr'', ''ver_major''), (''sid_len'', ''slen'')]),
      (''s_ext_len'', [(''comp_len'', ''plen''), (''cs_len'', ''clen''), (''handshake_hdr'', ''hlen''), (''handshake_hdr'', ''typ''), (''record_hdr'', ''ctype''), (''record_hdr'', ''rlen''), (''record_hdr'', ''ver_major''), (''sid_len'', ''slen'')]),
      (''s_tlv'', [(''comp_len'', ''plen''), (''cs_len'', ''clen''), (''ext_len'', ''total''), (''handshake_hdr'', ''hlen''), (''handshake_hdr'', ''typ''), (''record_hdr'', ''ctype''), (''record_hdr'', ''rlen''), (''record_hdr'', ''ver_major''), (''sid_len'', ''slen'')]),
      (''s_ext'', [(''comp_len'', ''plen''), (''cs_len'', ''clen''), (''ext_len'', ''total''), (''handshake_hdr'', ''hlen''), (''handshake_hdr'', ''typ''), (''record_hdr'', ''ctype''), (''record_hdr'', ''rlen''), (''record_hdr'', ''ver_major''), (''sid_len'', ''slen'')]),
      (''s_skip'', [(''comp_len'', ''plen''), (''cs_len'', ''clen''), (''ext'', ''elen''), (''ext'', ''typ''), (''ext_len'', ''total''), (''handshake_hdr'', ''hlen''), (''handshake_hdr'', ''typ''), (''record_hdr'', ''ctype''), (''record_hdr'', ''rlen''), (''record_hdr'', ''ver_major''), (''sid_len'', ''slen'')]),
      (''s_sni'', [(''comp_len'', ''plen''), (''cs_len'', ''clen''), (''ext'', ''elen''), (''ext'', ''typ''), (''ext_len'', ''total''), (''handshake_hdr'', ''hlen''), (''handshake_hdr'', ''typ''), (''record_hdr'', ''ctype''), (''record_hdr'', ''rlen''), (''record_hdr'', ''ver_major''), (''sid_len'', ''slen'')]),
      (''s_sni_list'', [(''comp_len'', ''plen''), (''cs_len'', ''clen''), (''ext'', ''elen''), (''ext'', ''typ''), (''ext_len'', ''total''), (''handshake_hdr'', ''hlen''), (''handshake_hdr'', ''typ''), (''record_hdr'', ''ctype''), (''record_hdr'', ''rlen''), (''record_hdr'', ''ver_major''), (''sid_len'', ''slen'')]),
      (''s_sni_entry'', [(''comp_len'', ''plen''), (''cs_len'', ''clen''), (''ext'', ''elen''), (''ext'', ''typ''), (''ext_len'', ''total''), (''handshake_hdr'', ''hlen''), (''handshake_hdr'', ''typ''), (''record_hdr'', ''ctype''), (''record_hdr'', ''rlen''), (''record_hdr'', ''ver_major''), (''sid_len'', ''slen''), (''sni_list'', ''list_len'')]),
      (''s_host'', [(''comp_len'', ''plen''), (''cs_len'', ''clen''), (''ext'', ''elen''), (''ext'', ''typ''), (''ext_len'', ''total''), (''handshake_hdr'', ''hlen''), (''handshake_hdr'', ''typ''), (''record_hdr'', ''ctype''), (''record_hdr'', ''rlen''), (''record_hdr'', ''ver_major''), (''sid_len'', ''slen''), (''sni_entry'', ''hlen''), (''sni_entry'', ''ntype''), (''sni_list'', ''list_len'')]),
      (''s_done'', [(''comp_len'', ''plen''), (''cs_len'', ''clen''), (''ext_len'', ''total''), (''handshake_hdr'', ''hlen''), (''handshake_hdr'', ''typ''), (''record_hdr'', ''ctype''), (''record_hdr'', ''rlen''), (''record_hdr'', ''ver_major''), (''sid_len'', ''slen'')]),
      (''s_done_noext'', [(''comp_len'', ''plen''), (''cs_len'', ''clen''), (''handshake_hdr'', ''hlen''), (''handshake_hdr'', ''typ''), (''record_hdr'', ''ctype''), (''record_hdr'', ''rlen''), (''record_hdr'', ''ver_major''), (''sid_len'', ''slen'')])] n of None \<Rightarrow> [] | Some b \<Rightarrow> b)"

lemmas tls_ir_defs = tls_ir_def tls_ht_record_hdr_def tls_ht_handshake_hdr_def tls_ht_body_fixed_def tls_ht_sid_len_def tls_ht_sid_def tls_ht_cs_len_def tls_ht_cs_def tls_ht_comp_len_def tls_ht_comp_def tls_ht_ext_len_def tls_ht_ext_def tls_ht_skip_def tls_ht_sni_list_def tls_ht_sni_entry_def tls_ht_host_def
  tls_st_s_record_def tls_st_s_recver_def tls_st_s_hs_def tls_st_s_fixed_def tls_st_s_sid_len_def tls_st_s_sid_def tls_st_s_cs_len_def tls_st_s_cs_parity_def tls_st_s_cs_def tls_st_s_comp_len_def tls_st_s_comp_def tls_st_s_ext_check_def tls_st_s_ext_len_def tls_st_s_tlv_def tls_st_s_ext_def tls_st_s_skip_def tls_st_s_sni_def tls_st_s_sni_list_def tls_st_s_sni_entry_def tls_st_s_host_def tls_st_s_done_def tls_st_s_done_noext_def

text \<open>Everything the emitter computes from the description alone, evaluated.\<close>

lemma tls_wf: "wf_ok tls_ir tls_known tls_depth"
  by code_simp

lemma tls_evaluated:
  "list_all (\<lambda>(st, i, f, n, b). byte_load tls_ir tls_align st i f n = b)
     [(tls_st_s_record, ''record_hdr'', ''ctype'', 8, True),
      (tls_st_s_record, ''record_hdr'', ''ver_major'', 8, True),
      (tls_st_s_record, ''record_hdr'', ''ver_minor'', 8, True),
      (tls_st_s_record, ''record_hdr'', ''rlen'', 16, True),
      (tls_st_s_hs, ''handshake_hdr'', ''typ'', 8, True),
      (tls_st_s_hs, ''handshake_hdr'', ''hlen'', 24, True),
      (tls_st_s_fixed, ''body_fixed'', ''ver'', 16, True),
      (tls_st_s_sid_len, ''sid_len'', ''slen'', 8, True),
      (tls_st_s_cs_len, ''cs_len'', ''clen'', 16, True),
      (tls_st_s_comp_len, ''comp_len'', ''plen'', 8, True),
      (tls_st_s_ext_len, ''ext_len'', ''total'', 16, True),
      (tls_st_s_ext, ''ext'', ''typ'', 16, True),
      (tls_st_s_ext, ''ext'', ''elen'', 16, True),
      (tls_st_s_sni_list, ''sni_list'', ''list_len'', 16, True),
      (tls_st_s_sni_entry, ''sni_entry'', ''ntype'', 8, True),
      (tls_st_s_sni_entry, ''sni_entry'', ''hlen'', 16, True)] \<and>
   list_all (\<lambda>(n, h). find_header_type tls_ir n = Some h)
     [(''record_hdr'', tls_ht_record_hdr),
      (''handshake_hdr'', tls_ht_handshake_hdr),
      (''body_fixed'', tls_ht_body_fixed),
      (''sid_len'', tls_ht_sid_len),
      (''sid'', tls_ht_sid),
      (''cs_len'', tls_ht_cs_len),
      (''cs'', tls_ht_cs),
      (''comp_len'', tls_ht_comp_len),
      (''comp'', tls_ht_comp),
      (''ext_len'', tls_ht_ext_len),
      (''ext'', tls_ht_ext),
      (''skip'', tls_ht_skip),
      (''sni_list'', tls_ht_sni_list),
      (''sni_entry'', tls_ht_sni_entry),
      (''host'', tls_ht_host)] \<and>
   list_all (\<lambda>(n, k). state_id tls_ir n = k)
     [(''s_record'', 0),
      (''s_recver'', 1),
      (''s_hs'', 2),
      (''s_fixed'', 3),
      (''s_sid_len'', 4),
      (''s_sid'', 5),
      (''s_cs_len'', 6),
      (''s_cs_parity'', 7),
      (''s_cs'', 8),
      (''s_comp_len'', 9),
      (''s_comp'', 10),
      (''s_ext_check'', 11),
      (''s_ext_len'', 12),
      (''s_tlv'', 13),
      (''s_ext'', 14),
      (''s_skip'', 15),
      (''s_sni'', 16),
      (''s_sni_list'', 17),
      (''s_sni_entry'', 18),
      (''s_host'', 19),
      (''s_done'', 20),
      (''s_done_noext'', 21)] \<and>
   list_all (\<lambda>(r, k). reason_code tls_ir r = k)
     [(''duplicate sni'', 16),
      (''empty cipher suites'', 17),
      (''empty compressions'', 18),
      (''not a client hello'', 19),
      (''not a handshake record'', 20),
      (''odd cipher suites length'', 21),
      (''partial extension header'', 22),
      (''partial extensions length'', 23),
      (''session id too long'', 24),
      (''unsupported record version'', 25),
      (''unsupported sni name type'', 26)] \<and>
   region_cap tls_ir = 5 \<and> region_mask tls_ir = 7 \<and> region_slots tls_ir = 8 \<and>
   list_all (\<lambda>(n, a). tls_align n = a)
     [(''s_record'', Some 0),
      (''s_recver'', Some 0),
      (''s_hs'', Some 0),
      (''s_fixed'', Some 0),
      (''s_sid_len'', Some 0),
      (''s_sid'', Some 0),
      (''s_cs_len'', Some 0),
      (''s_cs_parity'', Some 0),
      (''s_cs'', Some 0),
      (''s_comp_len'', Some 0),
      (''s_comp'', Some 0),
      (''s_ext_check'', Some 0),
      (''s_ext_len'', Some 0),
      (''s_tlv'', Some 0),
      (''s_ext'', Some 0),
      (''s_skip'', Some 0),
      (''s_sni'', Some 0),
      (''s_sni_list'', Some 0),
      (''s_sni_entry'', Some 0),
      (''s_host'', Some 0),
      (''s_done'', Some 0),
      (''s_done_noext'', Some 0)] \<and>
   list_all (\<lambda>(n, d). tls_depth n = d)
     [(''s_record'', 0), (''s_recver'', 1), (''s_hs'', 1), (''s_fixed'', 2), (''s_sid_len'', 2), (''s_sid'', 2), (''s_cs_len'', 2), (''s_cs_parity'', 2), (''s_cs'', 2), (''s_comp_len'', 2), (''s_comp'', 2), (''s_ext_check'', 2), (''s_ext_len'', 2), (''s_tlv'', 3), (''s_ext'', 3), (''s_skip'', 3), (''s_sni'', 3), (''s_sni_list'', 4), (''s_sni_entry'', 5), (''s_host'', 5), (''s_done'', 3), (''s_done_noext'', 2)] \<and>
   reasons_fit tls_ir \<and> meta_decl_ok tls_ir \<and> core_compiles tls_ir"
  by code_simp

lemmas tls_emit_eval [simp] = tls_evaluated [unfolded list.pred_inject prod.case]

section \<open>The emitted code is the generated file\<close>

lemmas tls_st_s_record_sel = tls_st_s_record_def [THEN arg_cong [of _ _ st_name], simplified state.simps]
  tls_st_s_record_def [THEN arg_cong [of _ _ st_extracts], simplified state.simps]
  tls_st_s_record_def [THEN arg_cong [of _ _ st_assigns], simplified state.simps]
  tls_st_s_record_def [THEN arg_cong [of _ _ st_region_ops], simplified state.simps]
  tls_st_s_record_def [THEN arg_cong [of _ _ st_transition], simplified state.simps]

lemmas tls_st_s_recver_sel = tls_st_s_recver_def [THEN arg_cong [of _ _ st_name], simplified state.simps]
  tls_st_s_recver_def [THEN arg_cong [of _ _ st_extracts], simplified state.simps]
  tls_st_s_recver_def [THEN arg_cong [of _ _ st_assigns], simplified state.simps]
  tls_st_s_recver_def [THEN arg_cong [of _ _ st_region_ops], simplified state.simps]
  tls_st_s_recver_def [THEN arg_cong [of _ _ st_transition], simplified state.simps]

lemmas tls_st_s_hs_sel = tls_st_s_hs_def [THEN arg_cong [of _ _ st_name], simplified state.simps]
  tls_st_s_hs_def [THEN arg_cong [of _ _ st_extracts], simplified state.simps]
  tls_st_s_hs_def [THEN arg_cong [of _ _ st_assigns], simplified state.simps]
  tls_st_s_hs_def [THEN arg_cong [of _ _ st_region_ops], simplified state.simps]
  tls_st_s_hs_def [THEN arg_cong [of _ _ st_transition], simplified state.simps]

lemmas tls_st_s_fixed_sel = tls_st_s_fixed_def [THEN arg_cong [of _ _ st_name], simplified state.simps]
  tls_st_s_fixed_def [THEN arg_cong [of _ _ st_extracts], simplified state.simps]
  tls_st_s_fixed_def [THEN arg_cong [of _ _ st_assigns], simplified state.simps]
  tls_st_s_fixed_def [THEN arg_cong [of _ _ st_region_ops], simplified state.simps]
  tls_st_s_fixed_def [THEN arg_cong [of _ _ st_transition], simplified state.simps]

lemmas tls_st_s_sid_len_sel = tls_st_s_sid_len_def [THEN arg_cong [of _ _ st_name], simplified state.simps]
  tls_st_s_sid_len_def [THEN arg_cong [of _ _ st_extracts], simplified state.simps]
  tls_st_s_sid_len_def [THEN arg_cong [of _ _ st_assigns], simplified state.simps]
  tls_st_s_sid_len_def [THEN arg_cong [of _ _ st_region_ops], simplified state.simps]
  tls_st_s_sid_len_def [THEN arg_cong [of _ _ st_transition], simplified state.simps]

lemmas tls_st_s_sid_sel = tls_st_s_sid_def [THEN arg_cong [of _ _ st_name], simplified state.simps]
  tls_st_s_sid_def [THEN arg_cong [of _ _ st_extracts], simplified state.simps]
  tls_st_s_sid_def [THEN arg_cong [of _ _ st_assigns], simplified state.simps]
  tls_st_s_sid_def [THEN arg_cong [of _ _ st_region_ops], simplified state.simps]
  tls_st_s_sid_def [THEN arg_cong [of _ _ st_transition], simplified state.simps]

lemmas tls_st_s_cs_len_sel = tls_st_s_cs_len_def [THEN arg_cong [of _ _ st_name], simplified state.simps]
  tls_st_s_cs_len_def [THEN arg_cong [of _ _ st_extracts], simplified state.simps]
  tls_st_s_cs_len_def [THEN arg_cong [of _ _ st_assigns], simplified state.simps]
  tls_st_s_cs_len_def [THEN arg_cong [of _ _ st_region_ops], simplified state.simps]
  tls_st_s_cs_len_def [THEN arg_cong [of _ _ st_transition], simplified state.simps]

lemmas tls_st_s_cs_parity_sel = tls_st_s_cs_parity_def [THEN arg_cong [of _ _ st_name], simplified state.simps]
  tls_st_s_cs_parity_def [THEN arg_cong [of _ _ st_extracts], simplified state.simps]
  tls_st_s_cs_parity_def [THEN arg_cong [of _ _ st_assigns], simplified state.simps]
  tls_st_s_cs_parity_def [THEN arg_cong [of _ _ st_region_ops], simplified state.simps]
  tls_st_s_cs_parity_def [THEN arg_cong [of _ _ st_transition], simplified state.simps]

lemmas tls_st_s_cs_sel = tls_st_s_cs_def [THEN arg_cong [of _ _ st_name], simplified state.simps]
  tls_st_s_cs_def [THEN arg_cong [of _ _ st_extracts], simplified state.simps]
  tls_st_s_cs_def [THEN arg_cong [of _ _ st_assigns], simplified state.simps]
  tls_st_s_cs_def [THEN arg_cong [of _ _ st_region_ops], simplified state.simps]
  tls_st_s_cs_def [THEN arg_cong [of _ _ st_transition], simplified state.simps]

lemmas tls_st_s_comp_len_sel = tls_st_s_comp_len_def [THEN arg_cong [of _ _ st_name], simplified state.simps]
  tls_st_s_comp_len_def [THEN arg_cong [of _ _ st_extracts], simplified state.simps]
  tls_st_s_comp_len_def [THEN arg_cong [of _ _ st_assigns], simplified state.simps]
  tls_st_s_comp_len_def [THEN arg_cong [of _ _ st_region_ops], simplified state.simps]
  tls_st_s_comp_len_def [THEN arg_cong [of _ _ st_transition], simplified state.simps]

lemmas tls_st_s_comp_sel = tls_st_s_comp_def [THEN arg_cong [of _ _ st_name], simplified state.simps]
  tls_st_s_comp_def [THEN arg_cong [of _ _ st_extracts], simplified state.simps]
  tls_st_s_comp_def [THEN arg_cong [of _ _ st_assigns], simplified state.simps]
  tls_st_s_comp_def [THEN arg_cong [of _ _ st_region_ops], simplified state.simps]
  tls_st_s_comp_def [THEN arg_cong [of _ _ st_transition], simplified state.simps]

lemmas tls_st_s_ext_check_sel = tls_st_s_ext_check_def [THEN arg_cong [of _ _ st_name], simplified state.simps]
  tls_st_s_ext_check_def [THEN arg_cong [of _ _ st_extracts], simplified state.simps]
  tls_st_s_ext_check_def [THEN arg_cong [of _ _ st_assigns], simplified state.simps]
  tls_st_s_ext_check_def [THEN arg_cong [of _ _ st_region_ops], simplified state.simps]
  tls_st_s_ext_check_def [THEN arg_cong [of _ _ st_transition], simplified state.simps]

lemmas tls_st_s_ext_len_sel = tls_st_s_ext_len_def [THEN arg_cong [of _ _ st_name], simplified state.simps]
  tls_st_s_ext_len_def [THEN arg_cong [of _ _ st_extracts], simplified state.simps]
  tls_st_s_ext_len_def [THEN arg_cong [of _ _ st_assigns], simplified state.simps]
  tls_st_s_ext_len_def [THEN arg_cong [of _ _ st_region_ops], simplified state.simps]
  tls_st_s_ext_len_def [THEN arg_cong [of _ _ st_transition], simplified state.simps]

lemmas tls_st_s_tlv_sel = tls_st_s_tlv_def [THEN arg_cong [of _ _ st_name], simplified state.simps]
  tls_st_s_tlv_def [THEN arg_cong [of _ _ st_extracts], simplified state.simps]
  tls_st_s_tlv_def [THEN arg_cong [of _ _ st_assigns], simplified state.simps]
  tls_st_s_tlv_def [THEN arg_cong [of _ _ st_region_ops], simplified state.simps]
  tls_st_s_tlv_def [THEN arg_cong [of _ _ st_transition], simplified state.simps]

lemmas tls_st_s_ext_sel = tls_st_s_ext_def [THEN arg_cong [of _ _ st_name], simplified state.simps]
  tls_st_s_ext_def [THEN arg_cong [of _ _ st_extracts], simplified state.simps]
  tls_st_s_ext_def [THEN arg_cong [of _ _ st_assigns], simplified state.simps]
  tls_st_s_ext_def [THEN arg_cong [of _ _ st_region_ops], simplified state.simps]
  tls_st_s_ext_def [THEN arg_cong [of _ _ st_transition], simplified state.simps]

lemmas tls_st_s_skip_sel = tls_st_s_skip_def [THEN arg_cong [of _ _ st_name], simplified state.simps]
  tls_st_s_skip_def [THEN arg_cong [of _ _ st_extracts], simplified state.simps]
  tls_st_s_skip_def [THEN arg_cong [of _ _ st_assigns], simplified state.simps]
  tls_st_s_skip_def [THEN arg_cong [of _ _ st_region_ops], simplified state.simps]
  tls_st_s_skip_def [THEN arg_cong [of _ _ st_transition], simplified state.simps]

lemmas tls_st_s_sni_sel = tls_st_s_sni_def [THEN arg_cong [of _ _ st_name], simplified state.simps]
  tls_st_s_sni_def [THEN arg_cong [of _ _ st_extracts], simplified state.simps]
  tls_st_s_sni_def [THEN arg_cong [of _ _ st_assigns], simplified state.simps]
  tls_st_s_sni_def [THEN arg_cong [of _ _ st_region_ops], simplified state.simps]
  tls_st_s_sni_def [THEN arg_cong [of _ _ st_transition], simplified state.simps]

lemmas tls_st_s_sni_list_sel = tls_st_s_sni_list_def [THEN arg_cong [of _ _ st_name], simplified state.simps]
  tls_st_s_sni_list_def [THEN arg_cong [of _ _ st_extracts], simplified state.simps]
  tls_st_s_sni_list_def [THEN arg_cong [of _ _ st_assigns], simplified state.simps]
  tls_st_s_sni_list_def [THEN arg_cong [of _ _ st_region_ops], simplified state.simps]
  tls_st_s_sni_list_def [THEN arg_cong [of _ _ st_transition], simplified state.simps]

lemmas tls_st_s_sni_entry_sel = tls_st_s_sni_entry_def [THEN arg_cong [of _ _ st_name], simplified state.simps]
  tls_st_s_sni_entry_def [THEN arg_cong [of _ _ st_extracts], simplified state.simps]
  tls_st_s_sni_entry_def [THEN arg_cong [of _ _ st_assigns], simplified state.simps]
  tls_st_s_sni_entry_def [THEN arg_cong [of _ _ st_region_ops], simplified state.simps]
  tls_st_s_sni_entry_def [THEN arg_cong [of _ _ st_transition], simplified state.simps]

lemmas tls_st_s_host_sel = tls_st_s_host_def [THEN arg_cong [of _ _ st_name], simplified state.simps]
  tls_st_s_host_def [THEN arg_cong [of _ _ st_extracts], simplified state.simps]
  tls_st_s_host_def [THEN arg_cong [of _ _ st_assigns], simplified state.simps]
  tls_st_s_host_def [THEN arg_cong [of _ _ st_region_ops], simplified state.simps]
  tls_st_s_host_def [THEN arg_cong [of _ _ st_transition], simplified state.simps]

lemmas tls_st_s_done_sel = tls_st_s_done_def [THEN arg_cong [of _ _ st_name], simplified state.simps]
  tls_st_s_done_def [THEN arg_cong [of _ _ st_extracts], simplified state.simps]
  tls_st_s_done_def [THEN arg_cong [of _ _ st_assigns], simplified state.simps]
  tls_st_s_done_def [THEN arg_cong [of _ _ st_region_ops], simplified state.simps]
  tls_st_s_done_def [THEN arg_cong [of _ _ st_transition], simplified state.simps]

lemmas tls_st_s_done_noext_sel = tls_st_s_done_noext_def [THEN arg_cong [of _ _ st_name], simplified state.simps]
  tls_st_s_done_noext_def [THEN arg_cong [of _ _ st_extracts], simplified state.simps]
  tls_st_s_done_noext_def [THEN arg_cong [of _ _ st_assigns], simplified state.simps]
  tls_st_s_done_noext_def [THEN arg_cong [of _ _ st_region_ops], simplified state.simps]
  tls_st_s_done_noext_def [THEN arg_cong [of _ _ st_transition], simplified state.simps]

lemmas tls_ir_sel = tls_ir_def [THEN arg_cong [of _ _ p_states], simplified parser.simps]
  tls_ir_def [THEN arg_cong [of _ _ p_start_state], simplified parser.simps]
  tls_ir_def [THEN arg_cong [of _ _ p_max_depth], simplified parser.simps]
  tls_ir_def [THEN arg_cong [of _ _ p_metadata], simplified parser.simps]

lemma tls_emit_ok:
  "emit_ok tls_ir tls_align tls_depth (member_slots tls_members) (member_width tls_members)"
  by (simp add: emit_ok_eval tls_ir_sel
    tls_st_s_record_sel
    tls_st_s_recver_sel
    tls_st_s_hs_sel
    tls_st_s_fixed_sel
    tls_st_s_sid_len_sel
    tls_st_s_sid_sel
    tls_st_s_cs_len_sel
    tls_st_s_cs_parity_sel
    tls_st_s_cs_sel
    tls_st_s_comp_len_sel
    tls_st_s_comp_sel
    tls_st_s_ext_check_sel
    tls_st_s_ext_len_sel
    tls_st_s_tlv_sel
    tls_st_s_ext_sel
    tls_st_s_skip_sel
    tls_st_s_sni_sel
    tls_st_s_sni_list_sel
    tls_st_s_sni_entry_sel
    tls_st_s_host_sel
    tls_st_s_done_sel
    tls_st_s_done_noext_sel
    tls_ht_record_hdr_def tls_ht_handshake_hdr_def tls_ht_body_fixed_def tls_ht_sid_len_def tls_ht_sid_def tls_ht_cs_len_def tls_ht_cs_def tls_ht_comp_len_def tls_ht_comp_def tls_ht_ext_len_def tls_ht_ext_def tls_ht_skip_def tls_ht_sni_list_def tls_ht_sni_entry_def tls_ht_host_def)

lemma tls_find_metadata [simp]:
  "find_metadata tls_ir ''seen_sni'' = Some \<lparr>md_name = ''seen_sni'', md_bits = 1, md_init = 0\<rparr>"
  "find_metadata tls_ir ''cs_odd'' = Some \<lparr>md_name = ''cs_odd'', md_bits = 1, md_init = 0\<rparr>"
  by (simp_all add: find_metadata_def tls_ir_def)

lemma tls_emit_s_record:
  "emit_state tls_ir tls_align rd bit_len (member_get tls_members) (member_put tls_members) tls_st_s_record =
     tls_case_s_record rd bit_len"
  unfolding tls_case_s_record_def
  by (simp add: emit_eval tls_st_s_record_sel tls_ht_record_hdr_def
      del: One_nat_def)

lemma tls_emit_s_recver:
  "emit_state tls_ir tls_align rd bit_len (member_get tls_members) (member_put tls_members) tls_st_s_recver =
     tls_case_s_recver rd bit_len"
  unfolding tls_case_s_recver_def
  by (simp add: emit_eval tls_st_s_recver_sel
      del: One_nat_def)

lemma tls_emit_s_hs:
  "emit_state tls_ir tls_align rd bit_len (member_get tls_members) (member_put tls_members) tls_st_s_hs =
     tls_case_s_hs rd bit_len"
  unfolding tls_case_s_hs_def
  by (simp add: emit_eval tls_st_s_hs_sel tls_ht_handshake_hdr_def
      del: One_nat_def)

lemma tls_emit_s_fixed:
  "emit_state tls_ir tls_align rd bit_len (member_get tls_members) (member_put tls_members) tls_st_s_fixed =
     tls_case_s_fixed rd bit_len"
  unfolding tls_case_s_fixed_def
  by (simp add: emit_eval tls_st_s_fixed_sel tls_ht_body_fixed_def
      del: One_nat_def)

lemma tls_emit_s_sid_len:
  "emit_state tls_ir tls_align rd bit_len (member_get tls_members) (member_put tls_members) tls_st_s_sid_len =
     tls_case_s_sid_len rd bit_len"
  unfolding tls_case_s_sid_len_def
  by (simp add: emit_eval tls_st_s_sid_len_sel tls_ht_sid_len_def
      del: One_nat_def)

lemma tls_emit_s_sid:
  "emit_state tls_ir tls_align rd bit_len (member_get tls_members) (member_put tls_members) tls_st_s_sid =
     tls_case_s_sid rd bit_len"
  unfolding tls_case_s_sid_def
  by (simp add: emit_eval tls_st_s_sid_sel tls_ht_sid_def
      del: One_nat_def)

lemma tls_emit_s_cs_len:
  "emit_state tls_ir tls_align rd bit_len (member_get tls_members) (member_put tls_members) tls_st_s_cs_len =
     tls_case_s_cs_len rd bit_len"
  unfolding tls_case_s_cs_len_def
  by (simp add: emit_eval tls_st_s_cs_len_sel tls_ht_cs_len_def
      del: One_nat_def)

lemma tls_emit_s_cs_parity:
  "emit_state tls_ir tls_align rd bit_len (member_get tls_members) (member_put tls_members) tls_st_s_cs_parity =
     tls_case_s_cs_parity rd bit_len"
  unfolding tls_case_s_cs_parity_def
  by (simp add: emit_eval tls_st_s_cs_parity_sel
      del: One_nat_def)

lemma tls_emit_s_cs:
  "emit_state tls_ir tls_align rd bit_len (member_get tls_members) (member_put tls_members) tls_st_s_cs =
     tls_case_s_cs rd bit_len"
  unfolding tls_case_s_cs_def
  by (simp add: emit_eval tls_st_s_cs_sel tls_ht_cs_def
      del: One_nat_def)

lemma tls_emit_s_comp_len:
  "emit_state tls_ir tls_align rd bit_len (member_get tls_members) (member_put tls_members) tls_st_s_comp_len =
     tls_case_s_comp_len rd bit_len"
  unfolding tls_case_s_comp_len_def
  by (simp add: emit_eval tls_st_s_comp_len_sel tls_ht_comp_len_def
      del: One_nat_def)

lemma tls_emit_s_comp:
  "emit_state tls_ir tls_align rd bit_len (member_get tls_members) (member_put tls_members) tls_st_s_comp =
     tls_case_s_comp rd bit_len"
  unfolding tls_case_s_comp_def
  by (simp add: emit_eval tls_st_s_comp_sel tls_ht_comp_def
      del: One_nat_def)

lemma tls_emit_s_ext_check:
  "emit_state tls_ir tls_align rd bit_len (member_get tls_members) (member_put tls_members) tls_st_s_ext_check =
     tls_case_s_ext_check rd bit_len"
  unfolding tls_case_s_ext_check_def
  by (simp add: emit_eval tls_st_s_ext_check_sel
      del: One_nat_def)

lemma tls_emit_s_ext_len:
  "emit_state tls_ir tls_align rd bit_len (member_get tls_members) (member_put tls_members) tls_st_s_ext_len =
     tls_case_s_ext_len rd bit_len"
  unfolding tls_case_s_ext_len_def
  by (simp add: emit_eval tls_st_s_ext_len_sel tls_ht_ext_len_def
      del: One_nat_def)

lemma tls_emit_s_tlv:
  "emit_state tls_ir tls_align rd bit_len (member_get tls_members) (member_put tls_members) tls_st_s_tlv =
     tls_case_s_tlv rd bit_len"
  unfolding tls_case_s_tlv_def
  by (simp add: emit_eval tls_st_s_tlv_sel
      del: One_nat_def)

lemma tls_emit_s_ext:
  "emit_state tls_ir tls_align rd bit_len (member_get tls_members) (member_put tls_members) tls_st_s_ext =
     tls_case_s_ext rd bit_len"
  unfolding tls_case_s_ext_def
  by (simp add: emit_eval tls_st_s_ext_sel tls_ht_ext_def
      del: One_nat_def)

lemma tls_emit_s_skip:
  "emit_state tls_ir tls_align rd bit_len (member_get tls_members) (member_put tls_members) tls_st_s_skip =
     tls_case_s_skip rd bit_len"
  unfolding tls_case_s_skip_def
  by (simp add: emit_eval tls_st_s_skip_sel tls_ht_skip_def
      del: One_nat_def)

lemma tls_emit_s_sni:
  "emit_state tls_ir tls_align rd bit_len (member_get tls_members) (member_put tls_members) tls_st_s_sni =
     tls_case_s_sni rd bit_len"
  unfolding tls_case_s_sni_def
  by (simp add: emit_eval tls_st_s_sni_sel
      del: One_nat_def)

lemma tls_emit_s_sni_list:
  "emit_state tls_ir tls_align rd bit_len (member_get tls_members) (member_put tls_members) tls_st_s_sni_list =
     tls_case_s_sni_list rd bit_len"
  unfolding tls_case_s_sni_list_def
  by (simp add: emit_eval tls_st_s_sni_list_sel tls_ht_sni_list_def
      del: One_nat_def)

lemma tls_emit_s_sni_entry:
  "emit_state tls_ir tls_align rd bit_len (member_get tls_members) (member_put tls_members) tls_st_s_sni_entry =
     tls_case_s_sni_entry rd bit_len"
  unfolding tls_case_s_sni_entry_def
  by (simp add: emit_eval tls_st_s_sni_entry_sel tls_ht_sni_entry_def
      del: One_nat_def)

lemma tls_emit_s_host:
  "emit_state tls_ir tls_align rd bit_len (member_get tls_members) (member_put tls_members) tls_st_s_host =
     tls_case_s_host rd bit_len"
  unfolding tls_case_s_host_def
  by (simp add: emit_eval tls_st_s_host_sel tls_ht_host_def
      del: One_nat_def)

lemma tls_emit_s_done:
  "emit_state tls_ir tls_align rd bit_len (member_get tls_members) (member_put tls_members) tls_st_s_done =
     tls_case_s_done rd bit_len"
  unfolding tls_case_s_done_def
  by (simp add: emit_eval tls_st_s_done_sel
      del: One_nat_def)

lemma tls_emit_s_done_noext:
  "emit_state tls_ir tls_align rd bit_len (member_get tls_members) (member_put tls_members) tls_st_s_done_noext =
     tls_case_s_done_noext rd bit_len"
  unfolding tls_case_s_done_noext_def
  by (simp add: emit_eval tls_st_s_done_noext_sel
      del: One_nat_def)

lemma tls_fits: "fits_u32 tls_ir"
  by (simp add: fits_u32_def tls_ir_sel)

lemma tls_emit_switch:
  "emit_switch tls_ir tls_align rd bit_len (member_get tls_members) (member_put tls_members) = tls_switch rd bit_len"
  by (simp add: emit_switch_def tls_ir_sel tls_switch_def
    tls_st_s_record_sel(1) tls_st_s_recver_sel(1) tls_st_s_hs_sel(1) tls_st_s_fixed_sel(1)
    tls_st_s_sid_len_sel(1) tls_st_s_sid_sel(1) tls_st_s_cs_len_sel(1) tls_st_s_cs_parity_sel(1)
    tls_st_s_cs_sel(1) tls_st_s_comp_len_sel(1) tls_st_s_comp_sel(1) tls_st_s_ext_check_sel(1)
    tls_st_s_ext_len_sel(1) tls_st_s_tlv_sel(1) tls_st_s_ext_sel(1) tls_st_s_skip_sel(1)
    tls_st_s_sni_sel(1) tls_st_s_sni_list_sel(1) tls_st_s_sni_entry_sel(1) tls_st_s_host_sel(1)
    tls_st_s_done_sel(1) tls_st_s_done_noext_sel(1)
    tls_emit_s_record tls_emit_s_recver tls_emit_s_hs tls_emit_s_fixed tls_emit_s_sid_len tls_emit_s_sid
    tls_emit_s_cs_len tls_emit_s_cs_parity tls_emit_s_cs tls_emit_s_comp_len tls_emit_s_comp
    tls_emit_s_ext_check tls_emit_s_ext_len tls_emit_s_tlv tls_emit_s_ext tls_emit_s_skip tls_emit_s_sni
    tls_emit_s_sni_list tls_emit_s_sni_entry tls_emit_s_host tls_emit_s_done tls_emit_s_done_noext)

lemma tls_emit_core:
  "emit_core tls_ir tls_align rd bit_len (member_get tls_members) (member_put tls_members) o' =
     tls_parse_core rd bit_len o'"
  unfolding emit_core_def tls_parse_core_def tls_emit_switch
  by (simp add: tls_ir_sel emit_init_meta_def)

section \<open>Refinement\<close>

interpretation tls: emitted_parser "member_get tls_members" "member_put tls_members"
  "member_slots tls_members" "member_width tls_members" tls_zero buf_at plain_capacity
  by (rule emitted_plain [OF tls_layout])

interpretation tls_bpf: emitted_parser "member_get tls_members" "member_put tls_members"
  "member_slots tls_members" "member_width tls_members" tls_zero buf_at_masked masked_capacity
  by (rule emitted_masked [OF tls_layout])

text \<open>
  C9: \<open>pk_tls_clienthello_parse\<close> and the reference interpreter agree on every packet, whatever its bytes
  and however many of its bits are declared: the interpreter returns a result, the C returns (within
  96 iterations, without reading outside the buffer or an unset region slot) with the same verdict,
  reason, consumed bits, header fields and metadata. The one exception, the reason of a pop inside a
  truncated region, is part of \<open>result_agrees\<close>.
\<close>

theorem tls_parse_refines:
  assumes "length buf \<le> plain_capacity" and "unat bit_len \<le> 8 * length buf"
  shows "\<exists>res ret r. run_bits tls_ir buf (unat bit_len) = Inr res \<and>
    tls_parse (buf_at buf) bit_len o' = Return ret r \<and>
    result_agrees tls_ir (member_get tls_members) (member_slots tls_members) res ret r"
proof -
  obtain res where run: "run_bits tls_ir buf (unat bit_len) = Inr res"
    using run_bits_total [OF tls_wf assms(2)] by auto
  show ?thesis
    using tls.emit_core_refines [OF tls_emit_ok tls_fits assms run] run
    by (auto simp: tls_parse_def tls_emit_core)
qed

theorem tls_parse_refines_witness:
  "\<exists>res ret r. run_bits tls_ir [22, 3, 1, 0, 0] 40 = Inr res \<and>
    tls_parse (buf_at [22, 3, 1, 0, 0]) 40 tls_zero = Return ret r \<and>
    result_agrees tls_ir (member_get tls_members) (member_slots tls_members) res ret r"
  using tls_parse_refines [of "[22, 3, 1, 0, 0]" 40 tls_zero] by simp

end
