(* ===== verification/Tls_Truncation.thy ===== *)
theory Tls_Truncation
  imports Tls_Clienthello_Refine
begin

text \<open>
  A TLS record whose length field promises one byte more than was captured: a complete ClientHello
  without extensions inside a record that is cut off. The interpreter, and rule G-Pop-Trunc of
  docs/reference/ir-semantics.md, ask for more bytes; the generated C reports a structural error.
\<close>

definition cut_record :: bytes where
  "cut_record =
     [22, 3, 1, 0, 46,
      1, 0, 0, 41,
      3, 3] @ replicate 32 0 @
     [0,
      0, 2, 0, 47,
      1, 0]"


end
