(* ===== verification/Quic_Initial.thy ===== *)
theory Quic_Initial
  imports C_Machine
begin

text \<open>
  The parser generated for the QUIC Initial packet: variable-length integers assembled from one to eight bytes, connection ids, tokens: benchmarks/industry/quic_initial/gen/parser.c
  and parser.h, 24 states in at most 12 steps. One record per struct of the header, one
  definition per case of the switch with its statements in the order of the file, the dispatch,
  the core, the entry point and the table of reasons. Names carry the prefix \<open>quic_\<close> where the C
  has \<open>pk_quic_initial_\<close> or the file as a name space.
\<close>

section \<open>The result struct\<close>

record quic_first_byte_t =
  quic_first_byte_form :: u8
  quic_first_byte_fixed :: u8
  quic_first_byte_ty :: u8
  quic_first_byte_low :: u8

record quic_version_t =
  quic_version_v :: u32

record quic_other_cids_t =
  quic_other_cids_dcid_len :: u8
  quic_other_cids_dcid_bit_off :: u64
  quic_other_cids_dcid_bit_len :: u64
  quic_other_cids_scid_len :: u8
  quic_other_cids_scid_bit_off :: u64
  quic_other_cids_scid_bit_len :: u64

record quic_dcid_len_t =
  quic_dcid_len_ln :: u8

record quic_dcid_t =
  quic_dcid_cid_bit_off :: u64
  quic_dcid_cid_bit_len :: u64

record quic_scid_len_t =
  quic_scid_len_ln :: u8

record quic_scid_t =
  quic_scid_cid_bit_off :: u64
  quic_scid_cid_bit_len :: u64

record quic_tok_lead_t =
  quic_tok_lead_prefix :: u8
  quic_tok_lead_v6 :: u8

record quic_len_lead_t =
  quic_len_lead_prefix :: u8
  quic_len_lead_v6 :: u8

record quic_tok0_t =
  quic_tok0_body_bit_off :: u64
  quic_tok0_body_bit_len :: u64

record quic_tok1_t =
  quic_tok1_t :: u8
  quic_tok1_body_bit_off :: u64
  quic_tok1_body_bit_len :: u64

record quic_tok2_t =
  quic_tok2_t :: u32
  quic_tok2_body_bit_off :: u64
  quic_tok2_body_bit_len :: u64

record quic_tok3_t =
  quic_tok3_t :: u64
  quic_tok3_body_bit_off :: u64
  quic_tok3_body_bit_len :: u64

record quic_len1_t =
  quic_len1_t :: u8

record quic_len2_t =
  quic_len2_t :: u32

record quic_len3_t =
  quic_len3_t :: u64

record quic_result = pk_result +
  quic_first_byte_present :: u8
  quic_first_byte :: quic_first_byte_t
  quic_version_present :: u8
  quic_version :: quic_version_t
  quic_other_cids_present :: u8
  quic_other_cids :: quic_other_cids_t
  quic_dcid_len_present :: u8
  quic_dcid_len :: quic_dcid_len_t
  quic_dcid_present :: u8
  quic_dcid :: quic_dcid_t
  quic_scid_len_present :: u8
  quic_scid_len :: quic_scid_len_t
  quic_scid_present :: u8
  quic_scid :: quic_scid_t
  quic_tok_lead_present :: u8
  quic_tok_lead :: quic_tok_lead_t
  quic_len_lead_present :: u8
  quic_len_lead :: quic_len_lead_t
  quic_tok0_present :: u8
  quic_tok0 :: quic_tok0_t
  quic_tok1_present :: u8
  quic_tok1 :: quic_tok1_t
  quic_tok2_present :: u8
  quic_tok2 :: quic_tok2_t
  quic_tok3_present :: u8
  quic_tok3 :: quic_tok3_t
  quic_len1_present :: u8
  quic_len1 :: quic_len1_t
  quic_len2_present :: u8
  quic_len2 :: quic_len2_t
  quic_len3_present :: u8
  quic_len3 :: quic_len3_t
  quic_m_kind :: u64
  quic_m_token_len :: u64
  quic_m_length :: u64

text \<open>\<open>pk_quic_initial_result_t zero = {0};\<close>\<close>

definition quic_zero :: quic_result where
  "quic_zero =
     \<lparr>outcome = 0, reason = 0, consumed_bits = 0,
      quic_first_byte_present = 0,
      quic_first_byte = \<lparr>quic_first_byte_form = 0, quic_first_byte_fixed = 0, quic_first_byte_ty = 0, quic_first_byte_low = 0\<rparr>,
      quic_version_present = 0,
      quic_version = \<lparr>quic_version_v = 0\<rparr>,
      quic_other_cids_present = 0,
      quic_other_cids = \<lparr>quic_other_cids_dcid_len = 0, quic_other_cids_dcid_bit_off = 0, quic_other_cids_dcid_bit_len = 0, quic_other_cids_scid_len = 0, quic_other_cids_scid_bit_off = 0, quic_other_cids_scid_bit_len = 0\<rparr>,
      quic_dcid_len_present = 0,
      quic_dcid_len = \<lparr>quic_dcid_len_ln = 0\<rparr>,
      quic_dcid_present = 0,
      quic_dcid = \<lparr>quic_dcid_cid_bit_off = 0, quic_dcid_cid_bit_len = 0\<rparr>,
      quic_scid_len_present = 0,
      quic_scid_len = \<lparr>quic_scid_len_ln = 0\<rparr>,
      quic_scid_present = 0,
      quic_scid = \<lparr>quic_scid_cid_bit_off = 0, quic_scid_cid_bit_len = 0\<rparr>,
      quic_tok_lead_present = 0,
      quic_tok_lead = \<lparr>quic_tok_lead_prefix = 0, quic_tok_lead_v6 = 0\<rparr>,
      quic_len_lead_present = 0,
      quic_len_lead = \<lparr>quic_len_lead_prefix = 0, quic_len_lead_v6 = 0\<rparr>,
      quic_tok0_present = 0,
      quic_tok0 = \<lparr>quic_tok0_body_bit_off = 0, quic_tok0_body_bit_len = 0\<rparr>,
      quic_tok1_present = 0,
      quic_tok1 = \<lparr>quic_tok1_t = 0, quic_tok1_body_bit_off = 0, quic_tok1_body_bit_len = 0\<rparr>,
      quic_tok2_present = 0,
      quic_tok2 = \<lparr>quic_tok2_t = 0, quic_tok2_body_bit_off = 0, quic_tok2_body_bit_len = 0\<rparr>,
      quic_tok3_present = 0,
      quic_tok3 = \<lparr>quic_tok3_t = 0, quic_tok3_body_bit_off = 0, quic_tok3_body_bit_len = 0\<rparr>,
      quic_len1_present = 0,
      quic_len1 = \<lparr>quic_len1_t = 0\<rparr>,
      quic_len2_present = 0,
      quic_len2 = \<lparr>quic_len2_t = 0\<rparr>,
      quic_len3_present = 0,
      quic_len3 = \<lparr>quic_len3_t = 0\<rparr>,
      quic_m_kind = 0,
      quic_m_token_len = 0,
      quic_m_length = 0\<rparr>"

text \<open>The assignments to a member, with the cast to its type.\<close>

abbreviation quic_set_first_byte_form :: "u64 \<Rightarrow> quic_result \<Rightarrow> quic_result" where
  "quic_set_first_byte_form v o' \<equiv> o'\<lparr>quic_first_byte := (quic_first_byte o')\<lparr>quic_first_byte_form := ucast v\<rparr>\<rparr>"

abbreviation quic_set_first_byte_fixed :: "u64 \<Rightarrow> quic_result \<Rightarrow> quic_result" where
  "quic_set_first_byte_fixed v o' \<equiv> o'\<lparr>quic_first_byte := (quic_first_byte o')\<lparr>quic_first_byte_fixed := ucast v\<rparr>\<rparr>"

abbreviation quic_set_first_byte_ty :: "u64 \<Rightarrow> quic_result \<Rightarrow> quic_result" where
  "quic_set_first_byte_ty v o' \<equiv> o'\<lparr>quic_first_byte := (quic_first_byte o')\<lparr>quic_first_byte_ty := ucast v\<rparr>\<rparr>"

abbreviation quic_set_first_byte_low :: "u64 \<Rightarrow> quic_result \<Rightarrow> quic_result" where
  "quic_set_first_byte_low v o' \<equiv> o'\<lparr>quic_first_byte := (quic_first_byte o')\<lparr>quic_first_byte_low := ucast v\<rparr>\<rparr>"

abbreviation quic_set_version_v :: "u64 \<Rightarrow> quic_result \<Rightarrow> quic_result" where
  "quic_set_version_v v o' \<equiv> o'\<lparr>quic_version := (quic_version o')\<lparr>quic_version_v := ucast v\<rparr>\<rparr>"

abbreviation quic_set_other_cids_dcid_len :: "u64 \<Rightarrow> quic_result \<Rightarrow> quic_result" where
  "quic_set_other_cids_dcid_len v o' \<equiv> o'\<lparr>quic_other_cids := (quic_other_cids o')\<lparr>quic_other_cids_dcid_len := ucast v\<rparr>\<rparr>"

abbreviation quic_set_other_cids_dcid_bit_off :: "u64 \<Rightarrow> quic_result \<Rightarrow> quic_result" where
  "quic_set_other_cids_dcid_bit_off v o' \<equiv> o'\<lparr>quic_other_cids := (quic_other_cids o')\<lparr>quic_other_cids_dcid_bit_off := v\<rparr>\<rparr>"

abbreviation quic_set_other_cids_dcid_bit_len :: "u64 \<Rightarrow> quic_result \<Rightarrow> quic_result" where
  "quic_set_other_cids_dcid_bit_len v o' \<equiv> o'\<lparr>quic_other_cids := (quic_other_cids o')\<lparr>quic_other_cids_dcid_bit_len := v\<rparr>\<rparr>"

abbreviation quic_set_other_cids_scid_len :: "u64 \<Rightarrow> quic_result \<Rightarrow> quic_result" where
  "quic_set_other_cids_scid_len v o' \<equiv> o'\<lparr>quic_other_cids := (quic_other_cids o')\<lparr>quic_other_cids_scid_len := ucast v\<rparr>\<rparr>"

abbreviation quic_set_other_cids_scid_bit_off :: "u64 \<Rightarrow> quic_result \<Rightarrow> quic_result" where
  "quic_set_other_cids_scid_bit_off v o' \<equiv> o'\<lparr>quic_other_cids := (quic_other_cids o')\<lparr>quic_other_cids_scid_bit_off := v\<rparr>\<rparr>"

abbreviation quic_set_other_cids_scid_bit_len :: "u64 \<Rightarrow> quic_result \<Rightarrow> quic_result" where
  "quic_set_other_cids_scid_bit_len v o' \<equiv> o'\<lparr>quic_other_cids := (quic_other_cids o')\<lparr>quic_other_cids_scid_bit_len := v\<rparr>\<rparr>"

abbreviation quic_set_dcid_len_ln :: "u64 \<Rightarrow> quic_result \<Rightarrow> quic_result" where
  "quic_set_dcid_len_ln v o' \<equiv> o'\<lparr>quic_dcid_len := (quic_dcid_len o')\<lparr>quic_dcid_len_ln := ucast v\<rparr>\<rparr>"

abbreviation quic_set_dcid_cid_bit_off :: "u64 \<Rightarrow> quic_result \<Rightarrow> quic_result" where
  "quic_set_dcid_cid_bit_off v o' \<equiv> o'\<lparr>quic_dcid := (quic_dcid o')\<lparr>quic_dcid_cid_bit_off := v\<rparr>\<rparr>"

abbreviation quic_set_dcid_cid_bit_len :: "u64 \<Rightarrow> quic_result \<Rightarrow> quic_result" where
  "quic_set_dcid_cid_bit_len v o' \<equiv> o'\<lparr>quic_dcid := (quic_dcid o')\<lparr>quic_dcid_cid_bit_len := v\<rparr>\<rparr>"

abbreviation quic_set_scid_len_ln :: "u64 \<Rightarrow> quic_result \<Rightarrow> quic_result" where
  "quic_set_scid_len_ln v o' \<equiv> o'\<lparr>quic_scid_len := (quic_scid_len o')\<lparr>quic_scid_len_ln := ucast v\<rparr>\<rparr>"

abbreviation quic_set_scid_cid_bit_off :: "u64 \<Rightarrow> quic_result \<Rightarrow> quic_result" where
  "quic_set_scid_cid_bit_off v o' \<equiv> o'\<lparr>quic_scid := (quic_scid o')\<lparr>quic_scid_cid_bit_off := v\<rparr>\<rparr>"

abbreviation quic_set_scid_cid_bit_len :: "u64 \<Rightarrow> quic_result \<Rightarrow> quic_result" where
  "quic_set_scid_cid_bit_len v o' \<equiv> o'\<lparr>quic_scid := (quic_scid o')\<lparr>quic_scid_cid_bit_len := v\<rparr>\<rparr>"

abbreviation quic_set_tok_lead_prefix :: "u64 \<Rightarrow> quic_result \<Rightarrow> quic_result" where
  "quic_set_tok_lead_prefix v o' \<equiv> o'\<lparr>quic_tok_lead := (quic_tok_lead o')\<lparr>quic_tok_lead_prefix := ucast v\<rparr>\<rparr>"

abbreviation quic_set_tok_lead_v6 :: "u64 \<Rightarrow> quic_result \<Rightarrow> quic_result" where
  "quic_set_tok_lead_v6 v o' \<equiv> o'\<lparr>quic_tok_lead := (quic_tok_lead o')\<lparr>quic_tok_lead_v6 := ucast v\<rparr>\<rparr>"

abbreviation quic_set_len_lead_prefix :: "u64 \<Rightarrow> quic_result \<Rightarrow> quic_result" where
  "quic_set_len_lead_prefix v o' \<equiv> o'\<lparr>quic_len_lead := (quic_len_lead o')\<lparr>quic_len_lead_prefix := ucast v\<rparr>\<rparr>"

abbreviation quic_set_len_lead_v6 :: "u64 \<Rightarrow> quic_result \<Rightarrow> quic_result" where
  "quic_set_len_lead_v6 v o' \<equiv> o'\<lparr>quic_len_lead := (quic_len_lead o')\<lparr>quic_len_lead_v6 := ucast v\<rparr>\<rparr>"

abbreviation quic_set_tok0_body_bit_off :: "u64 \<Rightarrow> quic_result \<Rightarrow> quic_result" where
  "quic_set_tok0_body_bit_off v o' \<equiv> o'\<lparr>quic_tok0 := (quic_tok0 o')\<lparr>quic_tok0_body_bit_off := v\<rparr>\<rparr>"

abbreviation quic_set_tok0_body_bit_len :: "u64 \<Rightarrow> quic_result \<Rightarrow> quic_result" where
  "quic_set_tok0_body_bit_len v o' \<equiv> o'\<lparr>quic_tok0 := (quic_tok0 o')\<lparr>quic_tok0_body_bit_len := v\<rparr>\<rparr>"

abbreviation quic_set_tok1_t :: "u64 \<Rightarrow> quic_result \<Rightarrow> quic_result" where
  "quic_set_tok1_t v o' \<equiv> o'\<lparr>quic_tok1 := (quic_tok1 o')\<lparr>quic_tok1_t := ucast v\<rparr>\<rparr>"

abbreviation quic_set_tok1_body_bit_off :: "u64 \<Rightarrow> quic_result \<Rightarrow> quic_result" where
  "quic_set_tok1_body_bit_off v o' \<equiv> o'\<lparr>quic_tok1 := (quic_tok1 o')\<lparr>quic_tok1_body_bit_off := v\<rparr>\<rparr>"

abbreviation quic_set_tok1_body_bit_len :: "u64 \<Rightarrow> quic_result \<Rightarrow> quic_result" where
  "quic_set_tok1_body_bit_len v o' \<equiv> o'\<lparr>quic_tok1 := (quic_tok1 o')\<lparr>quic_tok1_body_bit_len := v\<rparr>\<rparr>"

abbreviation quic_set_tok2_t :: "u64 \<Rightarrow> quic_result \<Rightarrow> quic_result" where
  "quic_set_tok2_t v o' \<equiv> o'\<lparr>quic_tok2 := (quic_tok2 o')\<lparr>quic_tok2_t := ucast v\<rparr>\<rparr>"

abbreviation quic_set_tok2_body_bit_off :: "u64 \<Rightarrow> quic_result \<Rightarrow> quic_result" where
  "quic_set_tok2_body_bit_off v o' \<equiv> o'\<lparr>quic_tok2 := (quic_tok2 o')\<lparr>quic_tok2_body_bit_off := v\<rparr>\<rparr>"

abbreviation quic_set_tok2_body_bit_len :: "u64 \<Rightarrow> quic_result \<Rightarrow> quic_result" where
  "quic_set_tok2_body_bit_len v o' \<equiv> o'\<lparr>quic_tok2 := (quic_tok2 o')\<lparr>quic_tok2_body_bit_len := v\<rparr>\<rparr>"

abbreviation quic_set_tok3_t :: "u64 \<Rightarrow> quic_result \<Rightarrow> quic_result" where
  "quic_set_tok3_t v o' \<equiv> o'\<lparr>quic_tok3 := (quic_tok3 o')\<lparr>quic_tok3_t := v\<rparr>\<rparr>"

abbreviation quic_set_tok3_body_bit_off :: "u64 \<Rightarrow> quic_result \<Rightarrow> quic_result" where
  "quic_set_tok3_body_bit_off v o' \<equiv> o'\<lparr>quic_tok3 := (quic_tok3 o')\<lparr>quic_tok3_body_bit_off := v\<rparr>\<rparr>"

abbreviation quic_set_tok3_body_bit_len :: "u64 \<Rightarrow> quic_result \<Rightarrow> quic_result" where
  "quic_set_tok3_body_bit_len v o' \<equiv> o'\<lparr>quic_tok3 := (quic_tok3 o')\<lparr>quic_tok3_body_bit_len := v\<rparr>\<rparr>"

abbreviation quic_set_len1_t :: "u64 \<Rightarrow> quic_result \<Rightarrow> quic_result" where
  "quic_set_len1_t v o' \<equiv> o'\<lparr>quic_len1 := (quic_len1 o')\<lparr>quic_len1_t := ucast v\<rparr>\<rparr>"

abbreviation quic_set_len2_t :: "u64 \<Rightarrow> quic_result \<Rightarrow> quic_result" where
  "quic_set_len2_t v o' \<equiv> o'\<lparr>quic_len2 := (quic_len2 o')\<lparr>quic_len2_t := ucast v\<rparr>\<rparr>"

abbreviation quic_set_len3_t :: "u64 \<Rightarrow> quic_result \<Rightarrow> quic_result" where
  "quic_set_len3_t v o' \<equiv> o'\<lparr>quic_len3 := (quic_len3 o')\<lparr>quic_len3_t := v\<rparr>\<rparr>"

abbreviation quic_set_m_kind :: "u64 \<Rightarrow> quic_result \<Rightarrow> quic_result" where
  "quic_set_m_kind v o' \<equiv> o'\<lparr>quic_m_kind := v\<rparr>"

abbreviation quic_set_m_token_len :: "u64 \<Rightarrow> quic_result \<Rightarrow> quic_result" where
  "quic_set_m_token_len v o' \<equiv> o'\<lparr>quic_m_token_len := v\<rparr>"

abbreviation quic_set_m_length :: "u64 \<Rightarrow> quic_result \<Rightarrow> quic_result" where
  "quic_set_m_length v o' \<equiv> o'\<lparr>quic_m_length := v\<rparr>"

section \<open>States, reasons and bounds\<close>

abbreviation quic_S_PARSE_FIRST :: u32 where "quic_S_PARSE_FIRST \<equiv> 0"
abbreviation quic_S_PARSE_VERSION :: u32 where "quic_S_PARSE_VERSION \<equiv> 1"
abbreviation quic_S_PARSE_OTHER_CIDS :: u32 where "quic_S_PARSE_OTHER_CIDS \<equiv> 2"
abbreviation quic_S_PARSE_DCID_LEN :: u32 where "quic_S_PARSE_DCID_LEN \<equiv> 3"
abbreviation quic_S_PARSE_DCID :: u32 where "quic_S_PARSE_DCID \<equiv> 4"
abbreviation quic_S_PARSE_SCID_LEN :: u32 where "quic_S_PARSE_SCID_LEN \<equiv> 5"
abbreviation quic_S_PARSE_SCID :: u32 where "quic_S_PARSE_SCID \<equiv> 6"
abbreviation quic_S_PARSE_TOK_LEAD :: u32 where "quic_S_PARSE_TOK_LEAD \<equiv> 7"
abbreviation quic_S_PARSE_LEN_LEAD :: u32 where "quic_S_PARSE_LEN_LEAD \<equiv> 8"
abbreviation quic_S_PARSE_FIRST__SHORT :: u32 where "quic_S_PARSE_FIRST__SHORT \<equiv> 9"
abbreviation quic_S_PARSE_VERSION__NEGOTIATION :: u32 where "quic_S_PARSE_VERSION__NEGOTIATION \<equiv> 10"
abbreviation quic_S_PARSE_VERSION__DEFAULT :: u32 where "quic_S_PARSE_VERSION__DEFAULT \<equiv> 11"
abbreviation quic_S_PARSE_SCID__INITIAL :: u32 where "quic_S_PARSE_SCID__INITIAL \<equiv> 12"
abbreviation quic_S_PARSE_SCID__ZERO_RTT :: u32 where "quic_S_PARSE_SCID__ZERO_RTT \<equiv> 13"
abbreviation quic_S_PARSE_SCID__HANDSHAKE :: u32 where "quic_S_PARSE_SCID__HANDSHAKE \<equiv> 14"
abbreviation quic_S_PARSE_SCID__RETRY :: u32 where "quic_S_PARSE_SCID__RETRY \<equiv> 15"
abbreviation quic_S_TOK_W1 :: u32 where "quic_S_TOK_W1 \<equiv> 16"
abbreviation quic_S_TOK_W2 :: u32 where "quic_S_TOK_W2 \<equiv> 17"
abbreviation quic_S_TOK_W4 :: u32 where "quic_S_TOK_W4 \<equiv> 18"
abbreviation quic_S_TOK_W8 :: u32 where "quic_S_TOK_W8 \<equiv> 19"
abbreviation quic_S_LEN_W1 :: u32 where "quic_S_LEN_W1 \<equiv> 20"
abbreviation quic_S_LEN_W2 :: u32 where "quic_S_LEN_W2 \<equiv> 21"
abbreviation quic_S_LEN_W4 :: u32 where "quic_S_LEN_W4 \<equiv> 22"
abbreviation quic_S_LEN_W8 :: u32 where "quic_S_LEN_W8 \<equiv> 23"

abbreviation quic_R_DCID_TOO_LONG_FOR_V1 :: u16 where "quic_R_DCID_TOO_LONG_FOR_V1 \<equiv> 16"
abbreviation quic_R_SCID_TOO_LONG_FOR_V1 :: u16 where "quic_R_SCID_TOO_LONG_FOR_V1 \<equiv> 17"
abbreviation quic_R_UNREACHABLE :: u16 where "quic_R_UNREACHABLE \<equiv> 18"

section \<open>The cases of the switch\<close>

definition quic_case_parse_first :: "packet_reader \<Rightarrow> u64 \<Rightarrow> quic_result stmt list" where
  "quic_case_parse_first rd bit_len =
   [store (\<lambda>o'. o'\<lparr>quic_first_byte_present := 1\<rparr>),
    check_len bit_len Off 1,
    load_bits rd Off 1 quic_set_first_byte_form,
    advance Off 1,
    check_len bit_len Off 1,
    load_bits rd Off 1 quic_set_first_byte_fixed,
    advance Off 1,
    check_len bit_len Off 2,
    load_bits rd Off 2 quic_set_first_byte_ty,
    advance Off 2,
    check_len bit_len Off 4,
    load_bits rd Off 4 quic_set_first_byte_low,
    advance Off 4,
    bind_local (c_out (\<lambda>o'. ucast (quic_first_byte_form (quic_first_byte o')))) (\<lambda>key0. [
     branch (\<lambda>_. key0 = 0) (goto quic_S_PARSE_FIRST__SHORT) (
     branch (\<lambda>_. key0 = 1) (goto quic_S_PARSE_VERSION) (
     reject quic_R_UNREACHABLE))])]"

definition quic_case_parse_version :: "packet_reader \<Rightarrow> u64 \<Rightarrow> quic_result stmt list" where
  "quic_case_parse_version rd bit_len =
   [store (\<lambda>o'. o'\<lparr>quic_version_present := 1\<rparr>),
    check_len bit_len Off 32,
    load_bytes rd Off 4 quic_set_version_v,
    advance Off 32,
    bind_local (c_out (\<lambda>o'. ucast (quic_version_v (quic_version o')))) (\<lambda>key0. [
     branch (\<lambda>_. key0 = 1) (goto quic_S_PARSE_DCID_LEN) (
     branch (\<lambda>_. key0 = 0) (goto quic_S_PARSE_VERSION__NEGOTIATION) (
     goto quic_S_PARSE_VERSION__DEFAULT))])]"

definition quic_case_parse_other_cids :: "packet_reader \<Rightarrow> u64 \<Rightarrow> quic_result stmt list" where
  "quic_case_parse_other_cids rd bit_len =
   [store (\<lambda>o'. o'\<lparr>quic_other_cids_present := 1\<rparr>),
    check_len bit_len Off 8,
    load_bytes rd Off 1 quic_set_other_cids_dcid_len,
    advance Off 8,
    bind_local (c_mul (c_out (\<lambda>o'. ucast (quic_other_cids_dcid_len (quic_other_cids o')))) (c_const 8)) (\<lambda>vlen.
      [check_var_len bit_len vlen,
       store_off quic_set_other_cids_dcid_bit_off,
       store (quic_set_other_cids_dcid_bit_len vlen),
       advance Off vlen]),
    check_len bit_len Off 8,
    load_bytes rd Off 1 quic_set_other_cids_scid_len,
    advance Off 8,
    bind_local (c_mul (c_out (\<lambda>o'. ucast (quic_other_cids_scid_len (quic_other_cids o')))) (c_const 8)) (\<lambda>vlen.
      [check_var_len bit_len vlen,
       store_off quic_set_other_cids_scid_bit_off,
       store (quic_set_other_cids_scid_bit_len vlen),
       advance Off vlen]),
    accept]"

definition quic_case_parse_dcid_len :: "packet_reader \<Rightarrow> u64 \<Rightarrow> quic_result stmt list" where
  "quic_case_parse_dcid_len rd bit_len =
   [store (\<lambda>o'. o'\<lparr>quic_dcid_len_present := 1\<rparr>),
    check_len bit_len Off 8,
    load_bytes rd Off 1 quic_set_dcid_len_ln,
    advance Off 8,
    bind_local (c_out (\<lambda>o'. ucast (quic_dcid_len_ln (quic_dcid_len o')))) (\<lambda>key0. [
     branch (\<lambda>_. key0 \<le> 20) (goto quic_S_PARSE_DCID) (
     reject quic_R_DCID_TOO_LONG_FOR_V1)])]"

definition quic_case_parse_dcid :: "packet_reader \<Rightarrow> u64 \<Rightarrow> quic_result stmt list" where
  "quic_case_parse_dcid rd bit_len =
   [store (\<lambda>o'. o'\<lparr>quic_dcid_present := 1\<rparr>),
    bind_local (c_mul (c_out (\<lambda>o'. ucast (quic_dcid_len_ln (quic_dcid_len o')))) (c_const 8)) (\<lambda>vlen.
      [check_var_len bit_len vlen,
       store_off quic_set_dcid_cid_bit_off,
       store (quic_set_dcid_cid_bit_len vlen),
       advance Off vlen]),
    goto quic_S_PARSE_SCID_LEN]"

definition quic_case_parse_scid_len :: "packet_reader \<Rightarrow> u64 \<Rightarrow> quic_result stmt list" where
  "quic_case_parse_scid_len rd bit_len =
   [store (\<lambda>o'. o'\<lparr>quic_scid_len_present := 1\<rparr>),
    check_len bit_len Off 8,
    load_bytes rd Off 1 quic_set_scid_len_ln,
    advance Off 8,
    bind_local (c_out (\<lambda>o'. ucast (quic_scid_len_ln (quic_scid_len o')))) (\<lambda>key0. [
     branch (\<lambda>_. key0 \<le> 20) (goto quic_S_PARSE_SCID) (
     reject quic_R_SCID_TOO_LONG_FOR_V1)])]"

definition quic_case_parse_scid :: "packet_reader \<Rightarrow> u64 \<Rightarrow> quic_result stmt list" where
  "quic_case_parse_scid rd bit_len =
   [store (\<lambda>o'. o'\<lparr>quic_scid_present := 1\<rparr>),
    bind_local (c_mul (c_out (\<lambda>o'. ucast (quic_scid_len_ln (quic_scid_len o')))) (c_const 8)) (\<lambda>vlen.
      [check_var_len bit_len vlen,
       store_off quic_set_scid_cid_bit_off,
       store (quic_set_scid_cid_bit_len vlen),
       advance Off vlen]),
    bind_local (c_out (\<lambda>o'. ucast (quic_first_byte_ty (quic_first_byte o')))) (\<lambda>key0. [
     branch (\<lambda>_. key0 = 0) (goto quic_S_PARSE_SCID__INITIAL) (
     branch (\<lambda>_. key0 = 1) (goto quic_S_PARSE_SCID__ZERO_RTT) (
     branch (\<lambda>_. key0 = 2) (goto quic_S_PARSE_SCID__HANDSHAKE) (
     branch (\<lambda>_. key0 = 3) (goto quic_S_PARSE_SCID__RETRY) (
     reject quic_R_UNREACHABLE))))])]"

definition quic_case_parse_tok_lead :: "packet_reader \<Rightarrow> u64 \<Rightarrow> quic_result stmt list" where
  "quic_case_parse_tok_lead rd bit_len =
   [store (\<lambda>o'. o'\<lparr>quic_tok_lead_present := 1\<rparr>),
    check_len bit_len Off 2,
    load_bits rd Off 2 quic_set_tok_lead_prefix,
    advance Off 2,
    check_len bit_len Off 6,
    load_bits rd Off 6 quic_set_tok_lead_v6,
    advance Off 6,
    bind_local (c_out (\<lambda>o'. ucast (quic_tok_lead_prefix (quic_tok_lead o')))) (\<lambda>key0. [
     branch (\<lambda>_. key0 = 0) (goto quic_S_TOK_W1) (
     branch (\<lambda>_. key0 = 1) (goto quic_S_TOK_W2) (
     branch (\<lambda>_. key0 = 2) (goto quic_S_TOK_W4) (
     branch (\<lambda>_. key0 = 3) (goto quic_S_TOK_W8) (
     reject quic_R_UNREACHABLE))))])]"

definition quic_case_parse_len_lead :: "packet_reader \<Rightarrow> u64 \<Rightarrow> quic_result stmt list" where
  "quic_case_parse_len_lead rd bit_len =
   [store (\<lambda>o'. o'\<lparr>quic_len_lead_present := 1\<rparr>),
    check_len bit_len Off 2,
    load_bits rd Off 2 quic_set_len_lead_prefix,
    advance Off 2,
    check_len bit_len Off 6,
    load_bits rd Off 6 quic_set_len_lead_v6,
    advance Off 6,
    bind_local (c_out (\<lambda>o'. ucast (quic_len_lead_prefix (quic_len_lead o')))) (\<lambda>key0. [
     branch (\<lambda>_. key0 = 0) (goto quic_S_LEN_W1) (
     branch (\<lambda>_. key0 = 1) (goto quic_S_LEN_W2) (
     branch (\<lambda>_. key0 = 2) (goto quic_S_LEN_W4) (
     branch (\<lambda>_. key0 = 3) (goto quic_S_LEN_W8) (
     reject quic_R_UNREACHABLE))))])]"

definition quic_case_parse_first__short :: "packet_reader \<Rightarrow> u64 \<Rightarrow> quic_result stmt list" where
  "quic_case_parse_first__short rd bit_len =
   [store_exp (c_and (c_const 7) (c_const 0x7)) quic_set_m_kind,
    accept]"

definition quic_case_parse_version__negotiation :: "packet_reader \<Rightarrow> u64 \<Rightarrow> quic_result stmt list" where
  "quic_case_parse_version__negotiation rd bit_len =
   [store_exp (c_and (c_const 5) (c_const 0x7)) quic_set_m_kind,
    goto quic_S_PARSE_OTHER_CIDS]"

definition quic_case_parse_version__default :: "packet_reader \<Rightarrow> u64 \<Rightarrow> quic_result stmt list" where
  "quic_case_parse_version__default rd bit_len =
   [store_exp (c_and (c_const 6) (c_const 0x7)) quic_set_m_kind,
    goto quic_S_PARSE_OTHER_CIDS]"

definition quic_case_parse_scid__initial :: "packet_reader \<Rightarrow> u64 \<Rightarrow> quic_result stmt list" where
  "quic_case_parse_scid__initial rd bit_len =
   [store_exp (c_and (c_const 1) (c_const 0x7)) quic_set_m_kind,
    goto quic_S_PARSE_TOK_LEAD]"

definition quic_case_parse_scid__zero_rtt :: "packet_reader \<Rightarrow> u64 \<Rightarrow> quic_result stmt list" where
  "quic_case_parse_scid__zero_rtt rd bit_len =
   [store_exp (c_and (c_const 2) (c_const 0x7)) quic_set_m_kind,
    goto quic_S_PARSE_LEN_LEAD]"

definition quic_case_parse_scid__handshake :: "packet_reader \<Rightarrow> u64 \<Rightarrow> quic_result stmt list" where
  "quic_case_parse_scid__handshake rd bit_len =
   [store_exp (c_and (c_const 3) (c_const 0x7)) quic_set_m_kind,
    goto quic_S_PARSE_LEN_LEAD]"

definition quic_case_parse_scid__retry :: "packet_reader \<Rightarrow> u64 \<Rightarrow> quic_result stmt list" where
  "quic_case_parse_scid__retry rd bit_len =
   [store_exp (c_and (c_const 4) (c_const 0x7)) quic_set_m_kind,
    accept]"

definition quic_case_tok_w1 :: "packet_reader \<Rightarrow> u64 \<Rightarrow> quic_result stmt list" where
  "quic_case_tok_w1 rd bit_len =
   [store (\<lambda>o'. o'\<lparr>quic_tok0_present := 1\<rparr>),
    bind_local (c_mul (c_out (\<lambda>o'. ucast (quic_tok_lead_v6 (quic_tok_lead o')))) (c_const 8)) (\<lambda>vlen.
      [check_var_len bit_len vlen,
       store_off quic_set_tok0_body_bit_off,
       store (quic_set_tok0_body_bit_len vlen),
       advance Off vlen]),
    store_exp (c_out (\<lambda>o'. ucast (quic_tok_lead_v6 (quic_tok_lead o')))) quic_set_m_token_len,
    goto quic_S_PARSE_LEN_LEAD]"

definition quic_case_tok_w2 :: "packet_reader \<Rightarrow> u64 \<Rightarrow> quic_result stmt list" where
  "quic_case_tok_w2 rd bit_len =
   [store (\<lambda>o'. o'\<lparr>quic_tok1_present := 1\<rparr>),
    check_len bit_len Off 8,
    load_bytes rd Off 1 quic_set_tok1_t,
    advance Off 8,
    bind_local (c_mul (c_or (c_shl (c_out (\<lambda>o'. ucast (quic_tok_lead_v6 (quic_tok_lead o')))) (c_const 8)) (c_out (\<lambda>o'. ucast (quic_tok1_t (quic_tok1 o'))))) (c_const 8)) (\<lambda>vlen.
      [check_var_len bit_len vlen,
       store_off quic_set_tok1_body_bit_off,
       store (quic_set_tok1_body_bit_len vlen),
       advance Off vlen]),
    store_exp (c_or (c_shl (c_out (\<lambda>o'. ucast (quic_tok_lead_v6 (quic_tok_lead o')))) (c_const 8)) (c_out (\<lambda>o'. ucast (quic_tok1_t (quic_tok1 o'))))) quic_set_m_token_len,
    goto quic_S_PARSE_LEN_LEAD]"

definition quic_case_tok_w4 :: "packet_reader \<Rightarrow> u64 \<Rightarrow> quic_result stmt list" where
  "quic_case_tok_w4 rd bit_len =
   [store (\<lambda>o'. o'\<lparr>quic_tok2_present := 1\<rparr>),
    check_len bit_len Off 24,
    load_bytes rd Off 3 quic_set_tok2_t,
    advance Off 24,
    bind_local (c_mul (c_or (c_shl (c_out (\<lambda>o'. ucast (quic_tok_lead_v6 (quic_tok_lead o')))) (c_const 24)) (c_out (\<lambda>o'. ucast (quic_tok2_t (quic_tok2 o'))))) (c_const 8)) (\<lambda>vlen.
      [check_var_len bit_len vlen,
       store_off quic_set_tok2_body_bit_off,
       store (quic_set_tok2_body_bit_len vlen),
       advance Off vlen]),
    store_exp (c_or (c_shl (c_out (\<lambda>o'. ucast (quic_tok_lead_v6 (quic_tok_lead o')))) (c_const 24)) (c_out (\<lambda>o'. ucast (quic_tok2_t (quic_tok2 o'))))) quic_set_m_token_len,
    goto quic_S_PARSE_LEN_LEAD]"

definition quic_case_tok_w8 :: "packet_reader \<Rightarrow> u64 \<Rightarrow> quic_result stmt list" where
  "quic_case_tok_w8 rd bit_len =
   [store (\<lambda>o'. o'\<lparr>quic_tok3_present := 1\<rparr>),
    check_len bit_len Off 56,
    load_bytes rd Off 7 quic_set_tok3_t,
    advance Off 56,
    bind_local (c_mul (c_or (c_shl (c_out (\<lambda>o'. ucast (quic_tok_lead_v6 (quic_tok_lead o')))) (c_const 56)) (c_out (\<lambda>o'. quic_tok3_t (quic_tok3 o')))) (c_const 8)) (\<lambda>vlen.
      [check_var_len bit_len vlen,
       store_off quic_set_tok3_body_bit_off,
       store (quic_set_tok3_body_bit_len vlen),
       advance Off vlen]),
    store_exp (c_or (c_shl (c_out (\<lambda>o'. ucast (quic_tok_lead_v6 (quic_tok_lead o')))) (c_const 56)) (c_out (\<lambda>o'. quic_tok3_t (quic_tok3 o')))) quic_set_m_token_len,
    goto quic_S_PARSE_LEN_LEAD]"

definition quic_case_len_w1 :: "packet_reader \<Rightarrow> u64 \<Rightarrow> quic_result stmt list" where
  "quic_case_len_w1 rd bit_len =
   [store_exp (c_out (\<lambda>o'. ucast (quic_len_lead_v6 (quic_len_lead o')))) quic_set_m_length,
    accept]"

definition quic_case_len_w2 :: "packet_reader \<Rightarrow> u64 \<Rightarrow> quic_result stmt list" where
  "quic_case_len_w2 rd bit_len =
   [store (\<lambda>o'. o'\<lparr>quic_len1_present := 1\<rparr>),
    check_len bit_len Off 8,
    load_bytes rd Off 1 quic_set_len1_t,
    advance Off 8,
    store_exp (c_or (c_shl (c_out (\<lambda>o'. ucast (quic_len_lead_v6 (quic_len_lead o')))) (c_const 8)) (c_out (\<lambda>o'. ucast (quic_len1_t (quic_len1 o'))))) quic_set_m_length,
    accept]"

definition quic_case_len_w4 :: "packet_reader \<Rightarrow> u64 \<Rightarrow> quic_result stmt list" where
  "quic_case_len_w4 rd bit_len =
   [store (\<lambda>o'. o'\<lparr>quic_len2_present := 1\<rparr>),
    check_len bit_len Off 24,
    load_bytes rd Off 3 quic_set_len2_t,
    advance Off 24,
    store_exp (c_or (c_shl (c_out (\<lambda>o'. ucast (quic_len_lead_v6 (quic_len_lead o')))) (c_const 24)) (c_out (\<lambda>o'. ucast (quic_len2_t (quic_len2 o'))))) quic_set_m_length,
    accept]"

definition quic_case_len_w8 :: "packet_reader \<Rightarrow> u64 \<Rightarrow> quic_result stmt list" where
  "quic_case_len_w8 rd bit_len =
   [store (\<lambda>o'. o'\<lparr>quic_len3_present := 1\<rparr>),
    check_len bit_len Off 56,
    load_bytes rd Off 7 quic_set_len3_t,
    advance Off 56,
    store_exp (c_or (c_shl (c_out (\<lambda>o'. ucast (quic_len_lead_v6 (quic_len_lead o')))) (c_const 56)) (c_out (\<lambda>o'. quic_len3_t (quic_len3 o')))) quic_set_m_length,
    accept]"

section \<open>The parser\<close>

definition quic_switch :: "packet_reader \<Rightarrow> u64 \<Rightarrow> quic_result stmt" where
  "quic_switch rd bit_len = switch
   [(quic_S_PARSE_FIRST, quic_case_parse_first rd bit_len),
    (quic_S_PARSE_VERSION, quic_case_parse_version rd bit_len),
    (quic_S_PARSE_OTHER_CIDS, quic_case_parse_other_cids rd bit_len),
    (quic_S_PARSE_DCID_LEN, quic_case_parse_dcid_len rd bit_len),
    (quic_S_PARSE_DCID, quic_case_parse_dcid rd bit_len),
    (quic_S_PARSE_SCID_LEN, quic_case_parse_scid_len rd bit_len),
    (quic_S_PARSE_SCID, quic_case_parse_scid rd bit_len),
    (quic_S_PARSE_TOK_LEAD, quic_case_parse_tok_lead rd bit_len),
    (quic_S_PARSE_LEN_LEAD, quic_case_parse_len_lead rd bit_len),
    (quic_S_PARSE_FIRST__SHORT, quic_case_parse_first__short rd bit_len),
    (quic_S_PARSE_VERSION__NEGOTIATION, quic_case_parse_version__negotiation rd bit_len),
    (quic_S_PARSE_VERSION__DEFAULT, quic_case_parse_version__default rd bit_len),
    (quic_S_PARSE_SCID__INITIAL, quic_case_parse_scid__initial rd bit_len),
    (quic_S_PARSE_SCID__ZERO_RTT, quic_case_parse_scid__zero_rtt rd bit_len),
    (quic_S_PARSE_SCID__HANDSHAKE, quic_case_parse_scid__handshake rd bit_len),
    (quic_S_PARSE_SCID__RETRY, quic_case_parse_scid__retry rd bit_len),
    (quic_S_TOK_W1, quic_case_tok_w1 rd bit_len),
    (quic_S_TOK_W2, quic_case_tok_w2 rd bit_len),
    (quic_S_TOK_W4, quic_case_tok_w4 rd bit_len),
    (quic_S_TOK_W8, quic_case_tok_w8 rd bit_len),
    (quic_S_LEN_W1, quic_case_len_w1 rd bit_len),
    (quic_S_LEN_W2, quic_case_len_w2 rd bit_len),
    (quic_S_LEN_W4, quic_case_len_w4 rd bit_len),
    (quic_S_LEN_W8, quic_case_len_w8 rd bit_len)]"

definition quic_parse_core :: "packet_reader \<Rightarrow> u64 \<Rightarrow> quic_result \<Rightarrow> quic_result flow" where
  "quic_parse_core rd bit_len o' =
     depth_loop 12 (quic_switch rd bit_len)
       (init_locals quic_S_PARSE_FIRST 0 (o'\<lparr>quic_m_kind := 0, quic_m_token_len := 0, quic_m_length := 0\<rparr>))"

text \<open>The caller's struct is overwritten with zeros before the core runs.\<close>

definition quic_parse :: "packet_reader \<Rightarrow> u64 \<Rightarrow> quic_result \<Rightarrow> quic_result flow" where
  "quic_parse rd bit_len o' = quic_parse_core rd bit_len quic_zero"

text \<open>The reasons of the header, with the text each carries in a comment.\<close>

definition quic_reasons :: "(u16 \<times> string) list" where
  "quic_reasons =
     [(1, ''out of bounds''),
      (2, ''max depth exceeded''),
      (3, ''no matching select arm''),
      (4, ''out of region bounds''),
      (5, ''region out of bounds''),
      (6, ''region not exhausted''),
      (16, ''dcid too long for v1''),
      (17, ''scid too long for v1''),
      (18, ''unreachable'')]"

definition quic_reason_str :: "u16 \<Rightarrow> string" where
  "quic_reason_str r =
     (if r = 1 then ''out of bounds''
      else if r = 2 then ''max depth exceeded''
      else if r = 3 then ''no matching select arm''
      else if r = 4 then ''out of region bounds''
      else if r = 5 then ''region out of bounds''
      else if r = 6 then ''region not exhausted''
      else if r = 16 then ''dcid too long for v1''
      else if r = 17 then ''scid too long for v1''
      else if r = 18 then ''unreachable''
      else [])"

end
