(* ===== verification/Quic_Initial_Refine.thy ===== *)
theory Quic_Initial_Refine
  imports Quic_Initial Bpf_Entry
begin

text \<open>
  The generated parser benchmarks/industry/quic_initial/gen/parser.c is what the emitter makes of
  benchmarks/industry/quic_initial/quic_initial.ir.json, and it does what the interpreter does: the description as a term of the
  IR, the members of the result struct, the certificates of the two static checks, the proof that
  every case of the file equals the emitted one, and the refinement theorem.
\<close>

section \<open>The description\<close>

definition quic_ht_first_byte :: header_type where
  "quic_ht_first_byte = \<lparr>ht_name = ''first_byte'', ht_fields =
     [\<lparr>field_name = ''form'', field_width = Bits 1\<rparr>,
      \<lparr>field_name = ''fixed'', field_width = Bits 1\<rparr>,
      \<lparr>field_name = ''ty'', field_width = Bits 2\<rparr>,
      \<lparr>field_name = ''low'', field_width = Bits 4\<rparr>]\<rparr>"

definition quic_ht_version :: header_type where
  "quic_ht_version = \<lparr>ht_name = ''version'', ht_fields =
     [\<lparr>field_name = ''v'', field_width = Bits 32\<rparr>]\<rparr>"

definition quic_ht_other_cids :: header_type where
  "quic_ht_other_cids = \<lparr>ht_name = ''other_cids'', ht_fields =
     [\<lparr>field_name = ''dcid_len'', field_width = Bits 8\<rparr>,
      \<lparr>field_name = ''dcid'', field_width = BitLen (Bin OpMul (Field ''other_cids'' ''dcid_len'') (Constant 8))\<rparr>,
      \<lparr>field_name = ''scid_len'', field_width = Bits 8\<rparr>,
      \<lparr>field_name = ''scid'', field_width = BitLen (Bin OpMul (Field ''other_cids'' ''scid_len'') (Constant 8))\<rparr>]\<rparr>"

definition quic_ht_dcid_len :: header_type where
  "quic_ht_dcid_len = \<lparr>ht_name = ''dcid_len'', ht_fields =
     [\<lparr>field_name = ''ln'', field_width = Bits 8\<rparr>]\<rparr>"

definition quic_ht_dcid :: header_type where
  "quic_ht_dcid = \<lparr>ht_name = ''dcid'', ht_fields =
     [\<lparr>field_name = ''cid'', field_width = BitLen (Bin OpMul (Field ''dcid_len'' ''ln'') (Constant 8))\<rparr>]\<rparr>"

definition quic_ht_scid_len :: header_type where
  "quic_ht_scid_len = \<lparr>ht_name = ''scid_len'', ht_fields =
     [\<lparr>field_name = ''ln'', field_width = Bits 8\<rparr>]\<rparr>"

definition quic_ht_scid :: header_type where
  "quic_ht_scid = \<lparr>ht_name = ''scid'', ht_fields =
     [\<lparr>field_name = ''cid'', field_width = BitLen (Bin OpMul (Field ''scid_len'' ''ln'') (Constant 8))\<rparr>]\<rparr>"

definition quic_ht_tok_lead :: header_type where
  "quic_ht_tok_lead = \<lparr>ht_name = ''tok_lead'', ht_fields =
     [\<lparr>field_name = ''prefix'', field_width = Bits 2\<rparr>,
      \<lparr>field_name = ''v6'', field_width = Bits 6\<rparr>]\<rparr>"

definition quic_ht_len_lead :: header_type where
  "quic_ht_len_lead = \<lparr>ht_name = ''len_lead'', ht_fields =
     [\<lparr>field_name = ''prefix'', field_width = Bits 2\<rparr>,
      \<lparr>field_name = ''v6'', field_width = Bits 6\<rparr>]\<rparr>"

definition quic_ht_tok0 :: header_type where
  "quic_ht_tok0 = \<lparr>ht_name = ''tok0'', ht_fields =
     [\<lparr>field_name = ''body'', field_width = BitLen (Bin OpMul (Field ''tok_lead'' ''v6'') (Constant 8))\<rparr>]\<rparr>"

definition quic_ht_tok1 :: header_type where
  "quic_ht_tok1 = \<lparr>ht_name = ''tok1'', ht_fields =
     [\<lparr>field_name = ''t'', field_width = Bits 8\<rparr>,
      \<lparr>field_name = ''body'', field_width = BitLen (Bin OpMul (Bin OpOr (Bin OpShl (Field ''tok_lead'' ''v6'') (Constant 8)) (Field ''tok1'' ''t'')) (Constant 8))\<rparr>]\<rparr>"

definition quic_ht_tok2 :: header_type where
  "quic_ht_tok2 = \<lparr>ht_name = ''tok2'', ht_fields =
     [\<lparr>field_name = ''t'', field_width = Bits 24\<rparr>,
      \<lparr>field_name = ''body'', field_width = BitLen (Bin OpMul (Bin OpOr (Bin OpShl (Field ''tok_lead'' ''v6'') (Constant 24)) (Field ''tok2'' ''t'')) (Constant 8))\<rparr>]\<rparr>"

definition quic_ht_tok3 :: header_type where
  "quic_ht_tok3 = \<lparr>ht_name = ''tok3'', ht_fields =
     [\<lparr>field_name = ''t'', field_width = Bits 56\<rparr>,
      \<lparr>field_name = ''body'', field_width = BitLen (Bin OpMul (Bin OpOr (Bin OpShl (Field ''tok_lead'' ''v6'') (Constant 56)) (Field ''tok3'' ''t'')) (Constant 8))\<rparr>]\<rparr>"

definition quic_ht_len1 :: header_type where
  "quic_ht_len1 = \<lparr>ht_name = ''len1'', ht_fields =
     [\<lparr>field_name = ''t'', field_width = Bits 8\<rparr>]\<rparr>"

definition quic_ht_len2 :: header_type where
  "quic_ht_len2 = \<lparr>ht_name = ''len2'', ht_fields =
     [\<lparr>field_name = ''t'', field_width = Bits 24\<rparr>]\<rparr>"

definition quic_ht_len3 :: header_type where
  "quic_ht_len3 = \<lparr>ht_name = ''len3'', ht_fields =
     [\<lparr>field_name = ''t'', field_width = Bits 56\<rparr>]\<rparr>"

definition quic_st_parse_first :: state where
  "quic_st_parse_first =
     \<lparr>st_name = ''parse_first'',
      st_extracts = [\<lparr>ex_header_type = ''first_byte'', ex_instance = [], ex_lookahead = False\<rparr>],
      st_assigns = [],
      st_region_ops = [],
      st_transition = Select [Field ''first_byte'' ''form'']
       [\<lparr>arm_entries = [Value 0], arm_next = ToState ''parse_first__short''\<rparr>,
        \<lparr>arm_entries = [Value 1], arm_next = ToState ''parse_version''\<rparr>]
       (Some (Reject ''unreachable'' SevError))\<rparr>"

definition quic_st_parse_version :: state where
  "quic_st_parse_version =
     \<lparr>st_name = ''parse_version'',
      st_extracts = [\<lparr>ex_header_type = ''version'', ex_instance = [], ex_lookahead = False\<rparr>],
      st_assigns = [],
      st_region_ops = [],
      st_transition = Select [Field ''version'' ''v'']
       [\<lparr>arm_entries = [Value 1], arm_next = ToState ''parse_dcid_len''\<rparr>,
        \<lparr>arm_entries = [Value 0], arm_next = ToState ''parse_version__negotiation''\<rparr>]
       (Some (ToState ''parse_version__default''))\<rparr>"

definition quic_st_parse_other_cids :: state where
  "quic_st_parse_other_cids =
     \<lparr>st_name = ''parse_other_cids'',
      st_extracts = [\<lparr>ex_header_type = ''other_cids'', ex_instance = [], ex_lookahead = False\<rparr>],
      st_assigns = [],
      st_region_ops = [],
      st_transition = Direct (Accept)\<rparr>"

definition quic_st_parse_dcid_len :: state where
  "quic_st_parse_dcid_len =
     \<lparr>st_name = ''parse_dcid_len'',
      st_extracts = [\<lparr>ex_header_type = ''dcid_len'', ex_instance = [], ex_lookahead = False\<rparr>],
      st_assigns = [],
      st_region_ops = [],
      st_transition = Select [Field ''dcid_len'' ''ln'']
       [\<lparr>arm_entries = [Range 0 20], arm_next = ToState ''parse_dcid''\<rparr>]
       (Some (Reject ''dcid too long for v1'' SevError))\<rparr>"

definition quic_st_parse_dcid :: state where
  "quic_st_parse_dcid =
     \<lparr>st_name = ''parse_dcid'',
      st_extracts = [\<lparr>ex_header_type = ''dcid'', ex_instance = [], ex_lookahead = False\<rparr>],
      st_assigns = [],
      st_region_ops = [],
      st_transition = Direct (ToState ''parse_scid_len'')\<rparr>"

definition quic_st_parse_scid_len :: state where
  "quic_st_parse_scid_len =
     \<lparr>st_name = ''parse_scid_len'',
      st_extracts = [\<lparr>ex_header_type = ''scid_len'', ex_instance = [], ex_lookahead = False\<rparr>],
      st_assigns = [],
      st_region_ops = [],
      st_transition = Select [Field ''scid_len'' ''ln'']
       [\<lparr>arm_entries = [Range 0 20], arm_next = ToState ''parse_scid''\<rparr>]
       (Some (Reject ''scid too long for v1'' SevError))\<rparr>"

definition quic_st_parse_scid :: state where
  "quic_st_parse_scid =
     \<lparr>st_name = ''parse_scid'',
      st_extracts = [\<lparr>ex_header_type = ''scid'', ex_instance = [], ex_lookahead = False\<rparr>],
      st_assigns = [],
      st_region_ops = [],
      st_transition = Select [Field ''first_byte'' ''ty'']
       [\<lparr>arm_entries = [Value 0], arm_next = ToState ''parse_scid__initial''\<rparr>,
        \<lparr>arm_entries = [Value 1], arm_next = ToState ''parse_scid__zero_rtt''\<rparr>,
        \<lparr>arm_entries = [Value 2], arm_next = ToState ''parse_scid__handshake''\<rparr>,
        \<lparr>arm_entries = [Value 3], arm_next = ToState ''parse_scid__retry''\<rparr>]
       (Some (Reject ''unreachable'' SevError))\<rparr>"

definition quic_st_parse_tok_lead :: state where
  "quic_st_parse_tok_lead =
     \<lparr>st_name = ''parse_tok_lead'',
      st_extracts = [\<lparr>ex_header_type = ''tok_lead'', ex_instance = [], ex_lookahead = False\<rparr>],
      st_assigns = [],
      st_region_ops = [],
      st_transition = Select [Field ''tok_lead'' ''prefix'']
       [\<lparr>arm_entries = [Value 0], arm_next = ToState ''tok_w1''\<rparr>,
        \<lparr>arm_entries = [Value 1], arm_next = ToState ''tok_w2''\<rparr>,
        \<lparr>arm_entries = [Value 2], arm_next = ToState ''tok_w4''\<rparr>,
        \<lparr>arm_entries = [Value 3], arm_next = ToState ''tok_w8''\<rparr>]
       (Some (Reject ''unreachable'' SevError))\<rparr>"

definition quic_st_parse_len_lead :: state where
  "quic_st_parse_len_lead =
     \<lparr>st_name = ''parse_len_lead'',
      st_extracts = [\<lparr>ex_header_type = ''len_lead'', ex_instance = [], ex_lookahead = False\<rparr>],
      st_assigns = [],
      st_region_ops = [],
      st_transition = Select [Field ''len_lead'' ''prefix'']
       [\<lparr>arm_entries = [Value 0], arm_next = ToState ''len_w1''\<rparr>,
        \<lparr>arm_entries = [Value 1], arm_next = ToState ''len_w2''\<rparr>,
        \<lparr>arm_entries = [Value 2], arm_next = ToState ''len_w4''\<rparr>,
        \<lparr>arm_entries = [Value 3], arm_next = ToState ''len_w8''\<rparr>]
       (Some (Reject ''unreachable'' SevError))\<rparr>"

definition quic_st_parse_first__short :: state where
  "quic_st_parse_first__short =
     \<lparr>st_name = ''parse_first__short'',
      st_extracts = [],
      st_assigns = [\<lparr>as_metadata = ''kind'', as_value = Constant 7\<rparr>],
      st_region_ops = [],
      st_transition = Direct (Accept)\<rparr>"

definition quic_st_parse_version__negotiation :: state where
  "quic_st_parse_version__negotiation =
     \<lparr>st_name = ''parse_version__negotiation'',
      st_extracts = [],
      st_assigns = [\<lparr>as_metadata = ''kind'', as_value = Constant 5\<rparr>],
      st_region_ops = [],
      st_transition = Direct (ToState ''parse_other_cids'')\<rparr>"

definition quic_st_parse_version__default :: state where
  "quic_st_parse_version__default =
     \<lparr>st_name = ''parse_version__default'',
      st_extracts = [],
      st_assigns = [\<lparr>as_metadata = ''kind'', as_value = Constant 6\<rparr>],
      st_region_ops = [],
      st_transition = Direct (ToState ''parse_other_cids'')\<rparr>"

definition quic_st_parse_scid__initial :: state where
  "quic_st_parse_scid__initial =
     \<lparr>st_name = ''parse_scid__initial'',
      st_extracts = [],
      st_assigns = [\<lparr>as_metadata = ''kind'', as_value = Constant 1\<rparr>],
      st_region_ops = [],
      st_transition = Direct (ToState ''parse_tok_lead'')\<rparr>"

definition quic_st_parse_scid__zero_rtt :: state where
  "quic_st_parse_scid__zero_rtt =
     \<lparr>st_name = ''parse_scid__zero_rtt'',
      st_extracts = [],
      st_assigns = [\<lparr>as_metadata = ''kind'', as_value = Constant 2\<rparr>],
      st_region_ops = [],
      st_transition = Direct (ToState ''parse_len_lead'')\<rparr>"

definition quic_st_parse_scid__handshake :: state where
  "quic_st_parse_scid__handshake =
     \<lparr>st_name = ''parse_scid__handshake'',
      st_extracts = [],
      st_assigns = [\<lparr>as_metadata = ''kind'', as_value = Constant 3\<rparr>],
      st_region_ops = [],
      st_transition = Direct (ToState ''parse_len_lead'')\<rparr>"

definition quic_st_parse_scid__retry :: state where
  "quic_st_parse_scid__retry =
     \<lparr>st_name = ''parse_scid__retry'',
      st_extracts = [],
      st_assigns = [\<lparr>as_metadata = ''kind'', as_value = Constant 4\<rparr>],
      st_region_ops = [],
      st_transition = Direct (Accept)\<rparr>"

definition quic_st_tok_w1 :: state where
  "quic_st_tok_w1 =
     \<lparr>st_name = ''tok_w1'',
      st_extracts = [\<lparr>ex_header_type = ''tok0'', ex_instance = [], ex_lookahead = False\<rparr>],
      st_assigns = [\<lparr>as_metadata = ''token_len'', as_value = Field ''tok_lead'' ''v6''\<rparr>],
      st_region_ops = [],
      st_transition = Direct (ToState ''parse_len_lead'')\<rparr>"

definition quic_st_tok_w2 :: state where
  "quic_st_tok_w2 =
     \<lparr>st_name = ''tok_w2'',
      st_extracts = [\<lparr>ex_header_type = ''tok1'', ex_instance = [], ex_lookahead = False\<rparr>],
      st_assigns = [\<lparr>as_metadata = ''token_len'', as_value = Bin OpOr (Bin OpShl (Field ''tok_lead'' ''v6'') (Constant 8)) (Field ''tok1'' ''t'')\<rparr>],
      st_region_ops = [],
      st_transition = Direct (ToState ''parse_len_lead'')\<rparr>"

definition quic_st_tok_w4 :: state where
  "quic_st_tok_w4 =
     \<lparr>st_name = ''tok_w4'',
      st_extracts = [\<lparr>ex_header_type = ''tok2'', ex_instance = [], ex_lookahead = False\<rparr>],
      st_assigns = [\<lparr>as_metadata = ''token_len'', as_value = Bin OpOr (Bin OpShl (Field ''tok_lead'' ''v6'') (Constant 24)) (Field ''tok2'' ''t'')\<rparr>],
      st_region_ops = [],
      st_transition = Direct (ToState ''parse_len_lead'')\<rparr>"

definition quic_st_tok_w8 :: state where
  "quic_st_tok_w8 =
     \<lparr>st_name = ''tok_w8'',
      st_extracts = [\<lparr>ex_header_type = ''tok3'', ex_instance = [], ex_lookahead = False\<rparr>],
      st_assigns = [\<lparr>as_metadata = ''token_len'', as_value = Bin OpOr (Bin OpShl (Field ''tok_lead'' ''v6'') (Constant 56)) (Field ''tok3'' ''t'')\<rparr>],
      st_region_ops = [],
      st_transition = Direct (ToState ''parse_len_lead'')\<rparr>"

definition quic_st_len_w1 :: state where
  "quic_st_len_w1 =
     \<lparr>st_name = ''len_w1'',
      st_extracts = [],
      st_assigns = [\<lparr>as_metadata = ''length'', as_value = Field ''len_lead'' ''v6''\<rparr>],
      st_region_ops = [],
      st_transition = Direct (Accept)\<rparr>"

definition quic_st_len_w2 :: state where
  "quic_st_len_w2 =
     \<lparr>st_name = ''len_w2'',
      st_extracts = [\<lparr>ex_header_type = ''len1'', ex_instance = [], ex_lookahead = False\<rparr>],
      st_assigns = [\<lparr>as_metadata = ''length'', as_value = Bin OpOr (Bin OpShl (Field ''len_lead'' ''v6'') (Constant 8)) (Field ''len1'' ''t'')\<rparr>],
      st_region_ops = [],
      st_transition = Direct (Accept)\<rparr>"

definition quic_st_len_w4 :: state where
  "quic_st_len_w4 =
     \<lparr>st_name = ''len_w4'',
      st_extracts = [\<lparr>ex_header_type = ''len2'', ex_instance = [], ex_lookahead = False\<rparr>],
      st_assigns = [\<lparr>as_metadata = ''length'', as_value = Bin OpOr (Bin OpShl (Field ''len_lead'' ''v6'') (Constant 24)) (Field ''len2'' ''t'')\<rparr>],
      st_region_ops = [],
      st_transition = Direct (Accept)\<rparr>"

definition quic_st_len_w8 :: state where
  "quic_st_len_w8 =
     \<lparr>st_name = ''len_w8'',
      st_extracts = [\<lparr>ex_header_type = ''len3'', ex_instance = [], ex_lookahead = False\<rparr>],
      st_assigns = [\<lparr>as_metadata = ''length'', as_value = Bin OpOr (Bin OpShl (Field ''len_lead'' ''v6'') (Constant 56)) (Field ''len3'' ''t'')\<rparr>],
      st_region_ops = [],
      st_transition = Direct (Accept)\<rparr>"

definition quic_ir :: parser where
  "quic_ir =
     \<lparr>p_header_types = [quic_ht_first_byte, quic_ht_version, quic_ht_other_cids, quic_ht_dcid_len, quic_ht_dcid, quic_ht_scid_len, quic_ht_scid, quic_ht_tok_lead, quic_ht_len_lead, quic_ht_tok0, quic_ht_tok1, quic_ht_tok2, quic_ht_tok3, quic_ht_len1, quic_ht_len2, quic_ht_len3],
      p_states = [quic_st_parse_first,
        quic_st_parse_version,
        quic_st_parse_other_cids,
        quic_st_parse_dcid_len,
        quic_st_parse_dcid,
        quic_st_parse_scid_len,
        quic_st_parse_scid,
        quic_st_parse_tok_lead,
        quic_st_parse_len_lead,
        quic_st_parse_first__short,
        quic_st_parse_version__negotiation,
        quic_st_parse_version__default,
        quic_st_parse_scid__initial,
        quic_st_parse_scid__zero_rtt,
        quic_st_parse_scid__handshake,
        quic_st_parse_scid__retry,
        quic_st_tok_w1,
        quic_st_tok_w2,
        quic_st_tok_w4,
        quic_st_tok_w8,
        quic_st_len_w1,
        quic_st_len_w2,
        quic_st_len_w4,
        quic_st_len_w8],
      p_start_state = ''parse_first'', p_max_depth = 12,
      p_metadata = [\<lparr>md_name = ''kind'', md_bits = 3, md_init = 0\<rparr>, \<lparr>md_name = ''token_len'', md_bits = 64, md_init = 0\<rparr>, \<lparr>md_name = ''length'', md_bits = 64, md_init = 0\<rparr>]\<rparr>"

section \<open>The members of the result struct\<close>

definition quic_members :: "quic_result member list" where
  "quic_members =
     [(SPresent ''first_byte'', (\<lambda>o'. ucast (quic_first_byte_present o')), (\<lambda>v o'. o'\<lparr>quic_first_byte_present := ucast v\<rparr>), 8),
      (SFld ''first_byte'' ''form'', (\<lambda>o'. ucast (quic_first_byte_form (quic_first_byte o'))), quic_set_first_byte_form, 8),
      (SFld ''first_byte'' ''fixed'', (\<lambda>o'. ucast (quic_first_byte_fixed (quic_first_byte o'))), quic_set_first_byte_fixed, 8),
      (SFld ''first_byte'' ''ty'', (\<lambda>o'. ucast (quic_first_byte_ty (quic_first_byte o'))), quic_set_first_byte_ty, 8),
      (SFld ''first_byte'' ''low'', (\<lambda>o'. ucast (quic_first_byte_low (quic_first_byte o'))), quic_set_first_byte_low, 8),
      (SPresent ''version'', (\<lambda>o'. ucast (quic_version_present o')), (\<lambda>v o'. o'\<lparr>quic_version_present := ucast v\<rparr>), 8),
      (SFld ''version'' ''v'', (\<lambda>o'. ucast (quic_version_v (quic_version o'))), quic_set_version_v, 32),
      (SPresent ''other_cids'', (\<lambda>o'. ucast (quic_other_cids_present o')), (\<lambda>v o'. o'\<lparr>quic_other_cids_present := ucast v\<rparr>), 8),
      (SFld ''other_cids'' ''dcid_len'', (\<lambda>o'. ucast (quic_other_cids_dcid_len (quic_other_cids o'))), quic_set_other_cids_dcid_len, 8),
      (SOff ''other_cids'' ''dcid'', (\<lambda>o'. quic_other_cids_dcid_bit_off (quic_other_cids o')), quic_set_other_cids_dcid_bit_off, 64),
      (SLen ''other_cids'' ''dcid'', (\<lambda>o'. quic_other_cids_dcid_bit_len (quic_other_cids o')), quic_set_other_cids_dcid_bit_len, 64),
      (SFld ''other_cids'' ''scid_len'', (\<lambda>o'. ucast (quic_other_cids_scid_len (quic_other_cids o'))), quic_set_other_cids_scid_len, 8),
      (SOff ''other_cids'' ''scid'', (\<lambda>o'. quic_other_cids_scid_bit_off (quic_other_cids o')), quic_set_other_cids_scid_bit_off, 64),
      (SLen ''other_cids'' ''scid'', (\<lambda>o'. quic_other_cids_scid_bit_len (quic_other_cids o')), quic_set_other_cids_scid_bit_len, 64),
      (SPresent ''dcid_len'', (\<lambda>o'. ucast (quic_dcid_len_present o')), (\<lambda>v o'. o'\<lparr>quic_dcid_len_present := ucast v\<rparr>), 8),
      (SFld ''dcid_len'' ''ln'', (\<lambda>o'. ucast (quic_dcid_len_ln (quic_dcid_len o'))), quic_set_dcid_len_ln, 8),
      (SPresent ''dcid'', (\<lambda>o'. ucast (quic_dcid_present o')), (\<lambda>v o'. o'\<lparr>quic_dcid_present := ucast v\<rparr>), 8),
      (SOff ''dcid'' ''cid'', (\<lambda>o'. quic_dcid_cid_bit_off (quic_dcid o')), quic_set_dcid_cid_bit_off, 64),
      (SLen ''dcid'' ''cid'', (\<lambda>o'. quic_dcid_cid_bit_len (quic_dcid o')), quic_set_dcid_cid_bit_len, 64),
      (SPresent ''scid_len'', (\<lambda>o'. ucast (quic_scid_len_present o')), (\<lambda>v o'. o'\<lparr>quic_scid_len_present := ucast v\<rparr>), 8),
      (SFld ''scid_len'' ''ln'', (\<lambda>o'. ucast (quic_scid_len_ln (quic_scid_len o'))), quic_set_scid_len_ln, 8),
      (SPresent ''scid'', (\<lambda>o'. ucast (quic_scid_present o')), (\<lambda>v o'. o'\<lparr>quic_scid_present := ucast v\<rparr>), 8),
      (SOff ''scid'' ''cid'', (\<lambda>o'. quic_scid_cid_bit_off (quic_scid o')), quic_set_scid_cid_bit_off, 64),
      (SLen ''scid'' ''cid'', (\<lambda>o'. quic_scid_cid_bit_len (quic_scid o')), quic_set_scid_cid_bit_len, 64),
      (SPresent ''tok_lead'', (\<lambda>o'. ucast (quic_tok_lead_present o')), (\<lambda>v o'. o'\<lparr>quic_tok_lead_present := ucast v\<rparr>), 8),
      (SFld ''tok_lead'' ''prefix'', (\<lambda>o'. ucast (quic_tok_lead_prefix (quic_tok_lead o'))), quic_set_tok_lead_prefix, 8),
      (SFld ''tok_lead'' ''v6'', (\<lambda>o'. ucast (quic_tok_lead_v6 (quic_tok_lead o'))), quic_set_tok_lead_v6, 8),
      (SPresent ''len_lead'', (\<lambda>o'. ucast (quic_len_lead_present o')), (\<lambda>v o'. o'\<lparr>quic_len_lead_present := ucast v\<rparr>), 8),
      (SFld ''len_lead'' ''prefix'', (\<lambda>o'. ucast (quic_len_lead_prefix (quic_len_lead o'))), quic_set_len_lead_prefix, 8),
      (SFld ''len_lead'' ''v6'', (\<lambda>o'. ucast (quic_len_lead_v6 (quic_len_lead o'))), quic_set_len_lead_v6, 8),
      (SPresent ''tok0'', (\<lambda>o'. ucast (quic_tok0_present o')), (\<lambda>v o'. o'\<lparr>quic_tok0_present := ucast v\<rparr>), 8),
      (SOff ''tok0'' ''body'', (\<lambda>o'. quic_tok0_body_bit_off (quic_tok0 o')), quic_set_tok0_body_bit_off, 64),
      (SLen ''tok0'' ''body'', (\<lambda>o'. quic_tok0_body_bit_len (quic_tok0 o')), quic_set_tok0_body_bit_len, 64),
      (SPresent ''tok1'', (\<lambda>o'. ucast (quic_tok1_present o')), (\<lambda>v o'. o'\<lparr>quic_tok1_present := ucast v\<rparr>), 8),
      (SFld ''tok1'' ''t'', (\<lambda>o'. ucast (quic_tok1_t (quic_tok1 o'))), quic_set_tok1_t, 8),
      (SOff ''tok1'' ''body'', (\<lambda>o'. quic_tok1_body_bit_off (quic_tok1 o')), quic_set_tok1_body_bit_off, 64),
      (SLen ''tok1'' ''body'', (\<lambda>o'. quic_tok1_body_bit_len (quic_tok1 o')), quic_set_tok1_body_bit_len, 64),
      (SPresent ''tok2'', (\<lambda>o'. ucast (quic_tok2_present o')), (\<lambda>v o'. o'\<lparr>quic_tok2_present := ucast v\<rparr>), 8),
      (SFld ''tok2'' ''t'', (\<lambda>o'. ucast (quic_tok2_t (quic_tok2 o'))), quic_set_tok2_t, 32),
      (SOff ''tok2'' ''body'', (\<lambda>o'. quic_tok2_body_bit_off (quic_tok2 o')), quic_set_tok2_body_bit_off, 64),
      (SLen ''tok2'' ''body'', (\<lambda>o'. quic_tok2_body_bit_len (quic_tok2 o')), quic_set_tok2_body_bit_len, 64),
      (SPresent ''tok3'', (\<lambda>o'. ucast (quic_tok3_present o')), (\<lambda>v o'. o'\<lparr>quic_tok3_present := ucast v\<rparr>), 8),
      (SFld ''tok3'' ''t'', (\<lambda>o'. quic_tok3_t (quic_tok3 o')), quic_set_tok3_t, 64),
      (SOff ''tok3'' ''body'', (\<lambda>o'. quic_tok3_body_bit_off (quic_tok3 o')), quic_set_tok3_body_bit_off, 64),
      (SLen ''tok3'' ''body'', (\<lambda>o'. quic_tok3_body_bit_len (quic_tok3 o')), quic_set_tok3_body_bit_len, 64),
      (SPresent ''len1'', (\<lambda>o'. ucast (quic_len1_present o')), (\<lambda>v o'. o'\<lparr>quic_len1_present := ucast v\<rparr>), 8),
      (SFld ''len1'' ''t'', (\<lambda>o'. ucast (quic_len1_t (quic_len1 o'))), quic_set_len1_t, 8),
      (SPresent ''len2'', (\<lambda>o'. ucast (quic_len2_present o')), (\<lambda>v o'. o'\<lparr>quic_len2_present := ucast v\<rparr>), 8),
      (SFld ''len2'' ''t'', (\<lambda>o'. ucast (quic_len2_t (quic_len2 o'))), quic_set_len2_t, 32),
      (SPresent ''len3'', (\<lambda>o'. ucast (quic_len3_present o')), (\<lambda>v o'. o'\<lparr>quic_len3_present := ucast v\<rparr>), 8),
      (SFld ''len3'' ''t'', (\<lambda>o'. quic_len3_t (quic_len3 o')), quic_set_len3_t, 64),
      (SMeta ''kind'', quic_m_kind, quic_set_m_kind, 64),
      (SMeta ''token_len'', quic_m_token_len, quic_set_m_token_len, 64),
      (SMeta ''length'', quic_m_length, quic_set_m_length, 64)]"

lemma quic_layout: "layout_ok quic_members quic_zero"
  by (simp add: layout_ok_def quic_members_def quic_zero_def read_all_def)

lemmas quic_member [simp] = members_all [OF quic_layout quic_members_def, unfolded list.pred_inject prod.case]

section \<open>The certificate\<close>

definition quic_align :: "string \<Rightarrow> nat option" where
  "quic_align = map_of [(''parse_first'', 0), (''parse_version'', 0), (''parse_other_cids'', 0), (''parse_dcid_len'', 0), (''parse_dcid'', 0), (''parse_scid_len'', 0), (''parse_scid'', 0), (''parse_tok_lead'', 0), (''parse_len_lead'', 0), (''parse_first__short'', 0), (''parse_version__negotiation'', 0), (''parse_version__default'', 0), (''parse_scid__initial'', 0), (''parse_scid__zero_rtt'', 0), (''parse_scid__handshake'', 0), (''parse_scid__retry'', 0), (''tok_w1'', 0), (''tok_w2'', 0), (''tok_w4'', 0), (''tok_w8'', 0), (''len_w1'', 0), (''len_w2'', 0), (''len_w4'', 0), (''len_w8'', 0)]"

definition quic_depth :: "string \<Rightarrow> nat" where
  "quic_depth n = (case map_of [] n of None \<Rightarrow> 0 | Some d \<Rightarrow> d)"

definition quic_known :: "string \<Rightarrow> names" where
  "quic_known n = (case map_of
     [(''parse_version'', [(''first_byte'', ''form''), (''first_byte'', ''ty'')]),
      (''parse_other_cids'', [(''first_byte'', ''form''), (''first_byte'', ''ty''), (''version'', ''v'')]),
      (''parse_dcid_len'', [(''first_byte'', ''form''), (''first_byte'', ''ty''), (''version'', ''v'')]),
      (''parse_dcid'', [(''dcid_len'', ''ln''), (''first_byte'', ''form''), (''first_byte'', ''ty''), (''version'', ''v'')]),
      (''parse_scid_len'', [(''dcid_len'', ''ln''), (''first_byte'', ''form''), (''first_byte'', ''ty''), (''version'', ''v'')]),
      (''parse_scid'', [(''dcid_len'', ''ln''), (''first_byte'', ''form''), (''first_byte'', ''ty''), (''scid_len'', ''ln''), (''version'', ''v'')]),
      (''parse_tok_lead'', [(''dcid_len'', ''ln''), (''first_byte'', ''form''), (''first_byte'', ''ty''), (''scid_len'', ''ln''), (''version'', ''v'')]),
      (''parse_len_lead'', [(''dcid_len'', ''ln''), (''first_byte'', ''form''), (''first_byte'', ''ty''), (''scid_len'', ''ln''), (''version'', ''v'')]),
      (''parse_first__short'', [(''first_byte'', ''form''), (''first_byte'', ''ty'')]),
      (''parse_version__negotiation'', [(''first_byte'', ''form''), (''first_byte'', ''ty''), (''version'', ''v'')]),
      (''parse_version__default'', [(''first_byte'', ''form''), (''first_byte'', ''ty''), (''version'', ''v'')]),
      (''parse_scid__initial'', [(''dcid_len'', ''ln''), (''first_byte'', ''form''), (''first_byte'', ''ty''), (''scid_len'', ''ln''), (''version'', ''v'')]),
      (''parse_scid__zero_rtt'', [(''dcid_len'', ''ln''), (''first_byte'', ''form''), (''first_byte'', ''ty''), (''scid_len'', ''ln''), (''version'', ''v'')]),
      (''parse_scid__handshake'', [(''dcid_len'', ''ln''), (''first_byte'', ''form''), (''first_byte'', ''ty''), (''scid_len'', ''ln''), (''version'', ''v'')]),
      (''parse_scid__retry'', [(''dcid_len'', ''ln''), (''first_byte'', ''form''), (''first_byte'', ''ty''), (''scid_len'', ''ln''), (''version'', ''v'')]),
      (''tok_w1'', [(''dcid_len'', ''ln''), (''first_byte'', ''form''), (''first_byte'', ''ty''), (''scid_len'', ''ln''), (''tok_lead'', ''prefix''), (''tok_lead'', ''v6''), (''version'', ''v'')]),
      (''tok_w2'', [(''dcid_len'', ''ln''), (''first_byte'', ''form''), (''first_byte'', ''ty''), (''scid_len'', ''ln''), (''tok_lead'', ''prefix''), (''tok_lead'', ''v6''), (''version'', ''v'')]),
      (''tok_w4'', [(''dcid_len'', ''ln''), (''first_byte'', ''form''), (''first_byte'', ''ty''), (''scid_len'', ''ln''), (''tok_lead'', ''prefix''), (''tok_lead'', ''v6''), (''version'', ''v'')]),
      (''tok_w8'', [(''dcid_len'', ''ln''), (''first_byte'', ''form''), (''first_byte'', ''ty''), (''scid_len'', ''ln''), (''tok_lead'', ''prefix''), (''tok_lead'', ''v6''), (''version'', ''v'')]),
      (''len_w1'', [(''dcid_len'', ''ln''), (''first_byte'', ''form''), (''first_byte'', ''ty''), (''len_lead'', ''prefix''), (''len_lead'', ''v6''), (''scid_len'', ''ln''), (''version'', ''v'')]),
      (''len_w2'', [(''dcid_len'', ''ln''), (''first_byte'', ''form''), (''first_byte'', ''ty''), (''len_lead'', ''prefix''), (''len_lead'', ''v6''), (''scid_len'', ''ln''), (''version'', ''v'')]),
      (''len_w4'', [(''dcid_len'', ''ln''), (''first_byte'', ''form''), (''first_byte'', ''ty''), (''len_lead'', ''prefix''), (''len_lead'', ''v6''), (''scid_len'', ''ln''), (''version'', ''v'')]),
      (''len_w8'', [(''dcid_len'', ''ln''), (''first_byte'', ''form''), (''first_byte'', ''ty''), (''len_lead'', ''prefix''), (''len_lead'', ''v6''), (''scid_len'', ''ln''), (''version'', ''v'')])] n of None \<Rightarrow> [] | Some b \<Rightarrow> b)"

lemmas quic_ir_defs = quic_ir_def quic_ht_first_byte_def quic_ht_version_def quic_ht_other_cids_def quic_ht_dcid_len_def quic_ht_dcid_def quic_ht_scid_len_def quic_ht_scid_def quic_ht_tok_lead_def quic_ht_len_lead_def quic_ht_tok0_def quic_ht_tok1_def quic_ht_tok2_def quic_ht_tok3_def quic_ht_len1_def quic_ht_len2_def quic_ht_len3_def
  quic_st_parse_first_def quic_st_parse_version_def quic_st_parse_other_cids_def quic_st_parse_dcid_len_def quic_st_parse_dcid_def quic_st_parse_scid_len_def quic_st_parse_scid_def quic_st_parse_tok_lead_def quic_st_parse_len_lead_def quic_st_parse_first__short_def quic_st_parse_version__negotiation_def quic_st_parse_version__default_def quic_st_parse_scid__initial_def quic_st_parse_scid__zero_rtt_def quic_st_parse_scid__handshake_def quic_st_parse_scid__retry_def quic_st_tok_w1_def quic_st_tok_w2_def quic_st_tok_w4_def quic_st_tok_w8_def quic_st_len_w1_def quic_st_len_w2_def quic_st_len_w4_def quic_st_len_w8_def

text \<open>Everything the emitter computes from the description alone, evaluated.\<close>

lemma quic_wf: "wf_ok quic_ir quic_known quic_depth"
  by code_simp

lemma quic_evaluated:
  "list_all (\<lambda>(st, i, f, n, b). byte_load quic_ir quic_align st i f n = b)
     [(quic_st_parse_first, ''first_byte'', ''form'', 1, False),
      (quic_st_parse_first, ''first_byte'', ''fixed'', 1, False),
      (quic_st_parse_first, ''first_byte'', ''ty'', 2, False),
      (quic_st_parse_first, ''first_byte'', ''low'', 4, False),
      (quic_st_parse_version, ''version'', ''v'', 32, True),
      (quic_st_parse_other_cids, ''other_cids'', ''dcid_len'', 8, True),
      (quic_st_parse_other_cids, ''other_cids'', ''scid_len'', 8, True),
      (quic_st_parse_dcid_len, ''dcid_len'', ''ln'', 8, True),
      (quic_st_parse_scid_len, ''scid_len'', ''ln'', 8, True),
      (quic_st_parse_tok_lead, ''tok_lead'', ''prefix'', 2, False),
      (quic_st_parse_tok_lead, ''tok_lead'', ''v6'', 6, False),
      (quic_st_parse_len_lead, ''len_lead'', ''prefix'', 2, False),
      (quic_st_parse_len_lead, ''len_lead'', ''v6'', 6, False),
      (quic_st_tok_w2, ''tok1'', ''t'', 8, True),
      (quic_st_tok_w4, ''tok2'', ''t'', 24, True),
      (quic_st_tok_w8, ''tok3'', ''t'', 56, True),
      (quic_st_len_w2, ''len1'', ''t'', 8, True),
      (quic_st_len_w4, ''len2'', ''t'', 24, True),
      (quic_st_len_w8, ''len3'', ''t'', 56, True)] \<and>
   list_all (\<lambda>(n, h). find_header_type quic_ir n = Some h)
     [(''first_byte'', quic_ht_first_byte),
      (''version'', quic_ht_version),
      (''other_cids'', quic_ht_other_cids),
      (''dcid_len'', quic_ht_dcid_len),
      (''dcid'', quic_ht_dcid),
      (''scid_len'', quic_ht_scid_len),
      (''scid'', quic_ht_scid),
      (''tok_lead'', quic_ht_tok_lead),
      (''len_lead'', quic_ht_len_lead),
      (''tok0'', quic_ht_tok0),
      (''tok1'', quic_ht_tok1),
      (''tok2'', quic_ht_tok2),
      (''tok3'', quic_ht_tok3),
      (''len1'', quic_ht_len1),
      (''len2'', quic_ht_len2),
      (''len3'', quic_ht_len3)] \<and>
   list_all (\<lambda>(n, k). state_id quic_ir n = k)
     [(''parse_first'', 0),
      (''parse_version'', 1),
      (''parse_other_cids'', 2),
      (''parse_dcid_len'', 3),
      (''parse_dcid'', 4),
      (''parse_scid_len'', 5),
      (''parse_scid'', 6),
      (''parse_tok_lead'', 7),
      (''parse_len_lead'', 8),
      (''parse_first__short'', 9),
      (''parse_version__negotiation'', 10),
      (''parse_version__default'', 11),
      (''parse_scid__initial'', 12),
      (''parse_scid__zero_rtt'', 13),
      (''parse_scid__handshake'', 14),
      (''parse_scid__retry'', 15),
      (''tok_w1'', 16),
      (''tok_w2'', 17),
      (''tok_w4'', 18),
      (''tok_w8'', 19),
      (''len_w1'', 20),
      (''len_w2'', 21),
      (''len_w4'', 22),
      (''len_w8'', 23)] \<and>
   list_all (\<lambda>(r, k). reason_code quic_ir r = k)
     [(''dcid too long for v1'', 16),
      (''scid too long for v1'', 17),
      (''unreachable'', 18)] \<and>
   region_cap quic_ir = 0 \<and> region_mask quic_ir = 0 \<and> region_slots quic_ir = 0 \<and>
   list_all (\<lambda>(n, a). quic_align n = a)
     [(''parse_first'', Some 0),
      (''parse_version'', Some 0),
      (''parse_other_cids'', Some 0),
      (''parse_dcid_len'', Some 0),
      (''parse_dcid'', Some 0),
      (''parse_scid_len'', Some 0),
      (''parse_scid'', Some 0),
      (''parse_tok_lead'', Some 0),
      (''parse_len_lead'', Some 0),
      (''parse_first__short'', Some 0),
      (''parse_version__negotiation'', Some 0),
      (''parse_version__default'', Some 0),
      (''parse_scid__initial'', Some 0),
      (''parse_scid__zero_rtt'', Some 0),
      (''parse_scid__handshake'', Some 0),
      (''parse_scid__retry'', Some 0),
      (''tok_w1'', Some 0),
      (''tok_w2'', Some 0),
      (''tok_w4'', Some 0),
      (''tok_w8'', Some 0),
      (''len_w1'', Some 0),
      (''len_w2'', Some 0),
      (''len_w4'', Some 0),
      (''len_w8'', Some 0)] \<and>
   list_all (\<lambda>(n, d). quic_depth n = d)
     [(''parse_first'', 0), (''parse_version'', 0), (''parse_other_cids'', 0), (''parse_dcid_len'', 0), (''parse_dcid'', 0), (''parse_scid_len'', 0), (''parse_scid'', 0), (''parse_tok_lead'', 0), (''parse_len_lead'', 0), (''parse_first__short'', 0), (''parse_version__negotiation'', 0), (''parse_version__default'', 0), (''parse_scid__initial'', 0), (''parse_scid__zero_rtt'', 0), (''parse_scid__handshake'', 0), (''parse_scid__retry'', 0), (''tok_w1'', 0), (''tok_w2'', 0), (''tok_w4'', 0), (''tok_w8'', 0), (''len_w1'', 0), (''len_w2'', 0), (''len_w4'', 0), (''len_w8'', 0)] \<and>
   reasons_fit quic_ir \<and> meta_decl_ok quic_ir \<and> core_compiles quic_ir"
  by code_simp

lemmas quic_emit_eval [simp] = quic_evaluated [unfolded list.pred_inject prod.case]

section \<open>The emitted code is the generated file\<close>

lemmas quic_st_parse_first_sel = quic_st_parse_first_def [THEN arg_cong [of _ _ st_name], simplified state.simps]
  quic_st_parse_first_def [THEN arg_cong [of _ _ st_extracts], simplified state.simps]
  quic_st_parse_first_def [THEN arg_cong [of _ _ st_assigns], simplified state.simps]
  quic_st_parse_first_def [THEN arg_cong [of _ _ st_region_ops], simplified state.simps]
  quic_st_parse_first_def [THEN arg_cong [of _ _ st_transition], simplified state.simps]

lemmas quic_st_parse_version_sel = quic_st_parse_version_def [THEN arg_cong [of _ _ st_name], simplified state.simps]
  quic_st_parse_version_def [THEN arg_cong [of _ _ st_extracts], simplified state.simps]
  quic_st_parse_version_def [THEN arg_cong [of _ _ st_assigns], simplified state.simps]
  quic_st_parse_version_def [THEN arg_cong [of _ _ st_region_ops], simplified state.simps]
  quic_st_parse_version_def [THEN arg_cong [of _ _ st_transition], simplified state.simps]

lemmas quic_st_parse_other_cids_sel = quic_st_parse_other_cids_def [THEN arg_cong [of _ _ st_name], simplified state.simps]
  quic_st_parse_other_cids_def [THEN arg_cong [of _ _ st_extracts], simplified state.simps]
  quic_st_parse_other_cids_def [THEN arg_cong [of _ _ st_assigns], simplified state.simps]
  quic_st_parse_other_cids_def [THEN arg_cong [of _ _ st_region_ops], simplified state.simps]
  quic_st_parse_other_cids_def [THEN arg_cong [of _ _ st_transition], simplified state.simps]

lemmas quic_st_parse_dcid_len_sel = quic_st_parse_dcid_len_def [THEN arg_cong [of _ _ st_name], simplified state.simps]
  quic_st_parse_dcid_len_def [THEN arg_cong [of _ _ st_extracts], simplified state.simps]
  quic_st_parse_dcid_len_def [THEN arg_cong [of _ _ st_assigns], simplified state.simps]
  quic_st_parse_dcid_len_def [THEN arg_cong [of _ _ st_region_ops], simplified state.simps]
  quic_st_parse_dcid_len_def [THEN arg_cong [of _ _ st_transition], simplified state.simps]

lemmas quic_st_parse_dcid_sel = quic_st_parse_dcid_def [THEN arg_cong [of _ _ st_name], simplified state.simps]
  quic_st_parse_dcid_def [THEN arg_cong [of _ _ st_extracts], simplified state.simps]
  quic_st_parse_dcid_def [THEN arg_cong [of _ _ st_assigns], simplified state.simps]
  quic_st_parse_dcid_def [THEN arg_cong [of _ _ st_region_ops], simplified state.simps]
  quic_st_parse_dcid_def [THEN arg_cong [of _ _ st_transition], simplified state.simps]

lemmas quic_st_parse_scid_len_sel = quic_st_parse_scid_len_def [THEN arg_cong [of _ _ st_name], simplified state.simps]
  quic_st_parse_scid_len_def [THEN arg_cong [of _ _ st_extracts], simplified state.simps]
  quic_st_parse_scid_len_def [THEN arg_cong [of _ _ st_assigns], simplified state.simps]
  quic_st_parse_scid_len_def [THEN arg_cong [of _ _ st_region_ops], simplified state.simps]
  quic_st_parse_scid_len_def [THEN arg_cong [of _ _ st_transition], simplified state.simps]

lemmas quic_st_parse_scid_sel = quic_st_parse_scid_def [THEN arg_cong [of _ _ st_name], simplified state.simps]
  quic_st_parse_scid_def [THEN arg_cong [of _ _ st_extracts], simplified state.simps]
  quic_st_parse_scid_def [THEN arg_cong [of _ _ st_assigns], simplified state.simps]
  quic_st_parse_scid_def [THEN arg_cong [of _ _ st_region_ops], simplified state.simps]
  quic_st_parse_scid_def [THEN arg_cong [of _ _ st_transition], simplified state.simps]

lemmas quic_st_parse_tok_lead_sel = quic_st_parse_tok_lead_def [THEN arg_cong [of _ _ st_name], simplified state.simps]
  quic_st_parse_tok_lead_def [THEN arg_cong [of _ _ st_extracts], simplified state.simps]
  quic_st_parse_tok_lead_def [THEN arg_cong [of _ _ st_assigns], simplified state.simps]
  quic_st_parse_tok_lead_def [THEN arg_cong [of _ _ st_region_ops], simplified state.simps]
  quic_st_parse_tok_lead_def [THEN arg_cong [of _ _ st_transition], simplified state.simps]

lemmas quic_st_parse_len_lead_sel = quic_st_parse_len_lead_def [THEN arg_cong [of _ _ st_name], simplified state.simps]
  quic_st_parse_len_lead_def [THEN arg_cong [of _ _ st_extracts], simplified state.simps]
  quic_st_parse_len_lead_def [THEN arg_cong [of _ _ st_assigns], simplified state.simps]
  quic_st_parse_len_lead_def [THEN arg_cong [of _ _ st_region_ops], simplified state.simps]
  quic_st_parse_len_lead_def [THEN arg_cong [of _ _ st_transition], simplified state.simps]

lemmas quic_st_parse_first__short_sel = quic_st_parse_first__short_def [THEN arg_cong [of _ _ st_name], simplified state.simps]
  quic_st_parse_first__short_def [THEN arg_cong [of _ _ st_extracts], simplified state.simps]
  quic_st_parse_first__short_def [THEN arg_cong [of _ _ st_assigns], simplified state.simps]
  quic_st_parse_first__short_def [THEN arg_cong [of _ _ st_region_ops], simplified state.simps]
  quic_st_parse_first__short_def [THEN arg_cong [of _ _ st_transition], simplified state.simps]

lemmas quic_st_parse_version__negotiation_sel = quic_st_parse_version__negotiation_def [THEN arg_cong [of _ _ st_name], simplified state.simps]
  quic_st_parse_version__negotiation_def [THEN arg_cong [of _ _ st_extracts], simplified state.simps]
  quic_st_parse_version__negotiation_def [THEN arg_cong [of _ _ st_assigns], simplified state.simps]
  quic_st_parse_version__negotiation_def [THEN arg_cong [of _ _ st_region_ops], simplified state.simps]
  quic_st_parse_version__negotiation_def [THEN arg_cong [of _ _ st_transition], simplified state.simps]

lemmas quic_st_parse_version__default_sel = quic_st_parse_version__default_def [THEN arg_cong [of _ _ st_name], simplified state.simps]
  quic_st_parse_version__default_def [THEN arg_cong [of _ _ st_extracts], simplified state.simps]
  quic_st_parse_version__default_def [THEN arg_cong [of _ _ st_assigns], simplified state.simps]
  quic_st_parse_version__default_def [THEN arg_cong [of _ _ st_region_ops], simplified state.simps]
  quic_st_parse_version__default_def [THEN arg_cong [of _ _ st_transition], simplified state.simps]

lemmas quic_st_parse_scid__initial_sel = quic_st_parse_scid__initial_def [THEN arg_cong [of _ _ st_name], simplified state.simps]
  quic_st_parse_scid__initial_def [THEN arg_cong [of _ _ st_extracts], simplified state.simps]
  quic_st_parse_scid__initial_def [THEN arg_cong [of _ _ st_assigns], simplified state.simps]
  quic_st_parse_scid__initial_def [THEN arg_cong [of _ _ st_region_ops], simplified state.simps]
  quic_st_parse_scid__initial_def [THEN arg_cong [of _ _ st_transition], simplified state.simps]

lemmas quic_st_parse_scid__zero_rtt_sel = quic_st_parse_scid__zero_rtt_def [THEN arg_cong [of _ _ st_name], simplified state.simps]
  quic_st_parse_scid__zero_rtt_def [THEN arg_cong [of _ _ st_extracts], simplified state.simps]
  quic_st_parse_scid__zero_rtt_def [THEN arg_cong [of _ _ st_assigns], simplified state.simps]
  quic_st_parse_scid__zero_rtt_def [THEN arg_cong [of _ _ st_region_ops], simplified state.simps]
  quic_st_parse_scid__zero_rtt_def [THEN arg_cong [of _ _ st_transition], simplified state.simps]

lemmas quic_st_parse_scid__handshake_sel = quic_st_parse_scid__handshake_def [THEN arg_cong [of _ _ st_name], simplified state.simps]
  quic_st_parse_scid__handshake_def [THEN arg_cong [of _ _ st_extracts], simplified state.simps]
  quic_st_parse_scid__handshake_def [THEN arg_cong [of _ _ st_assigns], simplified state.simps]
  quic_st_parse_scid__handshake_def [THEN arg_cong [of _ _ st_region_ops], simplified state.simps]
  quic_st_parse_scid__handshake_def [THEN arg_cong [of _ _ st_transition], simplified state.simps]

lemmas quic_st_parse_scid__retry_sel = quic_st_parse_scid__retry_def [THEN arg_cong [of _ _ st_name], simplified state.simps]
  quic_st_parse_scid__retry_def [THEN arg_cong [of _ _ st_extracts], simplified state.simps]
  quic_st_parse_scid__retry_def [THEN arg_cong [of _ _ st_assigns], simplified state.simps]
  quic_st_parse_scid__retry_def [THEN arg_cong [of _ _ st_region_ops], simplified state.simps]
  quic_st_parse_scid__retry_def [THEN arg_cong [of _ _ st_transition], simplified state.simps]

lemmas quic_st_tok_w1_sel = quic_st_tok_w1_def [THEN arg_cong [of _ _ st_name], simplified state.simps]
  quic_st_tok_w1_def [THEN arg_cong [of _ _ st_extracts], simplified state.simps]
  quic_st_tok_w1_def [THEN arg_cong [of _ _ st_assigns], simplified state.simps]
  quic_st_tok_w1_def [THEN arg_cong [of _ _ st_region_ops], simplified state.simps]
  quic_st_tok_w1_def [THEN arg_cong [of _ _ st_transition], simplified state.simps]

lemmas quic_st_tok_w2_sel = quic_st_tok_w2_def [THEN arg_cong [of _ _ st_name], simplified state.simps]
  quic_st_tok_w2_def [THEN arg_cong [of _ _ st_extracts], simplified state.simps]
  quic_st_tok_w2_def [THEN arg_cong [of _ _ st_assigns], simplified state.simps]
  quic_st_tok_w2_def [THEN arg_cong [of _ _ st_region_ops], simplified state.simps]
  quic_st_tok_w2_def [THEN arg_cong [of _ _ st_transition], simplified state.simps]

lemmas quic_st_tok_w4_sel = quic_st_tok_w4_def [THEN arg_cong [of _ _ st_name], simplified state.simps]
  quic_st_tok_w4_def [THEN arg_cong [of _ _ st_extracts], simplified state.simps]
  quic_st_tok_w4_def [THEN arg_cong [of _ _ st_assigns], simplified state.simps]
  quic_st_tok_w4_def [THEN arg_cong [of _ _ st_region_ops], simplified state.simps]
  quic_st_tok_w4_def [THEN arg_cong [of _ _ st_transition], simplified state.simps]

lemmas quic_st_tok_w8_sel = quic_st_tok_w8_def [THEN arg_cong [of _ _ st_name], simplified state.simps]
  quic_st_tok_w8_def [THEN arg_cong [of _ _ st_extracts], simplified state.simps]
  quic_st_tok_w8_def [THEN arg_cong [of _ _ st_assigns], simplified state.simps]
  quic_st_tok_w8_def [THEN arg_cong [of _ _ st_region_ops], simplified state.simps]
  quic_st_tok_w8_def [THEN arg_cong [of _ _ st_transition], simplified state.simps]

lemmas quic_st_len_w1_sel = quic_st_len_w1_def [THEN arg_cong [of _ _ st_name], simplified state.simps]
  quic_st_len_w1_def [THEN arg_cong [of _ _ st_extracts], simplified state.simps]
  quic_st_len_w1_def [THEN arg_cong [of _ _ st_assigns], simplified state.simps]
  quic_st_len_w1_def [THEN arg_cong [of _ _ st_region_ops], simplified state.simps]
  quic_st_len_w1_def [THEN arg_cong [of _ _ st_transition], simplified state.simps]

lemmas quic_st_len_w2_sel = quic_st_len_w2_def [THEN arg_cong [of _ _ st_name], simplified state.simps]
  quic_st_len_w2_def [THEN arg_cong [of _ _ st_extracts], simplified state.simps]
  quic_st_len_w2_def [THEN arg_cong [of _ _ st_assigns], simplified state.simps]
  quic_st_len_w2_def [THEN arg_cong [of _ _ st_region_ops], simplified state.simps]
  quic_st_len_w2_def [THEN arg_cong [of _ _ st_transition], simplified state.simps]

lemmas quic_st_len_w4_sel = quic_st_len_w4_def [THEN arg_cong [of _ _ st_name], simplified state.simps]
  quic_st_len_w4_def [THEN arg_cong [of _ _ st_extracts], simplified state.simps]
  quic_st_len_w4_def [THEN arg_cong [of _ _ st_assigns], simplified state.simps]
  quic_st_len_w4_def [THEN arg_cong [of _ _ st_region_ops], simplified state.simps]
  quic_st_len_w4_def [THEN arg_cong [of _ _ st_transition], simplified state.simps]

lemmas quic_st_len_w8_sel = quic_st_len_w8_def [THEN arg_cong [of _ _ st_name], simplified state.simps]
  quic_st_len_w8_def [THEN arg_cong [of _ _ st_extracts], simplified state.simps]
  quic_st_len_w8_def [THEN arg_cong [of _ _ st_assigns], simplified state.simps]
  quic_st_len_w8_def [THEN arg_cong [of _ _ st_region_ops], simplified state.simps]
  quic_st_len_w8_def [THEN arg_cong [of _ _ st_transition], simplified state.simps]

lemmas quic_ir_sel = quic_ir_def [THEN arg_cong [of _ _ p_states], simplified parser.simps]
  quic_ir_def [THEN arg_cong [of _ _ p_start_state], simplified parser.simps]
  quic_ir_def [THEN arg_cong [of _ _ p_max_depth], simplified parser.simps]
  quic_ir_def [THEN arg_cong [of _ _ p_metadata], simplified parser.simps]

lemma quic_emit_ok:
  "emit_ok quic_ir quic_align quic_depth (member_slots quic_members) (member_width quic_members)"
  by (simp add: emit_ok_eval quic_ir_sel
    quic_st_parse_first_sel
    quic_st_parse_version_sel
    quic_st_parse_other_cids_sel
    quic_st_parse_dcid_len_sel
    quic_st_parse_dcid_sel
    quic_st_parse_scid_len_sel
    quic_st_parse_scid_sel
    quic_st_parse_tok_lead_sel
    quic_st_parse_len_lead_sel
    quic_st_parse_first__short_sel
    quic_st_parse_version__negotiation_sel
    quic_st_parse_version__default_sel
    quic_st_parse_scid__initial_sel
    quic_st_parse_scid__zero_rtt_sel
    quic_st_parse_scid__handshake_sel
    quic_st_parse_scid__retry_sel
    quic_st_tok_w1_sel
    quic_st_tok_w2_sel
    quic_st_tok_w4_sel
    quic_st_tok_w8_sel
    quic_st_len_w1_sel
    quic_st_len_w2_sel
    quic_st_len_w4_sel
    quic_st_len_w8_sel
    quic_ht_first_byte_def quic_ht_version_def quic_ht_other_cids_def quic_ht_dcid_len_def quic_ht_dcid_def quic_ht_scid_len_def quic_ht_scid_def quic_ht_tok_lead_def quic_ht_len_lead_def quic_ht_tok0_def quic_ht_tok1_def quic_ht_tok2_def quic_ht_tok3_def quic_ht_len1_def quic_ht_len2_def quic_ht_len3_def)

lemma quic_find_metadata [simp]:
  "find_metadata quic_ir ''kind'' = Some \<lparr>md_name = ''kind'', md_bits = 3, md_init = 0\<rparr>"
  "find_metadata quic_ir ''token_len'' = Some \<lparr>md_name = ''token_len'', md_bits = 64, md_init = 0\<rparr>"
  "find_metadata quic_ir ''length'' = Some \<lparr>md_name = ''length'', md_bits = 64, md_init = 0\<rparr>"
  by (simp_all add: find_metadata_def quic_ir_def)

lemma quic_emit_parse_first:
  "emit_state quic_ir quic_align rd bit_len (member_get quic_members) (member_put quic_members) quic_st_parse_first =
     quic_case_parse_first rd bit_len"
  unfolding quic_case_parse_first_def
  by (simp add: emit_eval quic_st_parse_first_sel quic_ht_first_byte_def
      del: One_nat_def)

lemma quic_emit_parse_version:
  "emit_state quic_ir quic_align rd bit_len (member_get quic_members) (member_put quic_members) quic_st_parse_version =
     quic_case_parse_version rd bit_len"
  unfolding quic_case_parse_version_def
  by (simp add: emit_eval quic_st_parse_version_sel quic_ht_version_def
      del: One_nat_def)

lemma quic_emit_parse_other_cids:
  "emit_state quic_ir quic_align rd bit_len (member_get quic_members) (member_put quic_members) quic_st_parse_other_cids =
     quic_case_parse_other_cids rd bit_len"
  unfolding quic_case_parse_other_cids_def
  by (simp add: emit_eval quic_st_parse_other_cids_sel quic_ht_other_cids_def
      del: One_nat_def)

lemma quic_emit_parse_dcid_len:
  "emit_state quic_ir quic_align rd bit_len (member_get quic_members) (member_put quic_members) quic_st_parse_dcid_len =
     quic_case_parse_dcid_len rd bit_len"
  unfolding quic_case_parse_dcid_len_def
  by (simp add: emit_eval quic_st_parse_dcid_len_sel quic_ht_dcid_len_def
      del: One_nat_def)

lemma quic_emit_parse_dcid:
  "emit_state quic_ir quic_align rd bit_len (member_get quic_members) (member_put quic_members) quic_st_parse_dcid =
     quic_case_parse_dcid rd bit_len"
  unfolding quic_case_parse_dcid_def
  by (simp add: emit_eval quic_st_parse_dcid_sel quic_ht_dcid_def
      del: One_nat_def)

lemma quic_emit_parse_scid_len:
  "emit_state quic_ir quic_align rd bit_len (member_get quic_members) (member_put quic_members) quic_st_parse_scid_len =
     quic_case_parse_scid_len rd bit_len"
  unfolding quic_case_parse_scid_len_def
  by (simp add: emit_eval quic_st_parse_scid_len_sel quic_ht_scid_len_def
      del: One_nat_def)

lemma quic_emit_parse_scid:
  "emit_state quic_ir quic_align rd bit_len (member_get quic_members) (member_put quic_members) quic_st_parse_scid =
     quic_case_parse_scid rd bit_len"
  unfolding quic_case_parse_scid_def
  by (simp add: emit_eval quic_st_parse_scid_sel quic_ht_scid_def
      del: One_nat_def)

lemma quic_emit_parse_tok_lead:
  "emit_state quic_ir quic_align rd bit_len (member_get quic_members) (member_put quic_members) quic_st_parse_tok_lead =
     quic_case_parse_tok_lead rd bit_len"
  unfolding quic_case_parse_tok_lead_def
  by (simp add: emit_eval quic_st_parse_tok_lead_sel quic_ht_tok_lead_def
      del: One_nat_def)

lemma quic_emit_parse_len_lead:
  "emit_state quic_ir quic_align rd bit_len (member_get quic_members) (member_put quic_members) quic_st_parse_len_lead =
     quic_case_parse_len_lead rd bit_len"
  unfolding quic_case_parse_len_lead_def
  by (simp add: emit_eval quic_st_parse_len_lead_sel quic_ht_len_lead_def
      del: One_nat_def)

lemma quic_emit_parse_first__short:
  "emit_state quic_ir quic_align rd bit_len (member_get quic_members) (member_put quic_members) quic_st_parse_first__short =
     quic_case_parse_first__short rd bit_len"
  unfolding quic_case_parse_first__short_def
  by (simp add: emit_eval quic_st_parse_first__short_sel
      del: One_nat_def)

lemma quic_emit_parse_version__negotiation:
  "emit_state quic_ir quic_align rd bit_len (member_get quic_members) (member_put quic_members) quic_st_parse_version__negotiation =
     quic_case_parse_version__negotiation rd bit_len"
  unfolding quic_case_parse_version__negotiation_def
  by (simp add: emit_eval quic_st_parse_version__negotiation_sel
      del: One_nat_def)

lemma quic_emit_parse_version__default:
  "emit_state quic_ir quic_align rd bit_len (member_get quic_members) (member_put quic_members) quic_st_parse_version__default =
     quic_case_parse_version__default rd bit_len"
  unfolding quic_case_parse_version__default_def
  by (simp add: emit_eval quic_st_parse_version__default_sel
      del: One_nat_def)

lemma quic_emit_parse_scid__initial:
  "emit_state quic_ir quic_align rd bit_len (member_get quic_members) (member_put quic_members) quic_st_parse_scid__initial =
     quic_case_parse_scid__initial rd bit_len"
  unfolding quic_case_parse_scid__initial_def
  by (simp add: emit_eval quic_st_parse_scid__initial_sel
      del: One_nat_def)

lemma quic_emit_parse_scid__zero_rtt:
  "emit_state quic_ir quic_align rd bit_len (member_get quic_members) (member_put quic_members) quic_st_parse_scid__zero_rtt =
     quic_case_parse_scid__zero_rtt rd bit_len"
  unfolding quic_case_parse_scid__zero_rtt_def
  by (simp add: emit_eval quic_st_parse_scid__zero_rtt_sel
      del: One_nat_def)

lemma quic_emit_parse_scid__handshake:
  "emit_state quic_ir quic_align rd bit_len (member_get quic_members) (member_put quic_members) quic_st_parse_scid__handshake =
     quic_case_parse_scid__handshake rd bit_len"
  unfolding quic_case_parse_scid__handshake_def
  by (simp add: emit_eval quic_st_parse_scid__handshake_sel
      del: One_nat_def)

lemma quic_emit_parse_scid__retry:
  "emit_state quic_ir quic_align rd bit_len (member_get quic_members) (member_put quic_members) quic_st_parse_scid__retry =
     quic_case_parse_scid__retry rd bit_len"
  unfolding quic_case_parse_scid__retry_def
  by (simp add: emit_eval quic_st_parse_scid__retry_sel
      del: One_nat_def)

lemma quic_emit_tok_w1:
  "emit_state quic_ir quic_align rd bit_len (member_get quic_members) (member_put quic_members) quic_st_tok_w1 =
     quic_case_tok_w1 rd bit_len"
  unfolding quic_case_tok_w1_def
  by (simp add: emit_eval quic_st_tok_w1_sel quic_ht_tok0_def
      del: One_nat_def)

lemma quic_emit_tok_w2:
  "emit_state quic_ir quic_align rd bit_len (member_get quic_members) (member_put quic_members) quic_st_tok_w2 =
     quic_case_tok_w2 rd bit_len"
  unfolding quic_case_tok_w2_def
  by (simp add: emit_eval quic_st_tok_w2_sel quic_ht_tok1_def
      del: One_nat_def)

lemma quic_emit_tok_w4:
  "emit_state quic_ir quic_align rd bit_len (member_get quic_members) (member_put quic_members) quic_st_tok_w4 =
     quic_case_tok_w4 rd bit_len"
  unfolding quic_case_tok_w4_def
  by (simp add: emit_eval quic_st_tok_w4_sel quic_ht_tok2_def
      del: One_nat_def)

lemma quic_emit_tok_w8:
  "emit_state quic_ir quic_align rd bit_len (member_get quic_members) (member_put quic_members) quic_st_tok_w8 =
     quic_case_tok_w8 rd bit_len"
  unfolding quic_case_tok_w8_def
  by (simp add: emit_eval quic_st_tok_w8_sel quic_ht_tok3_def
      del: One_nat_def)

lemma quic_emit_len_w1:
  "emit_state quic_ir quic_align rd bit_len (member_get quic_members) (member_put quic_members) quic_st_len_w1 =
     quic_case_len_w1 rd bit_len"
  unfolding quic_case_len_w1_def
  by (simp add: emit_eval quic_st_len_w1_sel
      del: One_nat_def)

lemma quic_emit_len_w2:
  "emit_state quic_ir quic_align rd bit_len (member_get quic_members) (member_put quic_members) quic_st_len_w2 =
     quic_case_len_w2 rd bit_len"
  unfolding quic_case_len_w2_def
  by (simp add: emit_eval quic_st_len_w2_sel quic_ht_len1_def
      del: One_nat_def)

lemma quic_emit_len_w4:
  "emit_state quic_ir quic_align rd bit_len (member_get quic_members) (member_put quic_members) quic_st_len_w4 =
     quic_case_len_w4 rd bit_len"
  unfolding quic_case_len_w4_def
  by (simp add: emit_eval quic_st_len_w4_sel quic_ht_len2_def
      del: One_nat_def)

lemma quic_emit_len_w8:
  "emit_state quic_ir quic_align rd bit_len (member_get quic_members) (member_put quic_members) quic_st_len_w8 =
     quic_case_len_w8 rd bit_len"
  unfolding quic_case_len_w8_def
  by (simp add: emit_eval quic_st_len_w8_sel quic_ht_len3_def
      del: One_nat_def)

lemma quic_fits: "fits_u32 quic_ir"
  by (simp add: fits_u32_def quic_ir_sel)

lemma quic_emit_switch:
  "emit_switch quic_ir quic_align rd bit_len (member_get quic_members) (member_put quic_members) = quic_switch rd bit_len"
  by (simp add: emit_switch_def quic_ir_sel quic_switch_def
    quic_st_parse_first_sel(1) quic_st_parse_version_sel(1) quic_st_parse_other_cids_sel(1)
    quic_st_parse_dcid_len_sel(1) quic_st_parse_dcid_sel(1) quic_st_parse_scid_len_sel(1)
    quic_st_parse_scid_sel(1) quic_st_parse_tok_lead_sel(1) quic_st_parse_len_lead_sel(1)
    quic_st_parse_first__short_sel(1) quic_st_parse_version__negotiation_sel(1)
    quic_st_parse_version__default_sel(1) quic_st_parse_scid__initial_sel(1)
    quic_st_parse_scid__zero_rtt_sel(1) quic_st_parse_scid__handshake_sel(1)
    quic_st_parse_scid__retry_sel(1) quic_st_tok_w1_sel(1) quic_st_tok_w2_sel(1) quic_st_tok_w4_sel(1)
    quic_st_tok_w8_sel(1) quic_st_len_w1_sel(1) quic_st_len_w2_sel(1) quic_st_len_w4_sel(1)
    quic_st_len_w8_sel(1)
    quic_emit_parse_first quic_emit_parse_version quic_emit_parse_other_cids quic_emit_parse_dcid_len
    quic_emit_parse_dcid quic_emit_parse_scid_len quic_emit_parse_scid quic_emit_parse_tok_lead
    quic_emit_parse_len_lead quic_emit_parse_first__short quic_emit_parse_version__negotiation
    quic_emit_parse_version__default quic_emit_parse_scid__initial quic_emit_parse_scid__zero_rtt
    quic_emit_parse_scid__handshake quic_emit_parse_scid__retry quic_emit_tok_w1 quic_emit_tok_w2
    quic_emit_tok_w4 quic_emit_tok_w8 quic_emit_len_w1 quic_emit_len_w2 quic_emit_len_w4 quic_emit_len_w8)

lemma quic_emit_core:
  "emit_core quic_ir quic_align rd bit_len (member_get quic_members) (member_put quic_members) o' =
     quic_parse_core rd bit_len o'"
  unfolding emit_core_def quic_parse_core_def quic_emit_switch
  by (simp add: quic_ir_sel emit_init_meta_def)

section \<open>Refinement\<close>

interpretation quic: emitted_parser "member_get quic_members" "member_put quic_members"
  "member_slots quic_members" "member_width quic_members" quic_zero buf_at plain_capacity
  by (rule emitted_plain [OF quic_layout])

interpretation quic_bpf: emitted_parser "member_get quic_members" "member_put quic_members"
  "member_slots quic_members" "member_width quic_members" quic_zero buf_at_masked masked_capacity
  by (rule emitted_masked [OF quic_layout])

text \<open>
  C16: \<open>pk_quic_initial_parse\<close> and the reference interpreter agree on every packet, whatever its bytes
  and however many of its bits are declared: the interpreter returns a result, the C returns (within
  12 iterations, without reading outside the buffer or an unset region slot) with the same verdict,
  reason, consumed bits, header fields and metadata. The one exception, the reason of a pop inside a
  truncated region, is part of \<open>result_agrees\<close>.
\<close>

theorem quic_parse_refines:
  assumes "length buf \<le> plain_capacity" and "unat bit_len \<le> 8 * length buf"
  shows "\<exists>res ret r. run_bits quic_ir buf (unat bit_len) = Inr res \<and>
    quic_parse (buf_at buf) bit_len o' = Return ret r \<and>
    result_agrees quic_ir (member_get quic_members) (member_slots quic_members) res ret r"
proof -
  obtain res where run: "run_bits quic_ir buf (unat bit_len) = Inr res"
    using run_bits_total [OF quic_wf assms(2)] by auto
  show ?thesis
    using quic.emit_core_refines [OF quic_emit_ok quic_fits assms run] run
    by (auto simp: quic_parse_def quic_emit_core)
qed

theorem quic_parse_refines_witness:
  "\<exists>res ret r. run_bits quic_ir [192, 0, 0, 0, 1, 0, 0] 56 = Inr res \<and>
    quic_parse (buf_at [192, 0, 0, 0, 1, 0, 0]) 56 quic_zero = Return ret r \<and>
    result_agrees quic_ir (member_get quic_members) (member_slots quic_members) res ret r"
  using quic_parse_refines [of "[192, 0, 0, 0, 1, 0, 0]" 56 quic_zero] by simp

end
