(* ===== verification/Gibb_Edge.thy ===== *)
theory Gibb_Edge
  imports C_Machine
begin

text \<open>
  The parser generated for the edge router parser of Gibb et al., with a lookahead under an MPLS stack: benchmarks/academic/gibb_edge/gen/parser.c
  and parser.h, 8 states in at most 7 steps. One record per struct of the header, one
  definition per case of the switch with its statements in the order of the file, the dispatch,
  the core, the entry point and the table of reasons. Names carry the prefix \<open>edge_\<close> where the C
  has \<open>pk_gibb_edge_\<close> or the file as a name space.
\<close>

section \<open>The result struct\<close>

record edge_ethernet_t =
  edge_ethernet_dst_addr :: u64
  edge_ethernet_src_addr :: u64
  edge_ethernet_ether_type :: u16

record edge_mpls_t =
  edge_mpls_label :: u32
  edge_mpls_tc :: u8
  edge_mpls_bos :: u8
  edge_mpls_ttl :: u8

record edge_mpls_payload_nibble_t =
  edge_mpls_payload_nibble_v :: u8

record edge_ipv4_t =
  edge_ipv4_version :: u8
  edge_ipv4_ihl :: u8
  edge_ipv4_diffserv :: u8
  edge_ipv4_total_len :: u16
  edge_ipv4_identification :: u16
  edge_ipv4_flags :: u8
  edge_ipv4_frag_offset :: u16
  edge_ipv4_ttl :: u8
  edge_ipv4_protocol :: u8
  edge_ipv4_hdr_checksum :: u16
  edge_ipv4_src_addr :: u32
  edge_ipv4_dst_addr :: u32
  edge_ipv4_options_bit_off :: u64
  edge_ipv4_options_bit_len :: u64

record edge_ipv6_t =
  edge_ipv6_version :: u8
  edge_ipv6_traffic_class :: u8
  edge_ipv6_flow_label :: u32
  edge_ipv6_payload_len :: u16
  edge_ipv6_next_hdr :: u8
  edge_ipv6_hop_limit :: u8
  edge_ipv6_src_addr_bit_off :: u64
  edge_ipv6_src_addr_bit_len :: u64
  edge_ipv6_dst_addr_bit_off :: u64
  edge_ipv6_dst_addr_bit_len :: u64

record edge_eompls_t =
  edge_eompls_zero :: u8
  edge_eompls_reserved :: u16
  edge_eompls_seq_no :: u16

record edge_ethernet2_t =
  edge_ethernet2_dst_addr :: u64
  edge_ethernet2_src_addr :: u64
  edge_ethernet2_ether_type :: u16

record edge_result = pk_result +
  edge_ethernet_present :: u8
  edge_ethernet :: edge_ethernet_t
  edge_mpls_present :: u8
  edge_mpls :: edge_mpls_t
  edge_mpls_payload_nibble_present :: u8
  edge_mpls_payload_nibble :: edge_mpls_payload_nibble_t
  edge_ipv4_present :: u8
  edge_ipv4 :: edge_ipv4_t
  edge_ipv6_present :: u8
  edge_ipv6 :: edge_ipv6_t
  edge_eompls_present :: u8
  edge_eompls :: edge_eompls_t
  edge_ethernet2_present :: u8
  edge_ethernet2 :: edge_ethernet2_t

text \<open>\<open>pk_gibb_edge_result_t zero = {0};\<close>\<close>

definition edge_zero :: edge_result where
  "edge_zero =
     \<lparr>outcome = 0, reason = 0, consumed_bits = 0,
      edge_ethernet_present = 0,
      edge_ethernet = \<lparr>edge_ethernet_dst_addr = 0, edge_ethernet_src_addr = 0, edge_ethernet_ether_type = 0\<rparr>,
      edge_mpls_present = 0,
      edge_mpls = \<lparr>edge_mpls_label = 0, edge_mpls_tc = 0, edge_mpls_bos = 0, edge_mpls_ttl = 0\<rparr>,
      edge_mpls_payload_nibble_present = 0,
      edge_mpls_payload_nibble = \<lparr>edge_mpls_payload_nibble_v = 0\<rparr>,
      edge_ipv4_present = 0,
      edge_ipv4 = \<lparr>edge_ipv4_version = 0, edge_ipv4_ihl = 0, edge_ipv4_diffserv = 0, edge_ipv4_total_len = 0, edge_ipv4_identification = 0, edge_ipv4_flags = 0, edge_ipv4_frag_offset = 0, edge_ipv4_ttl = 0, edge_ipv4_protocol = 0, edge_ipv4_hdr_checksum = 0, edge_ipv4_src_addr = 0, edge_ipv4_dst_addr = 0, edge_ipv4_options_bit_off = 0, edge_ipv4_options_bit_len = 0\<rparr>,
      edge_ipv6_present = 0,
      edge_ipv6 = \<lparr>edge_ipv6_version = 0, edge_ipv6_traffic_class = 0, edge_ipv6_flow_label = 0, edge_ipv6_payload_len = 0, edge_ipv6_next_hdr = 0, edge_ipv6_hop_limit = 0, edge_ipv6_src_addr_bit_off = 0, edge_ipv6_src_addr_bit_len = 0, edge_ipv6_dst_addr_bit_off = 0, edge_ipv6_dst_addr_bit_len = 0\<rparr>,
      edge_eompls_present = 0,
      edge_eompls = \<lparr>edge_eompls_zero = 0, edge_eompls_reserved = 0, edge_eompls_seq_no = 0\<rparr>,
      edge_ethernet2_present = 0,
      edge_ethernet2 = \<lparr>edge_ethernet2_dst_addr = 0, edge_ethernet2_src_addr = 0, edge_ethernet2_ether_type = 0\<rparr>\<rparr>"

text \<open>The assignments to a member, with the cast to its type.\<close>

abbreviation edge_set_ethernet_dst_addr :: "u64 \<Rightarrow> edge_result \<Rightarrow> edge_result" where
  "edge_set_ethernet_dst_addr v o' \<equiv> o'\<lparr>edge_ethernet := (edge_ethernet o')\<lparr>edge_ethernet_dst_addr := v\<rparr>\<rparr>"

abbreviation edge_set_ethernet_src_addr :: "u64 \<Rightarrow> edge_result \<Rightarrow> edge_result" where
  "edge_set_ethernet_src_addr v o' \<equiv> o'\<lparr>edge_ethernet := (edge_ethernet o')\<lparr>edge_ethernet_src_addr := v\<rparr>\<rparr>"

abbreviation edge_set_ethernet_ether_type :: "u64 \<Rightarrow> edge_result \<Rightarrow> edge_result" where
  "edge_set_ethernet_ether_type v o' \<equiv> o'\<lparr>edge_ethernet := (edge_ethernet o')\<lparr>edge_ethernet_ether_type := ucast v\<rparr>\<rparr>"

abbreviation edge_set_mpls_label :: "u64 \<Rightarrow> edge_result \<Rightarrow> edge_result" where
  "edge_set_mpls_label v o' \<equiv> o'\<lparr>edge_mpls := (edge_mpls o')\<lparr>edge_mpls_label := ucast v\<rparr>\<rparr>"

abbreviation edge_set_mpls_tc :: "u64 \<Rightarrow> edge_result \<Rightarrow> edge_result" where
  "edge_set_mpls_tc v o' \<equiv> o'\<lparr>edge_mpls := (edge_mpls o')\<lparr>edge_mpls_tc := ucast v\<rparr>\<rparr>"

abbreviation edge_set_mpls_bos :: "u64 \<Rightarrow> edge_result \<Rightarrow> edge_result" where
  "edge_set_mpls_bos v o' \<equiv> o'\<lparr>edge_mpls := (edge_mpls o')\<lparr>edge_mpls_bos := ucast v\<rparr>\<rparr>"

abbreviation edge_set_mpls_ttl :: "u64 \<Rightarrow> edge_result \<Rightarrow> edge_result" where
  "edge_set_mpls_ttl v o' \<equiv> o'\<lparr>edge_mpls := (edge_mpls o')\<lparr>edge_mpls_ttl := ucast v\<rparr>\<rparr>"

abbreviation edge_set_mpls_payload_nibble_v :: "u64 \<Rightarrow> edge_result \<Rightarrow> edge_result" where
  "edge_set_mpls_payload_nibble_v v o' \<equiv> o'\<lparr>edge_mpls_payload_nibble := (edge_mpls_payload_nibble o')\<lparr>edge_mpls_payload_nibble_v := ucast v\<rparr>\<rparr>"

abbreviation edge_set_ipv4_version :: "u64 \<Rightarrow> edge_result \<Rightarrow> edge_result" where
  "edge_set_ipv4_version v o' \<equiv> o'\<lparr>edge_ipv4 := (edge_ipv4 o')\<lparr>edge_ipv4_version := ucast v\<rparr>\<rparr>"

abbreviation edge_set_ipv4_ihl :: "u64 \<Rightarrow> edge_result \<Rightarrow> edge_result" where
  "edge_set_ipv4_ihl v o' \<equiv> o'\<lparr>edge_ipv4 := (edge_ipv4 o')\<lparr>edge_ipv4_ihl := ucast v\<rparr>\<rparr>"

abbreviation edge_set_ipv4_diffserv :: "u64 \<Rightarrow> edge_result \<Rightarrow> edge_result" where
  "edge_set_ipv4_diffserv v o' \<equiv> o'\<lparr>edge_ipv4 := (edge_ipv4 o')\<lparr>edge_ipv4_diffserv := ucast v\<rparr>\<rparr>"

abbreviation edge_set_ipv4_total_len :: "u64 \<Rightarrow> edge_result \<Rightarrow> edge_result" where
  "edge_set_ipv4_total_len v o' \<equiv> o'\<lparr>edge_ipv4 := (edge_ipv4 o')\<lparr>edge_ipv4_total_len := ucast v\<rparr>\<rparr>"

abbreviation edge_set_ipv4_identification :: "u64 \<Rightarrow> edge_result \<Rightarrow> edge_result" where
  "edge_set_ipv4_identification v o' \<equiv> o'\<lparr>edge_ipv4 := (edge_ipv4 o')\<lparr>edge_ipv4_identification := ucast v\<rparr>\<rparr>"

abbreviation edge_set_ipv4_flags :: "u64 \<Rightarrow> edge_result \<Rightarrow> edge_result" where
  "edge_set_ipv4_flags v o' \<equiv> o'\<lparr>edge_ipv4 := (edge_ipv4 o')\<lparr>edge_ipv4_flags := ucast v\<rparr>\<rparr>"

abbreviation edge_set_ipv4_frag_offset :: "u64 \<Rightarrow> edge_result \<Rightarrow> edge_result" where
  "edge_set_ipv4_frag_offset v o' \<equiv> o'\<lparr>edge_ipv4 := (edge_ipv4 o')\<lparr>edge_ipv4_frag_offset := ucast v\<rparr>\<rparr>"

abbreviation edge_set_ipv4_ttl :: "u64 \<Rightarrow> edge_result \<Rightarrow> edge_result" where
  "edge_set_ipv4_ttl v o' \<equiv> o'\<lparr>edge_ipv4 := (edge_ipv4 o')\<lparr>edge_ipv4_ttl := ucast v\<rparr>\<rparr>"

abbreviation edge_set_ipv4_protocol :: "u64 \<Rightarrow> edge_result \<Rightarrow> edge_result" where
  "edge_set_ipv4_protocol v o' \<equiv> o'\<lparr>edge_ipv4 := (edge_ipv4 o')\<lparr>edge_ipv4_protocol := ucast v\<rparr>\<rparr>"

abbreviation edge_set_ipv4_hdr_checksum :: "u64 \<Rightarrow> edge_result \<Rightarrow> edge_result" where
  "edge_set_ipv4_hdr_checksum v o' \<equiv> o'\<lparr>edge_ipv4 := (edge_ipv4 o')\<lparr>edge_ipv4_hdr_checksum := ucast v\<rparr>\<rparr>"

abbreviation edge_set_ipv4_src_addr :: "u64 \<Rightarrow> edge_result \<Rightarrow> edge_result" where
  "edge_set_ipv4_src_addr v o' \<equiv> o'\<lparr>edge_ipv4 := (edge_ipv4 o')\<lparr>edge_ipv4_src_addr := ucast v\<rparr>\<rparr>"

abbreviation edge_set_ipv4_dst_addr :: "u64 \<Rightarrow> edge_result \<Rightarrow> edge_result" where
  "edge_set_ipv4_dst_addr v o' \<equiv> o'\<lparr>edge_ipv4 := (edge_ipv4 o')\<lparr>edge_ipv4_dst_addr := ucast v\<rparr>\<rparr>"

abbreviation edge_set_ipv4_options_bit_off :: "u64 \<Rightarrow> edge_result \<Rightarrow> edge_result" where
  "edge_set_ipv4_options_bit_off v o' \<equiv> o'\<lparr>edge_ipv4 := (edge_ipv4 o')\<lparr>edge_ipv4_options_bit_off := v\<rparr>\<rparr>"

abbreviation edge_set_ipv4_options_bit_len :: "u64 \<Rightarrow> edge_result \<Rightarrow> edge_result" where
  "edge_set_ipv4_options_bit_len v o' \<equiv> o'\<lparr>edge_ipv4 := (edge_ipv4 o')\<lparr>edge_ipv4_options_bit_len := v\<rparr>\<rparr>"

abbreviation edge_set_ipv6_version :: "u64 \<Rightarrow> edge_result \<Rightarrow> edge_result" where
  "edge_set_ipv6_version v o' \<equiv> o'\<lparr>edge_ipv6 := (edge_ipv6 o')\<lparr>edge_ipv6_version := ucast v\<rparr>\<rparr>"

abbreviation edge_set_ipv6_traffic_class :: "u64 \<Rightarrow> edge_result \<Rightarrow> edge_result" where
  "edge_set_ipv6_traffic_class v o' \<equiv> o'\<lparr>edge_ipv6 := (edge_ipv6 o')\<lparr>edge_ipv6_traffic_class := ucast v\<rparr>\<rparr>"

abbreviation edge_set_ipv6_flow_label :: "u64 \<Rightarrow> edge_result \<Rightarrow> edge_result" where
  "edge_set_ipv6_flow_label v o' \<equiv> o'\<lparr>edge_ipv6 := (edge_ipv6 o')\<lparr>edge_ipv6_flow_label := ucast v\<rparr>\<rparr>"

abbreviation edge_set_ipv6_payload_len :: "u64 \<Rightarrow> edge_result \<Rightarrow> edge_result" where
  "edge_set_ipv6_payload_len v o' \<equiv> o'\<lparr>edge_ipv6 := (edge_ipv6 o')\<lparr>edge_ipv6_payload_len := ucast v\<rparr>\<rparr>"

abbreviation edge_set_ipv6_next_hdr :: "u64 \<Rightarrow> edge_result \<Rightarrow> edge_result" where
  "edge_set_ipv6_next_hdr v o' \<equiv> o'\<lparr>edge_ipv6 := (edge_ipv6 o')\<lparr>edge_ipv6_next_hdr := ucast v\<rparr>\<rparr>"

abbreviation edge_set_ipv6_hop_limit :: "u64 \<Rightarrow> edge_result \<Rightarrow> edge_result" where
  "edge_set_ipv6_hop_limit v o' \<equiv> o'\<lparr>edge_ipv6 := (edge_ipv6 o')\<lparr>edge_ipv6_hop_limit := ucast v\<rparr>\<rparr>"

abbreviation edge_set_ipv6_src_addr_bit_off :: "u64 \<Rightarrow> edge_result \<Rightarrow> edge_result" where
  "edge_set_ipv6_src_addr_bit_off v o' \<equiv> o'\<lparr>edge_ipv6 := (edge_ipv6 o')\<lparr>edge_ipv6_src_addr_bit_off := v\<rparr>\<rparr>"

abbreviation edge_set_ipv6_src_addr_bit_len :: "u64 \<Rightarrow> edge_result \<Rightarrow> edge_result" where
  "edge_set_ipv6_src_addr_bit_len v o' \<equiv> o'\<lparr>edge_ipv6 := (edge_ipv6 o')\<lparr>edge_ipv6_src_addr_bit_len := v\<rparr>\<rparr>"

abbreviation edge_set_ipv6_dst_addr_bit_off :: "u64 \<Rightarrow> edge_result \<Rightarrow> edge_result" where
  "edge_set_ipv6_dst_addr_bit_off v o' \<equiv> o'\<lparr>edge_ipv6 := (edge_ipv6 o')\<lparr>edge_ipv6_dst_addr_bit_off := v\<rparr>\<rparr>"

abbreviation edge_set_ipv6_dst_addr_bit_len :: "u64 \<Rightarrow> edge_result \<Rightarrow> edge_result" where
  "edge_set_ipv6_dst_addr_bit_len v o' \<equiv> o'\<lparr>edge_ipv6 := (edge_ipv6 o')\<lparr>edge_ipv6_dst_addr_bit_len := v\<rparr>\<rparr>"

abbreviation edge_set_eompls_zero :: "u64 \<Rightarrow> edge_result \<Rightarrow> edge_result" where
  "edge_set_eompls_zero v o' \<equiv> o'\<lparr>edge_eompls := (edge_eompls o')\<lparr>edge_eompls_zero := ucast v\<rparr>\<rparr>"

abbreviation edge_set_eompls_reserved :: "u64 \<Rightarrow> edge_result \<Rightarrow> edge_result" where
  "edge_set_eompls_reserved v o' \<equiv> o'\<lparr>edge_eompls := (edge_eompls o')\<lparr>edge_eompls_reserved := ucast v\<rparr>\<rparr>"

abbreviation edge_set_eompls_seq_no :: "u64 \<Rightarrow> edge_result \<Rightarrow> edge_result" where
  "edge_set_eompls_seq_no v o' \<equiv> o'\<lparr>edge_eompls := (edge_eompls o')\<lparr>edge_eompls_seq_no := ucast v\<rparr>\<rparr>"

abbreviation edge_set_ethernet2_dst_addr :: "u64 \<Rightarrow> edge_result \<Rightarrow> edge_result" where
  "edge_set_ethernet2_dst_addr v o' \<equiv> o'\<lparr>edge_ethernet2 := (edge_ethernet2 o')\<lparr>edge_ethernet2_dst_addr := v\<rparr>\<rparr>"

abbreviation edge_set_ethernet2_src_addr :: "u64 \<Rightarrow> edge_result \<Rightarrow> edge_result" where
  "edge_set_ethernet2_src_addr v o' \<equiv> o'\<lparr>edge_ethernet2 := (edge_ethernet2 o')\<lparr>edge_ethernet2_src_addr := v\<rparr>\<rparr>"

abbreviation edge_set_ethernet2_ether_type :: "u64 \<Rightarrow> edge_result \<Rightarrow> edge_result" where
  "edge_set_ethernet2_ether_type v o' \<equiv> o'\<lparr>edge_ethernet2 := (edge_ethernet2 o')\<lparr>edge_ethernet2_ether_type := ucast v\<rparr>\<rparr>"

section \<open>States, reasons and bounds\<close>

abbreviation edge_S_PARSE_ETHERNET :: u32 where "edge_S_PARSE_ETHERNET \<equiv> 0"
abbreviation edge_S_PARSE_MPLS1 :: u32 where "edge_S_PARSE_MPLS1 \<equiv> 1"
abbreviation edge_S_PARSE_MPLS2 :: u32 where "edge_S_PARSE_MPLS2 \<equiv> 2"
abbreviation edge_S_PARSE_PAYLOAD_NIBBLE :: u32 where "edge_S_PARSE_PAYLOAD_NIBBLE \<equiv> 3"
abbreviation edge_S_PARSE_IPV4 :: u32 where "edge_S_PARSE_IPV4 \<equiv> 4"
abbreviation edge_S_PARSE_IPV6 :: u32 where "edge_S_PARSE_IPV6 \<equiv> 5"
abbreviation edge_S_PARSE_EOMPLS :: u32 where "edge_S_PARSE_EOMPLS \<equiv> 6"
abbreviation edge_S_PARSE_ETHERNET2 :: u32 where "edge_S_PARSE_ETHERNET2 \<equiv> 7"


section \<open>The cases of the switch\<close>

definition edge_case_parse_ethernet :: "packet_reader \<Rightarrow> u64 \<Rightarrow> edge_result stmt list" where
  "edge_case_parse_ethernet rd bit_len =
   [store (\<lambda>o'. o'\<lparr>edge_ethernet_present := 1\<rparr>),
    check_len bit_len Off 48,
    load_bytes rd Off 6 edge_set_ethernet_dst_addr,
    advance Off 48,
    check_len bit_len Off 48,
    load_bytes rd Off 6 edge_set_ethernet_src_addr,
    advance Off 48,
    check_len bit_len Off 16,
    load_bytes rd Off 2 edge_set_ethernet_ether_type,
    advance Off 16,
    bind_local (c_out (\<lambda>o'. ucast (edge_ethernet_ether_type (edge_ethernet o')))) (\<lambda>key0. [
     branch (\<lambda>_. key0 = 34887) (goto edge_S_PARSE_MPLS1) (
     branch (\<lambda>_. key0 = 34888) (goto edge_S_PARSE_MPLS1) (
     branch (\<lambda>_. key0 = 2048) (goto edge_S_PARSE_IPV4) (
     branch (\<lambda>_. key0 = 34525) (goto edge_S_PARSE_IPV6) (
     accept))))])]"

definition edge_case_parse_mpls1 :: "packet_reader \<Rightarrow> u64 \<Rightarrow> edge_result stmt list" where
  "edge_case_parse_mpls1 rd bit_len =
   [store (\<lambda>o'. o'\<lparr>edge_mpls_present := 1\<rparr>),
    check_len bit_len Off 20,
    load_bits rd Off 20 edge_set_mpls_label,
    advance Off 20,
    check_len bit_len Off 3,
    load_bits rd Off 3 edge_set_mpls_tc,
    advance Off 3,
    check_len bit_len Off 1,
    load_bits rd Off 1 edge_set_mpls_bos,
    advance Off 1,
    check_len bit_len Off 8,
    load_bytes rd Off 1 edge_set_mpls_ttl,
    advance Off 8,
    bind_local (c_out (\<lambda>o'. ucast (edge_mpls_bos (edge_mpls o')))) (\<lambda>key0. [
     branch (\<lambda>_. key0 = 0) (goto edge_S_PARSE_MPLS2) (
     branch (\<lambda>_. key0 = 1) (goto edge_S_PARSE_PAYLOAD_NIBBLE) (
     accept))])]"

definition edge_case_parse_mpls2 :: "packet_reader \<Rightarrow> u64 \<Rightarrow> edge_result stmt list" where
  "edge_case_parse_mpls2 rd bit_len =
   [store (\<lambda>o'. o'\<lparr>edge_mpls_present := 1\<rparr>),
    check_len bit_len Off 20,
    load_bits rd Off 20 edge_set_mpls_label,
    advance Off 20,
    check_len bit_len Off 3,
    load_bits rd Off 3 edge_set_mpls_tc,
    advance Off 3,
    check_len bit_len Off 1,
    load_bits rd Off 1 edge_set_mpls_bos,
    advance Off 1,
    check_len bit_len Off 8,
    load_bytes rd Off 1 edge_set_mpls_ttl,
    advance Off 8,
    bind_local (c_out (\<lambda>o'. ucast (edge_mpls_bos (edge_mpls o')))) (\<lambda>key0. [
     branch (\<lambda>_. key0 = 1) (goto edge_S_PARSE_PAYLOAD_NIBBLE) (
     accept)])]"

definition edge_case_parse_payload_nibble :: "packet_reader \<Rightarrow> u64 \<Rightarrow> edge_result stmt list" where
  "edge_case_parse_payload_nibble rd bit_len =
   [store (\<lambda>o'. o'\<lparr>edge_mpls_payload_nibble_present := 1\<rparr>),
    begin_lookahead,
    check_len bit_len Poff 4,
    load_bits rd Poff 4 edge_set_mpls_payload_nibble_v,
    advance Poff 4,
    bind_local (c_out (\<lambda>o'. ucast (edge_mpls_payload_nibble_v (edge_mpls_payload_nibble o')))) (\<lambda>key0. [
     branch (\<lambda>_. key0 = 0) (goto edge_S_PARSE_EOMPLS) (
     branch (\<lambda>_. key0 = 4) (goto edge_S_PARSE_IPV4) (
     branch (\<lambda>_. key0 = 6) (goto edge_S_PARSE_IPV6) (
     accept)))])]"

definition edge_case_parse_ipv4 :: "packet_reader \<Rightarrow> u64 \<Rightarrow> edge_result stmt list" where
  "edge_case_parse_ipv4 rd bit_len =
   [store (\<lambda>o'. o'\<lparr>edge_ipv4_present := 1\<rparr>),
    check_len bit_len Off 4,
    load_bits rd Off 4 edge_set_ipv4_version,
    advance Off 4,
    check_len bit_len Off 4,
    load_bits rd Off 4 edge_set_ipv4_ihl,
    advance Off 4,
    check_len bit_len Off 8,
    load_bytes rd Off 1 edge_set_ipv4_diffserv,
    advance Off 8,
    check_len bit_len Off 16,
    load_bytes rd Off 2 edge_set_ipv4_total_len,
    advance Off 16,
    check_len bit_len Off 16,
    load_bytes rd Off 2 edge_set_ipv4_identification,
    advance Off 16,
    check_len bit_len Off 3,
    load_bits rd Off 3 edge_set_ipv4_flags,
    advance Off 3,
    check_len bit_len Off 13,
    load_bits rd Off 13 edge_set_ipv4_frag_offset,
    advance Off 13,
    check_len bit_len Off 8,
    load_bytes rd Off 1 edge_set_ipv4_ttl,
    advance Off 8,
    check_len bit_len Off 8,
    load_bytes rd Off 1 edge_set_ipv4_protocol,
    advance Off 8,
    check_len bit_len Off 16,
    load_bytes rd Off 2 edge_set_ipv4_hdr_checksum,
    advance Off 16,
    check_len bit_len Off 32,
    load_bytes rd Off 4 edge_set_ipv4_src_addr,
    advance Off 32,
    check_len bit_len Off 32,
    load_bytes rd Off 4 edge_set_ipv4_dst_addr,
    advance Off 32,
    bind_local (c_mul (c_sub (c_mul (c_out (\<lambda>o'. ucast (edge_ipv4_ihl (edge_ipv4 o')))) (c_const 4)) (c_const 20)) (c_const 8)) (\<lambda>vlen.
      [check_var_len bit_len vlen,
       store_off edge_set_ipv4_options_bit_off,
       store (edge_set_ipv4_options_bit_len vlen),
       advance Off vlen]),
    accept]"

definition edge_case_parse_ipv6 :: "packet_reader \<Rightarrow> u64 \<Rightarrow> edge_result stmt list" where
  "edge_case_parse_ipv6 rd bit_len =
   [store (\<lambda>o'. o'\<lparr>edge_ipv6_present := 1\<rparr>),
    check_len bit_len Off 4,
    load_bits rd Off 4 edge_set_ipv6_version,
    advance Off 4,
    check_len bit_len Off 8,
    load_bits rd Off 8 edge_set_ipv6_traffic_class,
    advance Off 8,
    check_len bit_len Off 20,
    load_bits rd Off 20 edge_set_ipv6_flow_label,
    advance Off 20,
    check_len bit_len Off 16,
    load_bytes rd Off 2 edge_set_ipv6_payload_len,
    advance Off 16,
    check_len bit_len Off 8,
    load_bytes rd Off 1 edge_set_ipv6_next_hdr,
    advance Off 8,
    check_len bit_len Off 8,
    load_bytes rd Off 1 edge_set_ipv6_hop_limit,
    advance Off 8,
    bind_local (c_mul (c_const 16) (c_const 8)) (\<lambda>vlen.
      [check_var_len bit_len vlen,
       store_off edge_set_ipv6_src_addr_bit_off,
       store (edge_set_ipv6_src_addr_bit_len vlen),
       advance Off vlen]),
    bind_local (c_mul (c_const 16) (c_const 8)) (\<lambda>vlen.
      [check_var_len bit_len vlen,
       store_off edge_set_ipv6_dst_addr_bit_off,
       store (edge_set_ipv6_dst_addr_bit_len vlen),
       advance Off vlen]),
    accept]"

definition edge_case_parse_eompls :: "packet_reader \<Rightarrow> u64 \<Rightarrow> edge_result stmt list" where
  "edge_case_parse_eompls rd bit_len =
   [store (\<lambda>o'. o'\<lparr>edge_eompls_present := 1\<rparr>),
    check_len bit_len Off 4,
    load_bits rd Off 4 edge_set_eompls_zero,
    advance Off 4,
    check_len bit_len Off 12,
    load_bits rd Off 12 edge_set_eompls_reserved,
    advance Off 12,
    check_len bit_len Off 16,
    load_bytes rd Off 2 edge_set_eompls_seq_no,
    advance Off 16,
    goto edge_S_PARSE_ETHERNET2]"

definition edge_case_parse_ethernet2 :: "packet_reader \<Rightarrow> u64 \<Rightarrow> edge_result stmt list" where
  "edge_case_parse_ethernet2 rd bit_len =
   [store (\<lambda>o'. o'\<lparr>edge_ethernet2_present := 1\<rparr>),
    check_len bit_len Off 48,
    load_bytes rd Off 6 edge_set_ethernet2_dst_addr,
    advance Off 48,
    check_len bit_len Off 48,
    load_bytes rd Off 6 edge_set_ethernet2_src_addr,
    advance Off 48,
    check_len bit_len Off 16,
    load_bytes rd Off 2 edge_set_ethernet2_ether_type,
    advance Off 16,
    accept]"

section \<open>The parser\<close>

definition edge_switch :: "packet_reader \<Rightarrow> u64 \<Rightarrow> edge_result stmt" where
  "edge_switch rd bit_len = switch
   [(edge_S_PARSE_ETHERNET, edge_case_parse_ethernet rd bit_len),
    (edge_S_PARSE_MPLS1, edge_case_parse_mpls1 rd bit_len),
    (edge_S_PARSE_MPLS2, edge_case_parse_mpls2 rd bit_len),
    (edge_S_PARSE_PAYLOAD_NIBBLE, edge_case_parse_payload_nibble rd bit_len),
    (edge_S_PARSE_IPV4, edge_case_parse_ipv4 rd bit_len),
    (edge_S_PARSE_IPV6, edge_case_parse_ipv6 rd bit_len),
    (edge_S_PARSE_EOMPLS, edge_case_parse_eompls rd bit_len),
    (edge_S_PARSE_ETHERNET2, edge_case_parse_ethernet2 rd bit_len)]"

definition edge_parse_core :: "packet_reader \<Rightarrow> u64 \<Rightarrow> edge_result \<Rightarrow> edge_result flow" where
  "edge_parse_core rd bit_len o' =
     depth_loop 7 (edge_switch rd bit_len)
       (init_locals edge_S_PARSE_ETHERNET 0 o')"

text \<open>The caller's struct is overwritten with zeros before the core runs.\<close>

definition edge_parse :: "packet_reader \<Rightarrow> u64 \<Rightarrow> edge_result \<Rightarrow> edge_result flow" where
  "edge_parse rd bit_len o' = edge_parse_core rd bit_len edge_zero"

text \<open>The reasons of the header, with the text each carries in a comment.\<close>

definition edge_reasons :: "(u16 \<times> string) list" where
  "edge_reasons =
     [(1, ''out of bounds''),
      (2, ''max depth exceeded''),
      (3, ''no matching select arm''),
      (4, ''out of region bounds''),
      (5, ''region out of bounds''),
      (6, ''region not exhausted'')]"

definition edge_reason_str :: "u16 \<Rightarrow> string" where
  "edge_reason_str r =
     (if r = 1 then ''out of bounds''
      else if r = 2 then ''max depth exceeded''
      else if r = 3 then ''no matching select arm''
      else if r = 4 then ''out of region bounds''
      else if r = 5 then ''region out of bounds''
      else if r = 6 then ''region not exhausted''
      else [])"

end
