(* ===== verification/Gibb_Edge_Refine.thy ===== *)
theory Gibb_Edge_Refine
  imports Gibb_Edge Bpf_Entry
begin

text \<open>
  The generated parser benchmarks/academic/gibb_edge/gen/parser.c is what the emitter makes of
  benchmarks/academic/gibb_edge/gibb_edge.ir.json, and it does what the interpreter does: the description as a term of the
  IR, the members of the result struct, the certificates of the two static checks, the proof that
  every case of the file equals the emitted one, and the refinement theorem.
\<close>

section \<open>The description\<close>

definition edge_ht_ethernet :: header_type where
  "edge_ht_ethernet = \<lparr>ht_name = ''ethernet'', ht_fields =
     [\<lparr>field_name = ''dst_addr'', field_width = Bits 48\<rparr>,
      \<lparr>field_name = ''src_addr'', field_width = Bits 48\<rparr>,
      \<lparr>field_name = ''ether_type'', field_width = Bits 16\<rparr>]\<rparr>"

definition edge_ht_mpls :: header_type where
  "edge_ht_mpls = \<lparr>ht_name = ''mpls'', ht_fields =
     [\<lparr>field_name = ''label'', field_width = Bits 20\<rparr>,
      \<lparr>field_name = ''tc'', field_width = Bits 3\<rparr>,
      \<lparr>field_name = ''bos'', field_width = Bits 1\<rparr>,
      \<lparr>field_name = ''ttl'', field_width = Bits 8\<rparr>]\<rparr>"

definition edge_ht_mpls_payload_nibble :: header_type where
  "edge_ht_mpls_payload_nibble = \<lparr>ht_name = ''mpls_payload_nibble'', ht_fields =
     [\<lparr>field_name = ''v'', field_width = Bits 4\<rparr>]\<rparr>"

definition edge_ht_ipv4 :: header_type where
  "edge_ht_ipv4 = \<lparr>ht_name = ''ipv4'', ht_fields =
     [\<lparr>field_name = ''version'', field_width = Bits 4\<rparr>,
      \<lparr>field_name = ''ihl'', field_width = Bits 4\<rparr>,
      \<lparr>field_name = ''diffserv'', field_width = Bits 8\<rparr>,
      \<lparr>field_name = ''total_len'', field_width = Bits 16\<rparr>,
      \<lparr>field_name = ''identification'', field_width = Bits 16\<rparr>,
      \<lparr>field_name = ''flags'', field_width = Bits 3\<rparr>,
      \<lparr>field_name = ''frag_offset'', field_width = Bits 13\<rparr>,
      \<lparr>field_name = ''ttl'', field_width = Bits 8\<rparr>,
      \<lparr>field_name = ''protocol'', field_width = Bits 8\<rparr>,
      \<lparr>field_name = ''hdr_checksum'', field_width = Bits 16\<rparr>,
      \<lparr>field_name = ''src_addr'', field_width = Bits 32\<rparr>,
      \<lparr>field_name = ''dst_addr'', field_width = Bits 32\<rparr>,
      \<lparr>field_name = ''options'', field_width = BitLen (Bin OpMul (Bin OpSub (Bin OpMul (Field ''ipv4'' ''ihl'') (Constant 4)) (Constant 20)) (Constant 8))\<rparr>]\<rparr>"

definition edge_ht_ipv6 :: header_type where
  "edge_ht_ipv6 = \<lparr>ht_name = ''ipv6'', ht_fields =
     [\<lparr>field_name = ''version'', field_width = Bits 4\<rparr>,
      \<lparr>field_name = ''traffic_class'', field_width = Bits 8\<rparr>,
      \<lparr>field_name = ''flow_label'', field_width = Bits 20\<rparr>,
      \<lparr>field_name = ''payload_len'', field_width = Bits 16\<rparr>,
      \<lparr>field_name = ''next_hdr'', field_width = Bits 8\<rparr>,
      \<lparr>field_name = ''hop_limit'', field_width = Bits 8\<rparr>,
      \<lparr>field_name = ''src_addr'', field_width = BitLen (Bin OpMul (Constant 16) (Constant 8))\<rparr>,
      \<lparr>field_name = ''dst_addr'', field_width = BitLen (Bin OpMul (Constant 16) (Constant 8))\<rparr>]\<rparr>"

definition edge_ht_eompls :: header_type where
  "edge_ht_eompls = \<lparr>ht_name = ''eompls'', ht_fields =
     [\<lparr>field_name = ''zero'', field_width = Bits 4\<rparr>,
      \<lparr>field_name = ''reserved'', field_width = Bits 12\<rparr>,
      \<lparr>field_name = ''seq_no'', field_width = Bits 16\<rparr>]\<rparr>"

definition edge_st_parse_ethernet :: state where
  "edge_st_parse_ethernet =
     \<lparr>st_name = ''parse_ethernet'',
      st_extracts = [\<lparr>ex_header_type = ''ethernet'', ex_instance = [], ex_lookahead = False\<rparr>],
      st_assigns = [],
      st_region_ops = [],
      st_transition = Select [Field ''ethernet'' ''ether_type'']
       [\<lparr>arm_entries = [Value 34887], arm_next = ToState ''parse_mpls1''\<rparr>,
        \<lparr>arm_entries = [Value 34888], arm_next = ToState ''parse_mpls1''\<rparr>,
        \<lparr>arm_entries = [Value 2048], arm_next = ToState ''parse_ipv4''\<rparr>,
        \<lparr>arm_entries = [Value 34525], arm_next = ToState ''parse_ipv6''\<rparr>]
       (Some (Accept))\<rparr>"

definition edge_st_parse_mpls1 :: state where
  "edge_st_parse_mpls1 =
     \<lparr>st_name = ''parse_mpls1'',
      st_extracts = [\<lparr>ex_header_type = ''mpls'', ex_instance = [], ex_lookahead = False\<rparr>],
      st_assigns = [],
      st_region_ops = [],
      st_transition = Select [Field ''mpls'' ''bos'']
       [\<lparr>arm_entries = [Value 0], arm_next = ToState ''parse_mpls2''\<rparr>,
        \<lparr>arm_entries = [Value 1], arm_next = ToState ''parse_payload_nibble''\<rparr>]
       (Some (Accept))\<rparr>"

definition edge_st_parse_mpls2 :: state where
  "edge_st_parse_mpls2 =
     \<lparr>st_name = ''parse_mpls2'',
      st_extracts = [\<lparr>ex_header_type = ''mpls'', ex_instance = [], ex_lookahead = False\<rparr>],
      st_assigns = [],
      st_region_ops = [],
      st_transition = Select [Field ''mpls'' ''bos'']
       [\<lparr>arm_entries = [Value 1], arm_next = ToState ''parse_payload_nibble''\<rparr>]
       (Some (Accept))\<rparr>"

definition edge_st_parse_payload_nibble :: state where
  "edge_st_parse_payload_nibble =
     \<lparr>st_name = ''parse_payload_nibble'',
      st_extracts = [\<lparr>ex_header_type = ''mpls_payload_nibble'', ex_instance = [], ex_lookahead = True\<rparr>],
      st_assigns = [],
      st_region_ops = [],
      st_transition = Select [Field ''mpls_payload_nibble'' ''v'']
       [\<lparr>arm_entries = [Value 0], arm_next = ToState ''parse_eompls''\<rparr>,
        \<lparr>arm_entries = [Value 4], arm_next = ToState ''parse_ipv4''\<rparr>,
        \<lparr>arm_entries = [Value 6], arm_next = ToState ''parse_ipv6''\<rparr>]
       (Some (Accept))\<rparr>"

definition edge_st_parse_ipv4 :: state where
  "edge_st_parse_ipv4 =
     \<lparr>st_name = ''parse_ipv4'',
      st_extracts = [\<lparr>ex_header_type = ''ipv4'', ex_instance = [], ex_lookahead = False\<rparr>],
      st_assigns = [],
      st_region_ops = [],
      st_transition = Direct (Accept)\<rparr>"

definition edge_st_parse_ipv6 :: state where
  "edge_st_parse_ipv6 =
     \<lparr>st_name = ''parse_ipv6'',
      st_extracts = [\<lparr>ex_header_type = ''ipv6'', ex_instance = [], ex_lookahead = False\<rparr>],
      st_assigns = [],
      st_region_ops = [],
      st_transition = Direct (Accept)\<rparr>"

definition edge_st_parse_eompls :: state where
  "edge_st_parse_eompls =
     \<lparr>st_name = ''parse_eompls'',
      st_extracts = [\<lparr>ex_header_type = ''eompls'', ex_instance = [], ex_lookahead = False\<rparr>],
      st_assigns = [],
      st_region_ops = [],
      st_transition = Direct (ToState ''parse_ethernet2'')\<rparr>"

definition edge_st_parse_ethernet2 :: state where
  "edge_st_parse_ethernet2 =
     \<lparr>st_name = ''parse_ethernet2'',
      st_extracts = [\<lparr>ex_header_type = ''ethernet'', ex_instance = ''ethernet2'', ex_lookahead = False\<rparr>],
      st_assigns = [],
      st_region_ops = [],
      st_transition = Direct (Accept)\<rparr>"

definition edge_ir :: parser where
  "edge_ir =
     \<lparr>p_header_types = [edge_ht_ethernet, edge_ht_mpls, edge_ht_mpls_payload_nibble, edge_ht_ipv4, edge_ht_ipv6, edge_ht_eompls],
      p_states = [edge_st_parse_ethernet,
        edge_st_parse_mpls1,
        edge_st_parse_mpls2,
        edge_st_parse_payload_nibble,
        edge_st_parse_ipv4,
        edge_st_parse_ipv6,
        edge_st_parse_eompls,
        edge_st_parse_ethernet2],
      p_start_state = ''parse_ethernet'', p_max_depth = 7,
      p_metadata = []\<rparr>"

section \<open>The members of the result struct\<close>

definition edge_members :: "edge_result member list" where
  "edge_members =
     [(SPresent ''ethernet'', (\<lambda>o'. ucast (edge_ethernet_present o')), (\<lambda>v o'. o'\<lparr>edge_ethernet_present := ucast v\<rparr>), 8),
      (SFld ''ethernet'' ''dst_addr'', (\<lambda>o'. edge_ethernet_dst_addr (edge_ethernet o')), edge_set_ethernet_dst_addr, 64),
      (SFld ''ethernet'' ''src_addr'', (\<lambda>o'. edge_ethernet_src_addr (edge_ethernet o')), edge_set_ethernet_src_addr, 64),
      (SFld ''ethernet'' ''ether_type'', (\<lambda>o'. ucast (edge_ethernet_ether_type (edge_ethernet o'))), edge_set_ethernet_ether_type, 16),
      (SPresent ''mpls'', (\<lambda>o'. ucast (edge_mpls_present o')), (\<lambda>v o'. o'\<lparr>edge_mpls_present := ucast v\<rparr>), 8),
      (SFld ''mpls'' ''label'', (\<lambda>o'. ucast (edge_mpls_label (edge_mpls o'))), edge_set_mpls_label, 32),
      (SFld ''mpls'' ''tc'', (\<lambda>o'. ucast (edge_mpls_tc (edge_mpls o'))), edge_set_mpls_tc, 8),
      (SFld ''mpls'' ''bos'', (\<lambda>o'. ucast (edge_mpls_bos (edge_mpls o'))), edge_set_mpls_bos, 8),
      (SFld ''mpls'' ''ttl'', (\<lambda>o'. ucast (edge_mpls_ttl (edge_mpls o'))), edge_set_mpls_ttl, 8),
      (SPresent ''mpls_payload_nibble'', (\<lambda>o'. ucast (edge_mpls_payload_nibble_present o')), (\<lambda>v o'. o'\<lparr>edge_mpls_payload_nibble_present := ucast v\<rparr>), 8),
      (SFld ''mpls_payload_nibble'' ''v'', (\<lambda>o'. ucast (edge_mpls_payload_nibble_v (edge_mpls_payload_nibble o'))), edge_set_mpls_payload_nibble_v, 8),
      (SPresent ''ipv4'', (\<lambda>o'. ucast (edge_ipv4_present o')), (\<lambda>v o'. o'\<lparr>edge_ipv4_present := ucast v\<rparr>), 8),
      (SFld ''ipv4'' ''version'', (\<lambda>o'. ucast (edge_ipv4_version (edge_ipv4 o'))), edge_set_ipv4_version, 8),
      (SFld ''ipv4'' ''ihl'', (\<lambda>o'. ucast (edge_ipv4_ihl (edge_ipv4 o'))), edge_set_ipv4_ihl, 8),
      (SFld ''ipv4'' ''diffserv'', (\<lambda>o'. ucast (edge_ipv4_diffserv (edge_ipv4 o'))), edge_set_ipv4_diffserv, 8),
      (SFld ''ipv4'' ''total_len'', (\<lambda>o'. ucast (edge_ipv4_total_len (edge_ipv4 o'))), edge_set_ipv4_total_len, 16),
      (SFld ''ipv4'' ''identification'', (\<lambda>o'. ucast (edge_ipv4_identification (edge_ipv4 o'))), edge_set_ipv4_identification, 16),
      (SFld ''ipv4'' ''flags'', (\<lambda>o'. ucast (edge_ipv4_flags (edge_ipv4 o'))), edge_set_ipv4_flags, 8),
      (SFld ''ipv4'' ''frag_offset'', (\<lambda>o'. ucast (edge_ipv4_frag_offset (edge_ipv4 o'))), edge_set_ipv4_frag_offset, 16),
      (SFld ''ipv4'' ''ttl'', (\<lambda>o'. ucast (edge_ipv4_ttl (edge_ipv4 o'))), edge_set_ipv4_ttl, 8),
      (SFld ''ipv4'' ''protocol'', (\<lambda>o'. ucast (edge_ipv4_protocol (edge_ipv4 o'))), edge_set_ipv4_protocol, 8),
      (SFld ''ipv4'' ''hdr_checksum'', (\<lambda>o'. ucast (edge_ipv4_hdr_checksum (edge_ipv4 o'))), edge_set_ipv4_hdr_checksum, 16),
      (SFld ''ipv4'' ''src_addr'', (\<lambda>o'. ucast (edge_ipv4_src_addr (edge_ipv4 o'))), edge_set_ipv4_src_addr, 32),
      (SFld ''ipv4'' ''dst_addr'', (\<lambda>o'. ucast (edge_ipv4_dst_addr (edge_ipv4 o'))), edge_set_ipv4_dst_addr, 32),
      (SOff ''ipv4'' ''options'', (\<lambda>o'. edge_ipv4_options_bit_off (edge_ipv4 o')), edge_set_ipv4_options_bit_off, 64),
      (SLen ''ipv4'' ''options'', (\<lambda>o'. edge_ipv4_options_bit_len (edge_ipv4 o')), edge_set_ipv4_options_bit_len, 64),
      (SPresent ''ipv6'', (\<lambda>o'. ucast (edge_ipv6_present o')), (\<lambda>v o'. o'\<lparr>edge_ipv6_present := ucast v\<rparr>), 8),
      (SFld ''ipv6'' ''version'', (\<lambda>o'. ucast (edge_ipv6_version (edge_ipv6 o'))), edge_set_ipv6_version, 8),
      (SFld ''ipv6'' ''traffic_class'', (\<lambda>o'. ucast (edge_ipv6_traffic_class (edge_ipv6 o'))), edge_set_ipv6_traffic_class, 8),
      (SFld ''ipv6'' ''flow_label'', (\<lambda>o'. ucast (edge_ipv6_flow_label (edge_ipv6 o'))), edge_set_ipv6_flow_label, 32),
      (SFld ''ipv6'' ''payload_len'', (\<lambda>o'. ucast (edge_ipv6_payload_len (edge_ipv6 o'))), edge_set_ipv6_payload_len, 16),
      (SFld ''ipv6'' ''next_hdr'', (\<lambda>o'. ucast (edge_ipv6_next_hdr (edge_ipv6 o'))), edge_set_ipv6_next_hdr, 8),
      (SFld ''ipv6'' ''hop_limit'', (\<lambda>o'. ucast (edge_ipv6_hop_limit (edge_ipv6 o'))), edge_set_ipv6_hop_limit, 8),
      (SOff ''ipv6'' ''src_addr'', (\<lambda>o'. edge_ipv6_src_addr_bit_off (edge_ipv6 o')), edge_set_ipv6_src_addr_bit_off, 64),
      (SLen ''ipv6'' ''src_addr'', (\<lambda>o'. edge_ipv6_src_addr_bit_len (edge_ipv6 o')), edge_set_ipv6_src_addr_bit_len, 64),
      (SOff ''ipv6'' ''dst_addr'', (\<lambda>o'. edge_ipv6_dst_addr_bit_off (edge_ipv6 o')), edge_set_ipv6_dst_addr_bit_off, 64),
      (SLen ''ipv6'' ''dst_addr'', (\<lambda>o'. edge_ipv6_dst_addr_bit_len (edge_ipv6 o')), edge_set_ipv6_dst_addr_bit_len, 64),
      (SPresent ''eompls'', (\<lambda>o'. ucast (edge_eompls_present o')), (\<lambda>v o'. o'\<lparr>edge_eompls_present := ucast v\<rparr>), 8),
      (SFld ''eompls'' ''zero'', (\<lambda>o'. ucast (edge_eompls_zero (edge_eompls o'))), edge_set_eompls_zero, 8),
      (SFld ''eompls'' ''reserved'', (\<lambda>o'. ucast (edge_eompls_reserved (edge_eompls o'))), edge_set_eompls_reserved, 16),
      (SFld ''eompls'' ''seq_no'', (\<lambda>o'. ucast (edge_eompls_seq_no (edge_eompls o'))), edge_set_eompls_seq_no, 16),
      (SPresent ''ethernet2'', (\<lambda>o'. ucast (edge_ethernet2_present o')), (\<lambda>v o'. o'\<lparr>edge_ethernet2_present := ucast v\<rparr>), 8),
      (SFld ''ethernet2'' ''dst_addr'', (\<lambda>o'. edge_ethernet2_dst_addr (edge_ethernet2 o')), edge_set_ethernet2_dst_addr, 64),
      (SFld ''ethernet2'' ''src_addr'', (\<lambda>o'. edge_ethernet2_src_addr (edge_ethernet2 o')), edge_set_ethernet2_src_addr, 64),
      (SFld ''ethernet2'' ''ether_type'', (\<lambda>o'. ucast (edge_ethernet2_ether_type (edge_ethernet2 o'))), edge_set_ethernet2_ether_type, 16)]"

lemma edge_layout: "layout_ok edge_members edge_zero"
  by (simp add: layout_ok_def edge_members_def edge_zero_def read_all_def)

lemmas edge_member [simp] = members_all [OF edge_layout edge_members_def, unfolded list.pred_inject prod.case]

section \<open>The certificate\<close>

definition edge_align :: "string \<Rightarrow> nat option" where
  "edge_align = map_of [(''parse_ethernet'', 0), (''parse_mpls1'', 0), (''parse_mpls2'', 0), (''parse_payload_nibble'', 0), (''parse_ipv4'', 0), (''parse_ipv6'', 0), (''parse_eompls'', 0), (''parse_ethernet2'', 0)]"

definition edge_depth :: "string \<Rightarrow> nat" where
  "edge_depth n = (case map_of [] n of None \<Rightarrow> 0 | Some d \<Rightarrow> d)"

definition edge_known :: "string \<Rightarrow> names" where
  "edge_known n = (case map_of
     [(''parse_mpls1'', [(''ethernet'', ''ether_type'')]),
      (''parse_mpls2'', [(''ethernet'', ''ether_type''), (''mpls'', ''bos'')]),
      (''parse_payload_nibble'', [(''ethernet'', ''ether_type''), (''mpls'', ''bos'')]),
      (''parse_ipv4'', [(''ethernet'', ''ether_type'')]),
      (''parse_ipv6'', [(''ethernet'', ''ether_type'')]),
      (''parse_eompls'', [(''ethernet'', ''ether_type''), (''mpls'', ''bos''), (''mpls_payload_nibble'', ''v'')]),
      (''parse_ethernet2'', [(''ethernet'', ''ether_type''), (''mpls'', ''bos''), (''mpls_payload_nibble'', ''v'')])] n of None \<Rightarrow> [] | Some b \<Rightarrow> b)"

lemmas edge_ir_defs = edge_ir_def edge_ht_ethernet_def edge_ht_mpls_def edge_ht_mpls_payload_nibble_def edge_ht_ipv4_def edge_ht_ipv6_def edge_ht_eompls_def
  edge_st_parse_ethernet_def edge_st_parse_mpls1_def edge_st_parse_mpls2_def edge_st_parse_payload_nibble_def edge_st_parse_ipv4_def edge_st_parse_ipv6_def edge_st_parse_eompls_def edge_st_parse_ethernet2_def

text \<open>Everything the emitter computes from the description alone, evaluated.\<close>

lemma edge_wf: "wf_ok edge_ir edge_known edge_depth"
  by code_simp

lemma edge_evaluated:
  "list_all (\<lambda>(st, i, f, n, b). byte_load edge_ir edge_align st i f n = b)
     [(edge_st_parse_ethernet, ''ethernet'', ''dst_addr'', 48, True),
      (edge_st_parse_ethernet, ''ethernet'', ''src_addr'', 48, True),
      (edge_st_parse_ethernet, ''ethernet'', ''ether_type'', 16, True),
      (edge_st_parse_mpls1, ''mpls'', ''label'', 20, False),
      (edge_st_parse_mpls1, ''mpls'', ''tc'', 3, False),
      (edge_st_parse_mpls1, ''mpls'', ''bos'', 1, False),
      (edge_st_parse_mpls1, ''mpls'', ''ttl'', 8, True),
      (edge_st_parse_mpls2, ''mpls'', ''label'', 20, False),
      (edge_st_parse_mpls2, ''mpls'', ''tc'', 3, False),
      (edge_st_parse_mpls2, ''mpls'', ''bos'', 1, False),
      (edge_st_parse_mpls2, ''mpls'', ''ttl'', 8, True),
      (edge_st_parse_payload_nibble, ''mpls_payload_nibble'', ''v'', 4, False),
      (edge_st_parse_ipv4, ''ipv4'', ''version'', 4, False),
      (edge_st_parse_ipv4, ''ipv4'', ''ihl'', 4, False),
      (edge_st_parse_ipv4, ''ipv4'', ''diffserv'', 8, True),
      (edge_st_parse_ipv4, ''ipv4'', ''total_len'', 16, True),
      (edge_st_parse_ipv4, ''ipv4'', ''identification'', 16, True),
      (edge_st_parse_ipv4, ''ipv4'', ''flags'', 3, False),
      (edge_st_parse_ipv4, ''ipv4'', ''frag_offset'', 13, False),
      (edge_st_parse_ipv4, ''ipv4'', ''ttl'', 8, True),
      (edge_st_parse_ipv4, ''ipv4'', ''protocol'', 8, True),
      (edge_st_parse_ipv4, ''ipv4'', ''hdr_checksum'', 16, True),
      (edge_st_parse_ipv4, ''ipv4'', ''src_addr'', 32, True),
      (edge_st_parse_ipv4, ''ipv4'', ''dst_addr'', 32, True),
      (edge_st_parse_ipv6, ''ipv6'', ''version'', 4, False),
      (edge_st_parse_ipv6, ''ipv6'', ''traffic_class'', 8, False),
      (edge_st_parse_ipv6, ''ipv6'', ''flow_label'', 20, False),
      (edge_st_parse_ipv6, ''ipv6'', ''payload_len'', 16, True),
      (edge_st_parse_ipv6, ''ipv6'', ''next_hdr'', 8, True),
      (edge_st_parse_ipv6, ''ipv6'', ''hop_limit'', 8, True),
      (edge_st_parse_eompls, ''eompls'', ''zero'', 4, False),
      (edge_st_parse_eompls, ''eompls'', ''reserved'', 12, False),
      (edge_st_parse_eompls, ''eompls'', ''seq_no'', 16, True),
      (edge_st_parse_ethernet2, ''ethernet2'', ''dst_addr'', 48, True),
      (edge_st_parse_ethernet2, ''ethernet2'', ''src_addr'', 48, True),
      (edge_st_parse_ethernet2, ''ethernet2'', ''ether_type'', 16, True)] \<and>
   list_all (\<lambda>(n, h). find_header_type edge_ir n = Some h)
     [(''ethernet'', edge_ht_ethernet),
      (''mpls'', edge_ht_mpls),
      (''mpls_payload_nibble'', edge_ht_mpls_payload_nibble),
      (''ipv4'', edge_ht_ipv4),
      (''ipv6'', edge_ht_ipv6),
      (''eompls'', edge_ht_eompls)] \<and>
   list_all (\<lambda>(n, k). state_id edge_ir n = k)
     [(''parse_ethernet'', 0),
      (''parse_mpls1'', 1),
      (''parse_mpls2'', 2),
      (''parse_payload_nibble'', 3),
      (''parse_ipv4'', 4),
      (''parse_ipv6'', 5),
      (''parse_eompls'', 6),
      (''parse_ethernet2'', 7)] \<and>
   list_all (\<lambda>(r, k). reason_code edge_ir r = k)
     [] \<and>
   region_cap edge_ir = 0 \<and> region_mask edge_ir = 0 \<and> region_slots edge_ir = 0 \<and>
   list_all (\<lambda>(n, a). edge_align n = a)
     [(''parse_ethernet'', Some 0),
      (''parse_mpls1'', Some 0),
      (''parse_mpls2'', Some 0),
      (''parse_payload_nibble'', Some 0),
      (''parse_ipv4'', Some 0),
      (''parse_ipv6'', Some 0),
      (''parse_eompls'', Some 0),
      (''parse_ethernet2'', Some 0)] \<and>
   list_all (\<lambda>(n, d). edge_depth n = d)
     [(''parse_ethernet'', 0), (''parse_mpls1'', 0), (''parse_mpls2'', 0), (''parse_payload_nibble'', 0), (''parse_ipv4'', 0), (''parse_ipv6'', 0), (''parse_eompls'', 0), (''parse_ethernet2'', 0)] \<and>
   reasons_fit edge_ir \<and> meta_decl_ok edge_ir \<and> core_compiles edge_ir"
  by code_simp

lemmas edge_emit_eval [simp] = edge_evaluated [unfolded list.pred_inject prod.case]

section \<open>The emitted code is the generated file\<close>

lemmas edge_st_parse_ethernet_sel = edge_st_parse_ethernet_def [THEN arg_cong [of _ _ st_name], simplified state.simps]
  edge_st_parse_ethernet_def [THEN arg_cong [of _ _ st_extracts], simplified state.simps]
  edge_st_parse_ethernet_def [THEN arg_cong [of _ _ st_assigns], simplified state.simps]
  edge_st_parse_ethernet_def [THEN arg_cong [of _ _ st_region_ops], simplified state.simps]
  edge_st_parse_ethernet_def [THEN arg_cong [of _ _ st_transition], simplified state.simps]

lemmas edge_st_parse_mpls1_sel = edge_st_parse_mpls1_def [THEN arg_cong [of _ _ st_name], simplified state.simps]
  edge_st_parse_mpls1_def [THEN arg_cong [of _ _ st_extracts], simplified state.simps]
  edge_st_parse_mpls1_def [THEN arg_cong [of _ _ st_assigns], simplified state.simps]
  edge_st_parse_mpls1_def [THEN arg_cong [of _ _ st_region_ops], simplified state.simps]
  edge_st_parse_mpls1_def [THEN arg_cong [of _ _ st_transition], simplified state.simps]

lemmas edge_st_parse_mpls2_sel = edge_st_parse_mpls2_def [THEN arg_cong [of _ _ st_name], simplified state.simps]
  edge_st_parse_mpls2_def [THEN arg_cong [of _ _ st_extracts], simplified state.simps]
  edge_st_parse_mpls2_def [THEN arg_cong [of _ _ st_assigns], simplified state.simps]
  edge_st_parse_mpls2_def [THEN arg_cong [of _ _ st_region_ops], simplified state.simps]
  edge_st_parse_mpls2_def [THEN arg_cong [of _ _ st_transition], simplified state.simps]

lemmas edge_st_parse_payload_nibble_sel = edge_st_parse_payload_nibble_def [THEN arg_cong [of _ _ st_name], simplified state.simps]
  edge_st_parse_payload_nibble_def [THEN arg_cong [of _ _ st_extracts], simplified state.simps]
  edge_st_parse_payload_nibble_def [THEN arg_cong [of _ _ st_assigns], simplified state.simps]
  edge_st_parse_payload_nibble_def [THEN arg_cong [of _ _ st_region_ops], simplified state.simps]
  edge_st_parse_payload_nibble_def [THEN arg_cong [of _ _ st_transition], simplified state.simps]

lemmas edge_st_parse_ipv4_sel = edge_st_parse_ipv4_def [THEN arg_cong [of _ _ st_name], simplified state.simps]
  edge_st_parse_ipv4_def [THEN arg_cong [of _ _ st_extracts], simplified state.simps]
  edge_st_parse_ipv4_def [THEN arg_cong [of _ _ st_assigns], simplified state.simps]
  edge_st_parse_ipv4_def [THEN arg_cong [of _ _ st_region_ops], simplified state.simps]
  edge_st_parse_ipv4_def [THEN arg_cong [of _ _ st_transition], simplified state.simps]

lemmas edge_st_parse_ipv6_sel = edge_st_parse_ipv6_def [THEN arg_cong [of _ _ st_name], simplified state.simps]
  edge_st_parse_ipv6_def [THEN arg_cong [of _ _ st_extracts], simplified state.simps]
  edge_st_parse_ipv6_def [THEN arg_cong [of _ _ st_assigns], simplified state.simps]
  edge_st_parse_ipv6_def [THEN arg_cong [of _ _ st_region_ops], simplified state.simps]
  edge_st_parse_ipv6_def [THEN arg_cong [of _ _ st_transition], simplified state.simps]

lemmas edge_st_parse_eompls_sel = edge_st_parse_eompls_def [THEN arg_cong [of _ _ st_name], simplified state.simps]
  edge_st_parse_eompls_def [THEN arg_cong [of _ _ st_extracts], simplified state.simps]
  edge_st_parse_eompls_def [THEN arg_cong [of _ _ st_assigns], simplified state.simps]
  edge_st_parse_eompls_def [THEN arg_cong [of _ _ st_region_ops], simplified state.simps]
  edge_st_parse_eompls_def [THEN arg_cong [of _ _ st_transition], simplified state.simps]

lemmas edge_st_parse_ethernet2_sel = edge_st_parse_ethernet2_def [THEN arg_cong [of _ _ st_name], simplified state.simps]
  edge_st_parse_ethernet2_def [THEN arg_cong [of _ _ st_extracts], simplified state.simps]
  edge_st_parse_ethernet2_def [THEN arg_cong [of _ _ st_assigns], simplified state.simps]
  edge_st_parse_ethernet2_def [THEN arg_cong [of _ _ st_region_ops], simplified state.simps]
  edge_st_parse_ethernet2_def [THEN arg_cong [of _ _ st_transition], simplified state.simps]

lemmas edge_ir_sel = edge_ir_def [THEN arg_cong [of _ _ p_states], simplified parser.simps]
  edge_ir_def [THEN arg_cong [of _ _ p_start_state], simplified parser.simps]
  edge_ir_def [THEN arg_cong [of _ _ p_max_depth], simplified parser.simps]
  edge_ir_def [THEN arg_cong [of _ _ p_metadata], simplified parser.simps]

lemma edge_emit_ok:
  "emit_ok edge_ir edge_align edge_depth (member_slots edge_members) (member_width edge_members)"
  by (simp add: emit_ok_eval edge_ir_sel
    edge_st_parse_ethernet_sel
    edge_st_parse_mpls1_sel
    edge_st_parse_mpls2_sel
    edge_st_parse_payload_nibble_sel
    edge_st_parse_ipv4_sel
    edge_st_parse_ipv6_sel
    edge_st_parse_eompls_sel
    edge_st_parse_ethernet2_sel
    edge_ht_ethernet_def edge_ht_mpls_def edge_ht_mpls_payload_nibble_def edge_ht_ipv4_def edge_ht_ipv6_def edge_ht_eompls_def)

lemma edge_emit_parse_ethernet:
  "emit_state edge_ir edge_align rd bit_len (member_get edge_members) (member_put edge_members) edge_st_parse_ethernet =
     edge_case_parse_ethernet rd bit_len"
  unfolding edge_case_parse_ethernet_def
  by (simp add: emit_eval edge_st_parse_ethernet_sel edge_ht_ethernet_def
      del: One_nat_def)

lemma edge_emit_parse_mpls1:
  "emit_state edge_ir edge_align rd bit_len (member_get edge_members) (member_put edge_members) edge_st_parse_mpls1 =
     edge_case_parse_mpls1 rd bit_len"
  unfolding edge_case_parse_mpls1_def
  by (simp add: emit_eval edge_st_parse_mpls1_sel edge_ht_mpls_def
      del: One_nat_def)

lemma edge_emit_parse_mpls2:
  "emit_state edge_ir edge_align rd bit_len (member_get edge_members) (member_put edge_members) edge_st_parse_mpls2 =
     edge_case_parse_mpls2 rd bit_len"
  unfolding edge_case_parse_mpls2_def
  by (simp add: emit_eval edge_st_parse_mpls2_sel edge_ht_mpls_def
      del: One_nat_def)

lemma edge_emit_parse_payload_nibble:
  "emit_state edge_ir edge_align rd bit_len (member_get edge_members) (member_put edge_members) edge_st_parse_payload_nibble =
     edge_case_parse_payload_nibble rd bit_len"
  unfolding edge_case_parse_payload_nibble_def
  by (simp add: emit_eval edge_st_parse_payload_nibble_sel edge_ht_mpls_payload_nibble_def
      del: One_nat_def)

lemma edge_emit_parse_ipv4:
  "emit_state edge_ir edge_align rd bit_len (member_get edge_members) (member_put edge_members) edge_st_parse_ipv4 =
     edge_case_parse_ipv4 rd bit_len"
  unfolding edge_case_parse_ipv4_def
  by (simp add: emit_eval edge_st_parse_ipv4_sel edge_ht_ipv4_def
      del: One_nat_def)

lemma edge_emit_parse_ipv6:
  "emit_state edge_ir edge_align rd bit_len (member_get edge_members) (member_put edge_members) edge_st_parse_ipv6 =
     edge_case_parse_ipv6 rd bit_len"
  unfolding edge_case_parse_ipv6_def
  by (simp add: emit_eval edge_st_parse_ipv6_sel edge_ht_ipv6_def
      del: One_nat_def)

lemma edge_emit_parse_eompls:
  "emit_state edge_ir edge_align rd bit_len (member_get edge_members) (member_put edge_members) edge_st_parse_eompls =
     edge_case_parse_eompls rd bit_len"
  unfolding edge_case_parse_eompls_def
  by (simp add: emit_eval edge_st_parse_eompls_sel edge_ht_eompls_def
      del: One_nat_def)

lemma edge_emit_parse_ethernet2:
  "emit_state edge_ir edge_align rd bit_len (member_get edge_members) (member_put edge_members) edge_st_parse_ethernet2 =
     edge_case_parse_ethernet2 rd bit_len"
  unfolding edge_case_parse_ethernet2_def
  by (simp add: emit_eval edge_st_parse_ethernet2_sel edge_ht_ethernet_def
      del: One_nat_def)

lemma edge_fits: "fits_u32 edge_ir"
  by (simp add: fits_u32_def edge_ir_sel)

lemma edge_emit_switch:
  "emit_switch edge_ir edge_align rd bit_len (member_get edge_members) (member_put edge_members) = edge_switch rd bit_len"
  by (simp add: emit_switch_def edge_ir_sel edge_switch_def
    edge_st_parse_ethernet_sel(1) edge_st_parse_mpls1_sel(1) edge_st_parse_mpls2_sel(1)
    edge_st_parse_payload_nibble_sel(1) edge_st_parse_ipv4_sel(1) edge_st_parse_ipv6_sel(1)
    edge_st_parse_eompls_sel(1) edge_st_parse_ethernet2_sel(1)
    edge_emit_parse_ethernet edge_emit_parse_mpls1 edge_emit_parse_mpls2 edge_emit_parse_payload_nibble
    edge_emit_parse_ipv4 edge_emit_parse_ipv6 edge_emit_parse_eompls edge_emit_parse_ethernet2)

lemma edge_emit_core:
  "emit_core edge_ir edge_align rd bit_len (member_get edge_members) (member_put edge_members) o' =
     edge_parse_core rd bit_len o'"
  unfolding emit_core_def edge_parse_core_def edge_emit_switch
  by (simp add: edge_ir_sel emit_init_meta_def)

section \<open>Refinement\<close>

interpretation edge: emitted_parser "member_get edge_members" "member_put edge_members"
  "member_slots edge_members" "member_width edge_members" edge_zero buf_at plain_capacity
  by (rule emitted_plain [OF edge_layout])

interpretation edge_bpf: emitted_parser "member_get edge_members" "member_put edge_members"
  "member_slots edge_members" "member_width edge_members" edge_zero buf_at_masked masked_capacity
  by (rule emitted_masked [OF edge_layout])

text \<open>
  C17: \<open>pk_gibb_edge_parse\<close> and the reference interpreter agree on every packet, whatever its bytes
  and however many of its bits are declared: the interpreter returns a result, the C returns (within
  7 iterations, without reading outside the buffer or an unset region slot) with the same verdict,
  reason, consumed bits, header fields and metadata. The one exception, the reason of a pop inside a
  truncated region, is part of \<open>result_agrees\<close>.
\<close>

theorem edge_parse_refines:
  assumes "length buf \<le> plain_capacity" and "unat bit_len \<le> 8 * length buf"
  shows "\<exists>res ret r. run_bits edge_ir buf (unat bit_len) = Inr res \<and>
    edge_parse (buf_at buf) bit_len o' = Return ret r \<and>
    result_agrees edge_ir (member_get edge_members) (member_slots edge_members) res ret r"
proof -
  obtain res where run: "run_bits edge_ir buf (unat bit_len) = Inr res"
    using run_bits_total [OF edge_wf assms(2)] by auto
  show ?thesis
    using edge.emit_core_refines [OF edge_emit_ok edge_fits assms run] run
    by (auto simp: edge_parse_def edge_emit_core)
qed

theorem edge_parse_refines_witness:
  "\<exists>res ret r. run_bits edge_ir [0, 1] 16 = Inr res \<and>
    edge_parse (buf_at [0, 1]) 16 edge_zero = Return ret r \<and>
    result_agrees edge_ir (member_get edge_members) (member_slots edge_members) res ret r"
  using edge_parse_refines [of "[0, 1]" 16 edge_zero] by simp

end
