(* ===== verification/Ir_Validate.thy ===== *)
theory Ir_Validate
  imports Ir_Names
begin

text \<open>
  The validator, \<open>validate_with_limits\<close> of rust/pakeles/src/ir/validate.rs, on a decoded parser. Every
  \<open>errs.push\<close> is a \<open>violation\<close> carrying the names its message shows, and the list is
  in the code's order. Checks of what the decoded record cannot express (an unset \<open>oneof\<close>, an enum
  value outside the enum, the version string, value labels, the free-form severity) are in
  Ir_Message_Validate, which runs these functions on the content of a message. The
  last two phases run only when everything before found nothing: definite extraction is in
  Ir_Definite, region depth in Ir_Region_Depth.
\<close>

text \<open>The limits; integers, so that comparing with them never counts up to one.\<close>

record limits =
  max_parse_depth :: int
  max_states :: int
  max_header_types :: int
  max_fields :: int
  max_extracts :: int
  max_expression_depth :: int

definition default_limits :: limits where
  "default_limits =
     \<lparr>max_parse_depth = 4096, max_states = 10000, max_header_types = 10000, max_fields = 100000,
      max_extracts = 100000, max_expression_depth = 64\<rparr>"

datatype size_problem =
    DepthZero | DepthExceedsLimit nat | TooManyStates nat | TooManyHeaderTypes nat |
    TooManyFields nat | TooManyExtracts nat | ExpressionTooDeep int

datatype naming_problem =
    EmptySymbol string | NotPortable string string | DuplicateHeaderType string | DuplicateField
    string string | DuplicateMetadata string | DuplicateState string | UnknownStartState string
    | EmptyReason string | ReservedInstance string

datatype collision_problem =
    FieldCollision string string string string string | MemberCollision string string string |
    MetadataCollision string string string | P4MetadataCollision string string string |
    ReasonCollision string string string | InstanceTypeClash string string string

datatype shape_problem =
    FieldWidthRange string string nat | MetadataWidthRange string nat | MetadataInitRange string
    u64 nat | VariableLookahead string string string | NoKeys string | ArmArity string nat nat |
    InvalidRange string u64 u64 | EntryTooWide string nat | NoDefault string |
    UnspecifiedOperator

datatype reference_problem =
    UnknownExtractType string string | UnknownInstance string | UnknownField string string |
    UndeclaredMetadata string | UnknownTarget string string | EmptyFieldRef | EmptyMetadataRef

datatype length_problem =
    WidthUsesMetadata string string | WidthUsesRemaining string string | PushUsesMetadata string
    nat | PushUsesRemaining string nat

datatype flow_problem =
    NotDefinitelyExtracted string string string | RemainingOutsideRegion string |
    PopOutsideRegion string nat | DepthMismatch string nat nat

datatype violation =
    TooBig size_problem | Naming naming_problem | Collision collision_problem | Shape shape_problem
  | Dangling reference_problem | Impure length_problem | Flow flow_problem

definition validate_symbol :: "string \<Rightarrow> string \<Rightarrow> violation list" where
  "validate_symbol role name =
     (if name = [] then [Naming (EmptySymbol role)]
      else if \<not> is_portable_ident name then [Naming (NotPortable role name)] else [])"

text \<open>
  The two writers thread a state: \<open>chain r f\<close> runs \<open>f\<close> on the state \<open>r\<close> left and appends its findings.
\<close>

definition chain :: "'e list \<times> 's \<Rightarrow> ('s \<Rightarrow> 'e list \<times> 's) \<Rightarrow> 'e list \<times> 's" where
  "chain r f = (let r' = f (snd r) in (fst r @ fst r', snd r'))"

lemma chain_none: "fst (chain r f) = [] \<longleftrightarrow> fst r = [] \<and> fst (f (snd r)) = []"
  by (simp add: chain_def Let_def)

section \<open>Expressions\<close>

primrec validate_expr :: "limits \<Rightarrow> nat \<Rightarrow> expr \<Rightarrow> violation list" where
  "validate_expr l d (Constant v) =
     (if int d > max_expression_depth l then [TooBig (ExpressionTooDeep (max_expression_depth l))] else [])"
| "validate_expr l d Remaining =
     (if int d > max_expression_depth l then [TooBig (ExpressionTooDeep (max_expression_depth l))] else [])"
| "validate_expr l d (Field h f) =
     (if int d > max_expression_depth l then [TooBig (ExpressionTooDeep (max_expression_depth l))]
      else if h = [] \<or> f = [] then [Dangling EmptyFieldRef] else [])"
| "validate_expr l d (Metadata m) =
     (if int d > max_expression_depth l then [TooBig (ExpressionTooDeep (max_expression_depth l))]
      else if m = [] then [Dangling EmptyMetadataRef] else [])"
| "validate_expr l d (Bin op a b) =
     (if int d > max_expression_depth l then [TooBig (ExpressionTooDeep (max_expression_depth l))]
      else (if op = OpUnspecified then [Shape UnspecifiedOperator] else []) @
           validate_expr l (Suc d) b @ validate_expr l (Suc d) a)"

section \<open>Sizes\<close>

definition size_violations :: "limits \<Rightarrow> parser \<Rightarrow> violation list" where
  "size_violations l p =
     (if p_max_depth p = 0 then [TooBig DepthZero]
      else if int (p_max_depth p) > max_parse_depth l then [TooBig (DepthExceedsLimit (p_max_depth p))] else []) @
     (if int (length (p_states p)) > max_states l then [TooBig (TooManyStates (length (p_states p)))] else []) @
     (if int (length (p_header_types p)) > max_header_types l
      then [TooBig (TooManyHeaderTypes (length (p_header_types p)))] else []) @
     (let n = sum_list (map (length \<circ> ht_fields) (p_header_types p))
      in if int n > max_fields l then [TooBig (TooManyFields n)] else []) @
     (let n = sum_list (map (length \<circ> st_extracts) (p_states p))
      in if int n > max_extracts l then [TooBig (TooManyExtracts n)] else [])"

section \<open>Header types and metadata\<close>

definition emitted_members :: "field \<Rightarrow> ((string \<times> string) \<times> string) list" where
  "emitted_members f =
     (case field_width f of
        BitLen _ \<Rightarrow>
          [((''C'', c_ident (field_name f) @ ''_bit_off''), field_name f),
           ((''C'', c_ident (field_name f) @ ''_bit_len''), field_name f)]
      | Bits _ \<Rightarrow> [((''C'', c_ident (field_name f)), field_name f)]) @
     [((''P4'', p4_ident (field_name f)), field_name f)]"

primrec field_violations ::
  "string \<Rightarrow> string list \<Rightarrow> ((string \<times> string) \<times> string) list \<Rightarrow> field list \<Rightarrow> violation list"
where
  "field_violations ht seen members [] = []"
| "field_violations ht seen members (f # fs) =
     validate_symbol ''field'' (field_name f) @
     (if field_name f \<in> set seen then [Naming (DuplicateField ht (field_name f))] else []) @
     (case field_width f of
        Bits b \<Rightarrow> if 1 \<le> b \<and> b \<le> 64 then [] else [Shape (FieldWidthRange ht (field_name f) b)]
      | BitLen _ \<Rightarrow> []) @
     map (\<lambda>((backend, m), prev, _). Collision (FieldCollision ht prev (field_name f) backend m))
       (collisions members (emitted_members f)) @
     field_violations ht (field_name f # seen) (rev (emitted_members f) @ members) fs"

primrec header_violations :: "string list \<Rightarrow> header_type list \<Rightarrow> violation list" where
  "header_violations seen [] = []"
| "header_violations seen (ht # hts) =
     validate_symbol ''header type'' (ht_name ht) @
     (if ht_name ht \<in> set seen then [Naming (DuplicateHeaderType (ht_name ht))] else []) @
     field_violations (ht_name ht) [] [] (ht_fields ht) @
     header_violations (ht_name ht # seen) hts"

primrec metadata_violations :: "string list \<Rightarrow> metadata_field list \<Rightarrow> violation list" where
  "metadata_violations seen [] = []"
| "metadata_violations seen (m # ms) =
     validate_symbol ''metadata field'' (md_name m) @
     (if \<not> (1 \<le> md_bits m \<and> md_bits m \<le> 64) then [Shape (MetadataWidthRange (md_name m) (md_bits m))]
      else if md_bits m < 64 \<and> push_bit (md_bits m) 1 \<le> md_init m
      then [Shape (MetadataInitRange (md_name m) (md_init m) (md_bits m))] else []) @
     (if md_name m \<in> set seen then [Naming (DuplicateMetadata (md_name m))] else []) @
     metadata_violations (md_name m # seen) ms"

primrec state_name_violations :: "string list \<Rightarrow> state list \<Rightarrow> violation list" where
  "state_name_violations seen [] = []"
| "state_name_violations seen (s # ss) =
     validate_symbol ''state'' (st_name s) @
     (if st_name s \<in> set seen then [Naming (DuplicateState (st_name s))] else []) @
     state_name_violations (st_name s # seen) ss"

definition start_violations :: "parser \<Rightarrow> violation list" where
  "start_violations p =
     (if p_start_state p \<in> set (map st_name (p_states p)) then [] else [Naming (UnknownStartState (p_start_state p))])"

section \<open>Instances\<close>

text \<open>\<open>header_types\<close>, \<open>instances\<close> and \<open>meta_decls\<close>, the \<open>HashMap\<close>s the later checks look into.\<close>

definition header_type_map :: "parser \<Rightarrow> string \<rightharpoonup> header_type" where
  "header_type_map p = map_of (rev (map (\<lambda>h. (ht_name h, h)) (p_header_types p)))"

definition meta_widths :: "parser \<Rightarrow> string \<rightharpoonup> nat" where
  "meta_widths p = map_of (rev (map (\<lambda>m. (md_name m, md_bits m)) (p_metadata p)))"

definition all_extracts :: "parser \<Rightarrow> (string \<times> extract_op) list" where
  "all_extracts p = concat (map (\<lambda>s. map (Pair (st_name s)) (st_extracts s)) (p_states p))"

definition instance_types :: "parser \<Rightarrow> string \<rightharpoonup> string" where
  "instance_types p =
     map_of (map (\<lambda>(_, e). (instance_of e, ex_header_type e))
       (filter (\<lambda>(_, e). header_type_map p (ex_header_type e) \<noteq> None) (all_extracts p)))"

primrec instance_violations ::
  "parser \<Rightarrow> (string \<times> string) list \<Rightarrow> (string \<times> extract_op) list \<Rightarrow> violation list"
where
  "instance_violations p insts [] = []"
| "instance_violations p insts (x # xs) =
     validate_symbol ''header instance'' (instance_of (snd x)) @
     (case header_type_map p (ex_header_type (snd x)) of
        None \<Rightarrow> Dangling (UnknownExtractType (fst x) (ex_header_type (snd x))) # instance_violations p insts xs
      | Some ht \<Rightarrow>
          (case map_of insts (instance_of (snd x)) of
             None \<Rightarrow> []
           | Some t \<Rightarrow>
               if t \<noteq> ex_header_type (snd x)
               then [Collision (InstanceTypeClash (instance_of (snd x)) t (ex_header_type (snd x)))] else []) @
          (if ex_lookahead (snd x)
           then concat (map (\<lambda>f. case field_width f of
                    BitLen _ \<Rightarrow> [Shape (VariableLookahead (fst x) (ht_name ht) (field_name f))]
                  | Bits _ \<Rightarrow> []) (ht_fields ht))
           else []) @
          instance_violations p
            (if map_of insts (instance_of (snd x)) = None
             then (instance_of (snd x), ex_header_type (snd x)) # insts else insts) xs)"

section \<open>Members of the result struct\<close>

definition builtin_members :: "(string \<times> string) list" where
  "builtin_members =
     [(''outcome'', ''built-in outcome''), (''reason'', ''built-in reason''),
      (''consumed_bits'', ''built-in consumed_bits'')]"

definition distinct_instances :: "parser \<Rightarrow> string list" where
  "distinct_instances p = rev (remdups (rev (map (instance_of \<circ> snd) (all_extracts p))))"

definition instance_members :: "string \<Rightarrow> (string \<times> string) list" where
  "instance_members i = [(c_ident i, i), (c_ident i @ ''_present'', i)]"

primrec member_violations :: "(string \<times> string) list \<Rightarrow> string list \<Rightarrow> violation list" where
  "member_violations members [] = []"
| "member_violations members (i # is) =
     map (\<lambda>(m, prev, _). Collision (MemberCollision i prev m)) (collisions members (instance_members i)) @
     (if i = ''verdict'' then [Naming (ReservedInstance i)] else []) @
     member_violations (rev (instance_members i) @ members) is"

primrec metadata_member_violations ::
  "(string \<times> string) list \<Rightarrow> (string \<times> string) list \<Rightarrow> string list \<Rightarrow> violation list"
where
  "metadata_member_violations members p4 [] = []"
| "metadata_member_violations members p4 (m # ms) =
     map (\<lambda>(x, prev, _). Collision (MetadataCollision m prev x)) (collisions members [(''m_'' @ m, m)]) @
     map (\<lambda>(x, prev, _). Collision (P4MetadataCollision m prev x)) (collisions p4 [(p4_ident m, m)]) @
     metadata_member_violations ((''m_'' @ m, m) # members) ((p4_ident m, m) # p4) ms"

definition struct_violations :: "parser \<Rightarrow> violation list" where
  "struct_violations p =
     member_violations builtin_members (distinct_instances p) @
     metadata_member_violations
       (rev (concat (map instance_members (distinct_instances p))) @ builtin_members) []
       (map md_name (p_metadata p))"

section \<open>References\<close>

definition check_ref :: "parser \<Rightarrow> string \<times> string \<Rightarrow> violation list" where
  "check_ref p r =
     (case instance_types p (fst r) of
        None \<Rightarrow> [Dangling (UnknownInstance (fst r))]
      | Some t \<Rightarrow>
          (case header_type_map p t of
             None \<Rightarrow> []
           | Some ht \<Rightarrow>
               if list_ex (\<lambda>f. field_name f = snd r) (ht_fields ht) then []
               else [Dangling (UnknownField (fst r) (snd r))]))"

definition check_meta_ref :: "parser \<Rightarrow> string \<Rightarrow> violation list" where
  "check_meta_ref p m = (if meta_widths p m = None then [Dangling (UndeclaredMetadata m)] else [])"

text \<open>What an assign's value and a select key undergo.\<close>

definition check_value :: "limits \<Rightarrow> parser \<Rightarrow> expr \<Rightarrow> violation list" where
  "check_value l p e =
     validate_expr l 1 e @ concat (map (check_ref p) (field_refs e)) @
     concat (map (check_meta_ref p) (meta_refs e))"

text \<open>What a width or a push length undergoes: no metadata and no \<open>remaining()\<close>.\<close>

definition check_length :: "limits \<Rightarrow> parser \<Rightarrow> violation \<Rightarrow> violation \<Rightarrow> expr \<Rightarrow> violation list" where
  "check_length l p uses_meta uses_remaining e =
     validate_expr l 1 e @ concat (map (check_ref p) (field_refs e)) @
     (if meta_refs e \<noteq> [] then [uses_meta] else []) @
     (if contains_remaining e then [uses_remaining] else [])"

definition width_violations :: "limits \<Rightarrow> parser \<Rightarrow> violation list" where
  "width_violations l p =
     concat (map (\<lambda>ht. concat (map (\<lambda>f.
       case field_width f of
         Bits _ \<Rightarrow> []
       | BitLen e \<Rightarrow>
           check_length l p (Impure (WidthUsesMetadata (ht_name ht) (field_name f)))
             (Impure (WidthUsesRemaining (ht_name ht) (field_name f))) e) (ht_fields ht))) (p_header_types p))"

section \<open>States\<close>

primrec region_op_violations :: "limits \<Rightarrow> parser \<Rightarrow> string \<Rightarrow> nat \<Rightarrow> region_op list \<Rightarrow> violation list" where
  "region_op_violations l p st i [] = []"
| "region_op_violations l p st i (op # ops) =
     (case op of
        Push e \<Rightarrow> check_length l p (Impure (PushUsesMetadata st i)) (Impure (PushUsesRemaining st i)) e
      | Pop \<Rightarrow> []) @
     region_op_violations l p st (Suc i) ops"

definition assign_violations :: "limits \<Rightarrow> parser \<Rightarrow> assign \<Rightarrow> violation list" where
  "assign_violations l p a = check_meta_ref p (as_metadata a) @ check_value l p (as_value a)"

text \<open>The reasons seen so far, by the identifier the C emitter gives them.\<close>

type_synonym reason_idents = "(string \<times> string) list"

definition check_target :: "parser \<Rightarrow> string \<Rightarrow> target \<Rightarrow> reason_idents \<Rightarrow> violation list \<times> reason_idents" where
  "check_target p st t ids =
     (case t of
        ToState n \<Rightarrow> (if n \<in> set (map st_name (p_states p)) then [] else [Dangling (UnknownTarget st n)], ids)
      | Accept \<Rightarrow> ([], ids)
      | Reject r _ \<Rightarrow>
          ((if r = [] then [Naming (EmptyReason st)] else []) @
           (case map_of ids (c_reason_ident r) of
              None \<Rightarrow> []
            | Some prev \<Rightarrow> if prev \<noteq> r then [Collision (ReasonCollision prev r (c_reason_ident r))] else []),
           (c_reason_ident r, r) # ids))"

definition key_width :: "parser \<Rightarrow> expr \<Rightarrow> nat option" where
  "key_width p e =
     (case e of
        Field i f \<Rightarrow>
          (case instance_types p i of
             None \<Rightarrow> None
           | Some t \<Rightarrow>
               (case header_type_map p t of
                  None \<Rightarrow> None
                | Some ht \<Rightarrow>
                    (case find (\<lambda>g. field_name g = f) (ht_fields ht) of
                       None \<Rightarrow> None
                     | Some g \<Rightarrow> (case field_width g of Bits b \<Rightarrow> Some b | BitLen _ \<Rightarrow> None))))
      | Metadata m \<Rightarrow> meta_widths p m
      | _ \<Rightarrow> None)"

definition entry_values :: "keyset_entry \<Rightarrow> u64 list" where
  "entry_values e = (case e of Value v \<Rightarrow> [v] | Masked v m \<Rightarrow> [v, m] | Range lo hi \<Rightarrow> [lo, hi])"

definition entry_violations :: "parser \<Rightarrow> string \<Rightarrow> keyset_entry \<times> expr \<Rightarrow> violation list" where
  "entry_violations p st ek =
     (case fst ek of Range lo hi \<Rightarrow> if hi < lo then [Shape (InvalidRange st lo hi)] else [] | _ \<Rightarrow> []) @
     (case key_width p (snd ek) of
        None \<Rightarrow> []
      | Some w \<Rightarrow>
          if list_ex (\<lambda>v. (if w = 64 then - 1 else push_bit w 1 - 1) < v) (entry_values (fst ek))
          then [Shape (EntryTooWide st w)] else [])"

primrec arm_violations ::
  "parser \<Rightarrow> string \<Rightarrow> expr list \<Rightarrow> select_arm list \<Rightarrow> reason_idents \<Rightarrow> violation list \<times> reason_idents"
where
  "arm_violations p st keys [] ids = ([], ids)"
| "arm_violations p st keys (a # as) ids =
     chain
       (chain
         ((if length (arm_entries a) \<noteq> length keys
           then [Shape (ArmArity st (length (arm_entries a)) (length keys))] else []) @
          concat (map (entry_violations p st) (zip (arm_entries a) keys)), ids)
         (check_target p st (arm_next a)))
       (arm_violations p st keys as)"

definition transition_violations ::
  "limits \<Rightarrow> parser \<Rightarrow> string \<Rightarrow> transition \<Rightarrow> reason_idents \<Rightarrow> violation list \<times> reason_idents"
where
  "transition_violations l p st tr ids =
     (case tr of
        Direct t \<Rightarrow> check_target p st t ids
      | Select keys arms dflt \<Rightarrow>
          chain
            (chain
              ((if keys = [] then [Shape (NoKeys st)] else []) @ concat (map (check_value l p) keys), ids)
              (arm_violations p st keys arms))
            (case dflt of None \<Rightarrow> (\<lambda>ids. ([Shape (NoDefault st)], ids)) | Some t \<Rightarrow> check_target p st t))"

primrec state_violations ::
  "limits \<Rightarrow> parser \<Rightarrow> state list \<Rightarrow> reason_idents \<Rightarrow> violation list \<times> reason_idents"
where
  "state_violations l p [] ids = ([], ids)"
| "state_violations l p (s # ss) ids =
     chain
       (chain
         (region_op_violations l p (st_name s) 0 (st_region_ops s) @
          concat (map (assign_violations l p) (st_assigns s)), ids)
         (transition_violations l p (st_name s) (st_transition s)))
       (state_violations l p ss)"

definition builtin_reason_idents :: reason_idents where
  "builtin_reason_idents =
     map (\<lambda>r. (c_reason_ident r, r))
       [''out of bounds'', ''max depth exceeded'', ''no matching select arm'',
        ''out of region bounds'', ''region out of bounds'', ''region not exhausted'']"

section \<open>The checks before the two flow analyses\<close>

definition static_violations :: "limits \<Rightarrow> parser \<Rightarrow> violation list" where
  "static_violations l p =
     size_violations l p @
     header_violations [] (p_header_types p) @
     metadata_violations [] (p_metadata p) @
     state_name_violations [] (p_states p) @
     start_violations p @
     instance_violations p [] (all_extracts p) @
     struct_violations p @
     width_violations l p @
     fst (state_violations l p (p_states p) builtin_reason_idents)"

end
