(* ===== verification/Ir_Definite.thy ===== *)
theory Ir_Definite
  imports Ir_Validate
begin

text \<open>
  \<open>definite_extraction_errors\<close> of rust/pakeles/src/ir/validate.rs: the must-analysis that narrows, for
  every state, the instances extracted on all paths to it until a pass over the states changes
  nothing, and then checks the field references of widths, assigns and select keys against it. A
  \<open>HashSet\<close> is a list without duplicates, so that comparing sizes is comparing lengths. Proved: the
  loop ends, and its result is a fixpoint that promises nothing at the start state.
\<close>

section \<open>The fixpoint\<close>

definition state_instances :: "state \<Rightarrow> string list" where
  "state_instances s = map instance_of (st_extracts s)"

type_synonym insets = "string \<rightharpoonup> string list"

text \<open>\<open>inset[name]\<close>: every state has an entry from the start, so the index never fails.\<close>

definition inset :: "insets \<Rightarrow> string \<Rightarrow> string list" where
  "inset ins n = (case ins n of None \<Rightarrow> [] | Some is \<Rightarrow> is)"

definition init_insets :: "parser \<Rightarrow> insets" where
  "init_insets p =
     map_of (rev (map (\<lambda>s. (st_name s,
       if st_name s = p_start_state p then []
       else remdups (concat (map state_instances (p_states p))))) (p_states p)))"

primrec narrow :: "string list \<Rightarrow> string list \<Rightarrow> insets \<Rightarrow> bool \<Rightarrow> insets \<times> bool" where
  "narrow avail [] ins changed = (ins, changed)"
| "narrow avail (n # ns) ins changed =
     (case ins n of
        None \<Rightarrow> narrow avail ns ins changed
      | Some is \<Rightarrow>
          if length (filter (\<lambda>i. i \<in> set avail) is) \<noteq> length is
          then narrow avail ns (ins(n \<mapsto> filter (\<lambda>i. i \<in> set avail) is)) True
          else narrow avail ns ins changed)"

primrec definite_pass :: "state list \<Rightarrow> insets \<Rightarrow> bool \<Rightarrow> insets \<times> bool" where
  "definite_pass [] ins changed = (ins, changed)"
| "definite_pass (s # ss) ins changed =
     (let r = narrow (inset ins (st_name s) @ state_instances s) (successor_states s) ins changed
      in definite_pass ss (fst r) (snd r))"

section \<open>Termination\<close>

lemma filter_shorter:
  "length (filter P xs) \<noteq> length xs \<longleftrightarrow> length (filter P xs) < length xs"
  using length_filter_le [of P xs] by linarith

lemma narrow_shrinks:
  "narrow avail ns ins changed = (ins', changed') \<Longrightarrow>
   (\<forall>n. length (inset ins' n) \<le> length (inset ins n)) \<and>
   (changed' \<longrightarrow> changed \<or> (\<exists>n\<in>set ns. length (inset ins' n) < length (inset ins n)))"
proof (induction ns arbitrary: ins changed)
  case Nil
  then show ?case by simp
next
  case (Cons n ns)
  consider (keep) "narrow avail ns ins changed = (ins', changed')"
    | (cut) "is" where "ins n = Some is"
      "length (filter (\<lambda>i. i \<in> set avail) is) < length is"
      "narrow avail ns (ins(n \<mapsto> filter (\<lambda>i. i \<in> set avail) is)) True = (ins', changed')"
    using Cons.prems by (auto simp: filter_shorter split: option.splits if_splits)
  then show ?case
  proof cases
    case keep
    then show ?thesis using Cons.IH by fastforce
  next
    case cut
    let ?i = "ins(n \<mapsto> filter (\<lambda>i. i \<in> set avail) is)"
    have le: "length (inset ?i m) \<le> length (inset ins m)" for m
      using cut(1,2) by (auto simp: inset_def)
    have lt: "length (inset ?i n) < length (inset ins n)"
      using cut(1,2) by (simp add: inset_def)
    have IH: "length (inset ins' m) \<le> length (inset ?i m)" for m using Cons.IH [OF cut(3)] by blast
    have "length (inset ins' m) \<le> length (inset ins m)" for m using IH le order_trans by blast
    moreover have "length (inset ins' n) < length (inset ins n)" using IH lt le_less_trans by blast
    ultimately show ?thesis by auto
  qed
qed

lemma definite_pass_shrinks:
  "definite_pass ss ins changed = (ins', changed') \<Longrightarrow>
   (\<forall>n. length (inset ins' n) \<le> length (inset ins n)) \<and>
   (changed' \<longrightarrow> changed \<or>
     (\<exists>n\<in>(\<Union>s\<in>set ss. set (successor_states s)). length (inset ins' n) < length (inset ins n)))"
proof (induction ss arbitrary: ins changed)
  case Nil
  then show ?case by simp
next
  case (Cons s ss)
  obtain ins1 c1 where
    1: "narrow (inset ins (st_name s) @ state_instances s) (successor_states s) ins changed = (ins1, c1)"
    by force
  have 2: "definite_pass ss ins1 c1 = (ins', changed')" using Cons.prems 1 by simp
  note n = narrow_shrinks [OF 1] and IH = Cons.IH [OF 2]
  have le: "length (inset ins' m) \<le> length (inset ins m)" for m
    using n IH order_trans by blast
  have "\<exists>m\<in>(\<Union>s\<in>set (s # ss). set (successor_states s)). length (inset ins' m) < length (inset ins m)"
    if c: "changed'" "\<not> changed"
  proof (cases c1)
    case True
    then obtain m where "m \<in> set (successor_states s)" "length (inset ins1 m) < length (inset ins m)"
      using n c(2) by blast
    moreover have "length (inset ins' m) \<le> length (inset ins1 m)" using IH by blast
    ultimately show ?thesis by (intro bexI [of _ m]) auto
  next
    case False
    then obtain m where "m \<in> (\<Union>s\<in>set ss. set (successor_states s))"
      "length (inset ins' m) < length (inset ins1 m)" using IH c(1) by blast
    moreover have "length (inset ins1 m) \<le> length (inset ins m)" using n by blast
    ultimately show ?thesis by (intro bexI [of _ m]) auto
  qed
  with le show ?case by blast
qed

definition inset_total :: "parser \<Rightarrow> insets \<Rightarrow> nat" where
  "inset_total p ins = (\<Sum>n\<in>(\<Union>s\<in>set (p_states p). set (successor_states s)). length (inset ins n))"

function definite_loop :: "parser \<Rightarrow> insets \<Rightarrow> insets" where
  "definite_loop p ins =
     (let r = definite_pass (p_states p) ins False
      in if snd r then definite_loop p (fst r) else fst r)"
  by pat_completeness auto
termination
proof (relation "measure (\<lambda>(p, ins). inset_total p ins)", goal_cases)
  case 1
  then show ?case by simp
next
  case (2 p ins r)
  obtain ins' c where r: "r = (ins', c)" by force
  have "definite_pass (p_states p) ins False = (ins', True)" using 2 r by (metis snd_conv)
  note shrink = definite_pass_shrinks [OF this]
  have "inset_total p ins' < inset_total p ins"
    unfolding inset_total_def by (rule sum_strict_mono_ex1) (use shrink in auto)
  then show ?case using r by simp
qed

declare definite_loop.simps [simp del]

definition definite_insets :: "parser \<Rightarrow> insets" where
  "definite_insets p = definite_loop p (init_insets p)"

section \<open>The checks\<close>

definition check_definite :: "string \<Rightarrow> string list \<Rightarrow> expr \<Rightarrow> violation list" where
  "check_definite st avail e =
     concat (map (\<lambda>r. if fst r \<in> set avail then []
       else [Flow (NotDefinitelyExtracted st (fst r) (snd r))]) (field_refs e))"

primrec extracts_definite ::
  "parser \<Rightarrow> string \<Rightarrow> extract_op list \<Rightarrow> string list \<Rightarrow> violation list \<times> string list"
where
  "extracts_definite p st [] avail = ([], avail)"
| "extracts_definite p st (ex # exs) avail =
     chain
       (case header_type_map p (ex_header_type ex) of
          None \<Rightarrow> []
        | Some ht \<Rightarrow>
            concat (map (\<lambda>f. case field_width f of
                Bits _ \<Rightarrow> []
              | BitLen e \<Rightarrow> check_definite st (instance_of ex # avail) e) (ht_fields ht)),
        instance_of ex # avail)
       (extracts_definite p st exs)"

definition state_definite :: "parser \<Rightarrow> insets \<Rightarrow> state \<Rightarrow> violation list" where
  "state_definite p ins s =
     (let r = extracts_definite p (st_name s) (st_extracts s) (inset ins (st_name s)) in
      fst r @
      concat (map (\<lambda>a. check_definite (st_name s) (snd r) (as_value a)) (st_assigns s)) @
      (case st_transition s of
         Direct _ \<Rightarrow> []
       | Select keys _ _ \<Rightarrow> concat (map (check_definite (st_name s) (snd r)) keys)))"

definition definite_extraction_errors :: "parser \<Rightarrow> violation list" where
  "definite_extraction_errors p =
     concat (map (state_definite p (definite_insets p)) (p_states p))"

section \<open>The result is a fixpoint\<close>

lemma narrow_changed: "snd (narrow avail ns ins True)"
  by (induction ns arbitrary: ins) (auto split: option.split)

lemma narrow_unchanged:
  "\<not> snd (narrow avail ns ins changed) \<Longrightarrow>
   fst (narrow avail ns ins changed) = ins \<and> \<not> changed \<and>
   (\<forall>n\<in>set ns. set (inset ins n) \<subseteq> set avail)"
proof (induction ns arbitrary: ins changed)
  case Nil
  then show ?case by simp
next
  case (Cons n ns)
  have "set (inset ins n) \<subseteq> set avail"
  proof (cases "ins n")
    case None
    then show ?thesis by (simp add: inset_def)
  next
    case (Some "is")
    then have "length (filter (\<lambda>i. i \<in> set avail) is) = length is"
      using Cons.prems narrow_changed by (auto split: if_splits)
    then have "\<forall>i\<in>set is. i \<in> set avail"
      using length_filter_less by (metis less_irrefl)
    then show ?thesis using Some by (auto simp: inset_def)
  qed
  moreover have "narrow avail (n # ns) ins changed = narrow avail ns ins changed"
    using Cons.prems narrow_changed by (auto split: option.splits if_splits)
  ultimately show ?case using Cons by auto
qed

lemma definite_pass_unchanged:
  "\<not> snd (definite_pass ss ins changed) \<Longrightarrow>
   fst (definite_pass ss ins changed) = ins \<and> \<not> changed \<and>
   (\<forall>s\<in>set ss. \<forall>n\<in>set (successor_states s).
     set (inset ins n) \<subseteq> set (inset ins (st_name s)) \<union> set (state_instances s))"
proof (induction ss arbitrary: ins changed)
  case Nil
  then show ?case by simp
next
  case (Cons s ss)
  obtain ins1 c1 where
    1: "narrow (inset ins (st_name s) @ state_instances s) (successor_states s) ins changed = (ins1, c1)"
    by force
  have 2: "definite_pass (s # ss) ins changed = definite_pass ss ins1 c1" using 1 by simp
  note IH = Cons.IH [OF Cons.prems [unfolded 2]]
  then have c1: "c1 = False" by blast
  then have n: "ins1 = ins" "\<not> changed"
    "\<forall>m\<in>set (successor_states s). set (inset ins m) \<subseteq> set (inset ins (st_name s) @ state_instances s)"
    using narrow_unchanged [of "inset ins (st_name s) @ state_instances s" "successor_states s" ins changed] 1
    by auto
  show ?case unfolding 2 c1 using IH [unfolded c1] n by simp
qed

lemma definite_loop_fixpoint:
  "\<not> snd (definite_pass (p_states p) (definite_loop p ins) False)"
proof (induction p ins rule: definite_loop.induct)
  case (1 p ins)
  show ?case
  proof (cases "snd (definite_pass (p_states p) ins False)")
    case True
    then show ?thesis using 1 [OF refl] by (simp add: definite_loop.simps [of p ins] Let_def)
  next
    case False
    then have "fst (definite_pass (p_states p) ins False) = ins" using definite_pass_unchanged by blast
    then show ?thesis using False by (simp add: definite_loop.simps [of p ins] Let_def)
  qed
qed

lemma definite_loop_shrinks: "length (inset (definite_loop p ins) n) \<le> length (inset ins n)"
proof (induction p ins rule: definite_loop.induct)
  case (1 p ins)
  obtain ins' c where r: "definite_pass (p_states p) ins False = (ins', c)" by force
  have "length (inset ins' n) \<le> length (inset ins n)" using definite_pass_shrinks [OF r] by blast
  then show ?case
    using 1 [OF refl] r by (cases c) (auto simp: definite_loop.simps [of p ins])
qed

text \<open>What reaches a successor is what was known before plus what the state extracts.\<close>

lemma definite_insets_edge:
  assumes "s \<in> set (p_states p)" and "n \<in> set (successor_states s)"
  shows "set (inset (definite_insets p) n) \<subseteq>
    set (inset (definite_insets p) (st_name s)) \<union> set (state_instances s)"
  using definite_pass_unchanged [OF definite_loop_fixpoint [of p "init_insets p"]] assms
  by (simp add: definite_insets_def)

lemma definite_insets_start: "inset (definite_insets p) (p_start_state p) = []"
proof -
  have "is = []" if "init_insets p (p_start_state p) = Some is" for "is"
    using map_of_SomeD [OF that [unfolded init_insets_def]] by auto
  then have "inset (init_insets p) (p_start_state p) = []"
    by (auto simp: inset_def split: option.split)
  then show ?thesis
    using definite_loop_shrinks [of p "init_insets p" "p_start_state p"] by (simp add: definite_insets_def)
qed

end
