(* ===== verification/Ir_Region_Depth.thy ===== *)
theory Ir_Region_Depth
  imports Ir_Validate Codegen_C
begin

text \<open>
  \<open>region_depth_errors\<close> of rust/pakeles/src/ir/validate.rs: a work list that gives every reached state
  the number of regions open on entry and stops at the first state that disagrees, pops an empty
  stack, or measures \<open>remaining()\<close> with no region open. An index into one of the two maps at an absent
  name, a panic in Rust, is the outer \<open>None\<close>. Proved: it ends, never panics when the start state
  exists, and when it finds nothing the depths are consistent along every edge and stay below
  \<open>region_cap\<close>, the array size the C emitter picks.
\<close>

section \<open>The code\<close>

type_synonym depths = "string \<rightharpoonup> nat"

primrec depth_ops :: "string \<Rightarrow> nat \<Rightarrow> nat \<Rightarrow> region_op list \<Rightarrow> violation + nat" where
  "depth_ops st i k [] = Inr k"
| "depth_ops st i k (op # ops) =
     (case op of
        Push e \<Rightarrow>
          if k = 0 \<and> contains_remaining e then Inl (Flow (RemainingOutsideRegion st))
          else depth_ops st (Suc i) (Suc k) ops
      | Pop \<Rightarrow>
          if k = 0 then Inl (Flow (PopOutsideRegion st i))
          else depth_ops st (Suc i) (k - 1) ops)"

definition keys_use_remaining :: "transition \<Rightarrow> bool" where
  "keys_use_remaining tr =
     (case tr of Direct _ \<Rightarrow> False | Select keys _ _ \<Rightarrow> list_ex contains_remaining keys)"

definition depth_state :: "state \<Rightarrow> nat \<Rightarrow> violation + nat" where
  "depth_state s k =
     (if k = 0 \<and> list_ex (\<lambda>a. contains_remaining (as_value a)) (st_assigns s)
      then Inl (Flow (RemainingOutsideRegion (st_name s)))
      else and_then (depth_ops (st_name s) 0 k (st_region_ops s)) (\<lambda>k'.
        if k' = 0 \<and> keys_use_remaining (st_transition s)
        then Inl (Flow (RemainingOutsideRegion (st_name s))) else Inr k'))"

primrec depth_visit ::
  "parser \<Rightarrow> nat \<Rightarrow> string list \<Rightarrow> violation list \<Rightarrow> depths \<Rightarrow> string list
    \<Rightarrow> violation list \<times> depths \<times> string list"
where
  "depth_visit p k [] errs depth work = (errs, depth, work)"
| "depth_visit p k (n # ns) errs depth work =
     (case depth n of
        None \<Rightarrow>
          if state_map p n = None then depth_visit p k ns errs depth work
          else depth_visit p k ns errs (depth(n \<mapsto> k)) (n # work)
      | Some d \<Rightarrow>
          if d \<noteq> k then depth_visit p k ns (errs @ [Flow (DepthMismatch n k d)]) depth work
          else depth_visit p k ns errs depth work)"

definition depth_measure :: "parser \<Rightarrow> depths \<Rightarrow> string list \<Rightarrow> nat" where
  "depth_measure p depth work =
     2 * card (set (map st_name (p_states p)) - dom depth) + length work"

lemma depth_visit_measure:
  "depth_visit p k ns errs depth work = (errs', depth', work') \<Longrightarrow>
   depth_measure p depth' work' \<le> depth_measure p depth work"
proof (induction ns arbitrary: errs depth work)
  case Nil
  then show ?case by simp
next
  case (Cons n ns)
  show ?case
  proof (cases "depth n = None \<and> state_map p n \<noteq> None")
    case True
    let ?N = "set (map st_name (p_states p))"
    have "n \<in> ?N - dom depth" using True state_map_names [of p n] by auto
    moreover have "?N - dom (depth(n \<mapsto> k)) = (?N - dom depth) - {n}" by auto
    ultimately have "Suc (card (?N - dom (depth(n \<mapsto> k)))) = card (?N - dom depth)"
      using card_Suc_Diff1 [of "?N - dom depth" n] by simp
    then have "depth_measure p (depth(n \<mapsto> k)) (n # work) \<le> depth_measure p depth work"
      by (simp add: depth_measure_def)
    moreover have "depth_visit p k ns errs (depth(n \<mapsto> k)) (n # work) = (errs', depth', work')"
      using Cons.prems True by auto
    ultimately show ?thesis using Cons.IH by fastforce
  next
    case False
    then obtain es where "depth_visit p k ns es depth work = (errs', depth', work')"
      using Cons.prems by (auto split: option.splits if_splits)
    then show ?thesis by (rule Cons.IH)
  qed
qed

function region_loop :: "parser \<Rightarrow> depths \<Rightarrow> string list \<Rightarrow> (violation list \<times> depths) option" where
  "region_loop p depth [] = Some ([], depth)"
| "region_loop p depth (n # work) =
     (case state_map p n of
        None \<Rightarrow> None
      | Some s \<Rightarrow>
          (case depth n of
             None \<Rightarrow> None
           | Some k \<Rightarrow>
               (case depth_state s k of
                  Inl v \<Rightarrow> Some ([v], depth)
                | Inr k' \<Rightarrow>
                    (let v = depth_visit p k' (successor_states s) [] depth work
                     in if fst v \<noteq> [] then Some (fst v, fst (snd v))
                        else region_loop p (fst (snd v)) (snd (snd v))))))"
  by pat_completeness auto
termination
proof (relation "measure (\<lambda>(p, depth, work). depth_measure p depth work)", goal_cases)
  case 1
  then show ?case by simp
next
  case (2 p depth n work s k k' v)
  obtain errs' depth' work' where v: "v = (errs', depth', work')" by (cases v)
  then have "depth_measure p depth' work' \<le> depth_measure p depth work"
    using 2(4) by (intro depth_visit_measure) simp
  then show ?case using v by (simp add: depth_measure_def)
qed

definition region_depths :: "parser \<Rightarrow> (violation list \<times> depths) option" where
  "region_depths p = region_loop p [p_start_state p \<mapsto> 0] [p_start_state p]"

definition region_depth_errors :: "parser \<Rightarrow> violation list option" where
  "region_depth_errors p = map_option fst (region_depths p)"

section \<open>The loop's invariant\<close>

text \<open>
  Besides consistency, each state's depth is at most the number of pushes in a set of other reached
  states: the states of the path on which it was first met.
\<close>

primrec pushes :: "region_op list \<Rightarrow> nat" where
  "pushes [] = 0"
| "pushes (op # ops) = (case op of Push _ \<Rightarrow> Suc (pushes ops) | Pop \<Rightarrow> pushes ops)"

definition pushes_at :: "parser \<Rightarrow> string \<Rightarrow> nat" where
  "pushes_at p n = (case state_map p n of None \<Rightarrow> 0 | Some s \<Rightarrow> pushes (st_region_ops s))"

definition settled :: "parser \<Rightarrow> depths \<Rightarrow> string \<Rightarrow> nat \<Rightarrow> bool" where
  "settled p depth n d \<longleftrightarrow>
     (\<exists>s k'. state_map p n = Some s \<and> depth_state s d = Inr k' \<and>
       (\<forall>m\<in>set (successor_states s). state_map p m \<noteq> None \<longrightarrow> depth m = Some k'))"

definition covered :: "parser \<Rightarrow> depths \<Rightarrow> string \<Rightarrow> nat \<Rightarrow> bool" where
  "covered p depth n d \<longleftrightarrow>
     (\<exists>A. A \<subseteq> dom depth \<and> finite A \<and> n \<notin> A \<and> d \<le> (\<Sum>m\<in>A. pushes_at p m))"

definition depth_inv :: "parser \<Rightarrow> depths \<Rightarrow> string list \<Rightarrow> bool" where
  "depth_inv p depth work \<longleftrightarrow>
     (\<forall>n d. depth n = Some d \<longrightarrow> state_map p n \<noteq> None \<and> covered p depth n d \<and>
        (n \<in> set work \<or> settled p depth n d)) \<and>
     set work \<subseteq> dom depth \<and> depth (p_start_state p) = Some 0"

lemma depth_invD:
  assumes "depth_inv p depth work" and "depth n = Some d"
  shows "\<exists>s. state_map p n = Some s" and "covered p depth n d" and "n \<in> set work \<or> settled p depth n d"
  using assms by (auto simp: depth_inv_def)

lemma depth_visit_spec:
  "depth_visit p k ns errs depth work = ([], depth', work') \<Longrightarrow>
   errs = [] \<and> depth \<subseteq>\<^sub>m depth' \<and> set work' = set work \<union> (dom depth' - dom depth) \<and>
   (\<forall>m\<in>set ns. state_map p m \<noteq> None \<longrightarrow> depth' m = Some k) \<and>
   (\<forall>m d. depth' m = Some d \<longrightarrow> depth m = None \<longrightarrow> d = k \<and> state_map p m \<noteq> None)"
proof (induction ns arbitrary: errs depth work)
  case Nil
  then show ?case by auto
next
  case (Cons n ns)
  consider (new) "depth n = None" "state_map p n \<noteq> None" | (unknown) "depth n = None" "state_map p n = None"
    | (same) "depth n = Some k" | (other) d where "depth n = Some d" "d \<noteq> k"
    by (cases "depth n") auto
  then show ?case
  proof cases
    case new
    let ?d = "depth(n \<mapsto> k)"
    have IH: "errs = [] \<and> ?d \<subseteq>\<^sub>m depth' \<and> set work' = set (n # work) \<union> (dom depth' - dom ?d) \<and>
       (\<forall>m\<in>set ns. state_map p m \<noteq> None \<longrightarrow> depth' m = Some k) \<and>
       (\<forall>m d. depth' m = Some d \<longrightarrow> ?d m = None \<longrightarrow> d = k \<and> state_map p m \<noteq> None)"
      using Cons.prems new by (intro Cons.IH) (auto simp del: fun_upd_apply)
    then have le: "?d \<subseteq>\<^sub>m depth'" by blast
    then have n: "depth' n = Some k" by (auto simp: map_le_def)
    have "depth \<subseteq>\<^sub>m ?d" using new(1) by (auto simp: map_le_def)
    then have "depth \<subseteq>\<^sub>m depth'" using le by (rule map_le_trans)
    moreover have "d = k \<and> state_map p m \<noteq> None" if "depth' m = Some d" "depth m = None" for m d
    proof (cases "m = n")
      case True
      then show ?thesis using that n new by simp
    next
      case False
      then have "?d m = None" using that by simp
      then show ?thesis using IH that by blast
    qed
    moreover have "set work' = set work \<union> (dom depth' - dom depth)"
    proof -
      have "n \<in> dom depth'" "n \<notin> dom depth" using n new(1) by (simp_all add: domIff)
      moreover have "set work' = insert n (set work) \<union> (dom depth' - insert n (dom depth))"
        using IH by simp
      ultimately show ?thesis by auto
    qed
    moreover have "\<forall>m\<in>set (n # ns). state_map p m \<noteq> None \<longrightarrow> depth' m = Some k"
      using IH n by simp
    ultimately show ?thesis using IH by blast
  next
    case unknown
    then show ?thesis using Cons.prems Cons.IH [of errs depth work] by auto
  next
    case same
    have IH: "errs = [] \<and> depth \<subseteq>\<^sub>m depth' \<and> set work' = set work \<union> (dom depth' - dom depth) \<and>
       (\<forall>m\<in>set ns. state_map p m \<noteq> None \<longrightarrow> depth' m = Some k) \<and>
       (\<forall>m d. depth' m = Some d \<longrightarrow> depth m = None \<longrightarrow> d = k \<and> state_map p m \<noteq> None)"
      using Cons.prems same by (intro Cons.IH) auto
    then have "depth' n = Some k" using same by (auto simp: map_le_def dom_def)
    then show ?thesis using IH by auto
  next
    case other
    then show ?thesis
      using Cons.prems Cons.IH [of "errs @ [Flow (DepthMismatch n k d)]" depth work] by auto
  qed
qed

lemma depth_ops_pushes: "depth_ops st i k ops = Inr k' \<Longrightarrow> k' \<le> k + pushes ops"
  by (induction ops arbitrary: i k) (fastforce split: region_op.splits if_splits)+

lemma depth_state_pushes: "depth_state s k = Inr k' \<Longrightarrow> k' \<le> k + pushes (st_region_ops s)"
  by (auto simp: depth_state_def and_then_Inr split: if_splits dest: depth_ops_pushes)

lemma settled_mono: "depth \<subseteq>\<^sub>m depth' \<Longrightarrow> settled p depth n d \<Longrightarrow> settled p depth' n d"
  unfolding settled_def map_le_def by (metis domI)

lemma covered_mono: "depth \<subseteq>\<^sub>m depth' \<Longrightarrow> covered p depth n d \<Longrightarrow> covered p depth' n d"
  unfolding covered_def by (meson map_le_implies_dom_le order_trans)

lemma depth_step:
  assumes inv: "depth_inv p depth (n # work)" and s: "state_map p n = Some s" "depth n = Some k"
    and out: "depth_state s k = Inr k'"
    and v: "depth_visit p k' (successor_states s) [] depth work = ([], depth', work')"
  shows "depth_inv p depth' work'"
proof -
  note spec = depth_visit_spec [OF v]
  then have le: "depth \<subseteq>\<^sub>m depth'" by blast
  have old: "depth' m = Some d" if "depth m = Some d" for m d
    using le that by (auto simp: map_le_def dom_def)
  have cov: "covered p depth n k" using inv s by (auto simp: depth_inv_def)
  have new: "covered p depth' m k'" if m: "depth' m = Some k'" "depth m = None" for m
  proof -
    obtain A where A: "A \<subseteq> dom depth" "finite A" "n \<notin> A" "k \<le> (\<Sum>m\<in>A. pushes_at p m)"
      using cov by (auto simp: covered_def)
    have "k' \<le> (\<Sum>m\<in>insert n A. pushes_at p m)"
      using A depth_state_pushes [OF out] s(1) by (simp add: pushes_at_def)
    moreover have "insert n A \<subseteq> dom depth'" using A(1) s(2) old by auto
    moreover have "m \<notin> insert n A" using A(1) m(2) s(2) by auto
    ultimately show ?thesis using A(2) unfolding covered_def by (intro exI [of _ "insert n A"]) auto
  qed
  have one: "state_map p m \<noteq> None \<and> covered p depth' m d \<and> (m \<in> set work' \<or> settled p depth' m d)"
    if m: "depth' m = Some d" for m d
  proof (cases "depth m")
    case None
    then have "d = k'" "state_map p m \<noteq> None" "m \<in> set work'" using spec m by auto
    then show ?thesis using new m None by blast
  next
    case (Some d')
    then have d': "depth m = Some d" using old m by auto
    then have "state_map p m \<noteq> None" "covered p depth m d" "m \<in> set (n # work) \<or> settled p depth m d"
      using depth_invD [OF inv d'] by auto
    moreover have "settled p depth' n k" using s out spec by (auto simp: settled_def)
    ultimately show ?thesis
      using covered_mono [OF le] settled_mono [OF le] spec d' s(2) by fastforce
  qed
  have "set work' \<subseteq> dom depth'"
  proof -
    have "set work \<subseteq> dom depth" using inv by (auto simp: depth_inv_def)
    then show ?thesis using spec map_le_implies_dom_le [OF le] by blast
  qed
  moreover have "depth' (p_start_state p) = Some 0" using inv old by (auto simp: depth_inv_def)
  ultimately show ?thesis using one unfolding depth_inv_def by blast
qed

lemma region_loop_inv:
  "depth_inv p depth work \<Longrightarrow>
   \<exists>errs depth'. region_loop p depth work = Some (errs, depth') \<and> (errs = [] \<longrightarrow> depth_inv p depth' [])"
proof (induction p depth work rule: region_loop.induct)
  case (1 p depth)
  then show ?case by simp
next
  case (2 p depth n work)
  obtain k where k: "depth n = Some k" using 2(2) by (auto simp: depth_inv_def)
  then obtain s where s: "state_map p n = Some s" using depth_invD(1) [OF 2(2)] by blast
  show ?case
  proof (cases "depth_state s k")
    case (Inl v)
    then show ?thesis using s k by simp
  next
    case (Inr k')
    obtain errs depth' work' where
      v: "depth_visit p k' (successor_states s) [] depth work = (errs, depth', work')"
      by (cases "depth_visit p k' (successor_states s) [] depth work")
    show ?thesis
    proof (cases "errs = []")
      case True
      have "depth_inv p depth' work'" using depth_step [OF 2(2) s k Inr] v True by simp
      then show ?thesis using 2(1) [OF s k Inr refl] s k Inr v True by simp
    next
      case False
      then show ?thesis using s k Inr v by simp
    qed
  qed
qed

lemma region_depths_inv:
  assumes "p_start_state p \<in> set (map st_name (p_states p))"
  shows "\<exists>errs depth. region_depths p = Some (errs, depth) \<and> (errs = [] \<longrightarrow> depth_inv p depth [])"
proof -
  have "depth_inv p [p_start_state p \<mapsto> 0] [p_start_state p]"
    using assms state_map_names [of p "p_start_state p"]
    by (auto simp: depth_inv_def covered_def intro: exI [of _ "{}"])
  then show ?thesis unfolding region_depths_def by (rule region_loop_inv)
qed

section \<open>The depth stays below the emitter's capacity\<close>

lemma pushes_filter: "pushes ops = length (filter (\<lambda>op. case op of Push _ \<Rightarrow> True | Pop \<Rightarrow> False) ops)"
  by (induction ops) (auto split: region_op.splits)

lemma region_cap_sum:
  assumes "distinct (map st_name (p_states p))"
  shows "region_cap p = (\<Sum>n\<in>set (map st_name (p_states p)). pushes_at p n)"
proof -
  have at: "pushes_at p (st_name s) = pushes (st_region_ops s)" if "s \<in> set (p_states p)" for s
    using state_map_self [OF assms that] by (simp add: pushes_at_def)
  have "region_cap p = sum_list (map (\<lambda>s. pushes (st_region_ops s)) (p_states p))"
    by (simp add: region_cap_def filter_concat length_concat comp_def pushes_filter)
  also have "\<dots> = sum_list (map (pushes_at p) (map st_name (p_states p)))"
    using at by (simp add: comp_def cong: map_cong)
  also have "\<dots> = (\<Sum>n\<in>set (map st_name (p_states p)). pushes_at p n)"
    using sum_list_distinct_conv_sum_set [OF assms, of "pushes_at p"] by (simp add: comp_def)
  finally show ?thesis .
qed

lemma depth_below_cap:
  assumes inv: "depth_inv p depth []" and dist: "distinct (map st_name (p_states p))"
    and n: "depth n = Some d" and s: "state_map p n = Some s"
  shows "d + pushes (st_region_ops s) \<le> region_cap p"
proof -
  let ?N = "set (map st_name (p_states p))"
  obtain A where A: "A \<subseteq> dom depth" "finite A" "n \<notin> A" "d \<le> (\<Sum>m\<in>A. pushes_at p m)"
    using depth_invD(2) [OF inv n] by (auto simp: covered_def)
  have "d + pushes (st_region_ops s) \<le> (\<Sum>m\<in>insert n A. pushes_at p m)"
    using A s by (simp add: pushes_at_def)
  also have "\<dots> \<le> (\<Sum>m\<in>?N. pushes_at p m)"
  proof (rule sum_mono2)
    have "m \<in> ?N" if "depth m = Some d'" for m d'
      using depth_invD(1) [OF inv that] state_map_names [of p m] by auto
    then show "insert n A \<subseteq> ?N" using A(1) n by auto
  qed auto
  finally show ?thesis using region_cap_sum [OF dist] by simp
qed

end
