(* ===== verification/Ir_Flow.thy ===== *)
theory Ir_Flow
  imports Codegen_Static
begin

text \<open>
  The entry-alignment analysis, \<open>entry_alignments\<close> of rust/pakeles/src/codegen/mod.rs: a work-list
  fixpoint over the state graph that gives each reached state the residue mod 8 of the cursor on
  entry, or nothing when paths disagree. The \<open>HashMap\<close> of the code is a partial map, its \<open>Vec\<close> of
  names a stack with the top first; an index into the map at a name it does not hold, which Rust
  answers with a panic, is the outer \<open>None\<close>. Proved: the loop ends, it never panics, and its result
  is consistent along every edge, which is what the emitter's byte loads rely on.
\<close>

section \<open>The code\<close>

type_synonym aligns = "string \<rightharpoonup> nat option"

primrec delta_fields :: "field list \<Rightarrow> nat option \<Rightarrow> nat option" where
  "delta_fields [] d = d"
| "delta_fields (f # fs) d =
     delta_fields fs
       (case field_width f of
          Bits n \<Rightarrow> map_option (\<lambda>d. (d + n) mod 8) d
        | BitLen e \<Rightarrow>
            (case (d, expr_mod8 e) of (Some d, Some m) \<Rightarrow> Some ((d + m) mod 8) | _ \<Rightarrow> None))"

primrec delta_extracts :: "parser \<Rightarrow> extract_op list \<Rightarrow> nat option \<Rightarrow> nat option" where
  "delta_extracts p [] d = d"
| "delta_extracts p (ex # exs) d =
     delta_extracts p exs
       (if ex_lookahead ex then d
        else case find_header_type p (ex_header_type ex) of
               None \<Rightarrow> d
             | Some ht \<Rightarrow> delta_fields (ht_fields ht) d)"

definition exit_alignment :: "parser \<Rightarrow> state \<Rightarrow> nat option \<Rightarrow> nat option" where
  "exit_alignment p s entry =
     (case (entry, delta_extracts p (st_extracts s) (Some 0)) of
        (Some a, Some d) \<Rightarrow> Some ((a + d) mod 8)
      | _ \<Rightarrow> None)"

fun merge_succs :: "nat option \<Rightarrow> string list \<Rightarrow> aligns \<times> string list \<Rightarrow> aligns \<times> string list" where
  "merge_succs ex [] aw = aw"
| "merge_succs ex (n # ns) (align, work) =
     (case align n of
        None \<Rightarrow> merge_succs ex ns (align(n \<mapsto> ex), n # work)
      | Some prev \<Rightarrow>
          if prev = ex then merge_succs ex ns (align, work)
          else merge_succs ex ns (align(n \<mapsto> None), n # work))"

section \<open>Termination\<close>

text \<open>
  Every state is processed with a known residue at most once per queueing with one, and every change
  of the map is one step down the chain absent, known, unknown. A queued name whose residue may still
  be known weighs more than all the edges of the graph, because processing it can queue a name along
  each of them without changing the map.
\<close>

definition flow_names :: "parser \<Rightarrow> string set" where
  "flow_names p = (\<Union>s\<in>set (p_states p). set (successor_states s))"

definition flow_edges :: "parser \<Rightarrow> nat" where
  "flow_edges p = sum_list (map (\<lambda>s. length (successor_states s)) (p_states p))"

definition rank :: "nat \<Rightarrow> nat option option \<Rightarrow> nat" where
  "rank e a = (case a of None \<Rightarrow> e + 4 | Some (Some _) \<Rightarrow> 2 | Some None \<Rightarrow> 0)"

definition burden :: "nat \<Rightarrow> nat option option \<Rightarrow> nat" where
  "burden e a = (if a = Some None then 1 else e + 1)"

definition queue_burden :: "nat \<Rightarrow> aligns \<Rightarrow> string list \<Rightarrow> nat" where
  "queue_burden e align work = sum_list (map (\<lambda>n. burden e (align n)) work)"

definition flow_measure :: "parser \<Rightarrow> aligns \<Rightarrow> string list \<Rightarrow> nat" where
  "flow_measure p align work =
     (\<Sum>n\<in>flow_names p. rank (flow_edges p) (align n)) + queue_burden (flow_edges p) align work"

lemma finite_flow_names [simp]: "finite (flow_names p)"
  by (simp add: flow_names_def)

lemma successors_known: "state_map p n = Some s \<Longrightarrow> set (successor_states s) \<subseteq> flow_names p"
  using state_mapD by (fastforce simp: flow_names_def)

lemma successors_few: "state_map p n = Some s \<Longrightarrow> length (successor_states s) \<le> flow_edges p"
  unfolding flow_edges_def by (rule member_le_sum_list) (auto dest: state_mapD)

lemma burden_mono: "rank e b \<le> rank e a \<Longrightarrow> burden e b \<le> burden e a"
  by (auto simp: rank_def burden_def split: option.splits)

lemma queue_burden_mono:
  "rank e b \<le> rank e (align n) \<Longrightarrow> queue_burden e (align(n := b)) work \<le> queue_burden e align work"
  unfolding queue_burden_def by (rule sum_list_mono) (auto intro: burden_mono)

lemma flow_measure_update:
  assumes "n \<in> flow_names p" and "rank (flow_edges p) b + k \<le> rank (flow_edges p) (align n)"
    and "burden (flow_edges p) b \<le> k + j"
  shows "flow_measure p (align(n := b)) (n # work) \<le> flow_measure p align work + j"
proof -
  let ?r = "\<lambda>f m. rank (flow_edges p) (f m)"
  have "(\<Sum>m\<in>flow_names p. ?r (align(n := b)) m) =
      rank (flow_edges p) b + (\<Sum>m\<in>flow_names p - {n}. ?r align m)"
    using assms(1) by (simp add: sum.remove)
  moreover have "(\<Sum>m\<in>flow_names p. ?r align m) = ?r align n + (\<Sum>m\<in>flow_names p - {n}. ?r align m)"
    using assms(1) by (simp add: sum.remove)
  moreover have "queue_burden (flow_edges p) (align(n := b)) work \<le> queue_burden (flow_edges p) align work"
    using assms(2) by (intro queue_burden_mono) simp
  ultimately show ?thesis
    using assms(2,3) by (simp add: flow_measure_def queue_burden_def)
qed

lemma merge_succs_measure:
  "set ns \<subseteq> flow_names p \<Longrightarrow> merge_succs ex ns (align, work) = (align', work') \<Longrightarrow>
   flow_measure p align' work' \<le> flow_measure p align work + (if ex = None then 0 else length ns)"
proof (induction ex ns "(align, work)" arbitrary: align work rule: merge_succs.induct)
  case (1 ex)
  then show ?case by simp
next
  case (2 ex n ns align work)
  show ?case
  proof (cases "align n")
    case None
    then have "flow_measure p (align(n \<mapsto> ex)) (n # work) \<le> flow_measure p align work + 0"
      using 2(4) by (intro flow_measure_update [where k = "flow_edges p + 2"])
        (auto simp: rank_def burden_def split: option.split)
    then show ?thesis using 2(1) [OF None] 2(4,5) None by (auto split: if_splits)
  next
    case (Some prev)
    show ?thesis
    proof (cases "prev = ex")
      case True
      then show ?thesis using 2(2) [OF Some True] 2(4,5) Some by (auto split: if_splits)
    next
      case False
      then have "flow_measure p (align(n \<mapsto> None)) (n # work) \<le>
          flow_measure p align work + (if ex = None then 0 else 1)"
        using 2(4) Some by (cases ex; intro flow_measure_update [where k = "rank (flow_edges p) (Some prev)"])
          (auto simp: rank_def burden_def split: option.split)
      then show ?thesis using 2(3) [OF Some False] 2(4,5) Some False by (auto split: if_splits)
    qed
  qed
qed

function align_loop :: "parser \<Rightarrow> aligns \<Rightarrow> string list \<Rightarrow> aligns option" where
  "align_loop p align [] = Some align"
| "align_loop p align (n # work) =
     (case state_map p n of
        None \<Rightarrow> align_loop p align work
      | Some s \<Rightarrow>
          (case align n of
             None \<Rightarrow> None
           | Some entry \<Rightarrow>
               (let aw = merge_succs (exit_alignment p s entry) (successor_states s) (align, work)
                in align_loop p (fst aw) (snd aw))))"
  by pat_completeness auto

lemma queue_pop: "flow_measure p align (n # work) = flow_measure p align work + burden (flow_edges p) (align n)"
  by (simp add: flow_measure_def queue_burden_def)

termination align_loop
proof (relation "measure (\<lambda>(p, align, work). flow_measure p align work)", goal_cases)
  case 1
  then show ?case by simp
next
  case (2 p align n work)
  then show ?case by (simp add: queue_pop burden_def)
next
  case (3 p align n work s entry aw)
  obtain align' work' where aw: "aw = (align', work')" by force
  have "flow_measure p align' work' \<le>
      flow_measure p align work + (if exit_alignment p s entry = None then 0 else length (successor_states s))"
    by (rule merge_succs_measure [OF successors_known [OF 3(1)]]) (use 3(3) aw in simp)
  moreover have "exit_alignment p s entry \<noteq> None \<Longrightarrow> entry \<noteq> None"
    by (auto simp: exit_alignment_def split: option.splits)
  ultimately show ?case
    using successors_few [OF 3(1)] 3(2) aw by (auto simp: queue_pop burden_def split: if_splits)
qed

definition entry_alignments :: "parser \<Rightarrow> aligns option" where
  "entry_alignments p =
     align_loop p [p_start_state p \<mapsto> Some 0] [p_start_state p]"

section \<open>The result is consistent\<close>

text \<open>
  \<open>stable\<close>: along every edge out of \<open>s\<close>, entered at \<open>a\<close>, the target is unknown or has the residue that
  leaves \<open>s\<close>. The loop keeps every known state that is not queued stable.
\<close>

definition stable :: "parser \<Rightarrow> aligns \<Rightarrow> state \<Rightarrow> nat option \<Rightarrow> bool" where
  "stable p align s a \<longleftrightarrow>
     (\<forall>m\<in>set (successor_states s). align m = Some None \<or> align m = Some (exit_alignment p s a))"

definition flow_inv :: "parser \<Rightarrow> aligns \<Rightarrow> string list \<Rightarrow> bool" where
  "flow_inv p align work \<longleftrightarrow>
     (\<forall>n\<in>set work. align n \<noteq> None) \<and>
     (align (p_start_state p) = Some (Some 0) \<or> align (p_start_state p) = Some None) \<and>
     (\<forall>n a s. align n = Some a \<longrightarrow> n \<notin> set work \<longrightarrow> state_map p n = Some s \<longrightarrow> stable p align s a)"

text \<open>\<open>later align align'\<close>: nothing is forgotten, and a residue changes to unknown only.\<close>

definition later :: "aligns \<Rightarrow> aligns \<Rightarrow> bool" where
  "later align align' \<longleftrightarrow> (\<forall>n b. align n = Some b \<longrightarrow> align' n = Some b \<or> align' n = Some None)"

lemma later_refl [simp]: "later align align"
  by (simp add: later_def)

lemma later_trans: "later a b \<Longrightarrow> later b c \<Longrightarrow> later a c"
  unfolding later_def by metis

lemma later_known: "later align align' \<Longrightarrow> align n \<noteq> None \<Longrightarrow> align' n \<noteq> None"
  by (force simp: later_def)

lemma flow_inv_stable:
  "flow_inv p align work \<Longrightarrow> align n = Some a \<Longrightarrow> n \<notin> set work \<Longrightarrow> state_map p n = Some s \<Longrightarrow>
   stable p align s a"
  by (simp add: flow_inv_def)

lemma merge_succs_spec:
  "merge_succs ex ns (align, work) = (align', work') \<Longrightarrow>
   later align align' \<and> set work \<subseteq> set work' \<and>
   (\<forall>n\<in>set ns. align' n = Some None \<or> align' n = Some ex) \<and>
   (\<forall>n. align' n = align n \<or> n \<in> set work') \<and>
   (\<forall>n\<in>set work'. n \<in> set work \<or> align' n \<noteq> None)"
proof (induction ex ns "(align, work)" arbitrary: align work rule: merge_succs.induct)
  case (1 ex)
  then show ?case by simp
next
  case (2 ex n ns align work)
  consider (new) "align n = None" | (same) "align n = Some ex"
    | (other) prev where "align n = Some prev" "prev \<noteq> ex" by (cases "align n") auto
  then show ?case
  proof cases
    case new
    let ?a = "align(n \<mapsto> ex)"
    have l: "later align ?a" using new by (auto simp: later_def)
    have run: "merge_succs ex ns (?a, n # work) = (align', work')" using 2(4) new by simp
    note IH = 2(1) [OF new run]
    from IH have "later ?a align'" by blast
    then have "align' n = Some None \<or> align' n = Some ex"
      unfolding later_def by (metis fun_upd_same)
    moreover have "align' m = align m \<or> m \<in> set work'" for m
      using IH by (metis fun_upd_other list.set_intros(1) subsetD)
    moreover have "m \<in> set work \<or> align' m \<noteq> None" if "m \<in> set work'" for m
      using that IH calculation(1) by auto
    ultimately show ?thesis using IH later_trans [OF l] by simp
  next
    case same
    then show ?thesis using 2(2) [OF same refl] 2(4) by (auto simp: later_def)
  next
    case other
    let ?a = "align(n \<mapsto> None)"
    have l: "later align ?a" using other by (auto simp: later_def)
    have run: "merge_succs ex ns (?a, n # work) = (align', work')" using 2(4) other by simp
    note IH = 2(3) [OF other run]
    from IH have "later ?a align'" by blast
    then have "align' n = Some None"
      unfolding later_def by (metis fun_upd_same)
    moreover have "align' m = align m \<or> m \<in> set work'" for m
      using IH by (metis fun_upd_other list.set_intros(1) subsetD)
    moreover have "m \<in> set work \<or> align' m \<noteq> None" if "m \<in> set work'" for m
      using that IH calculation(1) by auto
    ultimately show ?thesis using IH later_trans [OF l] by simp
  qed
qed

lemma stable_later: "later align align' \<Longrightarrow> stable p align s a \<Longrightarrow> stable p align' s a"
  by (fastforce simp: stable_def later_def)

lemma flow_step:
  assumes inv: "flow_inv p align (n # work)" and s: "state_map p n = Some s" "align n = Some a"
    and step: "merge_succs (exit_alignment p s a) (successor_states s) (align, work) = (align', work')"
  shows "flow_inv p align' work'"
proof -
  note spec = merge_succs_spec [OF step]
  have st: "stable p align' t b" if t: "align' m = Some b" "m \<notin> set work'" "state_map p m = Some t" for m b t
  proof -
    have b: "align m = Some b" using spec t by metis
    show ?thesis
    proof (cases "m = n")
      case True
      with b s t(3) spec show ?thesis by (simp add: stable_def)
    next
      case False
      then have "m \<notin> set (n # work)" using t(2) spec by auto
      then have "stable p align t b" using flow_inv_stable [OF inv b _ t(3)] by blast
      with spec show ?thesis using stable_later by blast
    qed
  qed
  have "align' m \<noteq> None" if "m \<in> set work'" for m
    using that spec inv later_known [of align align'] by (auto simp: flow_inv_def)
  moreover have "align' (p_start_state p) = Some (Some 0) \<or> align' (p_start_state p) = Some None"
    using inv spec by (auto simp: flow_inv_def later_def)
  ultimately show ?thesis using st unfolding flow_inv_def by blast
qed

lemma align_loop_inv:
  "flow_inv p align work \<Longrightarrow> \<exists>align'. align_loop p align work = Some align' \<and> flow_inv p align' []"
proof (induction p align work rule: align_loop.induct)
  case (1 p align)
  then show ?case by simp
next
  case (2 p align n work)
  show ?case
  proof (cases "state_map p n")
    case None
    have "flow_inv p align work"
      using 2(3) None unfolding flow_inv_def by (metis list.set_intros(2) option.distinct(1) set_ConsD)
    then show ?thesis using 2(1) [OF None] None by simp
  next
    case (Some s)
    obtain a where a: "align n = Some a" using 2(3) by (auto simp: flow_inv_def)
    obtain align' work' where
      step: "merge_succs (exit_alignment p s a) (successor_states s) (align, work) = (align', work')"
      by force
    have "flow_inv p align' work'" by (rule flow_step [OF 2(3) Some a step])
    then show ?thesis using 2(2) [OF Some a refl] Some a step by simp
  qed
qed

lemma entry_alignments_inv: "\<exists>align. entry_alignments p = Some align \<and> flow_inv p align []"
  unfolding entry_alignments_def by (rule align_loop_inv) (simp add: flow_inv_def)

section \<open>The alignment the emitter consults\<close>

text \<open>
  \<open>CodeGen::new\<close> stores the map (codegen/c.rs, \<open>entry_align\<close>); \<open>field_alignment\<close> reads it through two
  question marks, which makes an absent state the same as an unknown residue.
\<close>

definition emitter_alignment :: "parser \<Rightarrow> string \<Rightarrow> nat option" where
  "emitter_alignment p n =
     (case entry_alignments p of
        None \<Rightarrow> None
      | Some align \<Rightarrow> (case align n of None \<Rightarrow> None | Some a \<Rightarrow> a))"

definition flow_reached :: "parser \<Rightarrow> string \<Rightarrow> bool" where
  "flow_reached p n = (case entry_alignments p of None \<Rightarrow> False | Some align \<Rightarrow> align n \<noteq> None)"

lemma delta_fields_None [simp]: "delta_fields fs None = None"
  by (induction fs) (auto split: field_width.split)

lemma delta_extracts_None [simp]: "delta_extracts p exs None = None"
  by (induction exs) (auto split: option.split)

lemma progress_delta_fields:
  "c mod 8 = (a + d) mod 8 \<Longrightarrow>
   rel_option (\<lambda>x y. x mod 8 = (a + y) mod 8) (progress_fields fs c) (delta_fields fs (Some d))"
proof (induction fs arbitrary: c d)
  case Nil
  then show ?case by simp
next
  case (Cons f fs)
  have "(c + k) mod 8 mod 8 = (a + (d + k) mod 8) mod 8" for k
    using Cons.prems by (metis add.assoc mod_add_left_eq mod_add_right_eq mod_mod_trivial)
  then show ?case
    using Cons.IH by (auto split: field_width.split option.split)
qed

lemma progress_delta_extracts:
  "c mod 8 = (a + d) mod 8 \<Longrightarrow>
   list_all (\<lambda>ex. find_header_type p (ex_header_type ex) \<noteq> None) exs \<Longrightarrow>
   rel_option (\<lambda>x y. x mod 8 = (a + y) mod 8) (progress_extracts p exs c) (delta_extracts p exs (Some d))"
proof (induction exs arbitrary: c d)
  case Nil
  then show ?case by simp
next
  case (Cons ex exs)
  show ?case
  proof (cases "ex_lookahead ex")
    case True
    then show ?thesis using Cons by simp
  next
    case False
    obtain ht where ht: "find_header_type p (ex_header_type ex) = Some ht" using Cons.prems(2) by auto
    have "rel_option (\<lambda>x y. x mod 8 = (a + y) mod 8) (progress_fields (ht_fields ht) c)
        (delta_fields (ht_fields ht) (Some d))"
      by (rule progress_delta_fields [OF Cons.prems(1)])
    then show ?thesis
      using False ht Cons.IH Cons.prems(2) by (cases rule: option.rel_cases) auto
  qed
qed

text \<open>The residue the analysis gives at the end of a state is the one the emitter's check computes.\<close>

lemma exit_alignment_residue:
  assumes "list_all (\<lambda>ex. find_header_type p (ex_header_type ex) \<noteq> None) (st_extracts s)"
    and "align (st_name s) = entry"
  shows "exit_alignment p s entry = exit_residue p align s"
proof (cases entry)
  case None
  then show ?thesis using assms(2) by (simp add: exit_alignment_def exit_residue_def)
next
  case (Some a)
  have "rel_option (\<lambda>x y. x mod 8 = (a + y) mod 8) (progress_extracts p (st_extracts s) a)
      (delta_extracts p (st_extracts s) (Some 0))"
    by (rule progress_delta_extracts [OF _ assms(1)]) simp
  then show ?thesis
    using Some assms(2)
    by (cases rule: option.rel_cases) (auto simp: exit_alignment_def exit_residue_def)
qed

text \<open>
  Along every edge out of a reached state the target is reached too, and its alignment is unknown or
  the residue that leaves the source: the condition the emitter's byte loads need.
\<close>

lemma entry_alignments_edge:
  assumes "flow_reached p n" and "state_map p n = Some s"
    and "list_all (\<lambda>ex. find_header_type p (ex_header_type ex) \<noteq> None) (st_extracts s)"
    and "ToState m \<in> set (targets_of (st_transition s))"
  shows "flow_reached p m \<and> (emitter_alignment p m = None \<or>
    emitter_alignment p m = exit_residue p (emitter_alignment p) s)"
proof -
  obtain align where al: "entry_alignments p = Some align" "flow_inv p align []"
    using entry_alignments_inv by blast
  obtain a where a: "align n = Some a" using assms(1) al(1) by (auto simp: flow_reached_def)
  have entry: "emitter_alignment p (st_name s) = a"
    using a al(1) state_mapD [OF assms(2)] by (simp add: emitter_alignment_def)
  have ex: "exit_alignment p s a = exit_residue p (emitter_alignment p) s"
    by (rule exit_alignment_residue) (fact assms(3), fact entry)
  have "stable p align s a" by (rule flow_inv_stable [OF al(2) a _ assms(2)]) simp
  then have "align m = Some None \<or> align m = Some (exit_alignment p s a)"
    using successor_statesI [OF assms(4)] by (simp add: stable_def)
  then show ?thesis using al(1) ex by (auto simp: flow_reached_def emitter_alignment_def)
qed

lemma entry_alignments_start:
  "flow_reached p (p_start_state p) \<and>
   (emitter_alignment p (p_start_state p) = None \<or> emitter_alignment p (p_start_state p) = Some 0)"
  using entry_alignments_inv [of p] by (auto simp: flow_inv_def flow_reached_def emitter_alignment_def)

end
