(* ===== verification/Ir_Validated.thy ===== *)
theory Ir_Validated
  imports Ir_Definite Ir_Region_Depth Ir_Flow Ir_Total
begin

text \<open>
  The whole validator, and what its acceptance gives. \<open>validate p = Some []\<close> is \<open>Ok(())\<close>; the outer
  \<open>None\<close> is a panic, which happens for one reason only (\<open>validate_panic\<close>). Acceptance gives the facts the
  certificate checks \<open>wf_within\<close> and \<open>emit_within\<close> ask for, over the states reached from the start,
  with the validator's own analyses as the certificate, except where rule W7 of
  docs/reference/ir-semantics.md is wider than the code: \<open>w7_complete\<close> names what is missing.
\<close>

section \<open>The validator\<close>

text \<open>
  The maximal entry of a key of width \<open>w\<close> is \<open>(1u64 << w) - 1\<close>, computed although a declared width above
  64 has been found wrong before: with overflow checks the shift panics. Without them its amount is
  taken modulo 64, and the verdict is an error all the same, since the width is one.
\<close>

definition wide_keys :: "parser \<Rightarrow> bool" where
  "wide_keys p =
     list_ex (\<lambda>s. case st_transition s of
         Direct _ \<Rightarrow> False
       | Select keys arms _ \<Rightarrow>
           list_ex (\<lambda>a. list_ex (\<lambda>ek. case key_width p (snd ek) of None \<Rightarrow> False | Some w \<Rightarrow> 64 < w)
             (zip (arm_entries a) keys)) arms) (p_states p)"

definition validate_with_limits :: "limits \<Rightarrow> parser \<Rightarrow> violation list option" where
  "validate_with_limits l p =
     (let errs = static_violations l p
      in if wide_keys p then None
         else if errs \<noteq> [] then Some errs
         else let errs = definite_extraction_errors p
              in if errs \<noteq> [] then Some errs else region_depth_errors p)"

definition validate :: "parser \<Rightarrow> violation list option" where
  "validate p = validate_with_limits default_limits p"

section \<open>What acceptance gives\<close>

lemma symbol_none: "validate_symbol role n = [] \<longleftrightarrow> is_portable_ident n"
  by (auto simp: validate_symbol_def is_portable_ident_def)

lemma if_error_none: "(if c then [e] else []) = [] \<longleftrightarrow> \<not> c" "(if c then [] else [e]) = [] \<longleftrightarrow> c"
  by simp_all

lemma concat_none: "concat (map f xs) = [] \<longleftrightarrow> (\<forall>x\<in>set xs. f x = [])"
  by auto

definition field_declared :: "field \<Rightarrow> bool" where
  "field_declared f = (case field_width f of Bits b \<Rightarrow> 1 \<le> b \<and> b \<le> 64 | BitLen _ \<Rightarrow> True)"

definition header_declared :: "header_type \<Rightarrow> bool" where
  "header_declared ht =
     (distinct (map field_name (ht_fields ht)) \<and> list_all field_declared (ht_fields ht))"

lemma field_violations_none:
  "field_violations ht seen members fs = [] \<Longrightarrow>
   distinct (map field_name fs) \<and> field_name ` set fs \<inter> set seen = {} \<and> list_all field_declared fs"
proof (induction fs arbitrary: seen members)
  case Nil
  then show ?case by simp
next
  case (Cons f fs)
  from Cons.prems have "field_violations ht (field_name f # seen) (rev (emitted_members f) @ members) fs = []"
    by simp
  from Cons.IH [OF this] Cons.prems show ?case
    by (auto simp: field_declared_def split: if_splits field_width.splits)
qed

lemma header_violations_none:
  "header_violations seen hts = [] \<Longrightarrow>
   distinct (map ht_name hts) \<and> ht_name ` set hts \<inter> set seen = {} \<and> list_all header_declared hts"
proof (induction hts arbitrary: seen)
  case Nil
  then show ?case by simp
next
  case (Cons ht hts)
  from Cons.prems have "header_violations (ht_name ht # seen) hts = []"
    and fs: "field_violations (ht_name ht) [] [] (ht_fields ht) = []" by simp_all
  from Cons.IH [OF this(1)] field_violations_none [OF fs] Cons.prems show ?case
    by (auto simp: header_declared_def split: if_splits)
qed

lemma metadata_violations_none:
  "metadata_violations seen ms = [] \<Longrightarrow>
   distinct (map md_name ms) \<and> md_name ` set ms \<inter> set seen = {} \<and>
   list_all (\<lambda>m. 1 \<le> md_bits m \<and> md_bits m \<le> 64 \<and> (md_bits m < 64 \<longrightarrow> md_init m < push_bit (md_bits m) 1)) ms"
proof (induction ms arbitrary: seen)
  case Nil
  then show ?case by simp
next
  case (Cons m ms)
  from Cons.prems have "metadata_violations (md_name m # seen) ms = []" by simp
  from Cons.IH [OF this] Cons.prems show ?case
    by (auto split: if_splits)
qed

lemma state_name_violations_none:
  "state_name_violations seen ss = [] \<Longrightarrow> distinct (map st_name ss) \<and> st_name ` set ss \<inter> set seen = {}"
proof (induction ss arbitrary: seen)
  case Nil
  then show ?case by simp
next
  case (Cons s ss)
  from Cons.prems have "state_name_violations (st_name s # seen) ss = []" by simp
  from Cons.IH [OF this] Cons.prems show ?case by (auto split: if_splits)
qed

text \<open>The look-ups of the validator and of the interpreter agree when names are distinct.\<close>

lemma header_type_map_find:
  assumes "distinct (map ht_name (p_header_types p))"
  shows "header_type_map p n = find_header_type p n"
proof (cases "find_header_type p n")
  case None
  then have "header_type_map p n = None"
    by (auto simp: header_type_map_def find_header_type_def find_None_iff map_of_eq_None_iff image_image)
  with None show ?thesis by simp
next
  case (Some h)
  then have "h \<in> set (p_header_types p)" "ht_name h = n" using find_header_typeD by auto
  then have "header_type_map p n = Some h"
    using assms unfolding header_type_map_def
    by (subst map_of_eq_Some_iff) (auto simp: comp_def rev_map [symmetric])
  with Some show ?thesis by simp
qed

definition extract_declared :: "parser \<Rightarrow> extract_op \<Rightarrow> bool" where
  "extract_declared p e =
     (case header_type_map p (ex_header_type e) of
        None \<Rightarrow> False
      | Some ht \<Rightarrow> ex_lookahead e \<longrightarrow>
          list_all (\<lambda>f. case field_width f of Bits _ \<Rightarrow> True | BitLen _ \<Rightarrow> False) (ht_fields ht))"

lemma instance_violations_Cons:
  assumes "instance_violations p insts (x # xs) = []"
  shows "extract_declared p (snd x)"
    and "map_of insts (instance_of (snd x)) = Some t \<Longrightarrow> t = ex_header_type (snd x)"
    and "\<exists>insts'. instance_violations p insts' xs = [] \<and> map_of insts \<subseteq>\<^sub>m map_of insts' \<and>
      map_of insts' (instance_of (snd x)) = Some (ex_header_type (snd x))"
proof -
  let ?i = "instance_of (snd x)" and ?t = "ex_header_type (snd x)"
  obtain ht where ht: "header_type_map p ?t = Some ht"
    using assms by (cases "header_type_map p ?t") auto
  have rest: "instance_violations p (if map_of insts ?i = None then (?i, ?t) # insts else insts) xs = []"
    and clash: "(case map_of insts ?i of None \<Rightarrow> []
      | Some t \<Rightarrow> if t \<noteq> ?t then [Collision (InstanceTypeClash ?i t ?t)] else []) = []"
    and la: "ex_lookahead (snd x) \<Longrightarrow> concat (map (\<lambda>f. case field_width f of
      BitLen _ \<Rightarrow> [Shape (VariableLookahead (fst x) (ht_name ht) (field_name f))] | Bits _ \<Rightarrow> []) (ht_fields ht)) = []"
    using assms ht by simp_all
  show "extract_declared p (snd x)"
    using la ht by (auto simp: extract_declared_def list_all_iff split: field_width.splits)
  show same: "map_of insts ?i = Some t \<Longrightarrow> t = ?t" for t
    using clash by (auto split: if_splits)
  show "\<exists>insts'. instance_violations p insts' xs = [] \<and> map_of insts \<subseteq>\<^sub>m map_of insts' \<and>
      map_of insts' ?i = Some ?t"
  proof (cases "map_of insts ?i")
    case None
    then show ?thesis
      using rest by (intro exI [of _ "(?i, ?t) # insts"]) (auto simp: map_le_def)
  next
    case (Some t)
    then show ?thesis using rest same by auto
  qed
qed

lemma instance_violations_none:
  "instance_violations p insts xs = [] \<Longrightarrow> x \<in> set xs \<Longrightarrow>
   extract_declared p (snd x) \<and>
   (\<forall>t. map_of insts (instance_of (snd x)) = Some t \<longrightarrow> t = ex_header_type (snd x)) \<and>
   (\<forall>y\<in>set xs. instance_of (snd y) = instance_of (snd x) \<longrightarrow> ex_header_type (snd y) = ex_header_type (snd x))"
proof (induction xs arbitrary: insts x)
  case Nil
  then show ?case by simp
next
  case (Cons z zs)
  obtain insts' where rest: "instance_violations p insts' zs = []" and le: "map_of insts \<subseteq>\<^sub>m map_of insts'"
    and z: "map_of insts' (instance_of (snd z)) = Some (ex_header_type (snd z))"
    using instance_violations_Cons(3) [OF Cons.prems(1)] by blast
  have old: "map_of insts' i = Some t" if "map_of insts i = Some t" for i t
    using le that by (auto simp: map_le_def dom_def)
  have decl: "extract_declared p (snd y)"
    and known: "\<And>t. map_of insts' (instance_of (snd y)) = Some t \<Longrightarrow> t = ex_header_type (snd y)"
    and same: "\<And>w. w \<in> set zs \<Longrightarrow> instance_of (snd w) = instance_of (snd y) \<Longrightarrow>
      ex_header_type (snd w) = ex_header_type (snd y)" if "y \<in> set zs" for y
    using Cons.IH [OF rest that] by blast+
  have head: "ex_header_type (snd y) = ex_header_type (snd z)"
    if "y \<in> set zs" "instance_of (snd y) = instance_of (snd z)" for y
    using known [OF that(1), of "ex_header_type (snd z)"] z that(2) by simp
  consider "x \<in> set zs" | "x = z" using Cons.prems(2) by auto
  then show ?case
  proof cases
    case 1
    have "\<And>t. map_of insts (instance_of (snd x)) = Some t \<Longrightarrow> t = ex_header_type (snd x)"
      using known [OF 1] old by blast
    moreover have "ex_header_type (snd y) = ex_header_type (snd x)"
      if "y \<in> set (z # zs)" "instance_of (snd y) = instance_of (snd x)" for y
    proof (cases "y \<in> set zs")
      case True
      then show ?thesis using same [OF 1] that(2) by blast
    next
      case False
      then show ?thesis using that head [OF 1] by simp
    qed
    ultimately show ?thesis using decl [OF 1] by blast
  next
    case 2
    have "ex_header_type (snd y) = ex_header_type (snd z)"
      if "y \<in> set (z # zs)" "instance_of (snd y) = instance_of (snd z)" for y
      using that head by (cases "y \<in> set zs") simp_all
    then show ?thesis
      unfolding 2 using instance_violations_Cons(1,2) [OF Cons.prems(1)] by blast
  qed
qed

lemma map_of_agreeing:
  assumes "x \<in> set xs" and "\<And>y. y \<in> set xs \<Longrightarrow> k y = k x \<Longrightarrow> v y = v x"
  shows "map_of (map (\<lambda>x. (k x, v x)) xs) (k x) = Some (v x)"
  using assms
proof (induction xs)
  case Nil
  then show ?case by simp
next
  case (Cons y ys)
  show ?case
  proof (cases "k y = k x")
    case True
    then show ?thesis using Cons.prems(2) [of y] by simp
  next
    case False
    then have "x \<in> set ys" using Cons.prems(1) by auto
    then have "map_of (map (\<lambda>x. (k x, v x)) ys) (k x) = Some (v x)"
      by (rule Cons.IH) (rule Cons.prems(2), simp)
    then show ?thesis using False by simp
  qed
qed

section \<open>Expressions and states\<close>

primrec operators_known :: "expr \<Rightarrow> bool" where
  "operators_known (Constant v) = True"
| "operators_known Remaining = True"
| "operators_known (Field i f) = True"
| "operators_known (Metadata m) = True"
| "operators_known (Bin op a b) = (op \<noteq> OpUnspecified \<and> operators_known a \<and> operators_known b)"

lemma validate_expr_operators: "validate_expr l d e = [] \<Longrightarrow> operators_known e"
  by (induction e arbitrary: d) (auto split: if_splits)

lemma expr_okI:
  "operators_known e \<Longrightarrow> set (field_refs e) \<subseteq> set bound \<Longrightarrow> set (meta_refs e) \<subseteq> set metas \<Longrightarrow>
   (contains_remaining e \<Longrightarrow> region) \<Longrightarrow> expr_ok bound metas region e"
  by (induction e) auto

lemma meta_widths_names: "meta_widths p m \<noteq> None \<longleftrightarrow> m \<in> set (metas_of p)"
  by (auto simp: meta_widths_def metas_of_def map_of_eq_None_iff image_image)

lemma check_meta_ref_none: "check_meta_ref p m = [] \<longleftrightarrow> m \<in> set (metas_of p)"
  using meta_widths_names [of p m] by (auto simp: check_meta_ref_def)

lemma check_value_none:
  assumes "check_value l p e = []"
  shows "operators_known e \<and> set (meta_refs e) \<subseteq> set (metas_of p)"
proof -
  have "validate_expr l 1 e = [] \<and> (\<forall>r\<in>set (field_refs e). check_ref p r = []) \<and>
      (\<forall>m\<in>set (meta_refs e). check_meta_ref p m = [])"
    using assms unfolding check_value_def append_is_Nil_conv concat_none .
  then show ?thesis using validate_expr_operators check_meta_ref_none by blast
qed

lemma check_length_none:
  "check_length l p v w e = [] \<Longrightarrow> operators_known e \<and> meta_refs e = [] \<and> \<not> contains_remaining e"
  by (auto simp: check_length_def if_error_none dest: validate_expr_operators)

definition target_known :: "parser \<Rightarrow> target \<Rightarrow> bool" where
  "target_known p t = (case t of ToState n \<Rightarrow> n \<in> set (map st_name (p_states p)) | _ \<Rightarrow> True)"

lemma check_target_none: "fst (check_target p st t ids) = [] \<Longrightarrow> target_known p t"
  by (auto simp: check_target_def target_known_def split: target.splits if_splits)

definition transition_declared :: "limits \<Rightarrow> parser \<Rightarrow> transition \<Rightarrow> bool" where
  "transition_declared l p tr \<longleftrightarrow>
     arms_ok tr \<and> list_all (target_known p) (targets_of tr) \<and>
     (case tr of Direct _ \<Rightarrow> True | Select keys _ dflt \<Rightarrow> dflt \<noteq> None \<and> (\<forall>k\<in>set keys. check_value l p k = []))"

lemma arm_violations_none:
  "fst (arm_violations p st keys arms ids) = [] \<Longrightarrow>
   list_all (\<lambda>a. length (arm_entries a) = length keys \<and> target_known p (arm_next a)) arms"
  by (induction arms arbitrary: ids) (auto simp: chain_none dest: check_target_none split: if_splits)

lemma transition_violations_none:
  assumes "fst (transition_violations l p st tr ids) = []"
  shows "transition_declared l p tr"
proof (cases tr)
  case (Direct t)
  then show ?thesis
    using assms by (auto simp: transition_violations_def transition_declared_def arms_ok_def dest: check_target_none)
next
  case (Select keys arms dflt)
  show ?thesis
  proof (cases dflt)
    case None
    then show ?thesis using assms Select by (simp add: transition_violations_def chain_none)
  next
    case (Some t)
    have "\<forall>k\<in>set keys. check_value l p k = []"
      and arms: "\<exists>ids. fst (arm_violations p st keys arms ids) = []"
      and t: "\<exists>ids. fst (check_target p st t ids) = []"
      using assms Select Some by (auto simp: transition_violations_def chain_none)
    moreover have "list_all (\<lambda>a. length (arm_entries a) = length keys \<and> target_known p (arm_next a)) arms"
      using arms arm_violations_none by blast
    moreover have "target_known p t" using t check_target_none by blast
    ultimately show ?thesis
      using Select Some by (auto simp: transition_declared_def arms_ok_def list_all_iff)
  qed
qed

definition state_declared :: "limits \<Rightarrow> parser \<Rightarrow> state \<Rightarrow> bool" where
  "state_declared l p s \<longleftrightarrow>
     (\<forall>e. Push e \<in> set (st_region_ops s) \<longrightarrow>
        operators_known e \<and> meta_refs e = [] \<and> \<not> contains_remaining e) \<and>
     (\<forall>a\<in>set (st_assigns s). as_metadata a \<in> set (metas_of p) \<and> check_value l p (as_value a) = []) \<and>
     transition_declared l p (st_transition s)"

lemma region_op_violations_none:
  "region_op_violations l p st i ops = [] \<Longrightarrow> Push e \<in> set ops \<Longrightarrow>
   operators_known e \<and> meta_refs e = [] \<and> \<not> contains_remaining e"
  by (induction ops arbitrary: i) (auto dest: check_length_none)

lemma state_violations_none:
  "fst (state_violations l p ss ids) = [] \<Longrightarrow> s \<in> set ss \<Longrightarrow> state_declared l p s"
proof (induction ss arbitrary: ids)
  case Nil
  then show ?case by simp
next
  case (Cons t ts)
  have ops: "region_op_violations l p (st_name t) 0 (st_region_ops t) = []"
    and assigns: "\<forall>a\<in>set (st_assigns t). assign_violations l p a = []"
    and tr: "\<exists>ids. fst (transition_violations l p (st_name t) (st_transition t) ids) = []"
    and rest: "\<exists>ids. fst (state_violations l p ts ids) = []"
    using Cons.prems(1) by (auto simp: chain_none)
  show ?case
  proof (cases "s = t")
    case True
    have "transition_declared l p (st_transition t)" using tr transition_violations_none by blast
    moreover have "as_metadata a \<in> set (metas_of p) \<and> check_value l p (as_value a) = []"
      if "a \<in> set (st_assigns t)" for a
      using assigns that check_meta_ref_none [of p "as_metadata a"] by (simp add: assign_violations_def)
    ultimately show ?thesis
      using True region_op_violations_none [OF ops] by (auto simp: state_declared_def)
  next
    case False
    then show ?thesis using rest Cons.IH Cons.prems(2) by auto
  qed
qed

section \<open>Acceptance, in one predicate\<close>

text \<open>\<open>accepted p\<close> collects what the static checks established, free of the order they ran in.\<close>

definition accepted :: "limits \<Rightarrow> parser \<Rightarrow> bool" where
  "accepted l p \<longleftrightarrow>
     int (length (p_states p)) \<le> max_states l \<and>
     distinct (map ht_name (p_header_types p)) \<and> list_all header_declared (p_header_types p) \<and>
     distinct (map md_name (p_metadata p)) \<and>
     list_all (\<lambda>m. 1 \<le> md_bits m \<and> md_bits m \<le> 64 \<and> (md_bits m < 64 \<longrightarrow> md_init m < push_bit (md_bits m) 1))
       (p_metadata p) \<and>
     distinct (map st_name (p_states p)) \<and> p_start_state p \<in> set (map st_name (p_states p)) \<and>
     (\<forall>s\<in>set (p_states p). \<forall>e\<in>set (st_extracts s).
        extract_declared p e \<and> instance_types p (instance_of e) = Some (ex_header_type e)) \<and>
     (\<forall>ht\<in>set (p_header_types p). \<forall>f\<in>set (ht_fields ht). \<forall>e. field_width f = BitLen e \<longrightarrow>
        operators_known e \<and> meta_refs e = [] \<and> \<not> contains_remaining e) \<and>
     (\<forall>s\<in>set (p_states p). state_declared l p s)"

lemma instance_types_extract:
  assumes "instance_violations p [] (all_extracts p) = []"
    and "s \<in> set (p_states p)" and "e \<in> set (st_extracts s)"
  shows "extract_declared p e \<and> instance_types p (instance_of e) = Some (ex_header_type e)"
proof -
  have x: "(st_name s, e) \<in> set (all_extracts p)" using assms(2,3) by (auto simp: all_extracts_def)
  note decl = instance_violations_none [OF assms(1)]
  have "header_type_map p (ex_header_type (snd y)) \<noteq> None" if "y \<in> set (all_extracts p)" for y
    using decl [OF that] by (auto simp: extract_declared_def split: option.splits)
  then have "filter (\<lambda>(_, e). header_type_map p (ex_header_type e) \<noteq> None) (all_extracts p) = all_extracts p"
    by (intro filter_True) (simp add: case_prod_unfold)
  then have "instance_types p =
      map_of (map (\<lambda>x. (instance_of (snd x), ex_header_type (snd x))) (all_extracts p))"
    by (simp add: instance_types_def case_prod_unfold)
  moreover have "map_of (map (\<lambda>x. (instance_of (snd x), ex_header_type (snd x))) (all_extracts p))
      (instance_of (snd (st_name s, e))) = Some (ex_header_type (snd (st_name s, e)))"
    using decl [OF x] by (intro map_of_agreeing [OF x]) simp
  ultimately show ?thesis using decl [OF x] by simp
qed

lemma static_accepted:
  assumes "static_violations l p = []"
  shows "accepted l p"
proof -
  have parts: "size_violations l p = []" "header_violations [] (p_header_types p) = []"
    "metadata_violations [] (p_metadata p) = []" "state_name_violations [] (p_states p) = []"
    "start_violations p = []" "instance_violations p [] (all_extracts p) = []" "width_violations l p = []"
    "fst (state_violations l p (p_states p) builtin_reason_idents) = []"
    using assms by (simp_all add: static_violations_def)
  have size: "int (length (p_states p)) \<le> max_states l"
    using parts(1) by (auto simp: size_violations_def Let_def split: if_splits)
  have start: "p_start_state p \<in> set (map st_name (p_states p))"
    using parts(5) by (simp add: start_violations_def if_error_none)
  have width: "operators_known e \<and> meta_refs e = [] \<and> \<not> contains_remaining e"
    if "ht \<in> set (p_header_types p)" "f \<in> set (ht_fields ht)" "field_width f = BitLen e" for ht f e
  proof -
    have "check_length l p (Impure (WidthUsesMetadata (ht_name ht) (field_name f)))
        (Impure (WidthUsesRemaining (ht_name ht) (field_name f))) e = []"
      using parts(7) that by (fastforce simp: width_violations_def)
    then show ?thesis by (rule check_length_none)
  qed
  show ?thesis
    unfolding accepted_def
    using size start header_violations_none [OF parts(2)] metadata_violations_none [OF parts(3)]
      state_name_violations_none [OF parts(4)] width
    by (intro conjI ballI allI impI instance_types_extract [OF parts(6)] state_violations_none [OF parts(8)])
      simp_all
qed

lemma validate_panic: "validate_with_limits l p = None \<longleftrightarrow> wide_keys p"
proof (cases "static_violations l p = []")
  case True
  then have "p_start_state p \<in> set (map st_name (p_states p))"
    using static_accepted by (auto simp: accepted_def)
  then obtain errs where "region_depth_errors p = Some errs"
    using region_depths_inv [of p] by (auto simp: region_depth_errors_def)
  then show ?thesis
    by (auto simp: validate_with_limits_def Let_def)
qed (simp add: validate_with_limits_def Let_def)

lemma validate_accepted:
  assumes "validate_with_limits l p = Some []"
  obtains depth where "accepted l p" "definite_extraction_errors p = []"
    "region_depths p = Some ([], depth)" "depth_inv p depth []"
proof -
  have "static_violations l p = []" "definite_extraction_errors p = []" "region_depth_errors p = Some []"
    using assms by (auto simp: validate_with_limits_def Let_def split: if_splits)
  moreover from this have "accepted l p" using static_accepted by blast
  moreover from this have "p_start_state p \<in> set (map st_name (p_states p))" by (simp add: accepted_def)
  ultimately show ?thesis
    using region_depths_inv [of p] that by (auto simp: region_depth_errors_def)
qed

end
