(* ===== verification/Ir_Sound.thy ===== *)
theory Ir_Sound
  imports Ir_Validated
begin

text \<open>
  From the validator's acceptance to the certificate the interpreter's totality needs. The states are
  those with a region depth; what is known on entry to one is every fixed-width field of every
  instance the must-analysis promises there. Rule W7 asks more of references than the validator
  checks, in three places, and the interpreter fails without them:

  \<^item> the references of a push length (the code checks widths, assigns and select keys);
  \<^item> a width may name a later field of its own header (the code adds the instance before its widths);
  \<^item> a reference to a variable-length field, which binds no value.

  \<open>w7_complete\<close> is these three conditions and nothing else.
\<close>

section \<open>The part of rule W7 the code leaves out\<close>

definition is_numeric :: "field \<Rightarrow> bool" where
  "is_numeric f = (case field_width f of Bits _ \<Rightarrow> True | BitLen _ \<Rightarrow> False)"

definition numeric_fields :: "parser \<Rightarrow> string \<Rightarrow> names" where
  "numeric_fields p i =
     (case instance_types p i of
        None \<Rightarrow> []
      | Some t \<Rightarrow>
          (case header_type_map p t of
             None \<Rightarrow> []
           | Some ht \<Rightarrow> map (\<lambda>f. (i, field_name f)) (filter is_numeric (ht_fields ht))))"

definition numeric_refs :: "parser \<Rightarrow> expr \<Rightarrow> bool" where
  "numeric_refs p e = list_all (\<lambda>r. r \<in> set (numeric_fields p (fst r))) (field_refs e)"

primrec widths_backward :: "string \<Rightarrow> string list \<Rightarrow> string list \<Rightarrow> field list \<Rightarrow> bool" where
  "widths_backward inst avail earlier [] = True"
| "widths_backward inst avail earlier (f # fs) =
     ((case field_width f of
         Bits _ \<Rightarrow> True
       | BitLen e \<Rightarrow>
           list_all (\<lambda>r. fst r \<in> set avail \<or> fst r = inst \<and> snd r \<in> set earlier) (field_refs e)) \<and>
      widths_backward inst avail (field_name f # earlier) fs)"

primrec extracts_backward :: "parser \<Rightarrow> string list \<Rightarrow> extract_op list \<Rightarrow> bool" where
  "extracts_backward p avail [] = True"
| "extracts_backward p avail (ex # exs) =
     ((case header_type_map p (ex_header_type ex) of
         None \<Rightarrow> True
       | Some ht \<Rightarrow> widths_backward (instance_of ex) avail [] (ht_fields ht)) \<and>
      extracts_backward p (instance_of ex # avail) exs)"

definition exit_insets :: "insets \<Rightarrow> state \<Rightarrow> string list" where
  "exit_insets ins s = rev (state_instances s) @ inset ins (st_name s)"

definition pushes_definite :: "insets \<Rightarrow> state \<Rightarrow> bool" where
  "pushes_definite ins s =
     list_all (\<lambda>op. case op of
         Push e \<Rightarrow> list_all (\<lambda>r. fst r \<in> set (exit_insets ins s)) (field_refs e)
       | Pop \<Rightarrow> True) (st_region_ops s)"

definition state_exprs :: "state \<Rightarrow> expr list" where
  "state_exprs s =
     concat (map (\<lambda>op. case op of Push e \<Rightarrow> [e] | Pop \<Rightarrow> []) (st_region_ops s)) @
     map as_value (st_assigns s) @
     (case st_transition s of Direct _ \<Rightarrow> [] | Select keys _ _ \<Rightarrow> keys)"

definition width_exprs :: "header_type \<Rightarrow> expr list" where
  "width_exprs ht =
     concat (map (\<lambda>f. case field_width f of Bits _ \<Rightarrow> [] | BitLen e \<Rightarrow> [e]) (ht_fields ht))"

definition w7_complete :: "parser \<Rightarrow> bool" where
  "w7_complete p =
     (let ins = definite_insets p in
      list_all (\<lambda>s. pushes_definite ins s \<and> extracts_backward p (inset ins (st_name s)) (st_extracts s) \<and>
        list_all (numeric_refs p) (state_exprs s)) (p_states p) \<and>
      list_all (\<lambda>ht. list_all (numeric_refs p) (width_exprs ht)) (p_header_types p))"

section \<open>What is known on entry\<close>

definition known_fields :: "parser \<Rightarrow> string list \<Rightarrow> names" where
  "known_fields p is = concat (map (numeric_fields p) is)"

lemma known_fields_set: "set (known_fields p is) = (\<Union>i\<in>set is. set (numeric_fields p i))"
  by (simp add: known_fields_def)

lemma numeric_refs_known:
  assumes "numeric_refs p e" and "\<forall>r\<in>set (field_refs e). fst r \<in> set is"
  shows "set (field_refs e) \<subseteq> set (known_fields p is)"
  using assms by (fastforce simp: numeric_refs_def list_all_iff known_fields_set)

lemma check_definite_none:
  "check_definite st avail e = [] \<longleftrightarrow> (\<forall>r\<in>set (field_refs e). fst r \<in> set avail)"
  by (auto simp: check_definite_def)

text \<open>Fields of one header, read in order.\<close>

lemma fields_known_ok:
  assumes ty: "instance_types p inst = Some t" "header_type_map p t = Some ht"
    and dist: "distinct (map field_name (ht_fields ht))"
    and pure: "\<forall>f\<in>set (ht_fields ht). \<forall>e. field_width f = BitLen e \<longrightarrow>
      operators_known e \<and> meta_refs e = [] \<and> \<not> contains_remaining e"
    and numeric: "list_all (numeric_refs p) (width_exprs ht)"
  shows "ht_fields ht = pre @ fs \<Longrightarrow> widths_backward inst avail (rev (map field_name pre)) fs \<Longrightarrow>
    set (known_fields p avail) \<subseteq> set bound \<Longrightarrow>
    (\<forall>f\<in>set pre. is_numeric f \<longrightarrow> (inst, field_name f) \<in> set bound) \<Longrightarrow>
    \<exists>b. fields_known (metas_of p) inst fs bound = Some b \<and> set bound \<subseteq> set b \<and>
      (\<forall>f\<in>set (pre @ fs). is_numeric f \<longrightarrow> (inst, field_name f) \<in> set b)"
proof (induction fs arbitrary: pre bound)
  case Nil
  then show ?case by simp
next
  case (Cons f fs)
  have split: "ht_fields ht = (pre @ [f]) @ fs" using Cons.prems(1) by simp
  have bwd: "widths_backward inst avail (rev (map field_name (pre @ [f]))) fs"
    using Cons.prems(2) by simp
  show ?case
  proof (cases "field_width f")
    case (Bits n)
    have "\<exists>b. fields_known (metas_of p) inst fs ((inst, field_name f) # bound) = Some b \<and>
        set ((inst, field_name f) # bound) \<subseteq> set b \<and>
        (\<forall>g\<in>set ((pre @ [f]) @ fs). is_numeric g \<longrightarrow> (inst, field_name g) \<in> set b)"
      using Cons.prems(3,4) by (intro Cons.IH [OF split bwd]) auto
    then show ?thesis using Bits by auto
  next
    case (BitLen e)
    have f: "f \<in> set (ht_fields ht)" using Cons.prems(1) by simp
    have num: "r \<in> set (numeric_fields p (fst r))" if "r \<in> set (field_refs e)" for r
      using numeric f BitLen that by (fastforce simp: width_exprs_def list_all_iff numeric_refs_def)
    have "r \<in> set bound" if r: "r \<in> set (field_refs e)" for r
    proof -
      have "fst r \<in> set avail \<or> fst r = inst \<and> snd r \<in> field_name ` set pre"
        using Cons.prems(2) BitLen r by (auto simp: list_all_iff)
      then show ?thesis
      proof
        assume "fst r \<in> set avail"
        then show ?thesis using num [OF r] Cons.prems(3) by (auto simp: known_fields_set)
      next
        assume own: "fst r = inst \<and> snd r \<in> field_name ` set pre"
        then obtain g where g: "g \<in> set pre" "field_name g = snd r" by auto
        obtain h where h: "h \<in> set (ht_fields ht)" "is_numeric h" "field_name h = snd r"
          using num [OF r] own ty by (auto simp: numeric_fields_def)
        have "g \<in> set (ht_fields ht)" using g(1) Cons.prems(1) by simp
        then have "g = h" using h g(2) dist by (simp add: distinct_map inj_on_def)
        then have "(inst, snd r) \<in> set bound" using Cons.prems(4) g h by auto
        then show ?thesis using own by (cases r) auto
      qed
    qed
    then have "expr_ok bound (metas_of p) False e"
      using pure f BitLen by (intro expr_okI) auto
    moreover have "\<exists>b. fields_known (metas_of p) inst fs bound = Some b \<and> set bound \<subseteq> set b \<and>
        (\<forall>g\<in>set ((pre @ [f]) @ fs). is_numeric g \<longrightarrow> (inst, field_name g) \<in> set b)"
      using Cons.prems(3,4) BitLen by (intro Cons.IH [OF split bwd]) (auto simp: is_numeric_def)
    ultimately show ?thesis using BitLen by auto
  qed
qed

lemma extracts_known_ok:
  assumes acc: "accepted l p" and w7: "w7_complete p" and s: "s \<in> set (p_states p)"
  shows "set exs \<subseteq> set (st_extracts s) \<Longrightarrow> extracts_backward p avail exs \<Longrightarrow>
    set (known_fields p avail) \<subseteq> set bound \<Longrightarrow>
    \<exists>b. extracts_known p exs bound = Some b \<and>
      set (known_fields p (rev (map instance_of exs) @ avail)) \<subseteq> set b"
proof (induction exs arbitrary: avail bound)
  case Nil
  then show ?case by simp
next
  case (Cons ex exs)
  have "ex \<in> set (st_extracts s)" using Cons.prems(1) by simp
  then have decl: "extract_declared p ex" and ty: "instance_types p (instance_of ex) = Some (ex_header_type ex)"
    using acc s by (auto simp: accepted_def)
  then obtain ht where ht: "header_type_map p (ex_header_type ex) = Some ht"
    by (auto simp: extract_declared_def split: option.splits)
  then have find: "find_header_type p (ex_header_type ex) = Some ht"
    using acc header_type_map_find by (simp add: accepted_def)
  then have mem: "ht \<in> set (p_header_types p)" using find_header_typeD by blast
  have dist: "distinct (map field_name (ht_fields ht))"
    using acc mem by (auto simp: accepted_def list_all_iff header_declared_def)
  have pure: "\<forall>f\<in>set (ht_fields ht). \<forall>e. field_width f = BitLen e \<longrightarrow>
      operators_known e \<and> meta_refs e = [] \<and> \<not> contains_remaining e"
    using acc mem unfolding accepted_def by blast
  have num: "list_all (numeric_refs p) (width_exprs ht)"
    using w7 mem by (auto simp: w7_complete_def Let_def list_all_iff)
  have bwd: "widths_backward (instance_of ex) avail (rev (map field_name [])) (ht_fields ht)"
    using Cons.prems(2) ht by simp
  obtain b where b: "fields_known (metas_of p) (instance_of ex) (ht_fields ht) bound = Some b"
    "set bound \<subseteq> set b" "\<forall>f\<in>set (ht_fields ht). is_numeric f \<longrightarrow> (instance_of ex, field_name f) \<in> set b"
    using fields_known_ok [OF ty ht dist pure num _ bwd Cons.prems(3)] by auto
  have "set (numeric_fields p (instance_of ex)) \<subseteq> set b"
    using b(3) ty ht by (auto simp: numeric_fields_def)
  then have "set (known_fields p (instance_of ex # avail)) \<subseteq> set b"
    using b(2) Cons.prems(3) by (auto simp: known_fields_set)
  then obtain b' where "extracts_known p exs b = Some b'"
    "set (known_fields p (rev (map instance_of exs) @ instance_of ex # avail)) \<subseteq> set b'"
    using Cons.IH [of "instance_of ex # avail" b] Cons.prems(1,2) by auto
  then show ?case using find b(1) by (intro exI [of _ b']) simp
qed

section \<open>The certificate\<close>

definition depth_of :: "depths \<Rightarrow> string \<Rightarrow> nat" where
  "depth_of depth n = (case depth n of None \<Rightarrow> 0 | Some d \<Rightarrow> d)"

definition entry_known :: "parser \<Rightarrow> string \<Rightarrow> names" where
  "entry_known p n = known_fields p (inset (definite_insets p) n)"

text \<open>
  The states both analyses reach. Either alone would do for one of the two certificates; their
  intersection is closed under the transitions and serves both.
\<close>

definition reached :: "parser \<Rightarrow> depths \<Rightarrow> string list" where
  "reached p depth = filter (\<lambda>n. depth n \<noteq> None \<and> flow_reached p n) (map st_name (p_states p))"

lemma extracts_definite_avail:
  "snd (extracts_definite p st exs avail) = rev (map instance_of exs) @ avail"
  by (induction exs arbitrary: avail) (simp_all add: chain_def Let_def)

lemma state_definite_none:
  assumes "definite_extraction_errors p = []" and "s \<in> set (p_states p)"
  shows "\<And>a r. a \<in> set (st_assigns s) \<Longrightarrow> r \<in> set (field_refs (as_value a)) \<Longrightarrow>
      fst r \<in> set (exit_insets (definite_insets p) s)"
    and "\<And>keys arms dflt k r. st_transition s = Select keys arms dflt \<Longrightarrow> k \<in> set keys \<Longrightarrow>
      r \<in> set (field_refs k) \<Longrightarrow> fst r \<in> set (exit_insets (definite_insets p) s)"
proof -
  let ?avail = "exit_insets (definite_insets p) s"
  have avail: "snd (extracts_definite p (st_name s) (st_extracts s) (inset (definite_insets p) (st_name s))) = ?avail"
    by (simp add: extracts_definite_avail exit_insets_def state_instances_def)
  have none: "state_definite p (definite_insets p) s = []"
    using assms unfolding definite_extraction_errors_def concat_none by blast
  have as: "\<forall>a\<in>set (st_assigns s). check_definite (st_name s) ?avail (as_value a) = []"
    and ks: "(case st_transition s of Direct _ \<Rightarrow> []
      | Select keys _ _ \<Rightarrow> concat (map (check_definite (st_name s) ?avail) keys)) = []"
    using none unfolding state_definite_def Let_def avail append_is_Nil_conv concat_none by blast+
  show "fst r \<in> set ?avail" if "a \<in> set (st_assigns s)" "r \<in> set (field_refs (as_value a))" for a r
    using as that by (simp add: check_definite_none)
  show "fst r \<in> set ?avail" if "st_transition s = Select keys arms dflt" "k \<in> set keys"
    "r \<in> set (field_refs k)" for keys arms dflt k r
    using ks that unfolding that(1) transition.case concat_none by (auto simp: check_definite_none)
qed

lemma find_metadata_names: "find_metadata p n \<noteq> None \<longleftrightarrow> n \<in> set (metas_of p)"
  by (auto simp: find_metadata_def find_None_iff metas_of_def)

text \<open>The depth analysis and the interpreter's certificate count the same way.\<close>

lemma ops_total_depth:
  assumes "\<And>e. Push e \<in> set ops \<Longrightarrow> expr_ok bound (metas_of p) False e"
  shows "depth_ops st i d ops = Inr d' \<Longrightarrow> ops_total p bound d ops = Some d'"
  using assms
proof (induction ops arbitrary: i d)
  case Nil
  then show ?case by simp
next
  case (Cons op ops)
  have weaken: "expr_ok bound (metas_of p) False e \<Longrightarrow> expr_ok bound (metas_of p) region e" for region e
    by (induction e) auto
  show ?case
  proof (cases op)
    case (Push e)
    then have "expr_ok bound (metas_of p) (d > 0) e" using Cons.prems(2) weaken by simp
    then show ?thesis using Push Cons by (auto split: if_splits)
  next
    case Pop
    then show ?thesis using Cons by (auto split: if_splits)
  qed
qed

lemma reached_edge:
  assumes acc: "accepted l p" and inv: "depth_inv p depth []"
    and n: "n \<in> set (reached p depth)" and s: "find_state p n = Some s" and d: "depth_state s (depth_of depth n) = Inr d'"
    and m: "ToState m \<in> set (targets_of (st_transition s))"
  shows "m \<in> set (reached p depth) \<and> depth_of depth m = d'"
proof -
  have dist: "distinct (map st_name (p_states p))" using acc by (simp add: accepted_def)
  have sm: "state_map p n = Some s" using s state_map_find [OF dist] by simp
  have mem: "s \<in> set (p_states p)" using find_stateD [OF s] by simp
  then have "transition_declared l p (st_transition s)" and ex: "\<forall>e\<in>set (st_extracts s). extract_declared p e"
    using acc by (auto simp: accepted_def state_declared_def)
  then have known: "m \<in> set (map st_name (p_states p))"
    using m by (fastforce simp: transition_declared_def list_all_iff target_known_def)
  obtain k where k: "depth n = Some k" and flow: "flow_reached p n" using n by (auto simp: reached_def)
  have "settled p depth n k" using depth_invD(3) [OF inv k] by simp
  then obtain k' where "depth_state s k = Inr k'" "depth m = Some k'"
    using sm known state_map_names [of p m] successor_statesI [OF m] by (auto simp: settled_def)
  then have "depth m = Some d'" using d k by (simp add: depth_of_def)
  moreover have "flow_reached p m"
  proof -
    have "list_all (\<lambda>ex. find_header_type p (ex_header_type ex) \<noteq> None) (st_extracts s)"
      using ex acc header_type_map_find [of p]
      by (auto simp: list_all_iff extract_declared_def accepted_def split: option.splits)
    then show ?thesis using entry_alignments_edge [OF flow sm _ m] by blast
  qed
  ultimately show ?thesis using known by (simp add: reached_def depth_of_def)
qed

lemma reached_depth:
  assumes "depth_inv p depth []" and "distinct (map st_name (p_states p))"
    and "n \<in> set (reached p depth)" and "find_state p n = Some s"
  obtains d' where "depth_state s (depth_of depth n) = Inr d'"
proof -
  obtain k where k: "depth n = Some k" using assms(3) by (auto simp: reached_def)
  have "settled p depth n k" using depth_invD(3) [OF assms(1) k] by simp
  then show ?thesis
    using that k assms(4) state_map_find [OF assms(2)] by (auto simp: settled_def depth_of_def)
qed

lemma state_total_validated:
  assumes acc: "accepted l p" and def: "definite_extraction_errors p = []"
    and inv: "depth_inv p depth []" and w7: "w7_complete p"
    and n: "n \<in> set (reached p depth)" and s: "find_state p n = Some s"
  shows "state_total p (reached p depth) (entry_known p) (depth_of depth) s"
proof -
  let ?d = "depth_of depth n" and ?ins = "definite_insets p" and ?ops = "st_region_ops s"
  have name: "st_name s = n" and mem: "s \<in> set (p_states p)" using find_stateD [OF s] by auto
  have dist: "distinct (map st_name (p_states p))" using acc by (simp add: accepted_def)
  have decl: "state_declared l p s" using acc mem by (simp add: accepted_def)
  have w7s: "pushes_definite ?ins s" "extracts_backward p (inset ?ins n) (st_extracts s)"
    "list_all (numeric_refs p) (state_exprs s)"
    using w7 mem name by (auto simp: w7_complete_def Let_def list_all_iff)
  obtain bound where exs: "extracts_known p (st_extracts s) (entry_known p n) = Some bound"
    and bound: "set (known_fields p (exit_insets ?ins s)) \<subseteq> set bound"
    using extracts_known_ok [OF acc w7 mem order_refl w7s(2), of "entry_known p n"]
    by (auto simp: entry_known_def exit_insets_def state_instances_def name)
  obtain d' where d': "depth_state s ?d = Inr d'" using reached_depth [OF inv dist n s] .
  then have ops: "depth_ops n 0 ?d ?ops = Inr d'"
    and assign_rem: "?d = 0 \<Longrightarrow> \<forall>a\<in>set (st_assigns s). \<not> contains_remaining (as_value a)"
    and key_rem: "d' = 0 \<Longrightarrow> \<not> keys_use_remaining (st_transition s)"
    by (auto simp: depth_state_def and_then_Inr name list_ex_iff split: if_splits)
  have expr: "expr_ok bound (metas_of p) region e"
    if "e \<in> set (state_exprs s)" "\<And>r. r \<in> set (field_refs e) \<Longrightarrow> fst r \<in> set (exit_insets ?ins s)"
      "operators_known e" "set (meta_refs e) \<subseteq> set (metas_of p)" "contains_remaining e \<Longrightarrow> region" for e region
  proof (rule expr_okI [OF that(3) _ that(4,5)])
    have "numeric_refs p e" using w7s(3) that(1) by (simp add: list_all_iff)
    from numeric_refs_known [OF this, of "exit_insets ?ins s"] that(2) bound
    show "set (field_refs e) \<subseteq> set bound" by blast
  qed
  note definite = state_definite_none [OF def mem]
  have assigns: "list_all (assign_total p bound ?d) (st_assigns s)"
    unfolding list_all_iff
  proof
    fix a
    assume a: "a \<in> set (st_assigns s)"
    then have "as_metadata a \<in> set (metas_of p)" "check_value l p (as_value a) = []"
      using decl by (auto simp: state_declared_def)
    moreover from check_value_none [OF this(2)] have "expr_ok bound (metas_of p) (?d > 0) (as_value a)"
      using a definite(1) [OF a] assign_rem by (intro expr) (auto simp: state_exprs_def)
    ultimately show "assign_total p bound ?d a"
      using find_metadata_names by (auto simp: assign_total_def)
  qed
  have total_ops: "ops_total p bound ?d ?ops = Some d'"
  proof (rule ops_total_depth [OF _ ops])
    fix e
    assume e: "Push e \<in> set ?ops"
    then have "operators_known e \<and> meta_refs e = [] \<and> \<not> contains_remaining e"
      using decl by (auto simp: state_declared_def)
    moreover have "fst r \<in> set (exit_insets ?ins s)" if "r \<in> set (field_refs e)" for r
      using w7s(1) e that by (fastforce simp: pushes_definite_def list_all_iff)
    moreover have "e \<in> set (state_exprs s)" using e by (force simp: state_exprs_def)
    ultimately show "expr_ok bound (metas_of p) False e" by (intro expr) auto
  qed
  have keys: "keys_total p bound d' (st_transition s)"
  proof (cases "st_transition s")
    case (Select keys arms dflt)
    have "expr_ok bound (metas_of p) (d' > 0) k" if k: "k \<in> set keys" for k
    proof -
      have "check_value l p k = []"
        using decl k Select by (auto simp: state_declared_def transition_declared_def)
      from check_value_none [OF this] show ?thesis
        using k Select definite(2) [OF Select k] key_rem
        by (intro expr) (auto simp: state_exprs_def keys_use_remaining_def list_ex_iff)
    qed
    then show ?thesis using Select by (simp add: keys_total_def list_all_iff)
  qed (simp add: keys_total_def)
  have targets: "list_all (target_total (reached p depth) (entry_known p) (depth_of depth) bound d')
      (targets_of (st_transition s))"
    unfolding list_all_iff
  proof
    fix t
    assume t: "t \<in> set (targets_of (st_transition s))"
    show "target_total (reached p depth) (entry_known p) (depth_of depth) bound d' t"
    proof (cases t)
      case (ToState m)
      then have m: "ToState m \<in> set (targets_of (st_transition s))" using t by simp
      have "set (inset ?ins m) \<subseteq> set (exit_insets ?ins s)"
        using definite_insets_edge [OF mem successor_statesI [OF m]] by (auto simp: exit_insets_def)
      then have "set (entry_known p m) \<subseteq> set bound"
        using bound by (auto simp: entry_known_def known_fields_set)
      then show ?thesis
        using ToState reached_edge [OF acc inv n s d' m] by (simp add: target_total_def)
    qed (simp_all add: target_total_def)
  qed
  show ?thesis
    using exs assigns total_ops keys targets by (simp add: state_total_def name)
qed

lemma validated_wf:
  assumes acc: "accepted l p" and "definite_extraction_errors p = []"
    and inv: "depth_inv p depth []" and "w7_complete p"
  shows "wf_within p (reached p depth) (entry_known p) (depth_of depth)"
  unfolding wf_within_def
proof (intro conjI ballI allI impI)
  show "set (reached p depth) \<subseteq> set (map st_name (p_states p))" by (auto simp: reached_def)
  show "p_start_state p \<in> set (reached p depth)"
    using acc inv entry_alignments_start [of p] by (auto simp: reached_def accepted_def depth_inv_def)
  show "entry_known p (p_start_state p) = []"
    by (simp add: entry_known_def definite_insets_start known_fields_def)
  show "depth_of depth (p_start_state p) = 0" using inv by (simp add: depth_inv_def depth_of_def)
qed (rule state_total_validated [OF assms])

end
