(* ===== verification/Codegen_Validated.thy ===== *)
theory Codegen_Validated
  imports Ir_Sound C_Layout
begin

text \<open>
  The emitter on a validated description. \<open>struct_members\<close> is the result struct codegen/c.rs declares
  (\<open>instances\<close>, \<open>uint_type\<close>, \<open>structs\<close>), with the width of every member; the entry alignments are those
  \<open>entry_alignments\<close> computes. Validation, with the conditions it leaves out, gives the certificate
  \<open>emit_within\<close>, so the emitted C does what the interpreter does without any certificate to supply.
\<close>

section \<open>The result struct\<close>

definition uint_type :: "nat \<Rightarrow> nat" where
  "uint_type n = (if n \<le> 8 then 8 else if n \<le> 16 then 16 else if n \<le> 32 then 32 else 64)"

primrec add_instances :: "(string \<times> string) list \<Rightarrow> extract_op list \<Rightarrow> (string \<times> string) list" where
  "add_instances xs [] = xs"
| "add_instances xs (ex # exs) =
     add_instances
       (if instance_of ex \<in> fst ` set xs then xs else xs @ [(instance_of ex, ex_header_type ex)]) exs"

definition instances :: "parser \<Rightarrow> (string \<times> string) list" where
  "instances p = add_instances [] (concat (map st_extracts (p_states p)))"

definition field_members :: "string \<Rightarrow> field \<Rightarrow> (slot \<times> nat) list" where
  "field_members inst f =
     (case field_width f of
        Bits n \<Rightarrow> [(SFld inst (field_name f), uint_type n)]
      | BitLen _ \<Rightarrow> [(SOff inst (field_name f), 64), (SLen inst (field_name f), 64)])"

definition struct_members :: "parser \<Rightarrow> (slot \<times> nat) list" where
  "struct_members p =
     concat (map (\<lambda>(inst, t).
       (SPresent inst, 8) #
       (case find_header_type p t of
          None \<Rightarrow> []
        | Some ht \<Rightarrow> concat (map (field_members inst) (ht_fields ht)))) (instances p)) @
     map (\<lambda>m. (SMeta (md_name m), 64)) (p_metadata p)"

definition declares :: "slot set \<Rightarrow> (slot \<Rightarrow> nat) \<Rightarrow> parser \<Rightarrow> bool" where
  "declares slots width p \<longleftrightarrow> (\<forall>(x, w)\<in>set (struct_members p). x \<in> slots \<and> width x = w)"

lemma uint_type_fits: "n \<le> 64 \<Longrightarrow> n \<le> uint_type n"
  by (simp add: uint_type_def)

lemma add_instances_ok:
  "(\<forall>x\<in>set xs. P x) \<Longrightarrow> (\<forall>e\<in>set exs. P (instance_of e, ex_header_type e)) \<Longrightarrow>
   (\<forall>x\<in>set (add_instances xs exs). P x) \<and> fst ` set xs \<subseteq> fst ` set (add_instances xs exs) \<and>
   (\<forall>e\<in>set exs. instance_of e \<in> fst ` set (add_instances xs exs))"
proof (induction exs arbitrary: xs)
  case Nil
  then show ?case by simp
next
  case (Cons e exs)
  let ?xs = "if instance_of e \<in> fst ` set xs then xs else xs @ [(instance_of e, ex_header_type e)]"
  obtain ys where ys: "ys = ?xs" by simp
  have IH: "(\<forall>x\<in>set (add_instances ys exs). P x) \<and> fst ` set ys \<subseteq> fst ` set (add_instances ys exs) \<and>
      (\<forall>e\<in>set exs. instance_of e \<in> fst ` set (add_instances ys exs))"
    using Cons.prems unfolding ys by (intro Cons.IH) auto
  have sub: "fst ` set xs \<subseteq> fst ` set ys" "instance_of e \<in> fst ` set ys" unfolding ys by auto
  have step: "add_instances xs (e # exs) = add_instances ys exs" unfolding ys by simp
  have "fst ` set xs \<subseteq> fst ` set (add_instances ys exs)" using IH sub(1) by blast
  moreover have "instance_of e \<in> fst ` set (add_instances ys exs)" using IH sub(2) by blast
  ultimately show ?case unfolding step list.set ball_simps using IH by simp
qed

lemma instances_extract:
  assumes "accepted l p" and "s \<in> set (p_states p)" and "e \<in> set (st_extracts s)"
  shows "(instance_of e, ex_header_type e) \<in> set (instances p)"
proof -
  let ?P = "\<lambda>x. instance_types p (fst x) = Some (snd x)"
  have "(\<forall>x\<in>set (instances p). ?P x) \<and>
      (\<forall>e\<in>set (concat (map st_extracts (p_states p))). instance_of e \<in> fst ` set (instances p))"
    unfolding instances_def
    using add_instances_ok [of "[]" ?P "concat (map st_extracts (p_states p))"] assms(1)
    by (auto simp: accepted_def)
  moreover have "instance_types p (instance_of e) = Some (ex_header_type e)"
    using assms by (auto simp: accepted_def)
  moreover have "e \<in> set (concat (map st_extracts (p_states p)))" using assms(2,3) by auto
  ultimately show ?thesis by (auto simp: image_iff) (metis fst_conv option.inject prod.collapse snd_conv)
qed

section \<open>The certificate\<close>

text \<open>
  What the emitter needs and the validator does not ask for: no state extracts one instance twice (the
  byte loads look a field up by instance and name), and no authored reason is the truncation reason
  (the verdict's exception for a truncated pop names it).
\<close>

definition single_extraction :: "parser \<Rightarrow> bool" where
  "single_extraction p = list_all (\<lambda>s. distinct (map instance_of (st_extracts s))) (p_states p)"

lemma next_pow2_from_ge: "k \<noteq> 0 \<Longrightarrow> n \<le> next_pow2_from k n"
proof (induction k n rule: next_pow2_from.induct)
  case (1 k n)
  then show ?case by (simp add: next_pow2_from.simps [of k n])
qed

lemma region_cap_slots: "region_cap p \<le> region_slots p"
  using next_pow2_from_ge [of 1 "region_cap p"] by (simp add: region_slots_def)

lemma depth_after_ops:
  "depth_ops st i d ops = Inr d' \<Longrightarrow> d + pushes ops \<le> n \<Longrightarrow> depth_after n ops d = Some d'"
proof (induction ops arbitrary: i d)
  case Nil
  then show ?case by simp
next
  case (Cons op ops)
  show ?case
  proof (cases op)
    case (Push e)
    then show ?thesis using Cons by (auto split: if_splits)
  next
    case Pop
    then show ?thesis using Cons by (auto split: if_splits)
  qed
qed

lemma extract_ok_validated:
  assumes acc: "accepted l p" and decl: "declares slots width p"
    and mem: "s \<in> set (p_states p)" "e \<in> set (st_extracts s)"
  shows "extract_ok p slots width e"
proof -
  have "extract_declared p e" using acc mem by (auto simp: accepted_def)
  then obtain ht where find: "find_header_type p (ex_header_type e) = Some ht"
    and la: "ex_lookahead e \<longrightarrow> list_all (\<lambda>f. case field_width f of Bits _ \<Rightarrow> True | BitLen _ \<Rightarrow> False) (ht_fields ht)"
    using acc header_type_map_find [of p] by (auto simp: accepted_def extract_declared_def split: option.splits)
  have ht: "header_declared ht" using acc find find_header_typeD by (fastforce simp: accepted_def list_all_iff)
  have members: "(x, w) \<in> set (struct_members p)"
    if "(x, w) \<in> insert (SPresent (instance_of e), 8) (\<Union>f\<in>set (ht_fields ht). set (field_members (instance_of e) f))"
    for x w
    using that instances_extract [OF acc mem] find unfolding struct_members_def by fastforce
  have "SPresent (instance_of e) \<in> slots \<and> 1 \<le> width (SPresent (instance_of e))"
    using members [of "SPresent (instance_of e)" 8] decl by (auto simp: declares_def)
  moreover have "field_ok slots width (instance_of e) (ex_lookahead e) f" if f: "f \<in> set (ht_fields ht)" for f
  proof (cases "field_width f")
    case (Bits n)
    then have "1 \<le> n" "n \<le> 64" using ht f by (auto simp: header_declared_def field_declared_def list_all_iff)
    moreover have "(SFld (instance_of e) (field_name f), uint_type n) \<in> set (struct_members p)"
      using f Bits by (intro members) (auto simp: field_members_def intro!: bexI [of _ f])
    ultimately show ?thesis using Bits decl uint_type_fits [of n] by (auto simp: field_ok_def declares_def)
  next
    case (BitLen w)
    then have "(SOff (instance_of e) (field_name f), 64) \<in> set (struct_members p)"
      "(SLen (instance_of e) (field_name f), 64) \<in> set (struct_members p)"
      using f by (auto intro!: members bexI [of _ f] simp: field_members_def)
    moreover have "\<not> ex_lookahead e" using la f BitLen by (auto simp: list_all_iff)
    ultimately show ?thesis using BitLen decl by (auto simp: field_ok_def declares_def)
  qed
  ultimately show ?thesis
    using find ht by (auto simp: extract_ok_def header_declared_def list_all_iff)
qed

lemma state_ok_validated:
  assumes acc: "accepted l p" and inv: "depth_inv p depth []" and one: "single_extraction p"
    and decl: "declares slots width p"
    and n: "n \<in> set (reached p depth)" and s: "find_state p n = Some s"
  shows "state_ok p (reached p depth) (region_slots p) (emitter_alignment p) (depth_of depth) slots width s"
proof -
  have name: "st_name s = n" and mem: "s \<in> set (p_states p)" using find_stateD [OF s] by auto
  have dist: "distinct (map st_name (p_states p))" using acc by (simp add: accepted_def)
  have sm: "state_map p n = Some s" using s state_map_find [OF dist] by simp
  obtain k where k: "depth n = Some k" and flow: "flow_reached p n" using n by (auto simp: reached_def)
  obtain d' where d': "depth_state s (depth_of depth n) = Inr d'" using reached_depth [OF inv dist n s] .
  have "depth_of depth n + pushes (st_region_ops s) \<le> region_slots p"
    using depth_below_cap [OF inv dist k sm] region_cap_slots [of p] k by (simp add: depth_of_def)
  moreover have "depth_ops n 0 (depth_of depth n) (st_region_ops s) = Inr d'"
    using d' by (auto simp: depth_state_def and_then_Inr name split: if_splits)
  ultimately have after: "depth_after (region_slots p) (st_region_ops s) (depth_of depth n) = Some d'"
    by (intro depth_after_ops)
  have exs: "list_all (extract_ok p slots width) (st_extracts s)"
    using extract_ok_validated [OF acc decl mem] by (simp add: list_all_iff)
  have heads: "list_all (\<lambda>ex. find_header_type p (ex_header_type ex) \<noteq> None) (st_extracts s)"
    using exs by (auto simp: list_all_iff extract_ok_def split: option.splits)
  have "state_declared l p s" using acc mem by (simp add: accepted_def)
  then have arms: "arms_ok (st_transition s)" by (simp add: state_declared_def transition_declared_def)
  have edges: "list_all (edge_ok (reached p depth) (emitter_alignment p) (depth_of depth)
      (exit_residue p (emitter_alignment p) s) (Some d')) (targets_of (st_transition s))"
    unfolding list_all_iff
  proof
    fix t
    assume t: "t \<in> set (targets_of (st_transition s))"
    show "edge_ok (reached p depth) (emitter_alignment p) (depth_of depth)
        (exit_residue p (emitter_alignment p) s) (Some d') t"
    proof (cases t)
      case (ToState m)
      then have m: "ToState m \<in> set (targets_of (st_transition s))" using t by simp
      show ?thesis
        using ToState reached_edge [OF acc inv n s d' m] entry_alignments_edge [OF flow sm heads m]
        by (simp add: edge_ok_def)
    qed (simp_all add: edge_ok_def)
  qed
  show ?thesis
    using exs after arms edges one mem by (simp add: state_ok_def name single_extraction_def list_all_iff)
qed

lemma validated_emit:
  assumes acc: "accepted l p" and inv: "depth_inv p depth []" and one: "single_extraction p"
    and decl: "declares slots width p" and reason: "''out of bounds'' \<notin> set (reject_reasons p)"
    and compiles: "core_compiles p"
  shows "emit_within p (reached p depth) (emitter_alignment p) (depth_of depth) slots width"
  unfolding emit_within_def
proof (intro conjI ballI allI impI)
  show "set (reached p depth) \<subseteq> set (map st_name (p_states p))" by (auto simp: reached_def)
  show "p_start_state p \<in> set (reached p depth)"
    using acc inv entry_alignments_start [of p] by (auto simp: reached_def accepted_def depth_inv_def)
  show "emitter_alignment p (p_start_state p) = None \<or> emitter_alignment p (p_start_state p) = Some 0"
    using entry_alignments_start [of p] by blast
  show "depth_of depth (p_start_state p) = 0" using inv by (simp add: depth_inv_def depth_of_def)
  show "distinct (map md_name (p_metadata p))" using acc by (simp add: accepted_def)
  show "list_all (metadata_ok slots width) (p_metadata p)"
    unfolding list_all_iff
  proof
    fix m
    assume "m \<in> set (p_metadata p)"
    then have "(SMeta (md_name m), 64) \<in> set (struct_members p)" by (simp add: struct_members_def)
    then show "metadata_ok slots width m" using decl by (auto simp: declares_def metadata_ok_def)
  qed
qed (fact reason, fact compiles, rule state_ok_validated [OF acc inv one decl])

section \<open>Only the alignments of states matter\<close>

lemma byte_load_cong:
  "align (st_name st) = align' (st_name st) \<Longrightarrow> byte_load p align st = byte_load p align' st"
  by (intro ext) (simp add: byte_load_def field_alignment_def)

lemma emit_field_cong:
  assumes "align (st_name st) = align' (st_name st)"
  shows "emit_field p align rd bit_len get put st = emit_field p align' rd bit_len get put st"
  unfolding emit_field_def [abs_def] byte_load_cong [of align st align', OF assms] ..

lemma emit_state_cong:
  assumes "align (st_name st) = align' (st_name st)"
  shows "emit_state p align rd bit_len get put st = emit_state p align' rd bit_len get put st"
  unfolding emit_state_def emit_extract_def [abs_def] emit_field_cong [of align st align', OF assms] ..

lemma emit_switch_cong:
  assumes "list_all (\<lambda>st. align (st_name st) = align' (st_name st)) (p_states p)"
  shows "emit_switch p align rd bit_len get put = emit_switch p align' rd bit_len get put"
proof -
  have "map (\<lambda>st. (state_id p (st_name st), emit_state p align rd bit_len get put st)) (p_states p) =
      map (\<lambda>st. (state_id p (st_name st), emit_state p align' rd bit_len get put st)) (p_states p)"
    using assms by (intro map_cong refl) (auto simp: list_all_iff intro!: emit_state_cong)
  then show ?thesis unfolding emit_switch_def by (rule arg_cong)
qed

lemma emit_core_cong:
  assumes "list_all (\<lambda>st. align (st_name st) = align' (st_name st)) (p_states p)"
  shows "emit_core p align rd bit_len get put o' = emit_core p align' rd bit_len get put o'"
  unfolding emit_core_def emit_switch_cong [OF assms] ..

end
