(* ===== verification/Tlv_Items.thy ===== *)
theory Tlv_Items
  imports C_Machine
begin

text \<open>
  The parser generated for the TLV example: one sized region, a loop whose head measures what is left of it: examples/tlv_items/gen/parser.c
  and parser.h, 4 states in at most 8 steps, with 1 slots of region stack. One record per struct of the header, one
  definition per case of the switch with its statements in the order of the file, the dispatch,
  the core, the entry point and the table of reasons. Names carry the prefix \<open>tlv_\<close> where the C
  has \<open>pk_tlv_items_\<close> or the file as a name space.
\<close>

section \<open>The result struct\<close>

record tlv_total_len_t =
  tlv_total_len_total :: u8

record tlv_item_t =
  tlv_item_kind :: u8
  tlv_item_ln :: u8
  tlv_item_val_bit_off :: u64
  tlv_item_val_bit_len :: u64

record tlv_result = pk_result +
  tlv_total_len_present :: u8
  tlv_total_len :: tlv_total_len_t
  tlv_item_present :: u8
  tlv_item :: tlv_item_t

text \<open>\<open>pk_tlv_items_result_t zero = {0};\<close>\<close>

definition tlv_zero :: tlv_result where
  "tlv_zero =
     \<lparr>outcome = 0, reason = 0, consumed_bits = 0,
      tlv_total_len_present = 0,
      tlv_total_len = \<lparr>tlv_total_len_total = 0\<rparr>,
      tlv_item_present = 0,
      tlv_item = \<lparr>tlv_item_kind = 0, tlv_item_ln = 0, tlv_item_val_bit_off = 0, tlv_item_val_bit_len = 0\<rparr>\<rparr>"

text \<open>The assignments to a member, with the cast to its type.\<close>

abbreviation tlv_set_total_len_total :: "u64 \<Rightarrow> tlv_result \<Rightarrow> tlv_result" where
  "tlv_set_total_len_total v o' \<equiv> o'\<lparr>tlv_total_len := (tlv_total_len o')\<lparr>tlv_total_len_total := ucast v\<rparr>\<rparr>"

abbreviation tlv_set_item_kind :: "u64 \<Rightarrow> tlv_result \<Rightarrow> tlv_result" where
  "tlv_set_item_kind v o' \<equiv> o'\<lparr>tlv_item := (tlv_item o')\<lparr>tlv_item_kind := ucast v\<rparr>\<rparr>"

abbreviation tlv_set_item_ln :: "u64 \<Rightarrow> tlv_result \<Rightarrow> tlv_result" where
  "tlv_set_item_ln v o' \<equiv> o'\<lparr>tlv_item := (tlv_item o')\<lparr>tlv_item_ln := ucast v\<rparr>\<rparr>"

abbreviation tlv_set_item_val_bit_off :: "u64 \<Rightarrow> tlv_result \<Rightarrow> tlv_result" where
  "tlv_set_item_val_bit_off v o' \<equiv> o'\<lparr>tlv_item := (tlv_item o')\<lparr>tlv_item_val_bit_off := v\<rparr>\<rparr>"

abbreviation tlv_set_item_val_bit_len :: "u64 \<Rightarrow> tlv_result \<Rightarrow> tlv_result" where
  "tlv_set_item_val_bit_len v o' \<equiv> o'\<lparr>tlv_item := (tlv_item o')\<lparr>tlv_item_val_bit_len := v\<rparr>\<rparr>"

section \<open>States, reasons and bounds\<close>

abbreviation tlv_S_PARSE_TOTAL :: u32 where "tlv_S_PARSE_TOTAL \<equiv> 0"
abbreviation tlv_S_TLV_LOOP :: u32 where "tlv_S_TLV_LOOP \<equiv> 1"
abbreviation tlv_S_PARSE_ITEM :: u32 where "tlv_S_PARSE_ITEM \<equiv> 2"
abbreviation tlv_S_CLOSE :: u32 where "tlv_S_CLOSE \<equiv> 3"


abbreviation tlv_RMASK :: u32 where "tlv_RMASK \<equiv> 0"

section \<open>The cases of the switch\<close>

definition tlv_case_parse_total :: "packet_reader \<Rightarrow> u64 \<Rightarrow> tlv_result stmt list" where
  "tlv_case_parse_total rd bit_len =
   [store (\<lambda>o'. o'\<lparr>tlv_total_len_present := 1\<rparr>),
    check_region tlv_RMASK Off 8,
    check_len bit_len Off 8,
    load_bytes rd Off 1 tlv_set_total_len_total,
    advance Off 8,
    bind_local (c_mul (c_out (\<lambda>o'. ucast (tlv_total_len_total (tlv_total_len o')))) (c_const 8)) (\<lambda>rlen.
      [push_check tlv_RMASK rlen,
       push_clamp tlv_RMASK,
       push_store tlv_RMASK rlen]),
    goto tlv_S_TLV_LOOP]"

definition tlv_case_tlv_loop :: "packet_reader \<Rightarrow> u64 \<Rightarrow> tlv_result stmt list" where
  "tlv_case_tlv_loop rd bit_len =
   [bind_local (c_shr (c_remaining tlv_RMASK) (c_const 3)) (\<lambda>key0. [
     branch (\<lambda>_. key0 = 0) (goto tlv_S_CLOSE) (
     goto tlv_S_PARSE_ITEM)])]"

definition tlv_case_parse_item :: "packet_reader \<Rightarrow> u64 \<Rightarrow> tlv_result stmt list" where
  "tlv_case_parse_item rd bit_len =
   [store (\<lambda>o'. o'\<lparr>tlv_item_present := 1\<rparr>),
    check_region tlv_RMASK Off 8,
    check_len bit_len Off 8,
    load_bytes rd Off 1 tlv_set_item_kind,
    advance Off 8,
    check_region tlv_RMASK Off 8,
    check_len bit_len Off 8,
    load_bytes rd Off 1 tlv_set_item_ln,
    advance Off 8,
    bind_local (c_mul (c_out (\<lambda>o'. ucast (tlv_item_ln (tlv_item o')))) (c_const 8)) (\<lambda>vlen.
      [check_var_region tlv_RMASK vlen,
       check_var_len bit_len vlen,
       store_off tlv_set_item_val_bit_off,
       store (tlv_set_item_val_bit_len vlen),
       advance Off vlen]),
    goto tlv_S_TLV_LOOP]"

definition tlv_case_close :: "packet_reader \<Rightarrow> u64 \<Rightarrow> tlv_result stmt list" where
  "tlv_case_close rd bit_len =
   [pop_guard,
    pop_dec,
    pop_check tlv_RMASK,
    accept]"

section \<open>The parser\<close>

definition tlv_switch :: "packet_reader \<Rightarrow> u64 \<Rightarrow> tlv_result stmt" where
  "tlv_switch rd bit_len = switch
   [(tlv_S_PARSE_TOTAL, tlv_case_parse_total rd bit_len),
    (tlv_S_TLV_LOOP, tlv_case_tlv_loop rd bit_len),
    (tlv_S_PARSE_ITEM, tlv_case_parse_item rd bit_len),
    (tlv_S_CLOSE, tlv_case_close rd bit_len)]"

definition tlv_parse_core :: "packet_reader \<Rightarrow> u64 \<Rightarrow> tlv_result \<Rightarrow> tlv_result flow" where
  "tlv_parse_core rd bit_len o' =
     depth_loop 8 (tlv_switch rd bit_len)
       (init_locals tlv_S_PARSE_TOTAL 1 o')"

text \<open>The caller's struct is overwritten with zeros before the core runs.\<close>

definition tlv_parse :: "packet_reader \<Rightarrow> u64 \<Rightarrow> tlv_result \<Rightarrow> tlv_result flow" where
  "tlv_parse rd bit_len o' = tlv_parse_core rd bit_len tlv_zero"

text \<open>The reasons of the header, with the text each carries in a comment.\<close>

definition tlv_reasons :: "(u16 \<times> string) list" where
  "tlv_reasons =
     [(1, ''out of bounds''),
      (2, ''max depth exceeded''),
      (3, ''no matching select arm''),
      (4, ''out of region bounds''),
      (5, ''region out of bounds''),
      (6, ''region not exhausted'')]"

definition tlv_reason_str :: "u16 \<Rightarrow> string" where
  "tlv_reason_str r =
     (if r = 1 then ''out of bounds''
      else if r = 2 then ''max depth exceeded''
      else if r = 3 then ''no matching select arm''
      else if r = 4 then ''out of region bounds''
      else if r = 5 then ''region out of bounds''
      else if r = 6 then ''region not exhausted''
      else [])"

end
