(* ===== verification/Tlv_Items_Bpf.thy ===== *)
theory Tlv_Items_Bpf
  imports Tlv_Items
begin

text \<open>
  examples/tlv_items/gen/parser.bpf.c: the eBPF variant of the same parser, statement by statement
  from its own file. Every packet index is masked with \<open>PK_BUF_MASK\<close>; the structs, states and
  reasons are those of parser.h, which the file repeats. \<open>pk_entry\<close> reads the length prefix,
  runs the core on what follows it and packs the verdict word.
\<close>

definition tlv_bpf_case_parse_total :: "packet_reader \<Rightarrow> u64 \<Rightarrow> tlv_result stmt list" where
  "tlv_bpf_case_parse_total rd bit_len =
   [store (\<lambda>o'. o'\<lparr>tlv_total_len_present := 1\<rparr>),
    check_region tlv_RMASK Off 8,
    check_len bit_len Off 8,
    load_bytes (masked rd) Off 1 tlv_set_total_len_total,
    advance Off 8,
    bind_local (c_mul (c_out (\<lambda>o'. ucast (tlv_total_len_total (tlv_total_len o')))) (c_const 8)) (\<lambda>rlen.
      [push_check tlv_RMASK rlen,
       push_clamp tlv_RMASK,
       push_store tlv_RMASK rlen]),
    goto tlv_S_TLV_LOOP]"

definition tlv_bpf_case_tlv_loop :: "packet_reader \<Rightarrow> u64 \<Rightarrow> tlv_result stmt list" where
  "tlv_bpf_case_tlv_loop rd bit_len =
   [bind_local (c_shr (c_remaining tlv_RMASK) (c_const 3)) (\<lambda>key0. [
     branch (\<lambda>_. key0 = 0) (goto tlv_S_CLOSE) (
     goto tlv_S_PARSE_ITEM)])]"

definition tlv_bpf_case_parse_item :: "packet_reader \<Rightarrow> u64 \<Rightarrow> tlv_result stmt list" where
  "tlv_bpf_case_parse_item rd bit_len =
   [store (\<lambda>o'. o'\<lparr>tlv_item_present := 1\<rparr>),
    check_region tlv_RMASK Off 8,
    check_len bit_len Off 8,
    load_bytes (masked rd) Off 1 tlv_set_item_kind,
    advance Off 8,
    check_region tlv_RMASK Off 8,
    check_len bit_len Off 8,
    load_bytes (masked rd) Off 1 tlv_set_item_ln,
    advance Off 8,
    bind_local (c_mul (c_out (\<lambda>o'. ucast (tlv_item_ln (tlv_item o')))) (c_const 8)) (\<lambda>vlen.
      [check_var_region tlv_RMASK vlen,
       check_var_len bit_len vlen,
       store_off tlv_set_item_val_bit_off,
       store (tlv_set_item_val_bit_len vlen),
       advance Off vlen]),
    goto tlv_S_TLV_LOOP]"

definition tlv_bpf_case_close :: "packet_reader \<Rightarrow> u64 \<Rightarrow> tlv_result stmt list" where
  "tlv_bpf_case_close rd bit_len =
   [pop_guard,
    pop_dec,
    pop_check tlv_RMASK,
    accept]"

definition tlv_bpf_switch :: "packet_reader \<Rightarrow> u64 \<Rightarrow> tlv_result stmt" where
  "tlv_bpf_switch rd bit_len = switch
   [(tlv_S_PARSE_TOTAL, tlv_bpf_case_parse_total rd bit_len),
    (tlv_S_TLV_LOOP, tlv_bpf_case_tlv_loop rd bit_len),
    (tlv_S_PARSE_ITEM, tlv_bpf_case_parse_item rd bit_len),
    (tlv_S_CLOSE, tlv_bpf_case_close rd bit_len)]"

definition tlv_bpf_parse_core :: "packet_reader \<Rightarrow> u64 \<Rightarrow> tlv_result \<Rightarrow> tlv_result flow" where
  "tlv_bpf_parse_core rd bit_len o' =
     depth_loop 8 (tlv_bpf_switch rd bit_len)
       (init_locals tlv_S_PARSE_TOTAL 1 o')"

definition tlv_bpf_pk_entry :: "bytes \<Rightarrow> fault + u64" where
  "tlv_bpf_pk_entry mem =
     and_then (entry_bit_len mem) (\<lambda>bit_len.
       entry_verdict (tlv_bpf_parse_core (buf_at (drop 8 mem)) bit_len tlv_zero))"

lemma tlv_bpf_core_eq: "tlv_bpf_parse_core rd = tlv_parse_core (masked rd)"
  by (simp add: fun_eq_iff tlv_bpf_parse_core_def tlv_parse_core_def tlv_bpf_switch_def tlv_switch_def
    tlv_bpf_case_parse_total_def tlv_case_parse_total_def
    tlv_bpf_case_tlv_loop_def tlv_case_tlv_loop_def
    tlv_bpf_case_parse_item_def tlv_case_parse_item_def
    tlv_bpf_case_close_def tlv_case_close_def)

end
