(* ===== verification/Tlv_Items_Refine.thy ===== *)
theory Tlv_Items_Refine
  imports Tlv_Items_Bpf Bpf_Entry
begin

text \<open>
  The generated parser examples/tlv_items/gen/parser.c is what the emitter makes of
  examples/tlv_items/tlv_items.ir.json, and it does what the interpreter does: the description as a term of the
  IR, the members of the result struct, the certificates of the two static checks, the proof that
  every case of the file equals the emitted one, and the refinement theorem.
\<close>

section \<open>The description\<close>

definition tlv_ht_total_len :: header_type where
  "tlv_ht_total_len = \<lparr>ht_name = ''total_len'', ht_fields =
     [\<lparr>field_name = ''total'', field_width = Bits 8\<rparr>]\<rparr>"

definition tlv_ht_item :: header_type where
  "tlv_ht_item = \<lparr>ht_name = ''item'', ht_fields =
     [\<lparr>field_name = ''kind'', field_width = Bits 8\<rparr>,
      \<lparr>field_name = ''ln'', field_width = Bits 8\<rparr>,
      \<lparr>field_name = ''val'', field_width = BitLen (Bin OpMul (Field ''item'' ''ln'') (Constant 8))\<rparr>]\<rparr>"

definition tlv_st_parse_total :: state where
  "tlv_st_parse_total =
     \<lparr>st_name = ''parse_total'',
      st_extracts = [\<lparr>ex_header_type = ''total_len'', ex_instance = [], ex_lookahead = False\<rparr>],
      st_assigns = [],
      st_region_ops = [Push (Bin OpMul (Field ''total_len'' ''total'') (Constant 8))],
      st_transition = Direct (ToState ''tlv_loop'')\<rparr>"

definition tlv_st_tlv_loop :: state where
  "tlv_st_tlv_loop =
     \<lparr>st_name = ''tlv_loop'',
      st_extracts = [],
      st_assigns = [],
      st_region_ops = [],
      st_transition = Select [Bin OpShr (Remaining) (Constant 3)]
       [\<lparr>arm_entries = [Value 0], arm_next = ToState ''close''\<rparr>]
       (Some (ToState ''parse_item''))\<rparr>"

definition tlv_st_parse_item :: state where
  "tlv_st_parse_item =
     \<lparr>st_name = ''parse_item'',
      st_extracts = [\<lparr>ex_header_type = ''item'', ex_instance = [], ex_lookahead = False\<rparr>],
      st_assigns = [],
      st_region_ops = [],
      st_transition = Direct (ToState ''tlv_loop'')\<rparr>"

definition tlv_st_close :: state where
  "tlv_st_close =
     \<lparr>st_name = ''close'',
      st_extracts = [],
      st_assigns = [],
      st_region_ops = [Pop],
      st_transition = Direct (Accept)\<rparr>"

definition tlv_ir :: parser where
  "tlv_ir =
     \<lparr>p_header_types = [tlv_ht_total_len, tlv_ht_item],
      p_states = [tlv_st_parse_total,
        tlv_st_tlv_loop,
        tlv_st_parse_item,
        tlv_st_close],
      p_start_state = ''parse_total'', p_max_depth = 8,
      p_metadata = []\<rparr>"

section \<open>The members of the result struct\<close>

definition tlv_members :: "tlv_result member list" where
  "tlv_members =
     [(SPresent ''total_len'', (\<lambda>o'. ucast (tlv_total_len_present o')), (\<lambda>v o'. o'\<lparr>tlv_total_len_present := ucast v\<rparr>), 8),
      (SFld ''total_len'' ''total'', (\<lambda>o'. ucast (tlv_total_len_total (tlv_total_len o'))), tlv_set_total_len_total, 8),
      (SPresent ''item'', (\<lambda>o'. ucast (tlv_item_present o')), (\<lambda>v o'. o'\<lparr>tlv_item_present := ucast v\<rparr>), 8),
      (SFld ''item'' ''kind'', (\<lambda>o'. ucast (tlv_item_kind (tlv_item o'))), tlv_set_item_kind, 8),
      (SFld ''item'' ''ln'', (\<lambda>o'. ucast (tlv_item_ln (tlv_item o'))), tlv_set_item_ln, 8),
      (SOff ''item'' ''val'', (\<lambda>o'. tlv_item_val_bit_off (tlv_item o')), tlv_set_item_val_bit_off, 64),
      (SLen ''item'' ''val'', (\<lambda>o'. tlv_item_val_bit_len (tlv_item o')), tlv_set_item_val_bit_len, 64)]"

lemma tlv_layout: "layout_ok tlv_members tlv_zero"
  by (simp add: layout_ok_def tlv_members_def tlv_zero_def read_all_def)

lemmas tlv_member [simp] = members_all [OF tlv_layout tlv_members_def, unfolded list.pred_inject prod.case]

section \<open>The certificate\<close>

definition tlv_align :: "string \<Rightarrow> nat option" where
  "tlv_align = map_of [(''parse_total'', 0), (''tlv_loop'', 0), (''parse_item'', 0), (''close'', 0)]"

definition tlv_depth :: "string \<Rightarrow> nat" where
  "tlv_depth n = (case map_of [(''tlv_loop'', 1), (''parse_item'', 1), (''close'', 1)] n of None \<Rightarrow> 0 | Some d \<Rightarrow> d)"

definition tlv_known :: "string \<Rightarrow> names" where
  "tlv_known n = (case map_of
     [(''tlv_loop'', [(''total_len'', ''total'')]),
      (''parse_item'', [(''total_len'', ''total'')]),
      (''close'', [(''total_len'', ''total'')])] n of None \<Rightarrow> [] | Some b \<Rightarrow> b)"

lemmas tlv_ir_defs = tlv_ir_def tlv_ht_total_len_def tlv_ht_item_def
  tlv_st_parse_total_def tlv_st_tlv_loop_def tlv_st_parse_item_def tlv_st_close_def

text \<open>Everything the emitter computes from the description alone, evaluated.\<close>

lemma tlv_wf: "wf_ok tlv_ir tlv_known tlv_depth"
  by code_simp

lemma tlv_evaluated:
  "list_all (\<lambda>(st, i, f, n, b). byte_load tlv_ir tlv_align st i f n = b)
     [(tlv_st_parse_total, ''total_len'', ''total'', 8, True),
      (tlv_st_parse_item, ''item'', ''kind'', 8, True),
      (tlv_st_parse_item, ''item'', ''ln'', 8, True)] \<and>
   list_all (\<lambda>(n, h). find_header_type tlv_ir n = Some h)
     [(''total_len'', tlv_ht_total_len),
      (''item'', tlv_ht_item)] \<and>
   list_all (\<lambda>(n, k). state_id tlv_ir n = k)
     [(''parse_total'', 0),
      (''tlv_loop'', 1),
      (''parse_item'', 2),
      (''close'', 3)] \<and>
   list_all (\<lambda>(r, k). reason_code tlv_ir r = k)
     [] \<and>
   region_cap tlv_ir = 1 \<and> region_mask tlv_ir = 0 \<and> region_slots tlv_ir = 1 \<and>
   list_all (\<lambda>(n, a). tlv_align n = a)
     [(''parse_total'', Some 0),
      (''tlv_loop'', Some 0),
      (''parse_item'', Some 0),
      (''close'', Some 0)] \<and>
   list_all (\<lambda>(n, d). tlv_depth n = d)
     [(''parse_total'', 0), (''tlv_loop'', 1), (''parse_item'', 1), (''close'', 1)] \<and>
   reasons_fit tlv_ir \<and> meta_decl_ok tlv_ir \<and> core_compiles tlv_ir"
  by code_simp

lemmas tlv_emit_eval [simp] = tlv_evaluated [unfolded list.pred_inject prod.case]

section \<open>The emitted code is the generated file\<close>

lemmas tlv_st_parse_total_sel = tlv_st_parse_total_def [THEN arg_cong [of _ _ st_name], simplified state.simps]
  tlv_st_parse_total_def [THEN arg_cong [of _ _ st_extracts], simplified state.simps]
  tlv_st_parse_total_def [THEN arg_cong [of _ _ st_assigns], simplified state.simps]
  tlv_st_parse_total_def [THEN arg_cong [of _ _ st_region_ops], simplified state.simps]
  tlv_st_parse_total_def [THEN arg_cong [of _ _ st_transition], simplified state.simps]

lemmas tlv_st_tlv_loop_sel = tlv_st_tlv_loop_def [THEN arg_cong [of _ _ st_name], simplified state.simps]
  tlv_st_tlv_loop_def [THEN arg_cong [of _ _ st_extracts], simplified state.simps]
  tlv_st_tlv_loop_def [THEN arg_cong [of _ _ st_assigns], simplified state.simps]
  tlv_st_tlv_loop_def [THEN arg_cong [of _ _ st_region_ops], simplified state.simps]
  tlv_st_tlv_loop_def [THEN arg_cong [of _ _ st_transition], simplified state.simps]

lemmas tlv_st_parse_item_sel = tlv_st_parse_item_def [THEN arg_cong [of _ _ st_name], simplified state.simps]
  tlv_st_parse_item_def [THEN arg_cong [of _ _ st_extracts], simplified state.simps]
  tlv_st_parse_item_def [THEN arg_cong [of _ _ st_assigns], simplified state.simps]
  tlv_st_parse_item_def [THEN arg_cong [of _ _ st_region_ops], simplified state.simps]
  tlv_st_parse_item_def [THEN arg_cong [of _ _ st_transition], simplified state.simps]

lemmas tlv_st_close_sel = tlv_st_close_def [THEN arg_cong [of _ _ st_name], simplified state.simps]
  tlv_st_close_def [THEN arg_cong [of _ _ st_extracts], simplified state.simps]
  tlv_st_close_def [THEN arg_cong [of _ _ st_assigns], simplified state.simps]
  tlv_st_close_def [THEN arg_cong [of _ _ st_region_ops], simplified state.simps]
  tlv_st_close_def [THEN arg_cong [of _ _ st_transition], simplified state.simps]

lemmas tlv_ir_sel = tlv_ir_def [THEN arg_cong [of _ _ p_states], simplified parser.simps]
  tlv_ir_def [THEN arg_cong [of _ _ p_start_state], simplified parser.simps]
  tlv_ir_def [THEN arg_cong [of _ _ p_max_depth], simplified parser.simps]
  tlv_ir_def [THEN arg_cong [of _ _ p_metadata], simplified parser.simps]

lemma tlv_emit_ok:
  "emit_ok tlv_ir tlv_align tlv_depth (member_slots tlv_members) (member_width tlv_members)"
  by (simp add: emit_ok_eval tlv_ir_sel
    tlv_st_parse_total_sel
    tlv_st_tlv_loop_sel
    tlv_st_parse_item_sel
    tlv_st_close_sel
    tlv_ht_total_len_def tlv_ht_item_def)

lemma tlv_emit_parse_total:
  "emit_state tlv_ir tlv_align rd bit_len (member_get tlv_members) (member_put tlv_members) tlv_st_parse_total =
     tlv_case_parse_total rd bit_len"
  unfolding tlv_case_parse_total_def
  by (simp add: emit_eval tlv_st_parse_total_sel tlv_ht_total_len_def
      del: One_nat_def)

lemma tlv_emit_tlv_loop:
  "emit_state tlv_ir tlv_align rd bit_len (member_get tlv_members) (member_put tlv_members) tlv_st_tlv_loop =
     tlv_case_tlv_loop rd bit_len"
  unfolding tlv_case_tlv_loop_def
  by (simp add: emit_eval tlv_st_tlv_loop_sel
      del: One_nat_def)

lemma tlv_emit_parse_item:
  "emit_state tlv_ir tlv_align rd bit_len (member_get tlv_members) (member_put tlv_members) tlv_st_parse_item =
     tlv_case_parse_item rd bit_len"
  unfolding tlv_case_parse_item_def
  by (simp add: emit_eval tlv_st_parse_item_sel tlv_ht_item_def
      del: One_nat_def)

lemma tlv_emit_close:
  "emit_state tlv_ir tlv_align rd bit_len (member_get tlv_members) (member_put tlv_members) tlv_st_close =
     tlv_case_close rd bit_len"
  unfolding tlv_case_close_def
  by (simp add: emit_eval tlv_st_close_sel
      del: One_nat_def)

lemma tlv_fits: "fits_u32 tlv_ir"
  by (simp add: fits_u32_def tlv_ir_sel)

lemma tlv_emit_switch:
  "emit_switch tlv_ir tlv_align rd bit_len (member_get tlv_members) (member_put tlv_members) = tlv_switch rd bit_len"
  by (simp add: emit_switch_def tlv_ir_sel tlv_switch_def
    tlv_st_parse_total_sel(1) tlv_st_tlv_loop_sel(1) tlv_st_parse_item_sel(1) tlv_st_close_sel(1)
    tlv_emit_parse_total tlv_emit_tlv_loop tlv_emit_parse_item tlv_emit_close)

lemma tlv_emit_core:
  "emit_core tlv_ir tlv_align rd bit_len (member_get tlv_members) (member_put tlv_members) o' =
     tlv_parse_core rd bit_len o'"
  unfolding emit_core_def tlv_parse_core_def tlv_emit_switch
  by (simp add: tlv_ir_sel emit_init_meta_def)

section \<open>Refinement\<close>

interpretation tlv: emitted_parser "member_get tlv_members" "member_put tlv_members"
  "member_slots tlv_members" "member_width tlv_members" tlv_zero buf_at plain_capacity
  by (rule emitted_plain [OF tlv_layout])

interpretation tlv_bpf: emitted_parser "member_get tlv_members" "member_put tlv_members"
  "member_slots tlv_members" "member_width tlv_members" tlv_zero buf_at_masked masked_capacity
  by (rule emitted_masked [OF tlv_layout])

text \<open>
  C8: \<open>pk_tlv_items_parse\<close> and the reference interpreter agree on every packet, whatever its bytes
  and however many of its bits are declared: the interpreter returns a result, the C returns (within
  8 iterations, without reading outside the buffer or an unset region slot) with the same verdict,
  reason, consumed bits, header fields and metadata. The one exception, the reason of a pop inside a
  truncated region, is part of \<open>result_agrees\<close>.
\<close>

theorem tlv_parse_refines:
  assumes "length buf \<le> plain_capacity" and "unat bit_len \<le> 8 * length buf"
  shows "\<exists>res ret r. run_bits tlv_ir buf (unat bit_len) = Inr res \<and>
    tlv_parse (buf_at buf) bit_len o' = Return ret r \<and>
    result_agrees tlv_ir (member_get tlv_members) (member_slots tlv_members) res ret r"
proof -
  obtain res where run: "run_bits tlv_ir buf (unat bit_len) = Inr res"
    using run_bits_total [OF tlv_wf assms(2)] by auto
  show ?thesis
    using tlv.emit_core_refines [OF tlv_emit_ok tlv_fits assms run] run
    by (auto simp: tlv_parse_def tlv_emit_core)
qed

theorem tlv_parse_refines_witness:
  "\<exists>res ret r. run_bits tlv_ir [2, 7, 0] 24 = Inr res \<and>
    tlv_parse (buf_at [2, 7, 0]) 24 tlv_zero = Return ret r \<and>
    result_agrees tlv_ir (member_get tlv_members) (member_slots tlv_members) res ret r"
  using tlv_parse_refines [of "[2, 7, 0]" 24 tlv_zero] by simp

text \<open>
  C15: the eBPF program of examples/tlv_items, run on an eight-byte little-endian bit length
  followed by a packet of at most 4096 bytes, returns a word whose outcome, reason and consumed-bits
  fields are those of the reference interpreter on that packet; masking the packet indices is
  therefore harmless there, and no field of the word spills into another.
\<close>

theorem tlv_bpf_entry_refines:
  assumes "length pkt \<le> 4096" and "unat bit_len \<le> 8 * length pkt"
  shows "\<exists>res w. run_bits tlv_ir pkt (unat bit_len) = Inr res \<and>
    tlv_bpf_pk_entry (le64 bit_len @ pkt) = Inr w \<and> verdict_agrees tlv_ir res w"
proof -
  obtain res where run: "run_bits tlv_ir pkt (unat bit_len) = Inr res"
    using run_bits_total [OF tlv_wf assms(2)] by auto
  obtain ret r where core: "tlv_bpf_parse_core (buf_at pkt) bit_len tlv_zero = Return ret r"
    and agrees: "result_agrees tlv_ir (member_get tlv_members) (member_slots tlv_members) res ret r"
    using tlv_bpf.emit_core_refines [OF tlv_emit_ok tlv_fits assms run]
    by (auto simp: tlv_bpf_core_eq tlv_emit_core)
  have "unat bit_len < 2 ^ 48" using assms by simp
  from entry_decodes [OF agrees run _ _ this] run core show ?thesis
    by (auto simp: tlv_bpf_pk_entry_def entry_bit_len_le64)
qed

theorem tlv_bpf_entry_refines_witness:
  "\<exists>res w. run_bits tlv_ir [2, 7, 0] 24 = Inr res \<and>
    tlv_bpf_pk_entry (le64 24 @ [2, 7, 0]) = Inr w \<and> verdict_agrees tlv_ir res w"
  using tlv_bpf_entry_refines [of "[2, 7, 0]" 24] by simp

end
