(* ===== verification/Counted_Items.thy ===== *)
theory Counted_Items
  imports C_Machine
begin

text \<open>
  The parser generated for the counted-items example: a loop driven by a metadata counter: examples/counted_items/gen/parser.c
  and parser.h, 3 states in at most 8 steps. One record per struct of the header, one
  definition per case of the switch with its statements in the order of the file, the dispatch,
  the core, the entry point and the table of reasons. Names carry the prefix \<open>cnt_\<close> where the C
  has \<open>pk_counted_items_\<close> or the file as a name space.
\<close>

section \<open>The result struct\<close>

record cnt_count_t =
  cnt_count_n :: u8

record cnt_item_t =
  cnt_item_v :: u8

record cnt_result = pk_result +
  cnt_count_present :: u8
  cnt_count :: cnt_count_t
  cnt_item_present :: u8
  cnt_item :: cnt_item_t
  cnt_m_done :: u64
  cnt_m_remaining :: u64

text \<open>\<open>pk_counted_items_result_t zero = {0};\<close>\<close>

definition cnt_zero :: cnt_result where
  "cnt_zero =
     \<lparr>outcome = 0, reason = 0, consumed_bits = 0,
      cnt_count_present = 0,
      cnt_count = \<lparr>cnt_count_n = 0\<rparr>,
      cnt_item_present = 0,
      cnt_item = \<lparr>cnt_item_v = 0\<rparr>,
      cnt_m_done = 0,
      cnt_m_remaining = 0\<rparr>"

text \<open>The assignments to a member, with the cast to its type.\<close>

abbreviation cnt_set_count_n :: "u64 \<Rightarrow> cnt_result \<Rightarrow> cnt_result" where
  "cnt_set_count_n v o' \<equiv> o'\<lparr>cnt_count := (cnt_count o')\<lparr>cnt_count_n := ucast v\<rparr>\<rparr>"

abbreviation cnt_set_item_v :: "u64 \<Rightarrow> cnt_result \<Rightarrow> cnt_result" where
  "cnt_set_item_v v o' \<equiv> o'\<lparr>cnt_item := (cnt_item o')\<lparr>cnt_item_v := ucast v\<rparr>\<rparr>"

abbreviation cnt_set_m_done :: "u64 \<Rightarrow> cnt_result \<Rightarrow> cnt_result" where
  "cnt_set_m_done v o' \<equiv> o'\<lparr>cnt_m_done := v\<rparr>"

abbreviation cnt_set_m_remaining :: "u64 \<Rightarrow> cnt_result \<Rightarrow> cnt_result" where
  "cnt_set_m_remaining v o' \<equiv> o'\<lparr>cnt_m_remaining := v\<rparr>"

section \<open>States, reasons and bounds\<close>

abbreviation cnt_S_PARSE_COUNT :: u32 where "cnt_S_PARSE_COUNT \<equiv> 0"
abbreviation cnt_S_PARSE_ITEM :: u32 where "cnt_S_PARSE_ITEM \<equiv> 1"
abbreviation cnt_S_MARK_DONE :: u32 where "cnt_S_MARK_DONE \<equiv> 2"


section \<open>The cases of the switch\<close>

definition cnt_case_parse_count :: "packet_reader \<Rightarrow> u64 \<Rightarrow> cnt_result stmt list" where
  "cnt_case_parse_count rd bit_len =
   [store (\<lambda>o'. o'\<lparr>cnt_count_present := 1\<rparr>),
    check_len bit_len Off 8,
    load_bytes rd Off 1 cnt_set_count_n,
    advance Off 8,
    store_exp (c_and (c_out (\<lambda>o'. ucast (cnt_count_n (cnt_count o')))) (c_const 0xff)) cnt_set_m_remaining,
    bind_local (c_out cnt_m_remaining) (\<lambda>key0. [
     branch (\<lambda>_. key0 = 0) (goto cnt_S_MARK_DONE) (
     goto cnt_S_PARSE_ITEM)])]"

definition cnt_case_parse_item :: "packet_reader \<Rightarrow> u64 \<Rightarrow> cnt_result stmt list" where
  "cnt_case_parse_item rd bit_len =
   [store (\<lambda>o'. o'\<lparr>cnt_item_present := 1\<rparr>),
    check_len bit_len Off 8,
    load_bytes rd Off 1 cnt_set_item_v,
    advance Off 8,
    store_exp (c_and (c_sub (c_out cnt_m_remaining) (c_const 1)) (c_const 0xff)) cnt_set_m_remaining,
    bind_local (c_out cnt_m_remaining) (\<lambda>key0. [
     branch (\<lambda>_. key0 = 0) (goto cnt_S_MARK_DONE) (
     goto cnt_S_PARSE_ITEM)])]"

definition cnt_case_mark_done :: "packet_reader \<Rightarrow> u64 \<Rightarrow> cnt_result stmt list" where
  "cnt_case_mark_done rd bit_len =
   [store_exp (c_and (c_const 1) (c_const 0x1)) cnt_set_m_done,
    accept]"

section \<open>The parser\<close>

definition cnt_switch :: "packet_reader \<Rightarrow> u64 \<Rightarrow> cnt_result stmt" where
  "cnt_switch rd bit_len = switch
   [(cnt_S_PARSE_COUNT, cnt_case_parse_count rd bit_len),
    (cnt_S_PARSE_ITEM, cnt_case_parse_item rd bit_len),
    (cnt_S_MARK_DONE, cnt_case_mark_done rd bit_len)]"

definition cnt_parse_core :: "packet_reader \<Rightarrow> u64 \<Rightarrow> cnt_result \<Rightarrow> cnt_result flow" where
  "cnt_parse_core rd bit_len o' =
     depth_loop 8 (cnt_switch rd bit_len)
       (init_locals cnt_S_PARSE_COUNT 0 (o'\<lparr>cnt_m_done := 0, cnt_m_remaining := 0\<rparr>))"

text \<open>The caller's struct is overwritten with zeros before the core runs.\<close>

definition cnt_parse :: "packet_reader \<Rightarrow> u64 \<Rightarrow> cnt_result \<Rightarrow> cnt_result flow" where
  "cnt_parse rd bit_len o' = cnt_parse_core rd bit_len cnt_zero"

text \<open>The reasons of the header, with the text each carries in a comment.\<close>

definition cnt_reasons :: "(u16 \<times> string) list" where
  "cnt_reasons =
     [(1, ''out of bounds''),
      (2, ''max depth exceeded''),
      (3, ''no matching select arm''),
      (4, ''out of region bounds''),
      (5, ''region out of bounds''),
      (6, ''region not exhausted'')]"

definition cnt_reason_str :: "u16 \<Rightarrow> string" where
  "cnt_reason_str r =
     (if r = 1 then ''out of bounds''
      else if r = 2 then ''max depth exceeded''
      else if r = 3 then ''no matching select arm''
      else if r = 4 then ''out of region bounds''
      else if r = 5 then ''region out of bounds''
      else if r = 6 then ''region not exhausted''
      else [])"

end
