(* ===== verification/Counted_Items_Bpf.thy ===== *)
theory Counted_Items_Bpf
  imports Counted_Items
begin

text \<open>
  examples/counted_items/gen/parser.bpf.c: the eBPF variant of the same parser, statement by statement
  from its own file. Every packet index is masked with \<open>PK_BUF_MASK\<close>; the structs, states and
  reasons are those of parser.h, which the file repeats. \<open>pk_entry\<close> reads the length prefix,
  runs the core on what follows it and packs the verdict word.
\<close>

definition cnt_bpf_case_parse_count :: "packet_reader \<Rightarrow> u64 \<Rightarrow> cnt_result stmt list" where
  "cnt_bpf_case_parse_count rd bit_len =
   [store (\<lambda>o'. o'\<lparr>cnt_count_present := 1\<rparr>),
    check_len bit_len Off 8,
    load_bytes (masked rd) Off 1 cnt_set_count_n,
    advance Off 8,
    store_exp (c_and (c_out (\<lambda>o'. ucast (cnt_count_n (cnt_count o')))) (c_const 0xff)) cnt_set_m_remaining,
    bind_local (c_out cnt_m_remaining) (\<lambda>key0. [
     branch (\<lambda>_. key0 = 0) (goto cnt_S_MARK_DONE) (
     goto cnt_S_PARSE_ITEM)])]"

definition cnt_bpf_case_parse_item :: "packet_reader \<Rightarrow> u64 \<Rightarrow> cnt_result stmt list" where
  "cnt_bpf_case_parse_item rd bit_len =
   [store (\<lambda>o'. o'\<lparr>cnt_item_present := 1\<rparr>),
    check_len bit_len Off 8,
    load_bytes (masked rd) Off 1 cnt_set_item_v,
    advance Off 8,
    store_exp (c_and (c_sub (c_out cnt_m_remaining) (c_const 1)) (c_const 0xff)) cnt_set_m_remaining,
    bind_local (c_out cnt_m_remaining) (\<lambda>key0. [
     branch (\<lambda>_. key0 = 0) (goto cnt_S_MARK_DONE) (
     goto cnt_S_PARSE_ITEM)])]"

definition cnt_bpf_case_mark_done :: "packet_reader \<Rightarrow> u64 \<Rightarrow> cnt_result stmt list" where
  "cnt_bpf_case_mark_done rd bit_len =
   [store_exp (c_and (c_const 1) (c_const 0x1)) cnt_set_m_done,
    accept]"

definition cnt_bpf_switch :: "packet_reader \<Rightarrow> u64 \<Rightarrow> cnt_result stmt" where
  "cnt_bpf_switch rd bit_len = switch
   [(cnt_S_PARSE_COUNT, cnt_bpf_case_parse_count rd bit_len),
    (cnt_S_PARSE_ITEM, cnt_bpf_case_parse_item rd bit_len),
    (cnt_S_MARK_DONE, cnt_bpf_case_mark_done rd bit_len)]"

definition cnt_bpf_parse_core :: "packet_reader \<Rightarrow> u64 \<Rightarrow> cnt_result \<Rightarrow> cnt_result flow" where
  "cnt_bpf_parse_core rd bit_len o' =
     depth_loop 8 (cnt_bpf_switch rd bit_len)
       (init_locals cnt_S_PARSE_COUNT 0 (o'\<lparr>cnt_m_done := 0, cnt_m_remaining := 0\<rparr>))"

definition cnt_bpf_pk_entry :: "bytes \<Rightarrow> fault + u64" where
  "cnt_bpf_pk_entry mem =
     and_then (entry_bit_len mem) (\<lambda>bit_len.
       entry_verdict (cnt_bpf_parse_core (buf_at (drop 8 mem)) bit_len cnt_zero))"

lemma cnt_bpf_core_eq: "cnt_bpf_parse_core rd = cnt_parse_core (masked rd)"
  by (simp add: fun_eq_iff cnt_bpf_parse_core_def cnt_parse_core_def cnt_bpf_switch_def cnt_switch_def
    cnt_bpf_case_parse_count_def cnt_case_parse_count_def
    cnt_bpf_case_parse_item_def cnt_case_parse_item_def
    cnt_bpf_case_mark_done_def cnt_case_mark_done_def)

end
