(* ===== verification/Counted_Items_Refine.thy ===== *)
theory Counted_Items_Refine
  imports Counted_Items_Bpf Bpf_Entry
begin

text \<open>
  The generated parser examples/counted_items/gen/parser.c is what the emitter makes of
  examples/counted_items/counted_items.ir.json, and it does what the interpreter does: the description as a term of the
  IR, the members of the result struct, the certificates of the two static checks, the proof that
  every case of the file equals the emitted one, and the refinement theorem.
\<close>

section \<open>The description\<close>

definition cnt_ht_count :: header_type where
  "cnt_ht_count = \<lparr>ht_name = ''count'', ht_fields =
     [\<lparr>field_name = ''n'', field_width = Bits 8\<rparr>]\<rparr>"

definition cnt_ht_item :: header_type where
  "cnt_ht_item = \<lparr>ht_name = ''item'', ht_fields =
     [\<lparr>field_name = ''v'', field_width = Bits 8\<rparr>]\<rparr>"

definition cnt_st_parse_count :: state where
  "cnt_st_parse_count =
     \<lparr>st_name = ''parse_count'',
      st_extracts = [\<lparr>ex_header_type = ''count'', ex_instance = [], ex_lookahead = False\<rparr>],
      st_assigns = [\<lparr>as_metadata = ''remaining'', as_value = Field ''count'' ''n''\<rparr>],
      st_region_ops = [],
      st_transition = Select [Metadata ''remaining'']
       [\<lparr>arm_entries = [Value 0], arm_next = ToState ''mark_done''\<rparr>]
       (Some (ToState ''parse_item''))\<rparr>"

definition cnt_st_parse_item :: state where
  "cnt_st_parse_item =
     \<lparr>st_name = ''parse_item'',
      st_extracts = [\<lparr>ex_header_type = ''item'', ex_instance = [], ex_lookahead = False\<rparr>],
      st_assigns = [\<lparr>as_metadata = ''remaining'', as_value = Bin OpSub (Metadata ''remaining'') (Constant 1)\<rparr>],
      st_region_ops = [],
      st_transition = Select [Metadata ''remaining'']
       [\<lparr>arm_entries = [Value 0], arm_next = ToState ''mark_done''\<rparr>]
       (Some (ToState ''parse_item''))\<rparr>"

definition cnt_st_mark_done :: state where
  "cnt_st_mark_done =
     \<lparr>st_name = ''mark_done'',
      st_extracts = [],
      st_assigns = [\<lparr>as_metadata = ''done'', as_value = Constant 1\<rparr>],
      st_region_ops = [],
      st_transition = Direct (Accept)\<rparr>"

definition cnt_ir :: parser where
  "cnt_ir =
     \<lparr>p_header_types = [cnt_ht_count, cnt_ht_item],
      p_states = [cnt_st_parse_count,
        cnt_st_parse_item,
        cnt_st_mark_done],
      p_start_state = ''parse_count'', p_max_depth = 8,
      p_metadata = [\<lparr>md_name = ''done'', md_bits = 1, md_init = 0\<rparr>, \<lparr>md_name = ''remaining'', md_bits = 8, md_init = 0\<rparr>]\<rparr>"

section \<open>The members of the result struct\<close>

definition cnt_members :: "cnt_result member list" where
  "cnt_members =
     [(SPresent ''count'', (\<lambda>o'. ucast (cnt_count_present o')), (\<lambda>v o'. o'\<lparr>cnt_count_present := ucast v\<rparr>), 8),
      (SFld ''count'' ''n'', (\<lambda>o'. ucast (cnt_count_n (cnt_count o'))), cnt_set_count_n, 8),
      (SPresent ''item'', (\<lambda>o'. ucast (cnt_item_present o')), (\<lambda>v o'. o'\<lparr>cnt_item_present := ucast v\<rparr>), 8),
      (SFld ''item'' ''v'', (\<lambda>o'. ucast (cnt_item_v (cnt_item o'))), cnt_set_item_v, 8),
      (SMeta ''done'', cnt_m_done, cnt_set_m_done, 64),
      (SMeta ''remaining'', cnt_m_remaining, cnt_set_m_remaining, 64)]"

lemma cnt_layout: "layout_ok cnt_members cnt_zero"
  by (simp add: layout_ok_def cnt_members_def cnt_zero_def read_all_def)

lemmas cnt_member [simp] = members_all [OF cnt_layout cnt_members_def, unfolded list.pred_inject prod.case]

section \<open>The certificate\<close>

definition cnt_align :: "string \<Rightarrow> nat option" where
  "cnt_align = map_of [(''parse_count'', 0), (''parse_item'', 0), (''mark_done'', 0)]"

definition cnt_depth :: "string \<Rightarrow> nat" where
  "cnt_depth n = (case map_of [] n of None \<Rightarrow> 0 | Some d \<Rightarrow> d)"

definition cnt_known :: "string \<Rightarrow> names" where
  "cnt_known n = (case map_of
     [(''parse_item'', [(''count'', ''n'')]),
      (''mark_done'', [(''count'', ''n'')])] n of None \<Rightarrow> [] | Some b \<Rightarrow> b)"

lemmas cnt_ir_defs = cnt_ir_def cnt_ht_count_def cnt_ht_item_def
  cnt_st_parse_count_def cnt_st_parse_item_def cnt_st_mark_done_def

text \<open>Everything the emitter computes from the description alone, evaluated.\<close>

lemma cnt_wf: "wf_ok cnt_ir cnt_known cnt_depth"
  by code_simp

lemma cnt_evaluated:
  "list_all (\<lambda>(st, i, f, n, b). byte_load cnt_ir cnt_align st i f n = b)
     [(cnt_st_parse_count, ''count'', ''n'', 8, True),
      (cnt_st_parse_item, ''item'', ''v'', 8, True)] \<and>
   list_all (\<lambda>(n, h). find_header_type cnt_ir n = Some h)
     [(''count'', cnt_ht_count),
      (''item'', cnt_ht_item)] \<and>
   list_all (\<lambda>(n, k). state_id cnt_ir n = k)
     [(''parse_count'', 0),
      (''parse_item'', 1),
      (''mark_done'', 2)] \<and>
   list_all (\<lambda>(r, k). reason_code cnt_ir r = k)
     [] \<and>
   region_cap cnt_ir = 0 \<and> region_mask cnt_ir = 0 \<and> region_slots cnt_ir = 0 \<and>
   list_all (\<lambda>(n, a). cnt_align n = a)
     [(''parse_count'', Some 0),
      (''parse_item'', Some 0),
      (''mark_done'', Some 0)] \<and>
   list_all (\<lambda>(n, d). cnt_depth n = d)
     [(''parse_count'', 0), (''parse_item'', 0), (''mark_done'', 0)] \<and>
   reasons_fit cnt_ir \<and> meta_decl_ok cnt_ir \<and> core_compiles cnt_ir"
  by code_simp

lemmas cnt_emit_eval [simp] = cnt_evaluated [unfolded list.pred_inject prod.case]

section \<open>The emitted code is the generated file\<close>

lemmas cnt_st_parse_count_sel = cnt_st_parse_count_def [THEN arg_cong [of _ _ st_name], simplified state.simps]
  cnt_st_parse_count_def [THEN arg_cong [of _ _ st_extracts], simplified state.simps]
  cnt_st_parse_count_def [THEN arg_cong [of _ _ st_assigns], simplified state.simps]
  cnt_st_parse_count_def [THEN arg_cong [of _ _ st_region_ops], simplified state.simps]
  cnt_st_parse_count_def [THEN arg_cong [of _ _ st_transition], simplified state.simps]

lemmas cnt_st_parse_item_sel = cnt_st_parse_item_def [THEN arg_cong [of _ _ st_name], simplified state.simps]
  cnt_st_parse_item_def [THEN arg_cong [of _ _ st_extracts], simplified state.simps]
  cnt_st_parse_item_def [THEN arg_cong [of _ _ st_assigns], simplified state.simps]
  cnt_st_parse_item_def [THEN arg_cong [of _ _ st_region_ops], simplified state.simps]
  cnt_st_parse_item_def [THEN arg_cong [of _ _ st_transition], simplified state.simps]

lemmas cnt_st_mark_done_sel = cnt_st_mark_done_def [THEN arg_cong [of _ _ st_name], simplified state.simps]
  cnt_st_mark_done_def [THEN arg_cong [of _ _ st_extracts], simplified state.simps]
  cnt_st_mark_done_def [THEN arg_cong [of _ _ st_assigns], simplified state.simps]
  cnt_st_mark_done_def [THEN arg_cong [of _ _ st_region_ops], simplified state.simps]
  cnt_st_mark_done_def [THEN arg_cong [of _ _ st_transition], simplified state.simps]

lemmas cnt_ir_sel = cnt_ir_def [THEN arg_cong [of _ _ p_states], simplified parser.simps]
  cnt_ir_def [THEN arg_cong [of _ _ p_start_state], simplified parser.simps]
  cnt_ir_def [THEN arg_cong [of _ _ p_max_depth], simplified parser.simps]
  cnt_ir_def [THEN arg_cong [of _ _ p_metadata], simplified parser.simps]

lemma cnt_emit_ok:
  "emit_ok cnt_ir cnt_align cnt_depth (member_slots cnt_members) (member_width cnt_members)"
  by (simp add: emit_ok_eval cnt_ir_sel
    cnt_st_parse_count_sel
    cnt_st_parse_item_sel
    cnt_st_mark_done_sel
    cnt_ht_count_def cnt_ht_item_def)

lemma cnt_find_metadata [simp]:
  "find_metadata cnt_ir ''done'' = Some \<lparr>md_name = ''done'', md_bits = 1, md_init = 0\<rparr>"
  "find_metadata cnt_ir ''remaining'' = Some \<lparr>md_name = ''remaining'', md_bits = 8, md_init = 0\<rparr>"
  by (simp_all add: find_metadata_def cnt_ir_def)

lemma cnt_emit_parse_count:
  "emit_state cnt_ir cnt_align rd bit_len (member_get cnt_members) (member_put cnt_members) cnt_st_parse_count =
     cnt_case_parse_count rd bit_len"
  unfolding cnt_case_parse_count_def
  by (simp add: emit_eval cnt_st_parse_count_sel cnt_ht_count_def
      del: One_nat_def)

lemma cnt_emit_parse_item:
  "emit_state cnt_ir cnt_align rd bit_len (member_get cnt_members) (member_put cnt_members) cnt_st_parse_item =
     cnt_case_parse_item rd bit_len"
  unfolding cnt_case_parse_item_def
  by (simp add: emit_eval cnt_st_parse_item_sel cnt_ht_item_def
      del: One_nat_def)

lemma cnt_emit_mark_done:
  "emit_state cnt_ir cnt_align rd bit_len (member_get cnt_members) (member_put cnt_members) cnt_st_mark_done =
     cnt_case_mark_done rd bit_len"
  unfolding cnt_case_mark_done_def
  by (simp add: emit_eval cnt_st_mark_done_sel
      del: One_nat_def)

lemma cnt_fits: "fits_u32 cnt_ir"
  by (simp add: fits_u32_def cnt_ir_sel)

lemma cnt_emit_switch:
  "emit_switch cnt_ir cnt_align rd bit_len (member_get cnt_members) (member_put cnt_members) = cnt_switch rd bit_len"
  by (simp add: emit_switch_def cnt_ir_sel cnt_switch_def
    cnt_st_parse_count_sel(1) cnt_st_parse_item_sel(1) cnt_st_mark_done_sel(1)
    cnt_emit_parse_count cnt_emit_parse_item cnt_emit_mark_done)

lemma cnt_emit_core:
  "emit_core cnt_ir cnt_align rd bit_len (member_get cnt_members) (member_put cnt_members) o' =
     cnt_parse_core rd bit_len o'"
  unfolding emit_core_def cnt_parse_core_def cnt_emit_switch
  by (simp add: cnt_ir_sel emit_init_meta_def)

section \<open>Refinement\<close>

interpretation cnt: emitted_parser "member_get cnt_members" "member_put cnt_members"
  "member_slots cnt_members" "member_width cnt_members" cnt_zero buf_at plain_capacity
  by (rule emitted_plain [OF cnt_layout])

interpretation cnt_bpf: emitted_parser "member_get cnt_members" "member_put cnt_members"
  "member_slots cnt_members" "member_width cnt_members" cnt_zero buf_at_masked masked_capacity
  by (rule emitted_masked [OF cnt_layout])

text \<open>
  C18: \<open>pk_counted_items_parse\<close> and the reference interpreter agree on every packet, whatever its bytes
  and however many of its bits are declared: the interpreter returns a result, the C returns (within
  8 iterations, without reading outside the buffer or an unset region slot) with the same verdict,
  reason, consumed bits, header fields and metadata. The one exception, the reason of a pop inside a
  truncated region, is part of \<open>result_agrees\<close>.
\<close>

theorem cnt_parse_refines:
  assumes "length buf \<le> plain_capacity" and "unat bit_len \<le> 8 * length buf"
  shows "\<exists>res ret r. run_bits cnt_ir buf (unat bit_len) = Inr res \<and>
    cnt_parse (buf_at buf) bit_len o' = Return ret r \<and>
    result_agrees cnt_ir (member_get cnt_members) (member_slots cnt_members) res ret r"
proof -
  obtain res where run: "run_bits cnt_ir buf (unat bit_len) = Inr res"
    using run_bits_total [OF cnt_wf assms(2)] by auto
  show ?thesis
    using cnt.emit_core_refines [OF cnt_emit_ok cnt_fits assms run] run
    by (auto simp: cnt_parse_def cnt_emit_core)
qed

theorem cnt_parse_refines_witness:
  "\<exists>res ret r. run_bits cnt_ir [1, 9] 16 = Inr res \<and>
    cnt_parse (buf_at [1, 9]) 16 cnt_zero = Return ret r \<and>
    result_agrees cnt_ir (member_get cnt_members) (member_slots cnt_members) res ret r"
  using cnt_parse_refines [of "[1, 9]" 16 cnt_zero] by simp

text \<open>
  The eBPF program of examples/counted_items, run on an eight-byte little-endian bit length
  followed by a packet of at most 4096 bytes, returns a word whose outcome, reason and consumed-bits
  fields are those of the reference interpreter on that packet; masking the packet indices is
  therefore harmless there, and no field of the word spills into another.
\<close>

theorem cnt_bpf_entry_refines:
  assumes "length pkt \<le> 4096" and "unat bit_len \<le> 8 * length pkt"
  shows "\<exists>res w. run_bits cnt_ir pkt (unat bit_len) = Inr res \<and>
    cnt_bpf_pk_entry (le64 bit_len @ pkt) = Inr w \<and> verdict_agrees cnt_ir res w"
proof -
  obtain res where run: "run_bits cnt_ir pkt (unat bit_len) = Inr res"
    using run_bits_total [OF cnt_wf assms(2)] by auto
  obtain ret r where core: "cnt_bpf_parse_core (buf_at pkt) bit_len cnt_zero = Return ret r"
    and agrees: "result_agrees cnt_ir (member_get cnt_members) (member_slots cnt_members) res ret r"
    using cnt_bpf.emit_core_refines [OF cnt_emit_ok cnt_fits assms run]
    by (auto simp: cnt_bpf_core_eq cnt_emit_core)
  have "unat bit_len < 2 ^ 48" using assms by simp
  from entry_decodes [OF agrees run _ _ this] run core show ?thesis
    by (auto simp: cnt_bpf_pk_entry_def entry_bit_len_le64)
qed

theorem cnt_bpf_entry_refines_witness:
  "\<exists>res w. run_bits cnt_ir [1, 9] 16 = Inr res \<and>
    cnt_bpf_pk_entry (le64 16 @ [1, 9]) = Inr w \<and> verdict_agrees cnt_ir res w"
  using cnt_bpf_entry_refines [of "[1, 9]" 16] by simp

end
