(* ===== verification/Eth_Ipvx_L4.thy ===== *)
theory Eth_Ipvx_L4
  imports C_Machine
begin

text \<open>
  The parser generated for Ethernet, IPv4 or IPv6, TCP or UDP: bit fields read by pk_read_bits, options of variable length: examples/eth_ipvx_l4/gen/parser.c
  and parser.h, 5 states in at most 4 steps. One record per struct of the header, one
  definition per case of the switch with its statements in the order of the file, the dispatch,
  the core, the entry point and the table of reasons. Names carry the prefix \<open>eth_\<close> where the C
  has \<open>pk_eth_ipvx_l4_\<close> or the file as a name space.
\<close>

section \<open>The result struct\<close>

record eth_ethernet_t =
  eth_ethernet_dst :: u64
  eth_ethernet_src :: u64
  eth_ethernet_ethertype :: u16

record eth_ipv4_t =
  eth_ipv4_version :: u8
  eth_ipv4_ihl :: u8
  eth_ipv4_dscp :: u8
  eth_ipv4_ecn :: u8
  eth_ipv4_total_len :: u16
  eth_ipv4_id :: u16
  eth_ipv4_flags :: u8
  eth_ipv4_frag_offset :: u16
  eth_ipv4_ttl :: u8
  eth_ipv4_protocol :: u8
  eth_ipv4_checksum :: u16
  eth_ipv4_src :: u32
  eth_ipv4_dst :: u32
  eth_ipv4_options_bit_off :: u64
  eth_ipv4_options_bit_len :: u64

record eth_ipv6_t =
  eth_ipv6_version :: u8
  eth_ipv6_traffic_class :: u8
  eth_ipv6_flow_label :: u32
  eth_ipv6_payload_length :: u16
  eth_ipv6_next_header :: u8
  eth_ipv6_hop_limit :: u8
  eth_ipv6_src_bit_off :: u64
  eth_ipv6_src_bit_len :: u64
  eth_ipv6_dst_bit_off :: u64
  eth_ipv6_dst_bit_len :: u64

record eth_tcp_t =
  eth_tcp_sport :: u16
  eth_tcp_dport :: u16
  eth_tcp_seq :: u32
  eth_tcp_ack :: u32
  eth_tcp_data_offset :: u8
  eth_tcp_reserved :: u8
  eth_tcp_flags :: u8
  eth_tcp_window :: u16
  eth_tcp_checksum :: u16
  eth_tcp_urgent :: u16

record eth_udp_t =
  eth_udp_sport :: u16
  eth_udp_dport :: u16
  eth_udp_length :: u16
  eth_udp_checksum :: u16

record eth_result = pk_result +
  eth_ethernet_present :: u8
  eth_ethernet :: eth_ethernet_t
  eth_ipv4_present :: u8
  eth_ipv4 :: eth_ipv4_t
  eth_ipv6_present :: u8
  eth_ipv6 :: eth_ipv6_t
  eth_tcp_present :: u8
  eth_tcp :: eth_tcp_t
  eth_udp_present :: u8
  eth_udp :: eth_udp_t

text \<open>\<open>pk_eth_ipvx_l4_result_t zero = {0};\<close>\<close>

definition eth_zero :: eth_result where
  "eth_zero =
     \<lparr>outcome = 0, reason = 0, consumed_bits = 0,
      eth_ethernet_present = 0,
      eth_ethernet = \<lparr>eth_ethernet_dst = 0, eth_ethernet_src = 0, eth_ethernet_ethertype = 0\<rparr>,
      eth_ipv4_present = 0,
      eth_ipv4 = \<lparr>eth_ipv4_version = 0, eth_ipv4_ihl = 0, eth_ipv4_dscp = 0, eth_ipv4_ecn = 0, eth_ipv4_total_len = 0, eth_ipv4_id = 0, eth_ipv4_flags = 0, eth_ipv4_frag_offset = 0, eth_ipv4_ttl = 0, eth_ipv4_protocol = 0, eth_ipv4_checksum = 0, eth_ipv4_src = 0, eth_ipv4_dst = 0, eth_ipv4_options_bit_off = 0, eth_ipv4_options_bit_len = 0\<rparr>,
      eth_ipv6_present = 0,
      eth_ipv6 = \<lparr>eth_ipv6_version = 0, eth_ipv6_traffic_class = 0, eth_ipv6_flow_label = 0, eth_ipv6_payload_length = 0, eth_ipv6_next_header = 0, eth_ipv6_hop_limit = 0, eth_ipv6_src_bit_off = 0, eth_ipv6_src_bit_len = 0, eth_ipv6_dst_bit_off = 0, eth_ipv6_dst_bit_len = 0\<rparr>,
      eth_tcp_present = 0,
      eth_tcp = \<lparr>eth_tcp_sport = 0, eth_tcp_dport = 0, eth_tcp_seq = 0, eth_tcp_ack = 0, eth_tcp_data_offset = 0, eth_tcp_reserved = 0, eth_tcp_flags = 0, eth_tcp_window = 0, eth_tcp_checksum = 0, eth_tcp_urgent = 0\<rparr>,
      eth_udp_present = 0,
      eth_udp = \<lparr>eth_udp_sport = 0, eth_udp_dport = 0, eth_udp_length = 0, eth_udp_checksum = 0\<rparr>\<rparr>"

text \<open>The assignments to a member, with the cast to its type.\<close>

abbreviation eth_set_ethernet_dst :: "u64 \<Rightarrow> eth_result \<Rightarrow> eth_result" where
  "eth_set_ethernet_dst v o' \<equiv> o'\<lparr>eth_ethernet := (eth_ethernet o')\<lparr>eth_ethernet_dst := v\<rparr>\<rparr>"

abbreviation eth_set_ethernet_src :: "u64 \<Rightarrow> eth_result \<Rightarrow> eth_result" where
  "eth_set_ethernet_src v o' \<equiv> o'\<lparr>eth_ethernet := (eth_ethernet o')\<lparr>eth_ethernet_src := v\<rparr>\<rparr>"

abbreviation eth_set_ethernet_ethertype :: "u64 \<Rightarrow> eth_result \<Rightarrow> eth_result" where
  "eth_set_ethernet_ethertype v o' \<equiv> o'\<lparr>eth_ethernet := (eth_ethernet o')\<lparr>eth_ethernet_ethertype := ucast v\<rparr>\<rparr>"

abbreviation eth_set_ipv4_version :: "u64 \<Rightarrow> eth_result \<Rightarrow> eth_result" where
  "eth_set_ipv4_version v o' \<equiv> o'\<lparr>eth_ipv4 := (eth_ipv4 o')\<lparr>eth_ipv4_version := ucast v\<rparr>\<rparr>"

abbreviation eth_set_ipv4_ihl :: "u64 \<Rightarrow> eth_result \<Rightarrow> eth_result" where
  "eth_set_ipv4_ihl v o' \<equiv> o'\<lparr>eth_ipv4 := (eth_ipv4 o')\<lparr>eth_ipv4_ihl := ucast v\<rparr>\<rparr>"

abbreviation eth_set_ipv4_dscp :: "u64 \<Rightarrow> eth_result \<Rightarrow> eth_result" where
  "eth_set_ipv4_dscp v o' \<equiv> o'\<lparr>eth_ipv4 := (eth_ipv4 o')\<lparr>eth_ipv4_dscp := ucast v\<rparr>\<rparr>"

abbreviation eth_set_ipv4_ecn :: "u64 \<Rightarrow> eth_result \<Rightarrow> eth_result" where
  "eth_set_ipv4_ecn v o' \<equiv> o'\<lparr>eth_ipv4 := (eth_ipv4 o')\<lparr>eth_ipv4_ecn := ucast v\<rparr>\<rparr>"

abbreviation eth_set_ipv4_total_len :: "u64 \<Rightarrow> eth_result \<Rightarrow> eth_result" where
  "eth_set_ipv4_total_len v o' \<equiv> o'\<lparr>eth_ipv4 := (eth_ipv4 o')\<lparr>eth_ipv4_total_len := ucast v\<rparr>\<rparr>"

abbreviation eth_set_ipv4_id :: "u64 \<Rightarrow> eth_result \<Rightarrow> eth_result" where
  "eth_set_ipv4_id v o' \<equiv> o'\<lparr>eth_ipv4 := (eth_ipv4 o')\<lparr>eth_ipv4_id := ucast v\<rparr>\<rparr>"

abbreviation eth_set_ipv4_flags :: "u64 \<Rightarrow> eth_result \<Rightarrow> eth_result" where
  "eth_set_ipv4_flags v o' \<equiv> o'\<lparr>eth_ipv4 := (eth_ipv4 o')\<lparr>eth_ipv4_flags := ucast v\<rparr>\<rparr>"

abbreviation eth_set_ipv4_frag_offset :: "u64 \<Rightarrow> eth_result \<Rightarrow> eth_result" where
  "eth_set_ipv4_frag_offset v o' \<equiv> o'\<lparr>eth_ipv4 := (eth_ipv4 o')\<lparr>eth_ipv4_frag_offset := ucast v\<rparr>\<rparr>"

abbreviation eth_set_ipv4_ttl :: "u64 \<Rightarrow> eth_result \<Rightarrow> eth_result" where
  "eth_set_ipv4_ttl v o' \<equiv> o'\<lparr>eth_ipv4 := (eth_ipv4 o')\<lparr>eth_ipv4_ttl := ucast v\<rparr>\<rparr>"

abbreviation eth_set_ipv4_protocol :: "u64 \<Rightarrow> eth_result \<Rightarrow> eth_result" where
  "eth_set_ipv4_protocol v o' \<equiv> o'\<lparr>eth_ipv4 := (eth_ipv4 o')\<lparr>eth_ipv4_protocol := ucast v\<rparr>\<rparr>"

abbreviation eth_set_ipv4_checksum :: "u64 \<Rightarrow> eth_result \<Rightarrow> eth_result" where
  "eth_set_ipv4_checksum v o' \<equiv> o'\<lparr>eth_ipv4 := (eth_ipv4 o')\<lparr>eth_ipv4_checksum := ucast v\<rparr>\<rparr>"

abbreviation eth_set_ipv4_src :: "u64 \<Rightarrow> eth_result \<Rightarrow> eth_result" where
  "eth_set_ipv4_src v o' \<equiv> o'\<lparr>eth_ipv4 := (eth_ipv4 o')\<lparr>eth_ipv4_src := ucast v\<rparr>\<rparr>"

abbreviation eth_set_ipv4_dst :: "u64 \<Rightarrow> eth_result \<Rightarrow> eth_result" where
  "eth_set_ipv4_dst v o' \<equiv> o'\<lparr>eth_ipv4 := (eth_ipv4 o')\<lparr>eth_ipv4_dst := ucast v\<rparr>\<rparr>"

abbreviation eth_set_ipv4_options_bit_off :: "u64 \<Rightarrow> eth_result \<Rightarrow> eth_result" where
  "eth_set_ipv4_options_bit_off v o' \<equiv> o'\<lparr>eth_ipv4 := (eth_ipv4 o')\<lparr>eth_ipv4_options_bit_off := v\<rparr>\<rparr>"

abbreviation eth_set_ipv4_options_bit_len :: "u64 \<Rightarrow> eth_result \<Rightarrow> eth_result" where
  "eth_set_ipv4_options_bit_len v o' \<equiv> o'\<lparr>eth_ipv4 := (eth_ipv4 o')\<lparr>eth_ipv4_options_bit_len := v\<rparr>\<rparr>"

abbreviation eth_set_ipv6_version :: "u64 \<Rightarrow> eth_result \<Rightarrow> eth_result" where
  "eth_set_ipv6_version v o' \<equiv> o'\<lparr>eth_ipv6 := (eth_ipv6 o')\<lparr>eth_ipv6_version := ucast v\<rparr>\<rparr>"

abbreviation eth_set_ipv6_traffic_class :: "u64 \<Rightarrow> eth_result \<Rightarrow> eth_result" where
  "eth_set_ipv6_traffic_class v o' \<equiv> o'\<lparr>eth_ipv6 := (eth_ipv6 o')\<lparr>eth_ipv6_traffic_class := ucast v\<rparr>\<rparr>"

abbreviation eth_set_ipv6_flow_label :: "u64 \<Rightarrow> eth_result \<Rightarrow> eth_result" where
  "eth_set_ipv6_flow_label v o' \<equiv> o'\<lparr>eth_ipv6 := (eth_ipv6 o')\<lparr>eth_ipv6_flow_label := ucast v\<rparr>\<rparr>"

abbreviation eth_set_ipv6_payload_length :: "u64 \<Rightarrow> eth_result \<Rightarrow> eth_result" where
  "eth_set_ipv6_payload_length v o' \<equiv> o'\<lparr>eth_ipv6 := (eth_ipv6 o')\<lparr>eth_ipv6_payload_length := ucast v\<rparr>\<rparr>"

abbreviation eth_set_ipv6_next_header :: "u64 \<Rightarrow> eth_result \<Rightarrow> eth_result" where
  "eth_set_ipv6_next_header v o' \<equiv> o'\<lparr>eth_ipv6 := (eth_ipv6 o')\<lparr>eth_ipv6_next_header := ucast v\<rparr>\<rparr>"

abbreviation eth_set_ipv6_hop_limit :: "u64 \<Rightarrow> eth_result \<Rightarrow> eth_result" where
  "eth_set_ipv6_hop_limit v o' \<equiv> o'\<lparr>eth_ipv6 := (eth_ipv6 o')\<lparr>eth_ipv6_hop_limit := ucast v\<rparr>\<rparr>"

abbreviation eth_set_ipv6_src_bit_off :: "u64 \<Rightarrow> eth_result \<Rightarrow> eth_result" where
  "eth_set_ipv6_src_bit_off v o' \<equiv> o'\<lparr>eth_ipv6 := (eth_ipv6 o')\<lparr>eth_ipv6_src_bit_off := v\<rparr>\<rparr>"

abbreviation eth_set_ipv6_src_bit_len :: "u64 \<Rightarrow> eth_result \<Rightarrow> eth_result" where
  "eth_set_ipv6_src_bit_len v o' \<equiv> o'\<lparr>eth_ipv6 := (eth_ipv6 o')\<lparr>eth_ipv6_src_bit_len := v\<rparr>\<rparr>"

abbreviation eth_set_ipv6_dst_bit_off :: "u64 \<Rightarrow> eth_result \<Rightarrow> eth_result" where
  "eth_set_ipv6_dst_bit_off v o' \<equiv> o'\<lparr>eth_ipv6 := (eth_ipv6 o')\<lparr>eth_ipv6_dst_bit_off := v\<rparr>\<rparr>"

abbreviation eth_set_ipv6_dst_bit_len :: "u64 \<Rightarrow> eth_result \<Rightarrow> eth_result" where
  "eth_set_ipv6_dst_bit_len v o' \<equiv> o'\<lparr>eth_ipv6 := (eth_ipv6 o')\<lparr>eth_ipv6_dst_bit_len := v\<rparr>\<rparr>"

abbreviation eth_set_tcp_sport :: "u64 \<Rightarrow> eth_result \<Rightarrow> eth_result" where
  "eth_set_tcp_sport v o' \<equiv> o'\<lparr>eth_tcp := (eth_tcp o')\<lparr>eth_tcp_sport := ucast v\<rparr>\<rparr>"

abbreviation eth_set_tcp_dport :: "u64 \<Rightarrow> eth_result \<Rightarrow> eth_result" where
  "eth_set_tcp_dport v o' \<equiv> o'\<lparr>eth_tcp := (eth_tcp o')\<lparr>eth_tcp_dport := ucast v\<rparr>\<rparr>"

abbreviation eth_set_tcp_seq :: "u64 \<Rightarrow> eth_result \<Rightarrow> eth_result" where
  "eth_set_tcp_seq v o' \<equiv> o'\<lparr>eth_tcp := (eth_tcp o')\<lparr>eth_tcp_seq := ucast v\<rparr>\<rparr>"

abbreviation eth_set_tcp_ack :: "u64 \<Rightarrow> eth_result \<Rightarrow> eth_result" where
  "eth_set_tcp_ack v o' \<equiv> o'\<lparr>eth_tcp := (eth_tcp o')\<lparr>eth_tcp_ack := ucast v\<rparr>\<rparr>"

abbreviation eth_set_tcp_data_offset :: "u64 \<Rightarrow> eth_result \<Rightarrow> eth_result" where
  "eth_set_tcp_data_offset v o' \<equiv> o'\<lparr>eth_tcp := (eth_tcp o')\<lparr>eth_tcp_data_offset := ucast v\<rparr>\<rparr>"

abbreviation eth_set_tcp_reserved :: "u64 \<Rightarrow> eth_result \<Rightarrow> eth_result" where
  "eth_set_tcp_reserved v o' \<equiv> o'\<lparr>eth_tcp := (eth_tcp o')\<lparr>eth_tcp_reserved := ucast v\<rparr>\<rparr>"

abbreviation eth_set_tcp_flags :: "u64 \<Rightarrow> eth_result \<Rightarrow> eth_result" where
  "eth_set_tcp_flags v o' \<equiv> o'\<lparr>eth_tcp := (eth_tcp o')\<lparr>eth_tcp_flags := ucast v\<rparr>\<rparr>"

abbreviation eth_set_tcp_window :: "u64 \<Rightarrow> eth_result \<Rightarrow> eth_result" where
  "eth_set_tcp_window v o' \<equiv> o'\<lparr>eth_tcp := (eth_tcp o')\<lparr>eth_tcp_window := ucast v\<rparr>\<rparr>"

abbreviation eth_set_tcp_checksum :: "u64 \<Rightarrow> eth_result \<Rightarrow> eth_result" where
  "eth_set_tcp_checksum v o' \<equiv> o'\<lparr>eth_tcp := (eth_tcp o')\<lparr>eth_tcp_checksum := ucast v\<rparr>\<rparr>"

abbreviation eth_set_tcp_urgent :: "u64 \<Rightarrow> eth_result \<Rightarrow> eth_result" where
  "eth_set_tcp_urgent v o' \<equiv> o'\<lparr>eth_tcp := (eth_tcp o')\<lparr>eth_tcp_urgent := ucast v\<rparr>\<rparr>"

abbreviation eth_set_udp_sport :: "u64 \<Rightarrow> eth_result \<Rightarrow> eth_result" where
  "eth_set_udp_sport v o' \<equiv> o'\<lparr>eth_udp := (eth_udp o')\<lparr>eth_udp_sport := ucast v\<rparr>\<rparr>"

abbreviation eth_set_udp_dport :: "u64 \<Rightarrow> eth_result \<Rightarrow> eth_result" where
  "eth_set_udp_dport v o' \<equiv> o'\<lparr>eth_udp := (eth_udp o')\<lparr>eth_udp_dport := ucast v\<rparr>\<rparr>"

abbreviation eth_set_udp_length :: "u64 \<Rightarrow> eth_result \<Rightarrow> eth_result" where
  "eth_set_udp_length v o' \<equiv> o'\<lparr>eth_udp := (eth_udp o')\<lparr>eth_udp_length := ucast v\<rparr>\<rparr>"

abbreviation eth_set_udp_checksum :: "u64 \<Rightarrow> eth_result \<Rightarrow> eth_result" where
  "eth_set_udp_checksum v o' \<equiv> o'\<lparr>eth_udp := (eth_udp o')\<lparr>eth_udp_checksum := ucast v\<rparr>\<rparr>"

section \<open>States, reasons and bounds\<close>

abbreviation eth_S_PARSE_ETHERNET :: u32 where "eth_S_PARSE_ETHERNET \<equiv> 0"
abbreviation eth_S_PARSE_IPV4 :: u32 where "eth_S_PARSE_IPV4 \<equiv> 1"
abbreviation eth_S_PARSE_IPV6 :: u32 where "eth_S_PARSE_IPV6 \<equiv> 2"
abbreviation eth_S_PARSE_TCP :: u32 where "eth_S_PARSE_TCP \<equiv> 3"
abbreviation eth_S_PARSE_UDP :: u32 where "eth_S_PARSE_UDP \<equiv> 4"

abbreviation eth_R_UNSUPPORTED_ETHERTYPE :: u16 where "eth_R_UNSUPPORTED_ETHERTYPE \<equiv> 16"
abbreviation eth_R_UNSUPPORTED_IP_PROTOCOL :: u16 where "eth_R_UNSUPPORTED_IP_PROTOCOL \<equiv> 17"

section \<open>The cases of the switch\<close>

definition eth_case_parse_ethernet :: "packet_reader \<Rightarrow> u64 \<Rightarrow> eth_result stmt list" where
  "eth_case_parse_ethernet rd bit_len =
   [store (\<lambda>o'. o'\<lparr>eth_ethernet_present := 1\<rparr>),
    check_len bit_len Off 48,
    load_bytes rd Off 6 eth_set_ethernet_dst,
    advance Off 48,
    check_len bit_len Off 48,
    load_bytes rd Off 6 eth_set_ethernet_src,
    advance Off 48,
    check_len bit_len Off 16,
    load_bytes rd Off 2 eth_set_ethernet_ethertype,
    advance Off 16,
    bind_local (c_out (\<lambda>o'. ucast (eth_ethernet_ethertype (eth_ethernet o')))) (\<lambda>key0. [
     branch (\<lambda>_. key0 = 2048) (goto eth_S_PARSE_IPV4) (
     branch (\<lambda>_. key0 = 34525) (goto eth_S_PARSE_IPV6) (
     reject eth_R_UNSUPPORTED_ETHERTYPE))])]"

definition eth_case_parse_ipv4 :: "packet_reader \<Rightarrow> u64 \<Rightarrow> eth_result stmt list" where
  "eth_case_parse_ipv4 rd bit_len =
   [store (\<lambda>o'. o'\<lparr>eth_ipv4_present := 1\<rparr>),
    check_len bit_len Off 4,
    load_bits rd Off 4 eth_set_ipv4_version,
    advance Off 4,
    check_len bit_len Off 4,
    load_bits rd Off 4 eth_set_ipv4_ihl,
    advance Off 4,
    check_len bit_len Off 6,
    load_bits rd Off 6 eth_set_ipv4_dscp,
    advance Off 6,
    check_len bit_len Off 2,
    load_bits rd Off 2 eth_set_ipv4_ecn,
    advance Off 2,
    check_len bit_len Off 16,
    load_bytes rd Off 2 eth_set_ipv4_total_len,
    advance Off 16,
    check_len bit_len Off 16,
    load_bytes rd Off 2 eth_set_ipv4_id,
    advance Off 16,
    check_len bit_len Off 3,
    load_bits rd Off 3 eth_set_ipv4_flags,
    advance Off 3,
    check_len bit_len Off 13,
    load_bits rd Off 13 eth_set_ipv4_frag_offset,
    advance Off 13,
    check_len bit_len Off 8,
    load_bytes rd Off 1 eth_set_ipv4_ttl,
    advance Off 8,
    check_len bit_len Off 8,
    load_bytes rd Off 1 eth_set_ipv4_protocol,
    advance Off 8,
    check_len bit_len Off 16,
    load_bytes rd Off 2 eth_set_ipv4_checksum,
    advance Off 16,
    check_len bit_len Off 32,
    load_bytes rd Off 4 eth_set_ipv4_src,
    advance Off 32,
    check_len bit_len Off 32,
    load_bytes rd Off 4 eth_set_ipv4_dst,
    advance Off 32,
    bind_local (c_mul (c_sub (c_mul (c_out (\<lambda>o'. ucast (eth_ipv4_ihl (eth_ipv4 o')))) (c_const 4)) (c_const 20)) (c_const 8)) (\<lambda>vlen.
      [check_var_len bit_len vlen,
       store_off eth_set_ipv4_options_bit_off,
       store (eth_set_ipv4_options_bit_len vlen),
       advance Off vlen]),
    bind_local (c_out (\<lambda>o'. ucast (eth_ipv4_protocol (eth_ipv4 o')))) (\<lambda>key0. [
     branch (\<lambda>_. key0 = 6) (goto eth_S_PARSE_TCP) (
     branch (\<lambda>_. key0 = 17) (goto eth_S_PARSE_UDP) (
     reject eth_R_UNSUPPORTED_IP_PROTOCOL))])]"

definition eth_case_parse_ipv6 :: "packet_reader \<Rightarrow> u64 \<Rightarrow> eth_result stmt list" where
  "eth_case_parse_ipv6 rd bit_len =
   [store (\<lambda>o'. o'\<lparr>eth_ipv6_present := 1\<rparr>),
    check_len bit_len Off 4,
    load_bits rd Off 4 eth_set_ipv6_version,
    advance Off 4,
    check_len bit_len Off 8,
    load_bits rd Off 8 eth_set_ipv6_traffic_class,
    advance Off 8,
    check_len bit_len Off 20,
    load_bits rd Off 20 eth_set_ipv6_flow_label,
    advance Off 20,
    check_len bit_len Off 16,
    load_bytes rd Off 2 eth_set_ipv6_payload_length,
    advance Off 16,
    check_len bit_len Off 8,
    load_bytes rd Off 1 eth_set_ipv6_next_header,
    advance Off 8,
    check_len bit_len Off 8,
    load_bytes rd Off 1 eth_set_ipv6_hop_limit,
    advance Off 8,
    bind_local (c_mul (c_const 16) (c_const 8)) (\<lambda>vlen.
      [check_var_len bit_len vlen,
       store_off eth_set_ipv6_src_bit_off,
       store (eth_set_ipv6_src_bit_len vlen),
       advance Off vlen]),
    bind_local (c_mul (c_const 16) (c_const 8)) (\<lambda>vlen.
      [check_var_len bit_len vlen,
       store_off eth_set_ipv6_dst_bit_off,
       store (eth_set_ipv6_dst_bit_len vlen),
       advance Off vlen]),
    bind_local (c_out (\<lambda>o'. ucast (eth_ipv6_next_header (eth_ipv6 o')))) (\<lambda>key0. [
     branch (\<lambda>_. key0 = 6) (goto eth_S_PARSE_TCP) (
     branch (\<lambda>_. key0 = 17) (goto eth_S_PARSE_UDP) (
     reject eth_R_UNSUPPORTED_IP_PROTOCOL))])]"

definition eth_case_parse_tcp :: "packet_reader \<Rightarrow> u64 \<Rightarrow> eth_result stmt list" where
  "eth_case_parse_tcp rd bit_len =
   [store (\<lambda>o'. o'\<lparr>eth_tcp_present := 1\<rparr>),
    check_len bit_len Off 16,
    load_bytes rd Off 2 eth_set_tcp_sport,
    advance Off 16,
    check_len bit_len Off 16,
    load_bytes rd Off 2 eth_set_tcp_dport,
    advance Off 16,
    check_len bit_len Off 32,
    load_bytes rd Off 4 eth_set_tcp_seq,
    advance Off 32,
    check_len bit_len Off 32,
    load_bytes rd Off 4 eth_set_tcp_ack,
    advance Off 32,
    check_len bit_len Off 4,
    load_bits rd Off 4 eth_set_tcp_data_offset,
    advance Off 4,
    check_len bit_len Off 4,
    load_bits rd Off 4 eth_set_tcp_reserved,
    advance Off 4,
    check_len bit_len Off 8,
    load_bytes rd Off 1 eth_set_tcp_flags,
    advance Off 8,
    check_len bit_len Off 16,
    load_bytes rd Off 2 eth_set_tcp_window,
    advance Off 16,
    check_len bit_len Off 16,
    load_bytes rd Off 2 eth_set_tcp_checksum,
    advance Off 16,
    check_len bit_len Off 16,
    load_bytes rd Off 2 eth_set_tcp_urgent,
    advance Off 16,
    accept]"

definition eth_case_parse_udp :: "packet_reader \<Rightarrow> u64 \<Rightarrow> eth_result stmt list" where
  "eth_case_parse_udp rd bit_len =
   [store (\<lambda>o'. o'\<lparr>eth_udp_present := 1\<rparr>),
    check_len bit_len Off 16,
    load_bytes rd Off 2 eth_set_udp_sport,
    advance Off 16,
    check_len bit_len Off 16,
    load_bytes rd Off 2 eth_set_udp_dport,
    advance Off 16,
    check_len bit_len Off 16,
    load_bytes rd Off 2 eth_set_udp_length,
    advance Off 16,
    check_len bit_len Off 16,
    load_bytes rd Off 2 eth_set_udp_checksum,
    advance Off 16,
    accept]"

section \<open>The parser\<close>

definition eth_switch :: "packet_reader \<Rightarrow> u64 \<Rightarrow> eth_result stmt" where
  "eth_switch rd bit_len = switch
   [(eth_S_PARSE_ETHERNET, eth_case_parse_ethernet rd bit_len),
    (eth_S_PARSE_IPV4, eth_case_parse_ipv4 rd bit_len),
    (eth_S_PARSE_IPV6, eth_case_parse_ipv6 rd bit_len),
    (eth_S_PARSE_TCP, eth_case_parse_tcp rd bit_len),
    (eth_S_PARSE_UDP, eth_case_parse_udp rd bit_len)]"

definition eth_parse_core :: "packet_reader \<Rightarrow> u64 \<Rightarrow> eth_result \<Rightarrow> eth_result flow" where
  "eth_parse_core rd bit_len o' =
     depth_loop 4 (eth_switch rd bit_len)
       (init_locals eth_S_PARSE_ETHERNET 0 o')"

text \<open>The caller's struct is overwritten with zeros before the core runs.\<close>

definition eth_parse :: "packet_reader \<Rightarrow> u64 \<Rightarrow> eth_result \<Rightarrow> eth_result flow" where
  "eth_parse rd bit_len o' = eth_parse_core rd bit_len eth_zero"

text \<open>The reasons of the header, with the text each carries in a comment.\<close>

definition eth_reasons :: "(u16 \<times> string) list" where
  "eth_reasons =
     [(1, ''out of bounds''),
      (2, ''max depth exceeded''),
      (3, ''no matching select arm''),
      (4, ''out of region bounds''),
      (5, ''region out of bounds''),
      (6, ''region not exhausted''),
      (16, ''unsupported ethertype''),
      (17, ''unsupported ip protocol'')]"

definition eth_reason_str :: "u16 \<Rightarrow> string" where
  "eth_reason_str r =
     (if r = 1 then ''out of bounds''
      else if r = 2 then ''max depth exceeded''
      else if r = 3 then ''no matching select arm''
      else if r = 4 then ''out of region bounds''
      else if r = 5 then ''region out of bounds''
      else if r = 6 then ''region not exhausted''
      else if r = 16 then ''unsupported ethertype''
      else if r = 17 then ''unsupported ip protocol''
      else [])"

end
