(* ===== verification/Eth_Ipvx_L4_Bpf.thy ===== *)
theory Eth_Ipvx_L4_Bpf
  imports Eth_Ipvx_L4
begin

text \<open>
  examples/eth_ipvx_l4/gen/parser.bpf.c: the eBPF variant of the same parser, statement by statement
  from its own file. Every packet index is masked with \<open>PK_BUF_MASK\<close>; the structs, states and
  reasons are those of parser.h, which the file repeats. \<open>pk_entry\<close> reads the length prefix,
  runs the core on what follows it and packs the verdict word.
\<close>

definition eth_bpf_case_parse_ethernet :: "packet_reader \<Rightarrow> u64 \<Rightarrow> eth_result stmt list" where
  "eth_bpf_case_parse_ethernet rd bit_len =
   [store (\<lambda>o'. o'\<lparr>eth_ethernet_present := 1\<rparr>),
    check_len bit_len Off 48,
    load_bytes (masked rd) Off 6 eth_set_ethernet_dst,
    advance Off 48,
    check_len bit_len Off 48,
    load_bytes (masked rd) Off 6 eth_set_ethernet_src,
    advance Off 48,
    check_len bit_len Off 16,
    load_bytes (masked rd) Off 2 eth_set_ethernet_ethertype,
    advance Off 16,
    bind_local (c_out (\<lambda>o'. ucast (eth_ethernet_ethertype (eth_ethernet o')))) (\<lambda>key0. [
     branch (\<lambda>_. key0 = 2048) (goto eth_S_PARSE_IPV4) (
     branch (\<lambda>_. key0 = 34525) (goto eth_S_PARSE_IPV6) (
     reject eth_R_UNSUPPORTED_ETHERTYPE))])]"

definition eth_bpf_case_parse_ipv4 :: "packet_reader \<Rightarrow> u64 \<Rightarrow> eth_result stmt list" where
  "eth_bpf_case_parse_ipv4 rd bit_len =
   [store (\<lambda>o'. o'\<lparr>eth_ipv4_present := 1\<rparr>),
    check_len bit_len Off 4,
    load_bits (masked rd) Off 4 eth_set_ipv4_version,
    advance Off 4,
    check_len bit_len Off 4,
    load_bits (masked rd) Off 4 eth_set_ipv4_ihl,
    advance Off 4,
    check_len bit_len Off 6,
    load_bits (masked rd) Off 6 eth_set_ipv4_dscp,
    advance Off 6,
    check_len bit_len Off 2,
    load_bits (masked rd) Off 2 eth_set_ipv4_ecn,
    advance Off 2,
    check_len bit_len Off 16,
    load_bytes (masked rd) Off 2 eth_set_ipv4_total_len,
    advance Off 16,
    check_len bit_len Off 16,
    load_bytes (masked rd) Off 2 eth_set_ipv4_id,
    advance Off 16,
    check_len bit_len Off 3,
    load_bits (masked rd) Off 3 eth_set_ipv4_flags,
    advance Off 3,
    check_len bit_len Off 13,
    load_bits (masked rd) Off 13 eth_set_ipv4_frag_offset,
    advance Off 13,
    check_len bit_len Off 8,
    load_bytes (masked rd) Off 1 eth_set_ipv4_ttl,
    advance Off 8,
    check_len bit_len Off 8,
    load_bytes (masked rd) Off 1 eth_set_ipv4_protocol,
    advance Off 8,
    check_len bit_len Off 16,
    load_bytes (masked rd) Off 2 eth_set_ipv4_checksum,
    advance Off 16,
    check_len bit_len Off 32,
    load_bytes (masked rd) Off 4 eth_set_ipv4_src,
    advance Off 32,
    check_len bit_len Off 32,
    load_bytes (masked rd) Off 4 eth_set_ipv4_dst,
    advance Off 32,
    bind_local (c_mul (c_sub (c_mul (c_out (\<lambda>o'. ucast (eth_ipv4_ihl (eth_ipv4 o')))) (c_const 4)) (c_const 20)) (c_const 8)) (\<lambda>vlen.
      [check_var_len bit_len vlen,
       store_off eth_set_ipv4_options_bit_off,
       store (eth_set_ipv4_options_bit_len vlen),
       advance Off vlen]),
    bind_local (c_out (\<lambda>o'. ucast (eth_ipv4_protocol (eth_ipv4 o')))) (\<lambda>key0. [
     branch (\<lambda>_. key0 = 6) (goto eth_S_PARSE_TCP) (
     branch (\<lambda>_. key0 = 17) (goto eth_S_PARSE_UDP) (
     reject eth_R_UNSUPPORTED_IP_PROTOCOL))])]"

definition eth_bpf_case_parse_ipv6 :: "packet_reader \<Rightarrow> u64 \<Rightarrow> eth_result stmt list" where
  "eth_bpf_case_parse_ipv6 rd bit_len =
   [store (\<lambda>o'. o'\<lparr>eth_ipv6_present := 1\<rparr>),
    check_len bit_len Off 4,
    load_bits (masked rd) Off 4 eth_set_ipv6_version,
    advance Off 4,
    check_len bit_len Off 8,
    load_bits (masked rd) Off 8 eth_set_ipv6_traffic_class,
    advance Off 8,
    check_len bit_len Off 20,
    load_bits (masked rd) Off 20 eth_set_ipv6_flow_label,
    advance Off 20,
    check_len bit_len Off 16,
    load_bytes (masked rd) Off 2 eth_set_ipv6_payload_length,
    advance Off 16,
    check_len bit_len Off 8,
    load_bytes (masked rd) Off 1 eth_set_ipv6_next_header,
    advance Off 8,
    check_len bit_len Off 8,
    load_bytes (masked rd) Off 1 eth_set_ipv6_hop_limit,
    advance Off 8,
    bind_local (c_mul (c_const 16) (c_const 8)) (\<lambda>vlen.
      [check_var_len bit_len vlen,
       store_off eth_set_ipv6_src_bit_off,
       store (eth_set_ipv6_src_bit_len vlen),
       advance Off vlen]),
    bind_local (c_mul (c_const 16) (c_const 8)) (\<lambda>vlen.
      [check_var_len bit_len vlen,
       store_off eth_set_ipv6_dst_bit_off,
       store (eth_set_ipv6_dst_bit_len vlen),
       advance Off vlen]),
    bind_local (c_out (\<lambda>o'. ucast (eth_ipv6_next_header (eth_ipv6 o')))) (\<lambda>key0. [
     branch (\<lambda>_. key0 = 6) (goto eth_S_PARSE_TCP) (
     branch (\<lambda>_. key0 = 17) (goto eth_S_PARSE_UDP) (
     reject eth_R_UNSUPPORTED_IP_PROTOCOL))])]"

definition eth_bpf_case_parse_tcp :: "packet_reader \<Rightarrow> u64 \<Rightarrow> eth_result stmt list" where
  "eth_bpf_case_parse_tcp rd bit_len =
   [store (\<lambda>o'. o'\<lparr>eth_tcp_present := 1\<rparr>),
    check_len bit_len Off 16,
    load_bytes (masked rd) Off 2 eth_set_tcp_sport,
    advance Off 16,
    check_len bit_len Off 16,
    load_bytes (masked rd) Off 2 eth_set_tcp_dport,
    advance Off 16,
    check_len bit_len Off 32,
    load_bytes (masked rd) Off 4 eth_set_tcp_seq,
    advance Off 32,
    check_len bit_len Off 32,
    load_bytes (masked rd) Off 4 eth_set_tcp_ack,
    advance Off 32,
    check_len bit_len Off 4,
    load_bits (masked rd) Off 4 eth_set_tcp_data_offset,
    advance Off 4,
    check_len bit_len Off 4,
    load_bits (masked rd) Off 4 eth_set_tcp_reserved,
    advance Off 4,
    check_len bit_len Off 8,
    load_bytes (masked rd) Off 1 eth_set_tcp_flags,
    advance Off 8,
    check_len bit_len Off 16,
    load_bytes (masked rd) Off 2 eth_set_tcp_window,
    advance Off 16,
    check_len bit_len Off 16,
    load_bytes (masked rd) Off 2 eth_set_tcp_checksum,
    advance Off 16,
    check_len bit_len Off 16,
    load_bytes (masked rd) Off 2 eth_set_tcp_urgent,
    advance Off 16,
    accept]"

definition eth_bpf_case_parse_udp :: "packet_reader \<Rightarrow> u64 \<Rightarrow> eth_result stmt list" where
  "eth_bpf_case_parse_udp rd bit_len =
   [store (\<lambda>o'. o'\<lparr>eth_udp_present := 1\<rparr>),
    check_len bit_len Off 16,
    load_bytes (masked rd) Off 2 eth_set_udp_sport,
    advance Off 16,
    check_len bit_len Off 16,
    load_bytes (masked rd) Off 2 eth_set_udp_dport,
    advance Off 16,
    check_len bit_len Off 16,
    load_bytes (masked rd) Off 2 eth_set_udp_length,
    advance Off 16,
    check_len bit_len Off 16,
    load_bytes (masked rd) Off 2 eth_set_udp_checksum,
    advance Off 16,
    accept]"

definition eth_bpf_switch :: "packet_reader \<Rightarrow> u64 \<Rightarrow> eth_result stmt" where
  "eth_bpf_switch rd bit_len = switch
   [(eth_S_PARSE_ETHERNET, eth_bpf_case_parse_ethernet rd bit_len),
    (eth_S_PARSE_IPV4, eth_bpf_case_parse_ipv4 rd bit_len),
    (eth_S_PARSE_IPV6, eth_bpf_case_parse_ipv6 rd bit_len),
    (eth_S_PARSE_TCP, eth_bpf_case_parse_tcp rd bit_len),
    (eth_S_PARSE_UDP, eth_bpf_case_parse_udp rd bit_len)]"

definition eth_bpf_parse_core :: "packet_reader \<Rightarrow> u64 \<Rightarrow> eth_result \<Rightarrow> eth_result flow" where
  "eth_bpf_parse_core rd bit_len o' =
     depth_loop 4 (eth_bpf_switch rd bit_len)
       (init_locals eth_S_PARSE_ETHERNET 0 o')"

definition eth_bpf_pk_entry :: "bytes \<Rightarrow> fault + u64" where
  "eth_bpf_pk_entry mem =
     and_then (entry_bit_len mem) (\<lambda>bit_len.
       entry_verdict (eth_bpf_parse_core (buf_at (drop 8 mem)) bit_len eth_zero))"

lemma eth_bpf_core_eq: "eth_bpf_parse_core rd = eth_parse_core (masked rd)"
  by (simp add: fun_eq_iff eth_bpf_parse_core_def eth_parse_core_def eth_bpf_switch_def eth_switch_def
    eth_bpf_case_parse_ethernet_def eth_case_parse_ethernet_def
    eth_bpf_case_parse_ipv4_def eth_case_parse_ipv4_def
    eth_bpf_case_parse_ipv6_def eth_case_parse_ipv6_def
    eth_bpf_case_parse_tcp_def eth_case_parse_tcp_def
    eth_bpf_case_parse_udp_def eth_case_parse_udp_def)

end
