(* ===== verification/Eth_Ipvx_L4_Refine.thy ===== *)
theory Eth_Ipvx_L4_Refine
  imports Eth_Ipvx_L4_Bpf Bpf_Entry
begin

text \<open>
  The generated parser examples/eth_ipvx_l4/gen/parser.c is what the emitter makes of
  examples/eth_ipvx_l4/eth_ipvx_l4.ir.json, and it does what the interpreter does: the description as a term of the
  IR, the members of the result struct, the certificates of the two static checks, the proof that
  every case of the file equals the emitted one, and the refinement theorem.
\<close>

section \<open>The description\<close>

definition eth_ht_ethernet :: header_type where
  "eth_ht_ethernet = \<lparr>ht_name = ''ethernet'', ht_fields =
     [\<lparr>field_name = ''dst'', field_width = Bits 48\<rparr>,
      \<lparr>field_name = ''src'', field_width = Bits 48\<rparr>,
      \<lparr>field_name = ''ethertype'', field_width = Bits 16\<rparr>]\<rparr>"

definition eth_ht_ipv4 :: header_type where
  "eth_ht_ipv4 = \<lparr>ht_name = ''ipv4'', ht_fields =
     [\<lparr>field_name = ''version'', field_width = Bits 4\<rparr>,
      \<lparr>field_name = ''ihl'', field_width = Bits 4\<rparr>,
      \<lparr>field_name = ''dscp'', field_width = Bits 6\<rparr>,
      \<lparr>field_name = ''ecn'', field_width = Bits 2\<rparr>,
      \<lparr>field_name = ''total_len'', field_width = Bits 16\<rparr>,
      \<lparr>field_name = ''id'', field_width = Bits 16\<rparr>,
      \<lparr>field_name = ''flags'', field_width = Bits 3\<rparr>,
      \<lparr>field_name = ''frag_offset'', field_width = Bits 13\<rparr>,
      \<lparr>field_name = ''ttl'', field_width = Bits 8\<rparr>,
      \<lparr>field_name = ''protocol'', field_width = Bits 8\<rparr>,
      \<lparr>field_name = ''checksum'', field_width = Bits 16\<rparr>,
      \<lparr>field_name = ''src'', field_width = Bits 32\<rparr>,
      \<lparr>field_name = ''dst'', field_width = Bits 32\<rparr>,
      \<lparr>field_name = ''options'', field_width = BitLen (Bin OpMul (Bin OpSub (Bin OpMul (Field ''ipv4'' ''ihl'') (Constant 4)) (Constant 20)) (Constant 8))\<rparr>]\<rparr>"

definition eth_ht_ipv6 :: header_type where
  "eth_ht_ipv6 = \<lparr>ht_name = ''ipv6'', ht_fields =
     [\<lparr>field_name = ''version'', field_width = Bits 4\<rparr>,
      \<lparr>field_name = ''traffic_class'', field_width = Bits 8\<rparr>,
      \<lparr>field_name = ''flow_label'', field_width = Bits 20\<rparr>,
      \<lparr>field_name = ''payload_length'', field_width = Bits 16\<rparr>,
      \<lparr>field_name = ''next_header'', field_width = Bits 8\<rparr>,
      \<lparr>field_name = ''hop_limit'', field_width = Bits 8\<rparr>,
      \<lparr>field_name = ''src'', field_width = BitLen (Bin OpMul (Constant 16) (Constant 8))\<rparr>,
      \<lparr>field_name = ''dst'', field_width = BitLen (Bin OpMul (Constant 16) (Constant 8))\<rparr>]\<rparr>"

definition eth_ht_tcp :: header_type where
  "eth_ht_tcp = \<lparr>ht_name = ''tcp'', ht_fields =
     [\<lparr>field_name = ''sport'', field_width = Bits 16\<rparr>,
      \<lparr>field_name = ''dport'', field_width = Bits 16\<rparr>,
      \<lparr>field_name = ''seq'', field_width = Bits 32\<rparr>,
      \<lparr>field_name = ''ack'', field_width = Bits 32\<rparr>,
      \<lparr>field_name = ''data_offset'', field_width = Bits 4\<rparr>,
      \<lparr>field_name = ''reserved'', field_width = Bits 4\<rparr>,
      \<lparr>field_name = ''flags'', field_width = Bits 8\<rparr>,
      \<lparr>field_name = ''window'', field_width = Bits 16\<rparr>,
      \<lparr>field_name = ''checksum'', field_width = Bits 16\<rparr>,
      \<lparr>field_name = ''urgent'', field_width = Bits 16\<rparr>]\<rparr>"

definition eth_ht_udp :: header_type where
  "eth_ht_udp = \<lparr>ht_name = ''udp'', ht_fields =
     [\<lparr>field_name = ''sport'', field_width = Bits 16\<rparr>,
      \<lparr>field_name = ''dport'', field_width = Bits 16\<rparr>,
      \<lparr>field_name = ''length'', field_width = Bits 16\<rparr>,
      \<lparr>field_name = ''checksum'', field_width = Bits 16\<rparr>]\<rparr>"

definition eth_st_parse_ethernet :: state where
  "eth_st_parse_ethernet =
     \<lparr>st_name = ''parse_ethernet'',
      st_extracts = [\<lparr>ex_header_type = ''ethernet'', ex_instance = [], ex_lookahead = False\<rparr>],
      st_assigns = [],
      st_region_ops = [],
      st_transition = Select [Field ''ethernet'' ''ethertype'']
       [\<lparr>arm_entries = [Value 2048], arm_next = ToState ''parse_ipv4''\<rparr>,
        \<lparr>arm_entries = [Value 34525], arm_next = ToState ''parse_ipv6''\<rparr>]
       (Some (Reject ''unsupported ethertype'' SevInfo))\<rparr>"

definition eth_st_parse_ipv4 :: state where
  "eth_st_parse_ipv4 =
     \<lparr>st_name = ''parse_ipv4'',
      st_extracts = [\<lparr>ex_header_type = ''ipv4'', ex_instance = [], ex_lookahead = False\<rparr>],
      st_assigns = [],
      st_region_ops = [],
      st_transition = Select [Field ''ipv4'' ''protocol'']
       [\<lparr>arm_entries = [Value 6], arm_next = ToState ''parse_tcp''\<rparr>,
        \<lparr>arm_entries = [Value 17], arm_next = ToState ''parse_udp''\<rparr>]
       (Some (Reject ''unsupported ip protocol'' SevInfo))\<rparr>"

definition eth_st_parse_ipv6 :: state where
  "eth_st_parse_ipv6 =
     \<lparr>st_name = ''parse_ipv6'',
      st_extracts = [\<lparr>ex_header_type = ''ipv6'', ex_instance = [], ex_lookahead = False\<rparr>],
      st_assigns = [],
      st_region_ops = [],
      st_transition = Select [Field ''ipv6'' ''next_header'']
       [\<lparr>arm_entries = [Value 6], arm_next = ToState ''parse_tcp''\<rparr>,
        \<lparr>arm_entries = [Value 17], arm_next = ToState ''parse_udp''\<rparr>]
       (Some (Reject ''unsupported ip protocol'' SevInfo))\<rparr>"

definition eth_st_parse_tcp :: state where
  "eth_st_parse_tcp =
     \<lparr>st_name = ''parse_tcp'',
      st_extracts = [\<lparr>ex_header_type = ''tcp'', ex_instance = [], ex_lookahead = False\<rparr>],
      st_assigns = [],
      st_region_ops = [],
      st_transition = Direct (Accept)\<rparr>"

definition eth_st_parse_udp :: state where
  "eth_st_parse_udp =
     \<lparr>st_name = ''parse_udp'',
      st_extracts = [\<lparr>ex_header_type = ''udp'', ex_instance = [], ex_lookahead = False\<rparr>],
      st_assigns = [],
      st_region_ops = [],
      st_transition = Direct (Accept)\<rparr>"

definition eth_ir :: parser where
  "eth_ir =
     \<lparr>p_header_types = [eth_ht_ethernet, eth_ht_ipv4, eth_ht_ipv6, eth_ht_tcp, eth_ht_udp],
      p_states = [eth_st_parse_ethernet,
        eth_st_parse_ipv4,
        eth_st_parse_ipv6,
        eth_st_parse_tcp,
        eth_st_parse_udp],
      p_start_state = ''parse_ethernet'', p_max_depth = 4,
      p_metadata = []\<rparr>"

section \<open>The members of the result struct\<close>

definition eth_members :: "eth_result member list" where
  "eth_members =
     [(SPresent ''ethernet'', (\<lambda>o'. ucast (eth_ethernet_present o')), (\<lambda>v o'. o'\<lparr>eth_ethernet_present := ucast v\<rparr>), 8),
      (SFld ''ethernet'' ''dst'', (\<lambda>o'. eth_ethernet_dst (eth_ethernet o')), eth_set_ethernet_dst, 64),
      (SFld ''ethernet'' ''src'', (\<lambda>o'. eth_ethernet_src (eth_ethernet o')), eth_set_ethernet_src, 64),
      (SFld ''ethernet'' ''ethertype'', (\<lambda>o'. ucast (eth_ethernet_ethertype (eth_ethernet o'))), eth_set_ethernet_ethertype, 16),
      (SPresent ''ipv4'', (\<lambda>o'. ucast (eth_ipv4_present o')), (\<lambda>v o'. o'\<lparr>eth_ipv4_present := ucast v\<rparr>), 8),
      (SFld ''ipv4'' ''version'', (\<lambda>o'. ucast (eth_ipv4_version (eth_ipv4 o'))), eth_set_ipv4_version, 8),
      (SFld ''ipv4'' ''ihl'', (\<lambda>o'. ucast (eth_ipv4_ihl (eth_ipv4 o'))), eth_set_ipv4_ihl, 8),
      (SFld ''ipv4'' ''dscp'', (\<lambda>o'. ucast (eth_ipv4_dscp (eth_ipv4 o'))), eth_set_ipv4_dscp, 8),
      (SFld ''ipv4'' ''ecn'', (\<lambda>o'. ucast (eth_ipv4_ecn (eth_ipv4 o'))), eth_set_ipv4_ecn, 8),
      (SFld ''ipv4'' ''total_len'', (\<lambda>o'. ucast (eth_ipv4_total_len (eth_ipv4 o'))), eth_set_ipv4_total_len, 16),
      (SFld ''ipv4'' ''id'', (\<lambda>o'. ucast (eth_ipv4_id (eth_ipv4 o'))), eth_set_ipv4_id, 16),
      (SFld ''ipv4'' ''flags'', (\<lambda>o'. ucast (eth_ipv4_flags (eth_ipv4 o'))), eth_set_ipv4_flags, 8),
      (SFld ''ipv4'' ''frag_offset'', (\<lambda>o'. ucast (eth_ipv4_frag_offset (eth_ipv4 o'))), eth_set_ipv4_frag_offset, 16),
      (SFld ''ipv4'' ''ttl'', (\<lambda>o'. ucast (eth_ipv4_ttl (eth_ipv4 o'))), eth_set_ipv4_ttl, 8),
      (SFld ''ipv4'' ''protocol'', (\<lambda>o'. ucast (eth_ipv4_protocol (eth_ipv4 o'))), eth_set_ipv4_protocol, 8),
      (SFld ''ipv4'' ''checksum'', (\<lambda>o'. ucast (eth_ipv4_checksum (eth_ipv4 o'))), eth_set_ipv4_checksum, 16),
      (SFld ''ipv4'' ''src'', (\<lambda>o'. ucast (eth_ipv4_src (eth_ipv4 o'))), eth_set_ipv4_src, 32),
      (SFld ''ipv4'' ''dst'', (\<lambda>o'. ucast (eth_ipv4_dst (eth_ipv4 o'))), eth_set_ipv4_dst, 32),
      (SOff ''ipv4'' ''options'', (\<lambda>o'. eth_ipv4_options_bit_off (eth_ipv4 o')), eth_set_ipv4_options_bit_off, 64),
      (SLen ''ipv4'' ''options'', (\<lambda>o'. eth_ipv4_options_bit_len (eth_ipv4 o')), eth_set_ipv4_options_bit_len, 64),
      (SPresent ''ipv6'', (\<lambda>o'. ucast (eth_ipv6_present o')), (\<lambda>v o'. o'\<lparr>eth_ipv6_present := ucast v\<rparr>), 8),
      (SFld ''ipv6'' ''version'', (\<lambda>o'. ucast (eth_ipv6_version (eth_ipv6 o'))), eth_set_ipv6_version, 8),
      (SFld ''ipv6'' ''traffic_class'', (\<lambda>o'. ucast (eth_ipv6_traffic_class (eth_ipv6 o'))), eth_set_ipv6_traffic_class, 8),
      (SFld ''ipv6'' ''flow_label'', (\<lambda>o'. ucast (eth_ipv6_flow_label (eth_ipv6 o'))), eth_set_ipv6_flow_label, 32),
      (SFld ''ipv6'' ''payload_length'', (\<lambda>o'. ucast (eth_ipv6_payload_length (eth_ipv6 o'))), eth_set_ipv6_payload_length, 16),
      (SFld ''ipv6'' ''next_header'', (\<lambda>o'. ucast (eth_ipv6_next_header (eth_ipv6 o'))), eth_set_ipv6_next_header, 8),
      (SFld ''ipv6'' ''hop_limit'', (\<lambda>o'. ucast (eth_ipv6_hop_limit (eth_ipv6 o'))), eth_set_ipv6_hop_limit, 8),
      (SOff ''ipv6'' ''src'', (\<lambda>o'. eth_ipv6_src_bit_off (eth_ipv6 o')), eth_set_ipv6_src_bit_off, 64),
      (SLen ''ipv6'' ''src'', (\<lambda>o'. eth_ipv6_src_bit_len (eth_ipv6 o')), eth_set_ipv6_src_bit_len, 64),
      (SOff ''ipv6'' ''dst'', (\<lambda>o'. eth_ipv6_dst_bit_off (eth_ipv6 o')), eth_set_ipv6_dst_bit_off, 64),
      (SLen ''ipv6'' ''dst'', (\<lambda>o'. eth_ipv6_dst_bit_len (eth_ipv6 o')), eth_set_ipv6_dst_bit_len, 64),
      (SPresent ''tcp'', (\<lambda>o'. ucast (eth_tcp_present o')), (\<lambda>v o'. o'\<lparr>eth_tcp_present := ucast v\<rparr>), 8),
      (SFld ''tcp'' ''sport'', (\<lambda>o'. ucast (eth_tcp_sport (eth_tcp o'))), eth_set_tcp_sport, 16),
      (SFld ''tcp'' ''dport'', (\<lambda>o'. ucast (eth_tcp_dport (eth_tcp o'))), eth_set_tcp_dport, 16),
      (SFld ''tcp'' ''seq'', (\<lambda>o'. ucast (eth_tcp_seq (eth_tcp o'))), eth_set_tcp_seq, 32),
      (SFld ''tcp'' ''ack'', (\<lambda>o'. ucast (eth_tcp_ack (eth_tcp o'))), eth_set_tcp_ack, 32),
      (SFld ''tcp'' ''data_offset'', (\<lambda>o'. ucast (eth_tcp_data_offset (eth_tcp o'))), eth_set_tcp_data_offset, 8),
      (SFld ''tcp'' ''reserved'', (\<lambda>o'. ucast (eth_tcp_reserved (eth_tcp o'))), eth_set_tcp_reserved, 8),
      (SFld ''tcp'' ''flags'', (\<lambda>o'. ucast (eth_tcp_flags (eth_tcp o'))), eth_set_tcp_flags, 8),
      (SFld ''tcp'' ''window'', (\<lambda>o'. ucast (eth_tcp_window (eth_tcp o'))), eth_set_tcp_window, 16),
      (SFld ''tcp'' ''checksum'', (\<lambda>o'. ucast (eth_tcp_checksum (eth_tcp o'))), eth_set_tcp_checksum, 16),
      (SFld ''tcp'' ''urgent'', (\<lambda>o'. ucast (eth_tcp_urgent (eth_tcp o'))), eth_set_tcp_urgent, 16),
      (SPresent ''udp'', (\<lambda>o'. ucast (eth_udp_present o')), (\<lambda>v o'. o'\<lparr>eth_udp_present := ucast v\<rparr>), 8),
      (SFld ''udp'' ''sport'', (\<lambda>o'. ucast (eth_udp_sport (eth_udp o'))), eth_set_udp_sport, 16),
      (SFld ''udp'' ''dport'', (\<lambda>o'. ucast (eth_udp_dport (eth_udp o'))), eth_set_udp_dport, 16),
      (SFld ''udp'' ''length'', (\<lambda>o'. ucast (eth_udp_length (eth_udp o'))), eth_set_udp_length, 16),
      (SFld ''udp'' ''checksum'', (\<lambda>o'. ucast (eth_udp_checksum (eth_udp o'))), eth_set_udp_checksum, 16)]"

lemma eth_layout: "layout_ok eth_members eth_zero"
  by (simp add: layout_ok_def eth_members_def eth_zero_def read_all_def)

lemmas eth_member [simp] = members_all [OF eth_layout eth_members_def, unfolded list.pred_inject prod.case]

section \<open>The certificate\<close>

definition eth_align :: "string \<Rightarrow> nat option" where
  "eth_align = map_of [(''parse_ethernet'', 0), (''parse_ipv4'', 0), (''parse_ipv6'', 0), (''parse_tcp'', 0), (''parse_udp'', 0)]"

definition eth_depth :: "string \<Rightarrow> nat" where
  "eth_depth n = (case map_of [] n of None \<Rightarrow> 0 | Some d \<Rightarrow> d)"

definition eth_known :: "string \<Rightarrow> names" where
  "eth_known n = (case map_of
     [(''parse_ipv4'', [(''ethernet'', ''ethertype'')]),
      (''parse_ipv6'', [(''ethernet'', ''ethertype'')]),
      (''parse_tcp'', [(''ethernet'', ''ethertype'')]),
      (''parse_udp'', [(''ethernet'', ''ethertype'')])] n of None \<Rightarrow> [] | Some b \<Rightarrow> b)"

lemmas eth_ir_defs = eth_ir_def eth_ht_ethernet_def eth_ht_ipv4_def eth_ht_ipv6_def eth_ht_tcp_def eth_ht_udp_def
  eth_st_parse_ethernet_def eth_st_parse_ipv4_def eth_st_parse_ipv6_def eth_st_parse_tcp_def eth_st_parse_udp_def

text \<open>Everything the emitter computes from the description alone, evaluated.\<close>

lemma eth_wf: "wf_ok eth_ir eth_known eth_depth"
  by code_simp

lemma eth_evaluated:
  "list_all (\<lambda>(st, i, f, n, b). byte_load eth_ir eth_align st i f n = b)
     [(eth_st_parse_ethernet, ''ethernet'', ''dst'', 48, True),
      (eth_st_parse_ethernet, ''ethernet'', ''src'', 48, True),
      (eth_st_parse_ethernet, ''ethernet'', ''ethertype'', 16, True),
      (eth_st_parse_ipv4, ''ipv4'', ''version'', 4, False),
      (eth_st_parse_ipv4, ''ipv4'', ''ihl'', 4, False),
      (eth_st_parse_ipv4, ''ipv4'', ''dscp'', 6, False),
      (eth_st_parse_ipv4, ''ipv4'', ''ecn'', 2, False),
      (eth_st_parse_ipv4, ''ipv4'', ''total_len'', 16, True),
      (eth_st_parse_ipv4, ''ipv4'', ''id'', 16, True),
      (eth_st_parse_ipv4, ''ipv4'', ''flags'', 3, False),
      (eth_st_parse_ipv4, ''ipv4'', ''frag_offset'', 13, False),
      (eth_st_parse_ipv4, ''ipv4'', ''ttl'', 8, True),
      (eth_st_parse_ipv4, ''ipv4'', ''protocol'', 8, True),
      (eth_st_parse_ipv4, ''ipv4'', ''checksum'', 16, True),
      (eth_st_parse_ipv4, ''ipv4'', ''src'', 32, True),
      (eth_st_parse_ipv4, ''ipv4'', ''dst'', 32, True),
      (eth_st_parse_ipv6, ''ipv6'', ''version'', 4, False),
      (eth_st_parse_ipv6, ''ipv6'', ''traffic_class'', 8, False),
      (eth_st_parse_ipv6, ''ipv6'', ''flow_label'', 20, False),
      (eth_st_parse_ipv6, ''ipv6'', ''payload_length'', 16, True),
      (eth_st_parse_ipv6, ''ipv6'', ''next_header'', 8, True),
      (eth_st_parse_ipv6, ''ipv6'', ''hop_limit'', 8, True),
      (eth_st_parse_tcp, ''tcp'', ''sport'', 16, True),
      (eth_st_parse_tcp, ''tcp'', ''dport'', 16, True),
      (eth_st_parse_tcp, ''tcp'', ''seq'', 32, True),
      (eth_st_parse_tcp, ''tcp'', ''ack'', 32, True),
      (eth_st_parse_tcp, ''tcp'', ''data_offset'', 4, False),
      (eth_st_parse_tcp, ''tcp'', ''reserved'', 4, False),
      (eth_st_parse_tcp, ''tcp'', ''flags'', 8, True),
      (eth_st_parse_tcp, ''tcp'', ''window'', 16, True),
      (eth_st_parse_tcp, ''tcp'', ''checksum'', 16, True),
      (eth_st_parse_tcp, ''tcp'', ''urgent'', 16, True),
      (eth_st_parse_udp, ''udp'', ''sport'', 16, True),
      (eth_st_parse_udp, ''udp'', ''dport'', 16, True),
      (eth_st_parse_udp, ''udp'', ''length'', 16, True),
      (eth_st_parse_udp, ''udp'', ''checksum'', 16, True)] \<and>
   list_all (\<lambda>(n, h). find_header_type eth_ir n = Some h)
     [(''ethernet'', eth_ht_ethernet),
      (''ipv4'', eth_ht_ipv4),
      (''ipv6'', eth_ht_ipv6),
      (''tcp'', eth_ht_tcp),
      (''udp'', eth_ht_udp)] \<and>
   list_all (\<lambda>(n, k). state_id eth_ir n = k)
     [(''parse_ethernet'', 0),
      (''parse_ipv4'', 1),
      (''parse_ipv6'', 2),
      (''parse_tcp'', 3),
      (''parse_udp'', 4)] \<and>
   list_all (\<lambda>(r, k). reason_code eth_ir r = k)
     [(''unsupported ethertype'', 16),
      (''unsupported ip protocol'', 17)] \<and>
   region_cap eth_ir = 0 \<and> region_mask eth_ir = 0 \<and> region_slots eth_ir = 0 \<and>
   list_all (\<lambda>(n, a). eth_align n = a)
     [(''parse_ethernet'', Some 0),
      (''parse_ipv4'', Some 0),
      (''parse_ipv6'', Some 0),
      (''parse_tcp'', Some 0),
      (''parse_udp'', Some 0)] \<and>
   list_all (\<lambda>(n, d). eth_depth n = d)
     [(''parse_ethernet'', 0), (''parse_ipv4'', 0), (''parse_ipv6'', 0), (''parse_tcp'', 0), (''parse_udp'', 0)] \<and>
   reasons_fit eth_ir \<and> meta_decl_ok eth_ir \<and> core_compiles eth_ir"
  by code_simp

lemmas eth_emit_eval [simp] = eth_evaluated [unfolded list.pred_inject prod.case]

section \<open>The emitted code is the generated file\<close>

lemmas eth_st_parse_ethernet_sel = eth_st_parse_ethernet_def [THEN arg_cong [of _ _ st_name], simplified state.simps]
  eth_st_parse_ethernet_def [THEN arg_cong [of _ _ st_extracts], simplified state.simps]
  eth_st_parse_ethernet_def [THEN arg_cong [of _ _ st_assigns], simplified state.simps]
  eth_st_parse_ethernet_def [THEN arg_cong [of _ _ st_region_ops], simplified state.simps]
  eth_st_parse_ethernet_def [THEN arg_cong [of _ _ st_transition], simplified state.simps]

lemmas eth_st_parse_ipv4_sel = eth_st_parse_ipv4_def [THEN arg_cong [of _ _ st_name], simplified state.simps]
  eth_st_parse_ipv4_def [THEN arg_cong [of _ _ st_extracts], simplified state.simps]
  eth_st_parse_ipv4_def [THEN arg_cong [of _ _ st_assigns], simplified state.simps]
  eth_st_parse_ipv4_def [THEN arg_cong [of _ _ st_region_ops], simplified state.simps]
  eth_st_parse_ipv4_def [THEN arg_cong [of _ _ st_transition], simplified state.simps]

lemmas eth_st_parse_ipv6_sel = eth_st_parse_ipv6_def [THEN arg_cong [of _ _ st_name], simplified state.simps]
  eth_st_parse_ipv6_def [THEN arg_cong [of _ _ st_extracts], simplified state.simps]
  eth_st_parse_ipv6_def [THEN arg_cong [of _ _ st_assigns], simplified state.simps]
  eth_st_parse_ipv6_def [THEN arg_cong [of _ _ st_region_ops], simplified state.simps]
  eth_st_parse_ipv6_def [THEN arg_cong [of _ _ st_transition], simplified state.simps]

lemmas eth_st_parse_tcp_sel = eth_st_parse_tcp_def [THEN arg_cong [of _ _ st_name], simplified state.simps]
  eth_st_parse_tcp_def [THEN arg_cong [of _ _ st_extracts], simplified state.simps]
  eth_st_parse_tcp_def [THEN arg_cong [of _ _ st_assigns], simplified state.simps]
  eth_st_parse_tcp_def [THEN arg_cong [of _ _ st_region_ops], simplified state.simps]
  eth_st_parse_tcp_def [THEN arg_cong [of _ _ st_transition], simplified state.simps]

lemmas eth_st_parse_udp_sel = eth_st_parse_udp_def [THEN arg_cong [of _ _ st_name], simplified state.simps]
  eth_st_parse_udp_def [THEN arg_cong [of _ _ st_extracts], simplified state.simps]
  eth_st_parse_udp_def [THEN arg_cong [of _ _ st_assigns], simplified state.simps]
  eth_st_parse_udp_def [THEN arg_cong [of _ _ st_region_ops], simplified state.simps]
  eth_st_parse_udp_def [THEN arg_cong [of _ _ st_transition], simplified state.simps]

lemmas eth_ir_sel = eth_ir_def [THEN arg_cong [of _ _ p_states], simplified parser.simps]
  eth_ir_def [THEN arg_cong [of _ _ p_start_state], simplified parser.simps]
  eth_ir_def [THEN arg_cong [of _ _ p_max_depth], simplified parser.simps]
  eth_ir_def [THEN arg_cong [of _ _ p_metadata], simplified parser.simps]

lemma eth_emit_ok:
  "emit_ok eth_ir eth_align eth_depth (member_slots eth_members) (member_width eth_members)"
  by (simp add: emit_ok_eval eth_ir_sel
    eth_st_parse_ethernet_sel
    eth_st_parse_ipv4_sel
    eth_st_parse_ipv6_sel
    eth_st_parse_tcp_sel
    eth_st_parse_udp_sel
    eth_ht_ethernet_def eth_ht_ipv4_def eth_ht_ipv6_def eth_ht_tcp_def eth_ht_udp_def)

lemma eth_emit_parse_ethernet:
  "emit_state eth_ir eth_align rd bit_len (member_get eth_members) (member_put eth_members) eth_st_parse_ethernet =
     eth_case_parse_ethernet rd bit_len"
  unfolding eth_case_parse_ethernet_def
  by (simp add: emit_eval eth_st_parse_ethernet_sel eth_ht_ethernet_def
      del: One_nat_def)

lemma eth_emit_parse_ipv4:
  "emit_state eth_ir eth_align rd bit_len (member_get eth_members) (member_put eth_members) eth_st_parse_ipv4 =
     eth_case_parse_ipv4 rd bit_len"
  unfolding eth_case_parse_ipv4_def
  by (simp add: emit_eval eth_st_parse_ipv4_sel eth_ht_ipv4_def
      del: One_nat_def)

lemma eth_emit_parse_ipv6:
  "emit_state eth_ir eth_align rd bit_len (member_get eth_members) (member_put eth_members) eth_st_parse_ipv6 =
     eth_case_parse_ipv6 rd bit_len"
  unfolding eth_case_parse_ipv6_def
  by (simp add: emit_eval eth_st_parse_ipv6_sel eth_ht_ipv6_def
      del: One_nat_def)

lemma eth_emit_parse_tcp:
  "emit_state eth_ir eth_align rd bit_len (member_get eth_members) (member_put eth_members) eth_st_parse_tcp =
     eth_case_parse_tcp rd bit_len"
  unfolding eth_case_parse_tcp_def
  by (simp add: emit_eval eth_st_parse_tcp_sel eth_ht_tcp_def
      del: One_nat_def)

lemma eth_emit_parse_udp:
  "emit_state eth_ir eth_align rd bit_len (member_get eth_members) (member_put eth_members) eth_st_parse_udp =
     eth_case_parse_udp rd bit_len"
  unfolding eth_case_parse_udp_def
  by (simp add: emit_eval eth_st_parse_udp_sel eth_ht_udp_def
      del: One_nat_def)

lemma eth_fits: "fits_u32 eth_ir"
  by (simp add: fits_u32_def eth_ir_sel)

lemma eth_emit_switch:
  "emit_switch eth_ir eth_align rd bit_len (member_get eth_members) (member_put eth_members) = eth_switch rd bit_len"
  by (simp add: emit_switch_def eth_ir_sel eth_switch_def
    eth_st_parse_ethernet_sel(1) eth_st_parse_ipv4_sel(1) eth_st_parse_ipv6_sel(1)
    eth_st_parse_tcp_sel(1) eth_st_parse_udp_sel(1)
    eth_emit_parse_ethernet eth_emit_parse_ipv4 eth_emit_parse_ipv6 eth_emit_parse_tcp eth_emit_parse_udp)

lemma eth_emit_core:
  "emit_core eth_ir eth_align rd bit_len (member_get eth_members) (member_put eth_members) o' =
     eth_parse_core rd bit_len o'"
  unfolding emit_core_def eth_parse_core_def eth_emit_switch
  by (simp add: eth_ir_sel emit_init_meta_def)

section \<open>Refinement\<close>

interpretation eth: emitted_parser "member_get eth_members" "member_put eth_members"
  "member_slots eth_members" "member_width eth_members" eth_zero buf_at plain_capacity
  by (rule emitted_plain [OF eth_layout])

interpretation eth_bpf: emitted_parser "member_get eth_members" "member_put eth_members"
  "member_slots eth_members" "member_width eth_members" eth_zero buf_at_masked masked_capacity
  by (rule emitted_masked [OF eth_layout])

lemma eth_run_agrees:
  assumes "length buf \<le> plain_capacity" and "unat bit_len \<le> 8 * length buf"
    and "run_bits eth_ir buf (unat bit_len) = Inr res"
  shows "\<exists>ret r. eth_parse (buf_at buf) bit_len o' = Return ret r \<and>
    result_agrees eth_ir (member_get eth_members) (member_slots eth_members) res ret r"
  using eth.emit_core_refines [OF eth_emit_ok eth_fits assms] by (simp add: eth_parse_def eth_emit_core)

text \<open>
  C7: \<open>pk_eth_ipvx_l4_parse\<close> and the reference interpreter agree on every packet, whatever its bytes
  and however many of its bits are declared: the interpreter returns a result, the C returns (within
  4 iterations, without reading outside the buffer or an unset region slot) with the same verdict,
  reason, consumed bits, header fields and metadata. The one exception, the reason of a pop inside a
  truncated region, is part of \<open>result_agrees\<close>.
\<close>

theorem eth_parse_refines:
  assumes "length buf \<le> plain_capacity" and "unat bit_len \<le> 8 * length buf"
  shows "\<exists>res ret r. run_bits eth_ir buf (unat bit_len) = Inr res \<and>
    eth_parse (buf_at buf) bit_len o' = Return ret r \<and>
    result_agrees eth_ir (member_get eth_members) (member_slots eth_members) res ret r"
proof -
  obtain res where run: "run_bits eth_ir buf (unat bit_len) = Inr res"
    using run_bits_total [OF eth_wf assms(2)] by auto
  from eth_run_agrees [OF assms run] run show ?thesis by auto
qed

theorem eth_parse_refines_witness:
  "\<exists>res ret r. run_bits eth_ir [1, 2, 3] 20 = Inr res \<and>
    eth_parse (buf_at [1, 2, 3]) 20 eth_zero = Return ret r \<and>
    result_agrees eth_ir (member_get eth_members) (member_slots eth_members) res ret r"
  using eth_parse_refines [of "[1, 2, 3]" 20 eth_zero] by simp

text \<open>
  C14: the eBPF program of examples/eth_ipvx_l4, run on an eight-byte little-endian bit length
  followed by a packet of at most 4096 bytes, returns a word whose outcome, reason and consumed-bits
  fields are those of the reference interpreter on that packet; masking the packet indices is
  therefore harmless there, and no field of the word spills into another.
\<close>

theorem eth_bpf_entry_refines:
  assumes "length pkt \<le> 4096" and "unat bit_len \<le> 8 * length pkt"
  shows "\<exists>res w. run_bits eth_ir pkt (unat bit_len) = Inr res \<and>
    eth_bpf_pk_entry (le64 bit_len @ pkt) = Inr w \<and> verdict_agrees eth_ir res w"
proof -
  obtain res where run: "run_bits eth_ir pkt (unat bit_len) = Inr res"
    using run_bits_total [OF eth_wf assms(2)] by auto
  obtain ret r where core: "eth_bpf_parse_core (buf_at pkt) bit_len eth_zero = Return ret r"
    and agrees: "result_agrees eth_ir (member_get eth_members) (member_slots eth_members) res ret r"
    using eth_bpf.emit_core_refines [OF eth_emit_ok eth_fits assms run]
    by (auto simp: eth_bpf_core_eq eth_emit_core)
  have "unat bit_len < 2 ^ 48" using assms by simp
  from entry_decodes [OF agrees run _ _ this] run core show ?thesis
    by (auto simp: eth_bpf_pk_entry_def entry_bit_len_le64)
qed

theorem eth_bpf_entry_refines_witness:
  "\<exists>res w. run_bits eth_ir [1, 2, 3] 20 = Inr res \<and>
    eth_bpf_pk_entry (le64 20 @ [1, 2, 3]) = Inr w \<and> verdict_agrees eth_ir res w"
  using eth_bpf_entry_refines [of "[1, 2, 3]" 20] by simp

end
