(* ===== verification/Examples_Validated.thy ===== *)
theory Examples_Validated
  imports Codegen_Validated Tlv_Items_Refine Counted_Items_Refine Eth_Ipvx_L4_Refine Tls_Clienthello_Refine
    Quic_Initial_Refine Gibb_Edge_Refine
begin

text \<open>
  The descriptions of examples/ through the validator and the emitter's own analyses: the validator
  accepts them, they meet the conditions it leaves out, the result structs of the generated headers
  are the ones \<open>structs\<close> declares, and the generated parsers are what the emitter makes with the
  alignments \<open>entry_alignments\<close> computes, not merely with the certificates used so far.
\<close>

lemma tlv_validates: "validate tlv_ir = Some []"
  by code_simp

lemma tlv_conditions:
  "w7_complete tlv_ir \<and> single_extraction tlv_ir \<and> ''out of bounds'' \<notin> set (reject_reasons tlv_ir)"
  by code_simp

lemma cnt_validates: "validate cnt_ir = Some []"
  by code_simp

lemma cnt_conditions:
  "w7_complete cnt_ir \<and> single_extraction cnt_ir \<and> ''out of bounds'' \<notin> set (reject_reasons cnt_ir)"
  by code_simp

lemma eth_validates: "validate eth_ir = Some []"
  by code_simp

lemma eth_conditions:
  "w7_complete eth_ir \<and> single_extraction eth_ir \<and> ''out of bounds'' \<notin> set (reject_reasons eth_ir)"
  by code_simp

lemma tlv_struct: "map (\<lambda>(x, _, _, w). (x, w)) tlv_members = struct_members tlv_ir"
  by code_simp

lemma tlv_alignments:
  "list_all (\<lambda>st. tlv_align (st_name st) = emitter_alignment tlv_ir (st_name st)) (p_states tlv_ir)"
  by code_simp

lemma cnt_struct: "map (\<lambda>(x, _, _, w). (x, w)) cnt_members = struct_members cnt_ir"
  by code_simp

lemma cnt_alignments:
  "list_all (\<lambda>st. cnt_align (st_name st) = emitter_alignment cnt_ir (st_name st)) (p_states cnt_ir)"
  by code_simp

lemma eth_struct: "map (\<lambda>(x, _, _, w). (x, w)) eth_members = struct_members eth_ir"
  by code_simp

lemma eth_alignments:
  "list_all (\<lambda>st. eth_align (st_name st) = emitter_alignment eth_ir (st_name st)) (p_states eth_ir)"
  by code_simp

lemma tls_struct: "map (\<lambda>(x, _, _, w). (x, w)) tls_members = struct_members tls_ir"
  by code_simp

lemma tls_alignments:
  "list_all (\<lambda>st. tls_align (st_name st) = emitter_alignment tls_ir (st_name st)) (p_states tls_ir)"
  by code_simp

lemma quic_alignments:
  "list_all (\<lambda>st. quic_align (st_name st) = emitter_alignment quic_ir (st_name st)) (p_states quic_ir)"
  by code_simp

lemma edge_alignments:
  "list_all (\<lambda>st. edge_align (st_name st) = emitter_alignment edge_ir (st_name st)) (p_states edge_ir)"
  by code_simp

section \<open>A file is what the emitter makes of a description\<close>

text \<open>
  Statement by statement: the switch of the file and the emitted one are one function of the C locals, so
  they agree with the cursor anywhere, also where it never stands in a run. Byte loads and bit loops are
  different functions there, as the last part says: without the alignments the emitted switch is another.
\<close>

definition emitted_file ::
  "parser \<Rightarrow> 'a pk_result_scheme member list \<Rightarrow> (packet_reader \<Rightarrow> u64 \<Rightarrow> 'a pk_result_scheme stmt) \<Rightarrow>
   (packet_reader \<Rightarrow> u64 \<Rightarrow> 'a pk_result_scheme \<Rightarrow> 'a pk_result_scheme flow) \<Rightarrow> bool"
where
  "emitted_file p t file_switch file_core \<longleftrightarrow>
     (\<forall>rd bit_len. emit_switch p (emitter_alignment p) rd bit_len (member_get t) (member_put t) = file_switch rd bit_len) \<and>
     (\<forall>rd bit_len o'. emit_core p (emitter_alignment p) rd bit_len (member_get t) (member_put t) o' =
        file_core rd bit_len o') \<and>
     (\<exists>rd bit_len. emit_switch p (\<lambda>_. None) rd bit_len (member_get t) (member_put t) \<noteq> file_switch rd bit_len)"

lemma emitted_fileI:
  assumes "list_all (\<lambda>st. align (st_name st) = emitter_alignment p (st_name st)) (p_states p)"
    and "\<And>rd bit_len. emit_switch p align rd bit_len (member_get t) (member_put t) = file_switch rd bit_len"
    and "\<And>rd bit_len o'. emit_core p align rd bit_len (member_get t) (member_put t) o' = file_core rd bit_len o'"
    and "emit_switch p (\<lambda>_. None) rd bit_len (member_get t) (member_put t) s \<noteq> file_switch rd bit_len s"
  shows "emitted_file p t file_switch file_core"
  unfolding emitted_file_def using assms(2-4) emit_switch_cong [OF assms(1)] emit_core_cong [OF assms(1)] by metis

text \<open>A cursor inside a byte, on entry to a state that reads one.\<close>

definition odd_cursor :: "u32 \<Rightarrow> nat \<Rightarrow> 'o \<Rightarrow> 'o locals" where
  "odd_cursor k n o' = (init_locals k n o')\<lparr>off := 4\<rparr>"

definition odd_bytes :: bytes where
  "odd_bytes = concat (replicate 10 [0x5A, 0xC3])"

lemma tlv_byte_loads:
  "emit_switch tlv_ir (\<lambda>_. None) (buf_at odd_bytes) 160 (member_get tlv_members) (member_put tlv_members)
     (odd_cursor 0 1 tlv_zero) \<noteq> tlv_switch (buf_at odd_bytes) 160 (odd_cursor 0 1 tlv_zero)"
  by code_simp

lemma cnt_byte_loads:
  "emit_switch cnt_ir (\<lambda>_. None) (buf_at odd_bytes) 160 (member_get cnt_members) (member_put cnt_members)
     (odd_cursor 0 0 cnt_zero) \<noteq> cnt_switch (buf_at odd_bytes) 160 (odd_cursor 0 0 cnt_zero)"
  by code_simp

lemma eth_byte_loads:
  "emit_switch eth_ir (\<lambda>_. None) (buf_at odd_bytes) 160 (member_get eth_members) (member_put eth_members)
     (odd_cursor 0 0 eth_zero) \<noteq> eth_switch (buf_at odd_bytes) 160 (odd_cursor 0 0 eth_zero)"
  by code_simp

lemma tls_byte_loads:
  "emit_switch tls_ir (\<lambda>_. None) (buf_at odd_bytes) 160 (member_get tls_members) (member_put tls_members)
     (odd_cursor 0 8 tls_zero) \<noteq> tls_switch (buf_at odd_bytes) 160 (odd_cursor 0 8 tls_zero)"
  by code_simp

lemma quic_byte_loads:
  "emit_switch quic_ir (\<lambda>_. None) (buf_at odd_bytes) 160 (member_get quic_members) (member_put quic_members)
     (odd_cursor 3 0 quic_zero) \<noteq> quic_switch (buf_at odd_bytes) 160 (odd_cursor 3 0 quic_zero)"
  by code_simp

lemma edge_byte_loads:
  "emit_switch edge_ir (\<lambda>_. None) (buf_at odd_bytes) 160 (member_get edge_members) (member_put edge_members)
     (odd_cursor 0 0 edge_zero) \<noteq> edge_switch (buf_at odd_bytes) 160 (odd_cursor 0 0 edge_zero)"
  by code_simp

section \<open>Claims\<close>

text \<open>
  The validator accepts the three shipped example descriptions, and they satisfy the conditions it
  does not check (the rest of rule W7, one extraction per instance and state, no authored truncation
  reason), so the general theorems apply to them.
\<close>

theorem examples_accepted:
  "list_all (\<lambda>p. validate p = Some [] \<and> w7_complete p \<and> single_extraction p \<and>
     ''out of bounds'' \<notin> set (reject_reasons p)) [tlv_ir, cnt_ir, eth_ir]"
  by (simp add: tlv_validates cnt_validates eth_validates tlv_conditions cnt_conditions eth_conditions)

text \<open>
  C13: The parsers in the six transcribed files are, statement by statement, what the emitter makes of
  their descriptions with the entry alignments its own analysis computes. The switches are the same
  function of all the C locals, wherever the cursor stands, so every byte load in a file is at a place the
  analysis puts on a byte boundary and every bit loop at one it does not; with no alignment known the
  emitted switch would be another function. The cores around the switches are equal too.
\<close>

theorem generated_files_are_emitted:
  "emitted_file tlv_ir tlv_members tlv_switch tlv_parse_core \<and>
   emitted_file cnt_ir cnt_members cnt_switch cnt_parse_core \<and>
   emitted_file eth_ir eth_members eth_switch eth_parse_core \<and>
   emitted_file tls_ir tls_members tls_switch tls_parse_core \<and>
   emitted_file quic_ir quic_members quic_switch quic_parse_core \<and>
   emitted_file edge_ir edge_members edge_switch edge_parse_core"
  by (intro conjI
      emitted_fileI [OF tlv_alignments tlv_emit_switch tlv_emit_core tlv_byte_loads]
      emitted_fileI [OF cnt_alignments cnt_emit_switch cnt_emit_core cnt_byte_loads]
      emitted_fileI [OF eth_alignments eth_emit_switch eth_emit_core eth_byte_loads]
      emitted_fileI [OF tls_alignments tls_emit_switch tls_emit_core tls_byte_loads]
      emitted_fileI [OF quic_alignments quic_emit_switch quic_emit_core quic_byte_loads]
      emitted_fileI [OF edge_alignments edge_emit_switch edge_emit_core edge_byte_loads])

text \<open>
  The result structs of the generated headers declare, member by member and in order, what
  \<open>structs\<close> of the C emitter makes of the descriptions: a presence byte and a struct per instance, each
  fixed field in the smallest unsigned type that holds it, an offset and a length for a variable one.
\<close>

theorem generated_structs:
  "map (\<lambda>(x, _, _, w). (x, w)) tlv_members = struct_members tlv_ir \<and>
   map (\<lambda>(x, _, _, w). (x, w)) cnt_members = struct_members cnt_ir \<and>
   map (\<lambda>(x, _, _, w). (x, w)) eth_members = struct_members eth_ir \<and>
   map (\<lambda>(x, _, _, w). (x, w)) tls_members = struct_members tls_ir"
  by (intro conjI tlv_struct cnt_struct eth_struct tls_struct)

end
