(* ===== verification/Ir_Message.thy ===== *)
theory Ir_Message
  imports Ir
begin

text \<open>
  The messages of proto/pakeles/ir/v1alpha1/ir.proto as they arrive, before anything is known about
  them: a \<open>oneof\<close> may be unset, a sub-message missing, an operator any number, and a reject carries its
  annotations as a map. Theory Ir has the same types for what the interpreter and the emitter handle;
  \<open>content\<close> reads a message as such a description the way the code does, skipping what is not there,
  \<open>complete\<close> says that nothing is missing, and \<open>message\<close> goes back. Annotations other than a reject's are
  read by nobody and left out.
\<close>

datatype pb_expr =
    PbEmpty
  | PbConstant u64
  | PbField string string
  | PbBin int "pb_expr option" "pb_expr option"
  | PbMetadata string
  | PbRemaining

datatype pb_width = PbBits nat | PbBitLen pb_expr

record pb_value_label =
  vl_value :: u64
  vl_label :: string

record pb_display =
  pd_name :: string
  pd_format :: int
  pd_value_labels :: "pb_value_label list"
  pd_doc :: string

record pb_field =
  pb_field_name :: string
  pb_field_width :: "pb_width option"
  pb_field_display :: "pb_display option"

record pb_header_type =
  pb_ht_name :: string
  pb_ht_fields :: "pb_field list"

type_synonym annotations = "string \<rightharpoonup> string"

datatype pb_target = PbNoTarget | PbState string | PbAccept | PbReject string annotations

record pb_select_arm =
  pb_arm_entries :: "keyset_entry option list"
  pb_arm_next :: "pb_target option"

datatype pb_transition =
    PbDirect pb_target
  | PbSelect "pb_expr list" "pb_select_arm list" "pb_target option"

record pb_assign =
  pb_as_metadata :: string
  pb_as_value :: "pb_expr option"

datatype pb_region_op = PbNoOp | PbPush pb_expr | PbPop

record pb_state =
  pb_st_name :: string
  pb_st_extracts :: "extract_op list"
  pb_st_transition :: "pb_transition option"
  pb_st_assigns :: "pb_assign list"
  pb_st_region_ops :: "pb_region_op list"

record pb_metadata_field =
  pb_md_name :: string
  pb_md_bits :: nat
  pb_md_init :: u64
  pb_md_display :: "pb_display option"

record pb_parser =
  pb_name :: string
  pb_header_types :: "pb_header_type list"
  pb_states :: "pb_state list"
  pb_start_state :: string
  pb_max_depth :: nat
  pb_metadata :: "pb_metadata_field list"

record pb_ir =
  ir_version :: string
  ir_parser :: "pb_parser option"

section \<open>The content of a message\<close>

text \<open>
  What is unset stands as something without references and successors. None of these defaults is
  interpreted: a message with one is refused, by the checks that come first.
\<close>

definition operators :: "(int \<times> binop) list" where
  "operators =
     [(0, OpUnspecified), (1, OpAdd), (2, OpSub), (3, OpMul), (4, OpShl), (5, OpShr), (6, OpAnd), (7, OpOr)]"

definition operator :: "int \<Rightarrow> binop option" where
  "operator k = map_of operators k"

definition present :: "'a \<Rightarrow> 'a option \<Rightarrow> 'a" where
  "present d x = (case x of None \<Rightarrow> d | Some y \<Rightarrow> y)"

lemma present_simps [simp]: "present d None = d" "present d (Some x) = x"
  by (simp_all add: present_def)

primrec content_expr :: "pb_expr \<Rightarrow> expr" where
  "content_expr PbEmpty = Constant 0"
| "content_expr (PbConstant v) = Constant v"
| "content_expr (PbField i f) = Field i f"
| "content_expr (PbBin op a b) =
     Bin (present OpUnspecified (operator op)) (present (Constant 0) (map_option content_expr a))
       (present (Constant 0) (map_option content_expr b))"
| "content_expr (PbMetadata m) = Metadata m"
| "content_expr PbRemaining = Remaining"

definition content_width :: "pb_width option \<Rightarrow> field_width" where
  "content_width w =
     (case w of None \<Rightarrow> Bits 0 | Some (PbBits n) \<Rightarrow> Bits n | Some (PbBitLen e) \<Rightarrow> BitLen (content_expr e))"

definition content_field :: "pb_field \<Rightarrow> field" where
  "content_field f = \<lparr>field_name = pb_field_name f, field_width = content_width (pb_field_width f)\<rparr>"

definition content_header :: "pb_header_type \<Rightarrow> header_type" where
  "content_header h = \<lparr>ht_name = pb_ht_name h, ht_fields = map content_field (pb_ht_fields h)\<rparr>"

text \<open>The severity as the interpreter reads it from a reject's annotations (interp/mod.rs).\<close>

definition severity_of :: "annotations \<Rightarrow> severity" where
  "severity_of a = (if a ''severity'' = Some ''info'' then SevInfo else SevError)"

definition content_target :: "pb_target \<Rightarrow> target" where
  "content_target t =
     (case t of
        PbNoTarget \<Rightarrow> Accept | PbState n \<Rightarrow> ToState n | PbAccept \<Rightarrow> Accept
      | PbReject r a \<Rightarrow> Reject r (severity_of a))"

definition content_arm :: "pb_select_arm \<Rightarrow> select_arm" where
  "content_arm a =
     \<lparr>arm_entries = map (present (Value 0)) (pb_arm_entries a),
      arm_next = present Accept (map_option content_target (pb_arm_next a))\<rparr>"

definition content_transition :: "pb_transition option \<Rightarrow> transition" where
  "content_transition tr =
     (case tr of
        None \<Rightarrow> Direct Accept
      | Some (PbDirect t) \<Rightarrow> Direct (content_target t)
      | Some (PbSelect keys arms d) \<Rightarrow>
          Select (map content_expr keys) (map content_arm arms) (map_option content_target d))"

definition content_assign :: "pb_assign \<Rightarrow> assign" where
  "content_assign a =
     \<lparr>as_metadata = pb_as_metadata a,
      as_value = present (Constant 0) (map_option content_expr (pb_as_value a))\<rparr>"

primrec content_region_ops :: "pb_region_op list \<Rightarrow> region_op list" where
  "content_region_ops [] = []"
| "content_region_ops (op # ops) =
     (case op of PbNoOp \<Rightarrow> [] | PbPush e \<Rightarrow> [Push (content_expr e)] | PbPop \<Rightarrow> [Pop]) @ content_region_ops ops"

definition content_state :: "pb_state \<Rightarrow> state" where
  "content_state s =
     \<lparr>st_name = pb_st_name s, st_extracts = pb_st_extracts s,
      st_assigns = map content_assign (pb_st_assigns s),
      st_region_ops = content_region_ops (pb_st_region_ops s),
      st_transition = content_transition (pb_st_transition s)\<rparr>"

definition content_metadata :: "pb_metadata_field \<Rightarrow> metadata_field" where
  "content_metadata m = \<lparr>md_name = pb_md_name m, md_bits = pb_md_bits m, md_init = pb_md_init m\<rparr>"

definition content :: "pb_parser \<Rightarrow> parser" where
  "content m =
     \<lparr>p_header_types = map content_header (pb_header_types m),
      p_states = map content_state (pb_states m),
      p_start_state = pb_start_state m, p_max_depth = pb_max_depth m,
      p_metadata = map content_metadata (pb_metadata m)\<rparr>"

lemma content_select [simp]:
  "p_header_types (content m) = map content_header (pb_header_types m)"
  "p_states (content m) = map content_state (pb_states m)"
  "p_metadata (content m) = map content_metadata (pb_metadata m)"
  "ht_name (content_header h) = pb_ht_name h"
  "ht_fields (content_header h) = map content_field (pb_ht_fields h)"
  "field_name (content_field f) = pb_field_name f"
  "field_width (content_field f) = content_width (pb_field_width f)"
  "st_name (content_state s) = pb_st_name s"
  "st_region_ops (content_state s) = content_region_ops (pb_st_region_ops s)"
  "st_assigns (content_state s) = map content_assign (pb_st_assigns s)"
  "st_transition (content_state s) = content_transition (pb_st_transition s)"
  "arm_entries (content_arm a) = map (present (Value 0)) (pb_arm_entries a)"
  by (simp_all add: content_def content_header_def content_field_def content_state_def content_arm_def)

section \<open>Nothing is missing\<close>

definition given :: "bool option \<Rightarrow> bool" where
  "given x = (x = Some True)"

primrec complete_expr :: "pb_expr \<Rightarrow> bool" where
  "complete_expr PbEmpty = False"
| "complete_expr (PbConstant v) = True"
| "complete_expr (PbField i f) = True"
| "complete_expr (PbBin op a b) =
     (operator op \<noteq> None \<and> given (map_option complete_expr a) \<and> given (map_option complete_expr b))"
| "complete_expr (PbMetadata m) = True"
| "complete_expr PbRemaining = True"

definition complete_field :: "pb_field \<Rightarrow> bool" where
  "complete_field f =
     (case pb_field_width f of None \<Rightarrow> False | Some (PbBits n) \<Rightarrow> True | Some (PbBitLen e) \<Rightarrow> complete_expr e)"

definition complete_target :: "pb_target option \<Rightarrow> bool" where
  "complete_target t = (t \<noteq> None \<and> t \<noteq> Some PbNoTarget)"

definition complete_arm :: "pb_select_arm \<Rightarrow> bool" where
  "complete_arm a = (None \<notin> set (pb_arm_entries a) \<and> complete_target (pb_arm_next a))"

text \<open>A select without a default target is a description; the validator refuses it as such.\<close>

definition complete_transition :: "pb_transition option \<Rightarrow> bool" where
  "complete_transition tr =
     (case tr of
        None \<Rightarrow> False
      | Some (PbDirect t) \<Rightarrow> complete_target (Some t)
      | Some (PbSelect keys arms d) \<Rightarrow>
          list_all complete_expr keys \<and> list_all complete_arm arms \<and> d \<noteq> Some PbNoTarget)"

definition complete_region_op :: "pb_region_op \<Rightarrow> bool" where
  "complete_region_op op = (case op of PbNoOp \<Rightarrow> False | PbPush e \<Rightarrow> complete_expr e | PbPop \<Rightarrow> True)"

definition complete_state :: "pb_state \<Rightarrow> bool" where
  "complete_state s =
     (list_all (\<lambda>a. given (map_option complete_expr (pb_as_value a))) (pb_st_assigns s) \<and>
      list_all complete_region_op (pb_st_region_ops s) \<and> complete_transition (pb_st_transition s))"

definition complete :: "pb_parser \<Rightarrow> bool" where
  "complete m =
     (list_all (\<lambda>h. list_all complete_field (pb_ht_fields h)) (pb_header_types m) \<and>
      list_all complete_state (pb_states m))"

section \<open>The message of a description\<close>

primrec operator_number :: "binop \<Rightarrow> int" where
  "operator_number OpUnspecified = 0"
| "operator_number OpAdd = 1"
| "operator_number OpSub = 2"
| "operator_number OpMul = 3"
| "operator_number OpShl = 4"
| "operator_number OpShr = 5"
| "operator_number OpAnd = 6"
| "operator_number OpOr = 7"

primrec message_expr :: "expr \<Rightarrow> pb_expr" where
  "message_expr (Constant v) = PbConstant v"
| "message_expr (Field i f) = PbField i f"
| "message_expr (Metadata m) = PbMetadata m"
| "message_expr Remaining = PbRemaining"
| "message_expr (Bin op a b) = PbBin (operator_number op) (Some (message_expr a)) (Some (message_expr b))"

definition message_width :: "field_width \<Rightarrow> pb_width" where
  "message_width w = (case w of Bits n \<Rightarrow> PbBits n | BitLen e \<Rightarrow> PbBitLen (message_expr e))"

definition message_header :: "header_type \<Rightarrow> pb_header_type" where
  "message_header h =
     \<lparr>pb_ht_name = ht_name h,
      pb_ht_fields = map (\<lambda>f. \<lparr>pb_field_name = field_name f,
        pb_field_width = Some (message_width (field_width f)), pb_field_display = None\<rparr>) (ht_fields h)\<rparr>"

definition message_target :: "target \<Rightarrow> pb_target" where
  "message_target t =
     (case t of
        ToState n \<Rightarrow> PbState n | Accept \<Rightarrow> PbAccept
      | Reject r sev \<Rightarrow> PbReject r (if sev = SevInfo then [''severity'' \<mapsto> ''info''] else Map.empty))"

definition message_transition :: "transition \<Rightarrow> pb_transition" where
  "message_transition tr =
     (case tr of
        Direct t \<Rightarrow> PbDirect (message_target t)
      | Select keys arms d \<Rightarrow>
          PbSelect (map message_expr keys)
            (map (\<lambda>a. \<lparr>pb_arm_entries = map Some (arm_entries a),
              pb_arm_next = Some (message_target (arm_next a))\<rparr>) arms)
            (map_option message_target d))"

definition message_state :: "state \<Rightarrow> pb_state" where
  "message_state s =
     \<lparr>pb_st_name = st_name s, pb_st_extracts = st_extracts s,
      pb_st_transition = Some (message_transition (st_transition s)),
      pb_st_assigns = map (\<lambda>a. \<lparr>pb_as_metadata = as_metadata a,
        pb_as_value = Some (message_expr (as_value a))\<rparr>) (st_assigns s),
      pb_st_region_ops =
        map (\<lambda>op. case op of Push e \<Rightarrow> PbPush (message_expr e) | Pop \<Rightarrow> PbPop) (st_region_ops s)\<rparr>"

definition message :: "string \<Rightarrow> parser \<Rightarrow> pb_parser" where
  "message name p =
     \<lparr>pb_name = name, pb_header_types = map message_header (p_header_types p),
      pb_states = map message_state (p_states p), pb_start_state = p_start_state p,
      pb_max_depth = p_max_depth p,
      pb_metadata = map (\<lambda>m. \<lparr>pb_md_name = md_name m, pb_md_bits = md_bits m, pb_md_init = md_init m,
        pb_md_display = None\<rparr>) (p_metadata p)\<rparr>"

section \<open>Round trip\<close>

lemma given_simps [simp]: "\<not> given None" "given (Some b) = b"
  by (simp_all add: given_def)

lemma operator_number [simp]: "operator (operator_number op) = Some op"
  by (cases op) (simp_all add: operator_def operators_def)

lemma content_message_expr [simp]: "content_expr (message_expr e) = e"
  by (induction e) simp_all

lemma complete_message_expr [simp]: "complete_expr (message_expr e)"
  by (induction e) simp_all

lemma content_message_target [simp]: "content_target (message_target t) = t"
proof (cases t)
  case (Reject r sev)
  then show ?thesis by (cases sev) (simp_all add: content_target_def message_target_def severity_of_def)
qed (simp_all add: content_target_def message_target_def)

lemma message_target_set [simp]: "message_target t \<noteq> PbNoTarget"
  by (simp add: message_target_def split: target.split)

lemma record_eta [simp]:
  "\<lparr>as_metadata = as_metadata a, as_value = as_value a\<rparr> = a"
  "\<lparr>arm_entries = arm_entries r, arm_next = arm_next r\<rparr> = r"
  "\<lparr>md_name = md_name m, md_bits = md_bits m, md_init = md_init m\<rparr> = m"
  by (cases a, simp) (cases r, simp, cases m, simp)

lemma content_message_header [simp]: "content_header (message_header h) = h"
proof -
  have "content_field \<lparr>pb_field_name = field_name f, pb_field_width = Some (message_width (field_width f)),
      pb_field_display = None\<rparr> = f" for f :: field
    by (cases f; cases "field_width f") (simp_all add: content_field_def content_width_def message_width_def)
  then show ?thesis by (cases h) (simp add: content_header_def message_header_def comp_def)
qed

lemma content_message_transition [simp]: "content_transition (Some (message_transition tr)) = tr"
  by (cases tr)
    (simp_all add: content_transition_def content_arm_def message_transition_def comp_def option.map_comp
      option.map_ident)

lemma content_message_region_ops [simp]:
  "content_region_ops (map (\<lambda>op. case op of Push e \<Rightarrow> PbPush (message_expr e) | Pop \<Rightarrow> PbPop) ops) = ops"
  by (induction ops) (simp_all split: region_op.split)

lemma content_message_state [simp]: "content_state (message_state s) = s"
  by (cases s) (simp add: content_state_def content_assign_def message_state_def comp_def)

lemma content_message [simp]: "content (message name p) = p"
  by (cases p) (simp add: content_def content_metadata_def message_def comp_def)

lemma complete_message_transition [simp]: "complete_transition (Some (message_transition tr))"
  by (cases tr)
    (auto simp: complete_transition_def complete_arm_def complete_target_def message_transition_def list_all_iff)

lemma complete_message [simp]: "complete (message name p)"
  by (auto simp: complete_def complete_state_def complete_region_op_def complete_field_def message_def
      message_header_def message_state_def message_width_def list_all_iff
      split: field_width.split region_op.split)

section \<open>References\<close>

text \<open>
  \<open>walk_refs\<close>, \<open>walk_meta_refs\<close> and \<open>contains_remaining\<close> walk the message and pass over an operand that is
  not there; the defaults of \<open>content_expr\<close> add nothing to what they find.
\<close>

primrec pb_field_refs :: "pb_expr \<Rightarrow> (string \<times> string) list" where
  "pb_field_refs PbEmpty = []"
| "pb_field_refs (PbConstant v) = []"
| "pb_field_refs (PbField i f) = [(i, f)]"
| "pb_field_refs (PbBin op a b) =
     present [] (map_option pb_field_refs b) @ present [] (map_option pb_field_refs a)"
| "pb_field_refs (PbMetadata m) = []"
| "pb_field_refs PbRemaining = []"

primrec pb_meta_refs :: "pb_expr \<Rightarrow> string list" where
  "pb_meta_refs PbEmpty = []"
| "pb_meta_refs (PbConstant v) = []"
| "pb_meta_refs (PbField i f) = []"
| "pb_meta_refs (PbBin op a b) =
     present [] (map_option pb_meta_refs b) @ present [] (map_option pb_meta_refs a)"
| "pb_meta_refs (PbMetadata m) = [m]"
| "pb_meta_refs PbRemaining = []"

primrec pb_contains_remaining :: "pb_expr \<Rightarrow> bool" where
  "pb_contains_remaining PbEmpty = False"
| "pb_contains_remaining (PbConstant v) = False"
| "pb_contains_remaining (PbField i f) = False"
| "pb_contains_remaining (PbBin op a b) =
     (present False (map_option pb_contains_remaining b) \<or> present False (map_option pb_contains_remaining a))"
| "pb_contains_remaining (PbMetadata m) = False"
| "pb_contains_remaining PbRemaining = True"

lemma content_refs [simp]:
  "pb_field_refs e = field_refs (content_expr e)"
  "pb_meta_refs e = meta_refs (content_expr e)"
  "pb_contains_remaining e = contains_remaining (content_expr e)"
proof (induction e)
  case (PbBin op a b)
  { case 1 then show ?case using PbBin(1,4) by (cases a; cases b) simp_all }
  { case 2 then show ?case using PbBin(2,5) by (cases a; cases b) simp_all }
  { case 3 then show ?case using PbBin(3,6) by (cases a; cases b) auto }
qed simp_all

end
