(* ===== verification/Ir_Message_Validate.thy ===== *)
theory Ir_Message_Validate
  imports Ir_Message Ir_Validated
begin

text \<open>
  \<open>validate_with_limits\<close> of rust/pakeles/src/ir/validate.rs on the message it is given, with the version
  gate, the parser's name, value labels, severities and everything a message may leave out. Where the
  code looks at nothing that can be missing, the functions of theory Ir_Validate run on the message's
  content; the rest is written out on the message. Proved: an accepted message is complete, acceptance
  is the decoded validator's acceptance plus what concerns presentation, and there are two ways to panic.
\<close>

datatype finding =
    Known violation | StaleVersion string | NoParser
  | EmptyExpression | UnknownOperator int | MissingLhs | MissingRhs
  | NoWidth string string | DuplicateLabel string string u64 | LabelTooWide string string u64 nat
  | EmptyRegionOp string nat | NoValue string string
  | EmptyTarget string | BadSeverity string string
  | NoTransition string | EmptyEntry string | NoArmTarget string

section \<open>Expressions\<close>

function pb_validate_expr :: "limits \<Rightarrow> nat \<Rightarrow> pb_expr \<Rightarrow> finding list" where
  "pb_validate_expr l d e =
     (if int d > max_expression_depth l then [Known (TooBig (ExpressionTooDeep (max_expression_depth l)))]
      else
        case e of
          PbEmpty \<Rightarrow> [EmptyExpression]
        | PbConstant v \<Rightarrow> []
        | PbField h f \<Rightarrow> if h = [] \<or> f = [] then [Known (Dangling EmptyFieldRef)] else []
        | PbMetadata m \<Rightarrow> if m = [] then [Known (Dangling EmptyMetadataRef)] else []
        | PbRemaining \<Rightarrow> []
        | PbBin op a b \<Rightarrow>
            (case operator op of
               None \<Rightarrow> [UnknownOperator op]
             | Some OpUnspecified \<Rightarrow> [Known (Shape UnspecifiedOperator)]
             | Some _ \<Rightarrow> []) @
            (if a = None then [MissingLhs] else []) @ (if b = None then [MissingRhs] else []) @
            (case b of None \<Rightarrow> [] | Some e \<Rightarrow> pb_validate_expr l (Suc d) e) @
            (case a of None \<Rightarrow> [] | Some e \<Rightarrow> pb_validate_expr l (Suc d) e))"
  by pat_completeness auto
termination by (relation "measure (\<lambda>(l, d, e). size e)") auto

declare pb_validate_expr.simps [simp del]

section \<open>Header types\<close>

definition labels_of :: "pb_field \<Rightarrow> u64 list" where
  "labels_of f =
     (case pb_field_display f of None \<Rightarrow> [] | Some d \<Rightarrow> map vl_value (pd_value_labels d))"

text \<open>\<open>if w == 64 { u64::MAX } else { (1u64 << w) - 1 }\<close>, for a width the shift is defined for.\<close>

definition widest :: "nat \<Rightarrow> u64" where
  "widest w = (if w = 64 then - 1 else push_bit w 1 - 1)"

primrec label_violations :: "string \<Rightarrow> pb_field \<Rightarrow> u64 list \<Rightarrow> u64 list \<Rightarrow> finding list" where
  "label_violations ht f seen [] = []"
| "label_violations ht f seen (v # vs) =
     (if v \<in> set seen then [DuplicateLabel ht (pb_field_name f) v] else []) @
     (case pb_field_width f of
        Some (PbBits w) \<Rightarrow> if widest w < v then [LabelTooWide ht (pb_field_name f) v w] else []
      | _ \<Rightarrow> []) @
     label_violations ht f (v # seen) vs"

primrec pb_field_violations ::
  "string \<Rightarrow> string list \<Rightarrow> ((string \<times> string) \<times> string) list \<Rightarrow> pb_field list \<Rightarrow> finding list"
where
  "pb_field_violations ht seen members [] = []"
| "pb_field_violations ht seen members (f # fs) =
     map Known (validate_symbol ''field'' (pb_field_name f)) @
     (if pb_field_name f \<in> set seen then [Known (Naming (DuplicateField ht (pb_field_name f)))] else []) @
     (case pb_field_width f of
        None \<Rightarrow> [NoWidth ht (pb_field_name f)]
      | Some (PbBits b) \<Rightarrow>
          if 1 \<le> b \<and> b \<le> 64 then [] else [Known (Shape (FieldWidthRange ht (pb_field_name f) b))]
      | Some (PbBitLen e) \<Rightarrow> []) @
     map (\<lambda>((backend, m), prev, _). Known (Collision (FieldCollision ht prev (pb_field_name f) backend m)))
       (collisions members (emitted_members (content_field f))) @
     label_violations ht f [] (labels_of f) @
     pb_field_violations ht (pb_field_name f # seen) (rev (emitted_members (content_field f)) @ members) fs"

primrec pb_header_violations :: "string list \<Rightarrow> pb_header_type list \<Rightarrow> finding list" where
  "pb_header_violations seen [] = []"
| "pb_header_violations seen (ht # hts) =
     map Known (validate_symbol ''header type'' (pb_ht_name ht)) @
     (if pb_ht_name ht \<in> set seen then [Known (Naming (DuplicateHeaderType (pb_ht_name ht)))] else []) @
     pb_field_violations (pb_ht_name ht) [] [] (pb_ht_fields ht) @
     pb_header_violations (pb_ht_name ht # seen) hts"

section \<open>References\<close>

definition pb_check_value :: "limits \<Rightarrow> parser \<Rightarrow> pb_expr \<Rightarrow> finding list" where
  "pb_check_value l p e =
     pb_validate_expr l 1 e @ map Known (concat (map (check_ref p) (pb_field_refs e))) @
     map Known (concat (map (check_meta_ref p) (pb_meta_refs e)))"

definition pb_check_length :: "limits \<Rightarrow> parser \<Rightarrow> violation \<Rightarrow> violation \<Rightarrow> pb_expr \<Rightarrow> finding list" where
  "pb_check_length l p uses_meta uses_remaining e =
     pb_validate_expr l 1 e @ map Known (concat (map (check_ref p) (pb_field_refs e))) @
     (if pb_meta_refs e \<noteq> [] then [Known uses_meta] else []) @
     (if pb_contains_remaining e then [Known uses_remaining] else [])"

definition pb_width_violations :: "limits \<Rightarrow> parser \<Rightarrow> pb_header_type list \<Rightarrow> finding list" where
  "pb_width_violations l p hts =
     concat (map (\<lambda>ht. concat (map (\<lambda>f.
       case pb_field_width f of
         Some (PbBitLen e) \<Rightarrow>
           pb_check_length l p (Impure (WidthUsesMetadata (pb_ht_name ht) (pb_field_name f)))
             (Impure (WidthUsesRemaining (pb_ht_name ht) (pb_field_name f))) e
       | _ \<Rightarrow> []) (pb_ht_fields ht))) hts)"

section \<open>States\<close>

primrec pb_region_op_violations ::
  "limits \<Rightarrow> parser \<Rightarrow> string \<Rightarrow> nat \<Rightarrow> pb_region_op list \<Rightarrow> finding list"
where
  "pb_region_op_violations l p st i [] = []"
| "pb_region_op_violations l p st i (op # ops) =
     (case op of
        PbPush e \<Rightarrow> pb_check_length l p (Impure (PushUsesMetadata st i)) (Impure (PushUsesRemaining st i)) e
      | PbPop \<Rightarrow> []
      | PbNoOp \<Rightarrow> [EmptyRegionOp st i]) @
     pb_region_op_violations l p st (Suc i) ops"

definition pb_assign_violations :: "limits \<Rightarrow> parser \<Rightarrow> string \<Rightarrow> pb_assign \<Rightarrow> finding list" where
  "pb_assign_violations l p st a =
     map Known (check_meta_ref p (pb_as_metadata a)) @
     (case pb_as_value a of None \<Rightarrow> [NoValue st (pb_as_metadata a)] | Some e \<Rightarrow> pb_check_value l p e)"

definition severity_violations :: "string \<Rightarrow> annotations \<Rightarrow> finding list" where
  "severity_violations st a =
     (case a ''severity'' of
        None \<Rightarrow> []
      | Some sev \<Rightarrow> if sev \<noteq> ''error'' \<and> sev \<noteq> ''info'' then [BadSeverity st sev] else [])"

definition pb_check_target ::
  "parser \<Rightarrow> string \<Rightarrow> pb_target \<Rightarrow> reason_idents \<Rightarrow> finding list \<times> reason_idents"
where
  "pb_check_target p st t ids =
     (case t of
        PbNoTarget \<Rightarrow> ([EmptyTarget st], ids)
      | PbState n \<Rightarrow>
          (if n \<in> set (map st_name (p_states p)) then [] else [Known (Dangling (UnknownTarget st n))], ids)
      | PbAccept \<Rightarrow> ([], ids)
      | PbReject r a \<Rightarrow>
          ((if r = [] then [Known (Naming (EmptyReason st))] else []) @
           severity_violations st a @
           (case map_of ids (c_reason_ident r) of
              None \<Rightarrow> []
            | Some prev \<Rightarrow>
                if prev \<noteq> r then [Known (Collision (ReasonCollision prev r (c_reason_ident r)))] else []),
           (c_reason_ident r, r) # ids))"

definition pb_header_map :: "pb_parser \<Rightarrow> string \<rightharpoonup> pb_header_type" where
  "pb_header_map m = map_of (rev (map (\<lambda>h. (pb_ht_name h, h)) (pb_header_types m)))"

definition pb_key_width :: "pb_parser \<Rightarrow> pb_expr \<Rightarrow> nat option" where
  "pb_key_width m e =
     (case e of
        PbField i f \<Rightarrow>
          (case instance_types (content m) i of
             None \<Rightarrow> None
           | Some t \<Rightarrow>
               (case pb_header_map m t of
                  None \<Rightarrow> None
                | Some ht \<Rightarrow>
                    (case find (\<lambda>g. pb_field_name g = f) (pb_ht_fields ht) of
                       None \<Rightarrow> None
                     | Some g \<Rightarrow> (case pb_field_width g of Some (PbBits b) \<Rightarrow> Some b | _ \<Rightarrow> None))))
      | PbMetadata n \<Rightarrow> meta_widths (content m) n
      | _ \<Rightarrow> None)"

definition pb_entry_violations ::
  "pb_parser \<Rightarrow> string \<Rightarrow> keyset_entry option \<times> pb_expr \<Rightarrow> finding list"
where
  "pb_entry_violations m st ek =
     (case fst ek of
        None \<Rightarrow> [EmptyEntry st]
      | Some (Range lo hi) \<Rightarrow> if hi < lo then [Known (Shape (InvalidRange st lo hi))] else []
      | Some _ \<Rightarrow> []) @
     (case pb_key_width m (snd ek) of
        None \<Rightarrow> []
      | Some w \<Rightarrow>
          (case fst ek of
             None \<Rightarrow> []
           | Some e \<Rightarrow>
               if list_ex (\<lambda>v. widest w < v) (entry_values e) then [Known (Shape (EntryTooWide st w))] else []))"

primrec pb_arm_violations ::
  "pb_parser \<Rightarrow> string \<Rightarrow> pb_expr list \<Rightarrow> pb_select_arm list \<Rightarrow> reason_idents \<Rightarrow> finding list \<times> reason_idents"
where
  "pb_arm_violations m st keys [] ids = ([], ids)"
| "pb_arm_violations m st keys (a # as) ids =
     chain
       (chain
         ((if length (pb_arm_entries a) \<noteq> length keys
           then [Known (Shape (ArmArity st (length (pb_arm_entries a)) (length keys)))] else []) @
          concat (map (pb_entry_violations m st) (zip (pb_arm_entries a) keys)), ids)
         (case pb_arm_next a of
            None \<Rightarrow> (\<lambda>ids. ([NoArmTarget st], ids))
          | Some t \<Rightarrow> pb_check_target (content m) st t))
       (pb_arm_violations m st keys as)"

definition pb_transition_violations ::
  "limits \<Rightarrow> pb_parser \<Rightarrow> string \<Rightarrow> pb_transition option \<Rightarrow> reason_idents \<Rightarrow> finding list \<times> reason_idents"
where
  "pb_transition_violations l m st tr ids =
     (case tr of
        None \<Rightarrow> ([NoTransition st], ids)
      | Some (PbDirect t) \<Rightarrow> pb_check_target (content m) st t ids
      | Some (PbSelect keys arms dflt) \<Rightarrow>
          chain
            (chain
              ((if keys = [] then [Known (Shape (NoKeys st))] else []) @
               concat (map (pb_check_value l (content m)) keys), ids)
              (pb_arm_violations m st keys arms))
            (case dflt of
               None \<Rightarrow> (\<lambda>ids. ([Known (Shape (NoDefault st))], ids))
             | Some t \<Rightarrow> pb_check_target (content m) st t))"

primrec pb_state_violations ::
  "limits \<Rightarrow> pb_parser \<Rightarrow> pb_state list \<Rightarrow> reason_idents \<Rightarrow> finding list \<times> reason_idents"
where
  "pb_state_violations l m [] ids = ([], ids)"
| "pb_state_violations l m (s # ss) ids =
     chain
       (chain
         (pb_region_op_violations l (content m) (pb_st_name s) 0 (pb_st_region_ops s) @
          concat (map (pb_assign_violations l (content m) (pb_st_name s)) (pb_st_assigns s)), ids)
         (pb_transition_violations l m (pb_st_name s) (pb_st_transition s)))
       (pb_state_violations l m ss)"

section \<open>The whole\<close>

definition message_violations :: "limits \<Rightarrow> pb_parser \<Rightarrow> finding list" where
  "message_violations l m =
     (let p = content m in
      map Known (validate_symbol ''parser'' (pb_name m) @ size_violations l p) @
      pb_header_violations [] (pb_header_types m) @
      map Known (metadata_violations [] (p_metadata p) @ state_name_violations [] (p_states p) @
        start_violations p @ instance_violations p [] (all_extracts p) @ struct_violations p) @
      pb_width_violations l p (pb_header_types m) @
      fst (pb_state_violations l m (pb_states m) builtin_reason_idents))"

text \<open>
  The two shifts: for a value label of a field and for a keyset entry of a key, when the declared width
  is above 64 bits.
\<close>

definition wide_labels :: "pb_parser \<Rightarrow> bool" where
  "wide_labels m =
     list_ex (\<lambda>ht. list_ex (\<lambda>f. case pb_field_width f of
         Some (PbBits w) \<Rightarrow> 64 < w \<and> labels_of f \<noteq> [] | _ \<Rightarrow> False) (pb_ht_fields ht)) (pb_header_types m)"

definition pb_wide_keys :: "pb_parser \<Rightarrow> bool" where
  "pb_wide_keys m =
     list_ex (\<lambda>s. case pb_st_transition s of
         Some (PbSelect keys arms _) \<Rightarrow>
           list_ex (\<lambda>a. list_ex (\<lambda>ek. fst ek \<noteq> None \<and>
               (case pb_key_width m (snd ek) of None \<Rightarrow> False | Some w \<Rightarrow> 64 < w))
             (zip (pb_arm_entries a) keys)) arms
       | _ \<Rightarrow> False) (pb_states m)"

definition validate_ir_with_limits :: "limits \<Rightarrow> pb_ir \<Rightarrow> finding list option" where
  "validate_ir_with_limits l ir =
     (if ir_version ir \<noteq> ''0.2.0'' then Some [StaleVersion (ir_version ir)]
      else
        case ir_parser ir of
          None \<Rightarrow> Some [NoParser]
        | Some m \<Rightarrow>
            (let errs = message_violations l m
             in if wide_labels m \<or> pb_wide_keys m then None
                else if errs \<noteq> [] then Some errs
                else let errs = definite_extraction_errors (content m)
                     in if errs \<noteq> [] then Some (map Known errs)
                        else map_option (map Known) (region_depth_errors (content m))))"

definition validate_ir :: "pb_ir \<Rightarrow> finding list option" where
  "validate_ir ir = validate_ir_with_limits default_limits ir"

section \<open>Presentation\<close>

definition labels_ok :: "pb_field \<Rightarrow> bool" where
  "labels_ok f =
     (distinct (labels_of f) \<and>
      (case pb_field_width f of Some (PbBits w) \<Rightarrow> list_all (\<lambda>v. v \<le> widest w) (labels_of f) | _ \<Rightarrow> True))"

definition severity_ok :: "pb_target \<Rightarrow> bool" where
  "severity_ok t =
     (case t of PbReject r a \<Rightarrow> a ''severity'' \<in> {None, Some ''error'', Some ''info''} | _ \<Rightarrow> True)"

definition arm_ok :: "pb_select_arm \<Rightarrow> bool" where
  "arm_ok a = pred_option severity_ok (pb_arm_next a)"

definition severities_ok :: "pb_transition option \<Rightarrow> bool" where
  "severities_ok tr =
     (case tr of
        None \<Rightarrow> True
      | Some (PbDirect t) \<Rightarrow> severity_ok t
      | Some (PbSelect keys arms d) \<Rightarrow> list_all arm_ok arms \<and> pred_option severity_ok d)"

definition presentable :: "pb_parser \<Rightarrow> bool" where
  "presentable m =
     (list_all (\<lambda>ht. list_all labels_ok (pb_ht_fields ht)) (pb_header_types m) \<and>
      list_all (\<lambda>s. severities_ok (pb_st_transition s)) (pb_states m))"

section \<open>Piece by piece\<close>

lemma label_violations_none:
  "label_violations ht f seen vs = [] \<longleftrightarrow>
   distinct vs \<and> set vs \<inter> set seen = {} \<and>
   (case pb_field_width f of Some (PbBits w) \<Rightarrow> list_all (\<lambda>v. v \<le> widest w) vs | _ \<Rightarrow> True)"
  by (induction vs arbitrary: seen) (auto simp: not_less split: option.splits pb_width.splits if_splits)

lemma labels_none: "label_violations ht f [] (labels_of f) = [] \<longleftrightarrow> labels_ok f"
  by (simp add: label_violations_none labels_ok_def)

lemma severity_none: "severity_violations st a = [] \<longleftrightarrow> a ''severity'' \<in> {None, Some ''error'', Some ''info''}"
  by (auto simp: severity_violations_def split: option.splits if_splits)

text \<open>An expression without findings has nothing missing.\<close>

lemma pb_validate_expr_complete: "pb_validate_expr l d e = [] \<Longrightarrow> complete_expr e"
proof (induction e arbitrary: d)
  case (PbBin op a b)
  then show ?case
    by (auto simp: pb_validate_expr.simps [of l d "PbBin op a b"] split: option.splits if_splits)
qed (auto simp: pb_validate_expr.simps split: if_splits)

lemma pb_validate_expr_content:
  "complete_expr e \<Longrightarrow> pb_validate_expr l d e = map Known (validate_expr l d (content_expr e))"
proof (induction e arbitrary: d)
  case (PbBin op a b)
  then obtain k x y where op: "operator op = Some k" "a = Some x" "b = Some y"
    by (cases a; cases b) auto
  with PbBin show ?case
    by (cases k) (simp_all add: pb_validate_expr.simps [of l d "PbBin op (Some x) (Some y)"])
qed (simp_all add: pb_validate_expr.simps)

lemma pb_check_value_complete: "pb_check_value l p e = [] \<Longrightarrow> complete_expr e"
  by (auto simp: pb_check_value_def intro: pb_validate_expr_complete)

lemma pb_check_value_content:
  "complete_expr e \<Longrightarrow> pb_check_value l p e = map Known (check_value l p (content_expr e))"
  by (simp add: pb_check_value_def check_value_def pb_validate_expr_content)

lemma pb_check_length_complete: "pb_check_length l p m r e = [] \<Longrightarrow> complete_expr e"
  by (auto simp: pb_check_length_def intro: pb_validate_expr_complete)

lemma pb_check_length_content:
  "complete_expr e \<Longrightarrow> pb_check_length l p m r e = map Known (check_length l p m r (content_expr e))"
  by (simp add: pb_check_length_def check_length_def pb_validate_expr_content)

text \<open>Fields and headers: first the labels and the unset widths, then the lengths that are expressions.\<close>

lemma pb_field_violations_complete:
  "pb_field_violations ht seen members fs = [] \<Longrightarrow> list_all (\<lambda>f. pb_field_width f \<noteq> None \<and> labels_ok f) fs"
  by (induction fs arbitrary: seen members) (auto simp: labels_none split: option.splits)

lemma pb_field_violations_content:
  "list_all (\<lambda>f. pb_field_width f \<noteq> None \<and> labels_ok f) fs \<Longrightarrow>
   pb_field_violations ht seen members fs = map Known (field_violations ht seen members (map content_field fs))"
proof (induction fs arbitrary: seen members)
  case (Cons f fs)
  then obtain w where "pb_field_width f = Some w" by auto
  with Cons show ?case
    by (cases w) (auto simp: labels_none content_field_def content_width_def)
qed simp

lemma pb_header_violations_complete:
  "pb_header_violations seen hts = [] \<Longrightarrow>
   list_all (\<lambda>ht. list_all (\<lambda>f. pb_field_width f \<noteq> None \<and> labels_ok f) (pb_ht_fields ht)) hts"
  by (induction hts arbitrary: seen) (auto dest: pb_field_violations_complete)

lemma pb_header_violations_content:
  "list_all (\<lambda>ht. list_all (\<lambda>f. pb_field_width f \<noteq> None \<and> labels_ok f) (pb_ht_fields ht)) hts \<Longrightarrow>
   pb_header_violations seen hts = map Known (header_violations seen (map content_header hts))"
  by (induction hts arbitrary: seen) (simp_all add: pb_field_violations_content content_header_def)

lemma pb_width_violations_complete:
  assumes "pb_width_violations l p hts = []"
    and "list_all (\<lambda>ht. list_all (\<lambda>f. pb_field_width f \<noteq> None \<and> labels_ok f) (pb_ht_fields ht)) hts"
  shows "list_all (\<lambda>ht. list_all complete_field (pb_ht_fields ht)) hts"
  using assms
  by (fastforce simp: pb_width_violations_def list_all_iff complete_field_def concat_none
      split: option.splits pb_width.splits intro: pb_check_length_complete)

lemma pb_width_content:
  assumes "complete_field f"
  shows "(case pb_field_width f of Some (PbBitLen e) \<Rightarrow> pb_check_length l p w r e | _ \<Rightarrow> []) =
    map Known (case content_width (pb_field_width f) of Bits n \<Rightarrow> [] | BitLen e \<Rightarrow> check_length l p w r e)"
  using assms
  by (auto simp: complete_field_def content_width_def pb_check_length_content split: option.splits pb_width.splits)

lemma pb_width_violations_content:
  assumes "list_all (\<lambda>ht. list_all complete_field (pb_ht_fields ht)) (pb_header_types m)"
  shows "pb_width_violations l (content m) (pb_header_types m) = map Known (width_violations l (content m))"
  using assms
  by (simp add: pb_width_violations_def width_violations_def list_all_iff map_concat comp_def pb_width_content
      cong: map_cong field_width.case_cong)

text \<open>States.\<close>

lemma pb_region_op_violations_complete:
  "pb_region_op_violations l p st i ops = [] \<Longrightarrow> list_all complete_region_op ops"
  by (induction ops arbitrary: i)
    (auto simp: complete_region_op_def intro: pb_check_length_complete split: pb_region_op.splits)

lemma pb_region_op_violations_content:
  "list_all complete_region_op ops \<Longrightarrow>
   pb_region_op_violations l p st i ops = map Known (region_op_violations l p st i (content_region_ops ops))"
  by (induction ops arbitrary: i)
    (auto simp: complete_region_op_def pb_check_length_content split: pb_region_op.splits)

lemma pb_assign_violations_complete:
  "pb_assign_violations l p st a = [] \<Longrightarrow> given (map_option complete_expr (pb_as_value a))"
  by (auto simp: pb_assign_violations_def intro: pb_check_value_complete split: option.splits)

lemma pb_assign_violations_content:
  "given (map_option complete_expr (pb_as_value a)) \<Longrightarrow>
   pb_assign_violations l p st a = map Known (assign_violations l p (content_assign a))"
  by (cases "pb_as_value a")
    (simp_all add: pb_assign_violations_def assign_violations_def content_assign_def pb_check_value_content)

lemma pb_check_target_complete:
  "fst (pb_check_target p st t ids) = [] \<Longrightarrow> complete_target (Some t) \<and> severity_ok t"
  by (auto simp: pb_check_target_def complete_target_def severity_ok_def severity_none split: pb_target.splits)

lemma pb_check_target_content:
  "complete_target (Some t) \<Longrightarrow> severity_ok t \<Longrightarrow>
   pb_check_target p st t ids = apfst (map Known) (check_target p st (content_target t) ids)"
  by (auto simp: pb_check_target_def check_target_def complete_target_def severity_ok_def content_target_def
      severity_violations_def split: pb_target.splits option.splits)

text \<open>Translating the findings of one writer after another.\<close>

lemma chain_apfst:
  assumes "r' = apfst (map h) r" and "\<And>s. g s = apfst (map h) (f s)"
  shows "chain r' g = apfst (map h) (chain r f)"
  using assms by (simp add: chain_def Let_def apfst_def map_prod_def split: prod.splits)

lemma map_of_image: "map_of (map (\<lambda>x. (k x, g x)) xs) t = map_option g (map_of (map (\<lambda>x. (k x, x)) xs) t)"
  by (induction xs) simp_all

lemma pb_header_map_content:
  "header_type_map (content m) t = map_option content_header (pb_header_map m t)"
  by (simp add: header_type_map_def pb_header_map_def rev_map comp_def
      map_of_image [of pb_ht_name content_header])

lemma pb_key_width_content:
  assumes "complete m" and "complete_expr e"
  shows "pb_key_width m e = key_width (content m) (content_expr e)"
proof (cases e)
  case (PbField i f)
  have field: "complete_field g"
    if ht: "pb_header_map m t = Some ht" and g: "find P (pb_ht_fields ht) = Some g" for t ht g P
  proof -
    from ht have "ht \<in> set (pb_header_types m)" by (auto simp: pb_header_map_def dest!: map_of_SomeD)
    moreover from g have "g \<in> set (pb_ht_fields ht)" by (auto simp: find_Some_iff)
    ultimately show ?thesis using assms(1) by (simp add: complete_def list_all_iff)
  qed
  have find_content: "find P (map content_field gs) = map_option content_field (find (P \<circ> content_field) gs)"
    for P gs by (induction gs) simp_all
  show ?thesis
    using PbField field
    by (fastforce simp: pb_key_width_def key_width_def pb_header_map_content find_content comp_def
        complete_field_def content_width_def split: option.splits pb_width.splits)
qed (use assms(2) in \<open>simp_all add: pb_key_width_def key_width_def\<close>)

lemma pb_entry_violations_content:
  assumes "complete m" and "complete_expr k"
  shows "pb_entry_violations m st (Some e, k) = map Known (entry_violations (content m) st (e, content_expr k))"
  by (auto simp: pb_entry_violations_def entry_violations_def widest_def pb_key_width_content [OF assms]
      split: keyset_entry.splits option.splits)

lemma pb_arm_violations_complete:
  "fst (pb_arm_violations m st keys arms ids) = [] \<Longrightarrow> list_all (\<lambda>a. complete_arm a \<and> arm_ok a) arms"
proof (induction arms arbitrary: ids)
  case (Cons a arms)
  have "None \<notin> set (pb_arm_entries a)"
  proof
    assume none: "None \<in> set (pb_arm_entries a)"
    have "length (pb_arm_entries a) = length keys" using Cons.prems by (simp add: chain_none if_error_none)
    then obtain k where "(None, k) \<in> set (zip (pb_arm_entries a) keys)"
      using none by (metis in_set_impl_in_set_zip1)
    then have "pb_entry_violations m st (None, k) = []" using Cons.prems by (auto simp: chain_none)
    then show False by (simp add: pb_entry_violations_def)
  qed
  then show ?case
    using Cons by (auto simp: chain_none complete_arm_def arm_ok_def dest: pb_check_target_complete
        split: option.splits)
qed simp

lemma zip_entries_content:
  assumes "complete m" and "list_all complete_expr keys" and "None \<notin> set es"
  shows "concat (map (pb_entry_violations m st) (zip es keys)) =
    map Known (concat (map (entry_violations (content m) st)
      (zip (map (present (Value 0)) es) (map content_expr keys))))"
  using assms(2,3)
proof (induction es arbitrary: keys)
  case (Cons e es)
  then obtain x where "e = Some x" by (cases e) auto
  with Cons show ?case
    by (cases keys) (auto simp: pb_entry_violations_content [OF assms(1)])
qed simp

lemma pb_arm_violations_content:
  assumes "complete m" and "list_all complete_expr keys"
  shows "list_all (\<lambda>a. complete_arm a \<and> arm_ok a) arms \<Longrightarrow>
    pb_arm_violations m st keys arms ids =
    apfst (map Known) (arm_violations (content m) st (map content_expr keys) (map content_arm arms) ids)"
proof (induction arms arbitrary: ids)
  case (Cons a arms)
  then obtain t where t: "pb_arm_next a = Some t" "complete_target (Some t)" "severity_ok t"
    and es: "None \<notin> set (pb_arm_entries a)"
    by (auto simp: complete_arm_def arm_ok_def complete_target_def)
  have "arm_next (content_arm a) = content_target t" using t by (simp add: content_arm_def)
  with t es Cons show ?case
    by (auto intro!: chain_apfst simp: zip_entries_content [OF assms] pb_check_target_content)
qed simp

lemma pb_transition_violations_complete:
  "fst (pb_transition_violations l m st tr ids) = [] \<Longrightarrow> complete_transition tr \<and> severities_ok tr"
  by (auto simp: pb_transition_violations_def complete_transition_def severities_ok_def chain_none list_all_iff
      complete_target_def
      dest: pb_check_target_complete pb_arm_violations_complete intro: pb_check_value_complete
      split: option.splits pb_transition.splits)

lemma pb_transition_violations_content:
  assumes "complete m" and "complete_transition tr" and "severities_ok tr"
  shows "pb_transition_violations l m st tr ids =
    apfst (map Known) (transition_violations l (content m) st (content_transition tr) ids)"
proof (cases tr)
  case None
  then show ?thesis using assms(2) by (simp add: complete_transition_def)
next
  case (Some x)
  show ?thesis
  proof (cases x)
    case (PbDirect t)
    with Some assms(2,3) show ?thesis
      by (simp add: pb_transition_violations_def transition_violations_def content_transition_def
          complete_transition_def severities_ok_def pb_check_target_content)
  next
    case (PbSelect keys arms d)
    have keys: "list_all complete_expr keys" and arms: "list_all (\<lambda>a. complete_arm a \<and> arm_ok a) arms"
      and d: "d = Some t \<Longrightarrow> complete_target (Some t) \<and> severity_ok t" for t
      using assms(2,3) Some PbSelect
      by (auto simp: complete_transition_def severities_ok_def complete_target_def list_all_iff)
    have key_findings: "concat (map (pb_check_value l p) keys) =
        map Known (concat (map (check_value l p) (map content_expr keys)))" for p
      using keys by (induction keys) (simp_all add: pb_check_value_content)
    show ?thesis
      unfolding Some PbSelect pb_transition_violations_def transition_violations_def content_transition_def
      unfolding option.case pb_transition.case transition.case
      by (intro chain_apfst pb_arm_violations_content [OF assms(1) keys arms])
        (use d in \<open>auto simp: key_findings pb_check_target_content split: option.splits\<close>)
  qed
qed

lemma pb_state_violations_complete:
  "fst (pb_state_violations l m ss ids) = [] \<Longrightarrow>
   list_all (\<lambda>s. complete_state s \<and> severities_ok (pb_st_transition s)) ss"
  by (induction ss arbitrary: ids)
    (auto simp: chain_none complete_state_def list_all_iff
      dest: pb_transition_violations_complete pb_region_op_violations_complete
      intro: pb_assign_violations_complete)

lemma pb_state_violations_content:
  assumes "complete m"
  shows "list_all (\<lambda>s. complete_state s \<and> severities_ok (pb_st_transition s)) ss \<Longrightarrow>
    pb_state_violations l m ss ids = apfst (map Known) (state_violations l (content m) (map content_state ss) ids)"
proof (induction ss arbitrary: ids)
  case (Cons s ss)
  have assigns: "concat (map (pb_assign_violations l p st) as) =
      map Known (concat (map (assign_violations l p) (map content_assign as)))"
    if "list_all (\<lambda>a. given (map_option complete_expr (pb_as_value a))) as" for p st "as"
    using that by (induction "as") (simp_all add: pb_assign_violations_content)
  from Cons show ?case
    by (auto intro!: chain_apfst pb_transition_violations_content [OF assms]
        simp: assigns pb_region_op_violations_content complete_state_def)
qed simp

section \<open>What acceptance of a message means\<close>

lemma message_violations_complete:
  assumes "message_violations l m = []"
  shows "complete m \<and> presentable m \<and> is_portable_ident (pb_name m)"
proof -
  have hts: "pb_header_violations [] (pb_header_types m) = []"
    and widths: "pb_width_violations l (content m) (pb_header_types m) = []"
    and ss: "fst (pb_state_violations l m (pb_states m) builtin_reason_idents) = []"
    and name: "validate_symbol ''parser'' (pb_name m) = []"
    using assms by (simp_all add: message_violations_def Let_def)
  note fields = pb_header_violations_complete [OF hts]
  show ?thesis
    using fields pb_width_violations_complete [OF widths fields] pb_state_violations_complete [OF ss] name
    by (simp add: complete_def presentable_def list_all_iff symbol_none)
qed

lemma complete_field_width: "complete_field f \<Longrightarrow> pb_field_width f \<noteq> None"
  by (auto simp: complete_field_def split: option.splits)

lemma message_violations_content:
  assumes "complete m" and "presentable m"
  shows "message_violations l m =
    map Known (validate_symbol ''parser'' (pb_name m) @ static_violations l (content m))"
proof -
  have fields: "list_all (\<lambda>ht. list_all (\<lambda>f. pb_field_width f \<noteq> None \<and> labels_ok f) (pb_ht_fields ht))
      (pb_header_types m)" "list_all (\<lambda>ht. list_all complete_field (pb_ht_fields ht)) (pb_header_types m)"
    using assms complete_field_width by (auto simp: complete_def presentable_def list_all_iff)
  have "list_all (\<lambda>s. complete_state s \<and> severities_ok (pb_st_transition s)) (pb_states m)"
    using assms by (simp add: complete_def presentable_def list_all_iff)
  note states = pb_state_violations_content [OF assms(1) this]
  show ?thesis
    using pb_header_violations_content [OF fields(1)] pb_width_violations_content [OF fields(2)] states
    by (simp add: message_violations_def static_violations_def Let_def)
qed

lemma pb_wide_keys_content:
  assumes "complete m"
  shows "pb_wide_keys m = wide_keys (content m)"
proof -
  have arm: "list_ex (\<lambda>ek. fst ek \<noteq> None \<and>
        (case pb_key_width m (snd ek) of None \<Rightarrow> False | Some w \<Rightarrow> 64 < w)) (zip es keys) =
      list_ex (\<lambda>ek. case key_width (content m) (snd ek) of None \<Rightarrow> False | Some w \<Rightarrow> 64 < w)
        (zip (map (present (Value 0)) es) (map content_expr keys))"
    if "None \<notin> set es" "list_all complete_expr keys" for es keys
    using that
  proof (induction es arbitrary: keys)
    case (Cons e es)
    then show ?case
      by (cases e; cases keys) (auto simp: pb_key_width_content [OF assms])
  qed simp
  have arms: "list_ex (\<lambda>a. list_ex (\<lambda>ek. fst ek \<noteq> None \<and>
        (case pb_key_width m (snd ek) of None \<Rightarrow> False | Some w \<Rightarrow> 64 < w)) (zip (pb_arm_entries a) keys)) arms =
      list_ex (\<lambda>a. list_ex (\<lambda>ek. case key_width (content m) (snd ek) of None \<Rightarrow> False | Some w \<Rightarrow> 64 < w)
        (zip (arm_entries a) (map content_expr keys))) (map content_arm arms)"
    if "list_all complete_arm arms" "list_all complete_expr keys" for arms keys
    using that
  proof (induction arms)
    case (Cons a arms)
    then have "None \<notin> set (pb_arm_entries a)" by (simp add: complete_arm_def)
    from arm [OF this Cons.prems(2)] Cons show ?case by simp
  qed simp
  have transition: "complete_transition (pb_st_transition s)" if "s \<in> set (pb_states m)" for s
    using assms that by (simp add: complete_def list_all_iff complete_state_def)
  have "(case pb_st_transition s of
         Some (PbSelect keys arms _) \<Rightarrow>
           list_ex (\<lambda>a. list_ex (\<lambda>ek. fst ek \<noteq> None \<and>
               (case pb_key_width m (snd ek) of None \<Rightarrow> False | Some w \<Rightarrow> 64 < w))
             (zip (pb_arm_entries a) keys)) arms
       | _ \<Rightarrow> False) =
      (case st_transition (content_state s) of
         Direct _ \<Rightarrow> False
       | Select keys arms _ \<Rightarrow>
           list_ex (\<lambda>a. list_ex (\<lambda>ek. case key_width (content m) (snd ek) of None \<Rightarrow> False | Some w \<Rightarrow> 64 < w)
             (zip (arm_entries a) keys)) arms)" if "s \<in> set (pb_states m)" for s
  proof (cases "pb_st_transition s")
    case None
    then show ?thesis by (simp add: content_transition_def)
  next
    case (Some x)
    then show ?thesis using transition [OF that] arms
      by (cases x) (simp_all add: complete_transition_def content_transition_def)
  qed
  then show ?thesis
    by (simp add: pb_wide_keys_def wide_keys_def list_ex_iff)
qed

text \<open>A field of an acceptable width has no label that shifts too far.\<close>

lemma static_no_wide_labels:
  assumes "complete m" and "static_violations l (content m) = []"
  shows "\<not> wide_labels m"
proof -
  have "header_violations [] (p_header_types (content m)) = []" using assms(2) by (simp add: static_violations_def)
  then have "list_all header_declared (p_header_types (content m))" using header_violations_none by blast
  then have "w \<le> 64"
    if "ht \<in> set (pb_header_types m)" "f \<in> set (pb_ht_fields ht)" "pb_field_width f = Some (PbBits w)" for ht f w
    using that by (force simp: list_all_iff header_declared_def field_declared_def content_width_def)
  then show ?thesis
    by (auto simp: wide_labels_def list_ex_iff not_less dest!: spec split: option.splits pb_width.splits)
qed

text \<open>
  On a message with nothing missing, unambiguous value labels and known severities the validator
  is the validator of descriptions, run on the message's content.
\<close>

theorem validate_ir_content:
  assumes "complete m" and "presentable m" and "is_portable_ident (pb_name m)" and "\<not> wide_labels m"
  shows "validate_ir_with_limits l \<lparr>ir_version = ''0.2.0'', ir_parser = Some m\<rparr> =
    map_option (map Known) (validate_with_limits l (content m))"
  using assms
  by (simp add: validate_ir_with_limits_def validate_with_limits_def Let_def message_violations_content
      pb_wide_keys_content symbol_none)

lemma presentable_message: "presentable (message name p) \<and> \<not> wide_labels (message name p)"
proof -
  have target: "severity_ok (message_target t)" for t
    by (simp add: severity_ok_def message_target_def split: target.split)
  have "severities_ok (Some (message_transition tr))" for tr
    by (cases tr) (auto simp: severities_ok_def message_transition_def arm_ok_def target list_all_iff
        pred_option_def)
  then show ?thesis
    by (auto simp: presentable_def message_def message_state_def message_header_def labels_ok_def labels_of_def
        wide_labels_def list_all_iff list_ex_iff split: option.splits pb_width.splits)
qed

lemma validate_ir_iff:
  "validate_ir_with_limits l ir = Some [] \<longleftrightarrow>
   ir_version ir = ''0.2.0'' \<and>
   (\<exists>m. ir_parser ir = Some m \<and> complete m \<and> presentable m \<and> is_portable_ident (pb_name m) \<and>
     validate_with_limits l (content m) = Some [])"
proof -
  have "validate_ir_with_limits l \<lparr>ir_version = ''0.2.0'', ir_parser = Some m\<rparr> = Some [] \<longleftrightarrow>
      complete m \<and> presentable m \<and> is_portable_ident (pb_name m) \<and> validate_with_limits l (content m) = Some []"
    for m
  proof
    assume acc: "validate_ir_with_limits l \<lparr>ir_version = ''0.2.0'', ir_parser = Some m\<rparr> = Some []"
    then have "message_violations l m = []" and labels: "\<not> wide_labels m"
      by (auto simp: validate_ir_with_limits_def Let_def split: if_splits)
    then have "complete m" "presentable m" "is_portable_ident (pb_name m)"
      using message_violations_complete by auto
    then show "complete m \<and> presentable m \<and> is_portable_ident (pb_name m) \<and> validate_with_limits l (content m) = Some []"
      using validate_ir_content [OF _ _ _ labels, of l] acc by (auto simp: map_option_case split: option.splits)
  next
    assume m: "complete m \<and> presentable m \<and> is_portable_ident (pb_name m) \<and> validate_with_limits l (content m) = Some []"
    then have "static_violations l (content m) = []"
      by (auto simp: validate_with_limits_def Let_def split: if_splits)
    then show "validate_ir_with_limits l \<lparr>ir_version = ''0.2.0'', ir_parser = Some m\<rparr> = Some []"
      using m static_no_wide_labels [of m l] validate_ir_content [of m l] by simp
  qed
  then show ?thesis
    by (auto simp: validate_ir_with_limits_def split: option.splits)
qed

lemma validate_ir_content_valid:
  "validate_ir_with_limits l ir = Some [] \<Longrightarrow> ir_parser ir = Some m \<Longrightarrow> validate_with_limits l (content m) = Some []"
  by (auto simp: validate_ir_iff)

text \<open>
  C19: A message is accepted exactly when its version is the supported one, nothing in it is missing, its
  name is portable, its value labels are distinct and fit their fields, the severities are known, and
  the description it contains is accepted.
\<close>

theorem validate_ir_accepts:
  "validate_ir_with_limits l ir = Some [] \<longleftrightarrow>
   ir_version ir = ''0.2.0'' \<and>
   (\<exists>m. ir_parser ir = Some m \<and> complete m \<and> presentable m \<and> is_portable_ident (pb_name m) \<and>
     validate_with_limits l (content m) = Some [])"
  by (rule validate_ir_iff)


end
