(* ===== verification/Validator_Gaps.thy ===== *)
theory Validator_Gaps
  imports Codegen_Validated Ir_Message_Validate
begin

text \<open>
  Small descriptions the validator accepts and the rest of the system does not handle: three that make
  the interpreter raise although rule W7 forbids them, and one whose emitted C reads the wrong bits; and
  two the validator should refuse, on which it panics. Each is evaluated: validator, interpreter and
  emitted code, as the definitions stand.
\<close>

definition gap_parser :: "header_type list \<Rightarrow> state list \<Rightarrow> parser" where
  "gap_parser hts ss =
     \<lparr>p_header_types = hts, p_states = ss, p_start_state = ''s'', p_max_depth = 4, p_metadata = []\<rparr>"

definition gap_extract :: "string \<Rightarrow> extract_op" where
  "gap_extract h = \<lparr>ex_header_type = h, ex_instance = [], ex_lookahead = False\<rparr>"

definition gap_byte :: "string \<Rightarrow> field" where
  "gap_byte n = \<lparr>field_name = n, field_width = Bits 8\<rparr>"

section \<open>Rule W7: references the validator does not check\<close>

text \<open>A region is pushed with a length that is extracted only in the next state.\<close>

definition early_push :: parser where
  "early_push =
     gap_parser [\<lparr>ht_name = ''h'', ht_fields = [gap_byte ''n'']\<rparr>]
       [\<lparr>st_name = ''s'', st_extracts = [], st_assigns = [],
         st_region_ops = [Push (Field ''h'' ''n'')], st_transition = Direct (ToState ''t'')\<rparr>,
        \<lparr>st_name = ''t'', st_extracts = [gap_extract ''h''], st_assigns = [],
         st_region_ops = [Pop], st_transition = Direct Accept\<rparr>]"

text \<open>A variable field whose length is a later field of its own header.\<close>

definition forward_width :: parser where
  "forward_width =
     gap_parser
       [\<lparr>ht_name = ''h'', ht_fields =
          [\<lparr>field_name = ''body'', field_width = BitLen (Field ''h'' ''n'')\<rparr>, gap_byte ''n'']\<rparr>]
       [\<lparr>st_name = ''s'', st_extracts = [gap_extract ''h''], st_assigns = [],
         st_region_ops = [], st_transition = Direct Accept\<rparr>]"

text \<open>A select on a variable-length field, which binds no value.\<close>

definition variable_key :: parser where
  "variable_key =
     gap_parser
       [\<lparr>ht_name = ''h'', ht_fields =
          [gap_byte ''n'', \<lparr>field_name = ''body'', field_width = BitLen (Field ''h'' ''n'')\<rparr>]\<rparr>]
       [\<lparr>st_name = ''s'', st_extracts = [gap_extract ''h''], st_assigns = [],
         st_region_ops = [],
         st_transition = Select [Field ''h'' ''body''] [] (Some Accept)\<rparr>]"


section \<open>Byte loads and repeated extraction\<close>

text \<open>
  One state extracts a 12-bit header twice. \<open>field_alignment\<close> finds the first of the two, at residue 0,
  so the second is read with a byte load although the cursor is at bit 12.
\<close>

definition twice :: parser where
  "twice =
     gap_parser
       [\<lparr>ht_name = ''h'', ht_fields = [gap_byte ''x'', \<lparr>field_name = ''y'', field_width = Bits 4\<rparr>]\<rparr>]
       [\<lparr>st_name = ''s'', st_extracts = [gap_extract ''h'', gap_extract ''h''], st_assigns = [],
         st_region_ops = [], st_transition = Direct Accept\<rparr>]"

text \<open>A result struct with one 64-bit member for every slot.\<close>

type_synonym wide_result = "(slot \<Rightarrow> u64) pk_result_scheme"

definition wide_get :: "slot \<Rightarrow> wide_result \<Rightarrow> u64" where
  "wide_get x r = pk_result.more r x"

definition wide_put :: "slot \<Rightarrow> u64 \<Rightarrow> wide_result \<Rightarrow> wide_result" where
  "wide_put x v r = pk_result.more_update (\<lambda>m. m(x := v)) r"

definition wide_zero :: wide_result where
  "wide_zero = \<lparr>outcome = 0, reason = 0, consumed_bits = 0, \<dots> = (\<lambda>_. 0)\<rparr>"

definition last_value :: "interp_error + parse_result \<Rightarrow> string \<Rightarrow> field_value option" where
  "last_value r f =
     (case r of
        Inl _ \<Rightarrow> None
      | Inr res \<Rightarrow>
          (case rev (pr_headers res) of
             [] \<Rightarrow> None
           | h # _ \<Rightarrow> map_option pf_value (find (\<lambda>pf. pf_name pf = f) (ph_fields h))))"


section \<open>A panic in the validator\<close>

definition wide_key :: parser where
  "wide_key =
     gap_parser [\<lparr>ht_name = ''h'', ht_fields = [\<lparr>field_name = ''n'', field_width = Bits 65\<rparr>]\<rparr>]
       [\<lparr>st_name = ''s'', st_extracts = [gap_extract ''h''], st_assigns = [], st_region_ops = [],
         st_transition =
           Select [Field ''h'' ''n''] [\<lparr>arm_entries = [Value 0], arm_next = Accept\<rparr>] (Some Accept)\<rparr>]"

text \<open>The same field without a select, with a value label.\<close>

definition wide_label :: pb_parser where
  "wide_label =
     \<lparr>pb_name = ''p'',
      pb_header_types =
        [\<lparr>pb_ht_name = ''h'', pb_ht_fields =
           [\<lparr>pb_field_name = ''n'', pb_field_width = Some (PbBits 65),
             pb_field_display = Some \<lparr>pd_name = [], pd_format = 0,
               pd_value_labels = [\<lparr>vl_value = 0, vl_label = ''none''\<rparr>], pd_doc = []\<rparr>\<rparr>]\<rparr>],
      pb_states =
        [\<lparr>pb_st_name = ''s'', pb_st_extracts = [gap_extract ''h''],
          pb_st_transition = Some (PbDirect PbAccept), pb_st_assigns = [], pb_st_region_ops = []\<rparr>],
      pb_start_state = ''s'', pb_max_depth = 4, pb_metadata = []\<rparr>"

text \<open>
  A field declared 65 bits wide makes the validator panic, in a build with overflow checks, when a
  select matches on it or when it has a value label, before it returns the range violation it has
  already found: the largest value is computed as 1 shifted left by the width.
\<close>

theorem wide_shifts_panic:
  "list_all (\<lambda>m.
      validate_ir \<lparr>ir_version = ''0.2.0'', ir_parser = Some m\<rparr> = None \<and>
      Known (Shape (FieldWidthRange ''h'' ''n'' 65)) \<in> set (message_violations default_limits m))
     [message ''p'' wide_key, wide_label]"
  by code_simp

end
