(* ===== verification/Ir_Properties.thy ===== *)
theory Ir_Properties
  imports Ir_Sound Ir_Invariants
begin

text \<open>
  What the interpreter and the analyses promise on their own: the bit readers against the big-endian
  reading of a packet, totality on validated descriptions, the bounds of every result, and what the
  alignment and region-depth analyses establish.
\<close>

section \<open>The bit readers\<close>

text \<open>
  C29: \<open>read_bits\<close> returns nothing exactly when the read would pass the available bits, and otherwise the
  big-endian value of docs/reference/ir-semantics.md, section 1: bit k of the result is the bit of the
  packet k places before the last one read. It never indexes outside the packet.
\<close>

theorem read_bits_spec:
  assumes "avail \<le> 8 * length packet" and "avail < 2 ^ 64"
  shows "if pos + n \<le> avail
    then \<exists>v. read_bits packet avail pos n = Inr (Some v) \<and>
      (\<forall>k. bit v k \<longleftrightarrow> k < n \<and> k < 64 \<and> bit_at packet (pos + (n - 1 - k)))
    else read_bits packet avail pos n = Inr None"
  using read_bits_ok [OF assms, of pos n] by (simp add: bit_bits_at)

theorem read_bits_spec_witness:
  "\<exists>v. read_bits [0xAB, 0xCD] 16 4 8 = Inr (Some v) \<and>
    (\<forall>k. bit v k \<longleftrightarrow> k < 8 \<and> k < 64 \<and> bit_at [0xAB, 0xCD] (4 + (8 - 1 - k)))"
  using read_bits_spec [of 16 "[0xAB, 0xCD]" 4 8] by simp

lemma bit_one_shifted: "bit (push_bit a (drop_bit b (w :: u8) AND 1)) k \<longleftrightarrow> k = a \<and> a < 8 \<and> bit w b"
  by (auto simp: bit_simps)

lemma read_run_loop_bits:
  assumes "pos + n \<le> 8 * length packet" and "n \<le> 8 * length buf"
    and "\<forall>j < 8 * length buf. \<not> bit_at buf j"
  shows "\<exists>r. read_run_loop packet pos n buf = Inr r \<and> length r = length buf \<and>
    (\<forall>j < 8 * length buf. bit_at r j \<longleftrightarrow> j < n \<and> bit_at packet (pos + j))"
  using assms(1,2)
proof (induction n)
  case 0
  then show ?case using assms(3) by simp
next
  case (Suc i)
  then obtain r where r: "read_run_loop packet pos i buf = Inr r" "length r = length buf"
    "\<forall>j < 8 * length buf. bit_at r j \<longleftrightarrow> j < i \<and> bit_at packet (pos + j)" by auto
  have idx: "(pos + i) div 8 < length packet" "i div 8 < length r" using Suc.prems r(2) by auto
  let ?w = "push_bit (7 - i mod 8) (drop_bit (7 - (pos + i) mod 8) (packet ! ((pos + i) div 8)) AND 1)"
  obtain w where w: "w = ?w" by simp
  have bit_w: "bit w k \<longleftrightarrow> k = 7 - i mod 8 \<and> bit_at packet (pos + i)" for k
    unfolding w bit_one_shifted by (auto simp: bit_at_def)
  let ?r = "r[i div 8 := r ! (i div 8) OR w]"
  have "bit_at ?r j \<longleftrightarrow> j < Suc i \<and> bit_at packet (pos + j)" if j: "j < 8 * length buf" for j
  proof (cases "j div 8 = i div 8")
    case True
    have "bit_at ?r j \<longleftrightarrow> bit_at r j \<or> (7 - j mod 8 = 7 - i mod 8 \<and> bit_at packet (pos + i))"
      using True idx(2) bit_w by (simp add: bit_at_def [of ?r] bit_at_def [of r] bit_or_iff)
    moreover have "7 - j mod 8 = 7 - i mod 8 \<longleftrightarrow> j = i"
    proof
      assume "7 - j mod 8 = 7 - i mod 8"
      then have "j mod 8 = i mod 8" using mod_less_divisor [of 8 j] mod_less_divisor [of 8 i] by linarith
      then show "j = i" using True by (metis div_mult_mod_eq)
    qed simp
    ultimately show ?thesis using r(3) j by (auto simp: less_Suc_eq)
  next
    case False
    then have "bit_at ?r j = bit_at r j" by (simp add: bit_at_def)
    moreover have "j \<noteq> i" using False by auto
    ultimately show ?thesis using r(3) j by (auto simp: less_Suc_eq)
  qed
  then show ?case
    using r idx w by (simp add: byte_index_def)
qed

lemma read_run_bits:
  assumes "pos + n \<le> 8 * length packet"
  shows "\<exists>r. read_run packet pos n = Inr r \<and> length r = (n + 7) div 8 \<and>
    (\<forall>j < 8 * length r. bit_at r j \<longleftrightarrow> j < n \<and> bit_at packet (pos + j))"
proof -
  have "n \<le> 8 * ((n + 7) div 8)" by linarith
  then show ?thesis
    using read_run_loop_bits [OF assms, of "replicate ((n + 7) div 8) 0"]
    by (auto simp: read_run_def bit_at_def)
qed

text \<open>
  C30: Round trip of a bit run: the bytes \<open>read_run\<close> copies out of a packet for a variable-length field
  (left-aligned, padded with zero bits) read back, at any place inside the run, as the packet does at
  the corresponding place.
\<close>

theorem read_run_round_trip:
  assumes "pos + n \<le> 8 * length packet" and "k + m \<le> n" and "8 * length packet < 2 ^ 64"
  shows "\<exists>r. read_run packet pos n = Inr r \<and> length r = (n + 7) div 8 \<and>
    read_bits r n k m = read_bits packet (pos + n) (pos + k) m"
proof -
  obtain r where r: "read_run packet pos n = Inr r" "length r = (n + 7) div 8"
    "\<forall>j < 8 * length r. bit_at r j \<longleftrightarrow> j < n \<and> bit_at packet (pos + j)"
    using read_run_bits [OF assms(1)] by blast
  have len: "n \<le> 8 * length r" using r(2) by linarith
  have "bit_at r (k + i) = bit_at packet (pos + k + i)" if "i < m" for i
  proof -
    have "k + i < n" using that assms(2) by linarith
    then show ?thesis using r(3) len by (simp add: add.assoc)
  qed
  then have "bits_at r k i = bits_at packet (pos + k) i" if "i \<le> m" for i
    using that by (induction i) simp_all
  then have "bits_at r k m = bits_at packet (pos + k) m" by simp
  then have "read_bits r n k m = read_bits packet (pos + n) (pos + k) m"
    using read_bits_ok [of n r k m] read_bits_ok [of "pos + n" packet "pos + k" m] assms len by simp
  with r show ?thesis by blast
qed

theorem read_run_round_trip_witness:
  "\<exists>r. read_run [0xAB, 0xCD, 0xEF] 4 12 = Inr r \<and> length r = (12 + 7) div 8 \<and>
    read_bits r 12 3 6 = read_bits [0xAB, 0xCD, 0xEF] (4 + 12) (4 + 3) 6"
  using read_run_round_trip [of 4 12 "[0xAB, 0xCD, 0xEF]" 3 6] by simp

section \<open>Totality and bounds of a run\<close>

text \<open>
  C10: On a description the validator accepts (and that satisfies the part of rule W7 it does not check)
  the interpreter returns a result for every packet: no name is unresolved, \<open>remaining()\<close> is measured
  only inside a region, no pop meets an empty stack, no read indexes past the packet, and the loop ends.
\<close>

theorem validated_interp_total:
  assumes "validate_with_limits l p = Some []" and "w7_complete p"
    and "avail \<le> 8 * length packet" and "avail < 2 ^ 64"
  shows "\<exists>res. run_bits p packet avail = Inr res"
proof (rule validate_accepted [OF assms(1)])
  fix depth
  assume "accepted l p" "definite_extraction_errors p = []" "depth_inv p depth []"
  then have "wf_within p (reached p depth) (entry_known p) (depth_of depth)"
    using validated_wf assms(2) by blast
  then show ?thesis using run_bits_total_within assms(3,4) by blast
qed

definition one_byte :: parser where
  "one_byte =
     \<lparr>p_header_types = [\<lparr>ht_name = ''h'', ht_fields = [\<lparr>field_name = ''n'', field_width = Bits 8\<rparr>]\<rparr>],
      p_states =
        [\<lparr>st_name = ''s'',
          st_extracts = [\<lparr>ex_header_type = ''h'', ex_instance = [], ex_lookahead = False\<rparr>],
          st_assigns = [\<lparr>as_metadata = ''m'', as_value = Bin OpAdd (Field ''h'' ''n'') (Constant 3)\<rparr>],
          st_region_ops = [Push (Bin OpMul (Field ''h'' ''n'') (Constant 8)), Pop],
          st_transition = Direct Accept\<rparr>],
      p_start_state = ''s'', p_max_depth = 1,
      p_metadata = [\<lparr>md_name = ''m'', md_bits = 2, md_init = 1\<rparr>]\<rparr>"

lemma one_byte_valid: "validate_with_limits default_limits one_byte = Some [] \<and> w7_complete one_byte"
  by code_simp

theorem validated_interp_total_witness: "\<exists>res. run_bits one_byte [0, 9] 16 = Inr res"
  using validated_interp_total [of default_limits one_byte 16 "[0, 9]"] one_byte_valid by simp

text \<open>
  C26: Bounds of every result: the consumed bits never exceed the available bits, the trace has at most
  one entry more than the depth budget, and every declared metadata field is reported with a value of
  its declared width, whatever the assigns computed.
\<close>

theorem interp_result_bounds:
  assumes "run_bits p packet avail = Inr res" and "meta_decl_ok p"
  shows "pr_consumed_bits res \<le> avail \<and> length (pr_trace res) \<le> Suc (p_max_depth p) \<and>
    (\<forall>d\<in>set (p_metadata p). \<exists>v. (md_name d, v) \<in> set (pr_metadata res) \<and>
      (md_bits d < 64 \<longrightarrow> unat v < 2 ^ md_bits d))"
  using run_bits_keeps [OF assms] by (auto simp: result_ok_def fits_width_def)

lemma one_byte_run:
  "(case run_bits one_byte [0, 9] 16 of Inl _ \<Rightarrow> False
    | Inr res \<Rightarrow> pr_outcome res = Accepted \<and> pr_consumed_bits res = 8 \<and> pr_metadata res = [(''m'', 3)]) \<and>
   meta_decl_ok one_byte"
  by code_simp

theorem interp_result_bounds_witness:
  "\<exists>res. run_bits one_byte [0, 9] 16 = Inr res \<and> pr_consumed_bits res = 8 \<and> pr_consumed_bits res \<le> 16 \<and>
    length (pr_trace res) \<le> 2 \<and> pr_metadata res = [(''m'', 3)]"
proof -
  obtain res where run: "run_bits one_byte [0, 9] 16 = Inr res" "pr_consumed_bits res = 8"
    "pr_metadata res = [(''m'', 3)]"
    using one_byte_run by (auto split: sum.splits)
  then show ?thesis
    using interp_result_bounds [OF run(1)] one_byte_run by (simp add: one_byte_def)
qed

section \<open>The analyses\<close>

text \<open>
  C23: \<open>entry_alignments\<close> ends on every description (its work-list recursion is a total function, by the
  measure of Ir_Flow), never looks a state up that it has not entered, starts the start state at
  residue 0 or unknown, and is consistent: along every edge out of a state it reached, the target is
  reached and carries no residue or exactly the one the source leaves with.
\<close>

theorem entry_alignments_sound:
  "\<exists>align. entry_alignments p = Some align \<and>
     align (p_start_state p) \<in> {Some (Some 0), Some None} \<and>
     (\<forall>n s a m. align n = Some a \<and> state_map p n = Some s \<and> m \<in> set (successor_states s) \<longrightarrow>
        align m \<in> {Some None, Some (exit_alignment p s a)})"
proof -
  obtain align where al: "entry_alignments p = Some align" "flow_inv p align []"
    using entry_alignments_inv by blast
  have "align m \<in> {Some None, Some (exit_alignment p s a)}"
    if "align n = Some a" "state_map p n = Some s" "m \<in> set (successor_states s)" for n s a m
    using flow_inv_stable [OF al(2) that(1) _ that(2)] that(3) by (auto simp: stable_def)
  moreover have "align (p_start_state p) \<in> {Some (Some 0), Some None}"
    using al(2) by (auto simp: flow_inv_def)
  ultimately show ?thesis using al(1) by blast
qed

theorem entry_alignments_sound_witness:
  "\<exists>align. entry_alignments one_byte = Some align \<and> align ''s'' \<in> {Some (Some 0), Some None}"
  using entry_alignments_sound [of one_byte] by (auto simp: one_byte_def)

text \<open>
  C25: The capacity of the generated region array is enough: on an accepted description the regions
  open on entry to a state the validator reached, plus all the pushes of that state, are at most
  \<open>region_cap\<close>, the number of pushes in the whole description, which the C emitter calls a sound bound
  without an argument.
\<close>

theorem region_capacity_suffices:
  assumes "validate_with_limits l p = Some []"
  shows "\<exists>depth. region_depths p = Some ([], depth) \<and>
    (\<forall>n d s. depth n = Some d \<and> find_state p n = Some s \<longrightarrow>
      d + pushes (st_region_ops s) \<le> region_cap p)"
proof (rule validate_accepted [OF assms])
  fix depth
  assume acc: "accepted l p" and depth: "region_depths p = Some ([], depth)" "depth_inv p depth []"
  have dist: "distinct (map st_name (p_states p))" using acc by (simp add: accepted_def)
  have "d + pushes (st_region_ops s) \<le> region_cap p"
    if "depth n = Some d" "find_state p n = Some s" for n d s
    using depth_below_cap [OF depth(2) dist that(1)] state_map_find [OF dist] that(2) by simp
  with depth(1) show ?thesis by blast
qed

theorem region_capacity_suffices_witness:
  "\<exists>depth s. region_depths one_byte = Some ([], depth) \<and> depth ''s'' = Some 0 \<and>
    find_state one_byte ''s'' = Some s \<and> 0 + pushes (st_region_ops s) \<le> region_cap one_byte"
proof -
  have entry: "case region_depths one_byte of None \<Rightarrow> False | Some (_, depth) \<Rightarrow> depth ''s'' = Some 0"
    by code_simp
  obtain s where s: "find_state one_byte ''s'' = Some s" by (auto simp: one_byte_def find_state_def)
  obtain depth where depth: "region_depths one_byte = Some ([], depth)"
    and cap: "\<forall>n d s. depth n = Some d \<and> find_state one_byte n = Some s \<longrightarrow>
      d + pushes (st_region_ops s) \<le> region_cap one_byte"
    using region_capacity_suffices [of default_limits one_byte] one_byte_valid by blast
  have "depth ''s'' = Some 0" using entry depth by simp
  moreover have "0 + pushes (st_region_ops s) \<le> region_cap one_byte" using cap calculation s by blast
  ultimately show ?thesis using depth s by blast
qed

end
