(* ===== verification/Codegen_Properties.thy ===== *)
theory Codegen_Properties
  imports Codegen_Correct Bpf_Entry
begin

text \<open>
  What single pieces of the generated C promise: the residue analysis behind the byte loads, the three
  ways of reading a field, the order of select arms, the reason codes, and the framing and the verdict
  word of the eBPF entry point.
\<close>

section \<open>Reading a field\<close>

text \<open>
  \<open>expr_mod8\<close> is sound: whenever it gives a residue for an expression, every value the interpreter
  can compute for it, in any environment and with any \<open>remaining()\<close>, has that residue modulo 8, even
  where the 64-bit arithmetic wraps.
\<close>

theorem expr_mod8_sound:
  assumes "expr_mod8 e = Some r" and "eval_expr e env meta rem = Inr v"
  shows "unat v mod 8 = r"
  using expr_mod8_sound_aux [OF assms] .

theorem expr_mod8_sound_witness:
  "unat ((2 - 5) * 8 + 3 :: u64) mod 8 = 3"
  using expr_mod8_sound [of
    "Bin OpAdd (Bin OpMul (Bin OpSub (Field ''h'' ''n'') (Constant 5)) (Constant 8)) (Constant 3)" 3
    "[(''h'', ''n'') \<mapsto> 2]" Map.empty None "(2 - 5) * 8 + 3"] by simp

text \<open>
  C27: The three ways of reading a field agree: inside the available bits the interpreter's \<open>read_bits\<close>,
  the C function \<open>pk_read_bits\<close>, its eBPF variant with masked indices (on buffers of at most 4096
  bytes), and, for whole bytes at a byte boundary, the shift-and-or of byte loads all return the same
  value, and none of them reads outside the buffer.
\<close>

theorem field_reads_agree:
  assumes "length buf < 2 ^ 60" and "unat pos + n \<le> avail" and "avail \<le> 8 * length buf"
  shows "\<exists>v. read_bits buf avail (unat pos) n = Inr (Some v) \<and>
    pk_read_bits (buf_at buf) pos n = Inr v \<and>
    (length buf \<le> 4096 \<longrightarrow> pk_read_bits (buf_at_masked buf) pos n = Inr v) \<and>
    (n mod 8 = 0 \<and> unat pos mod 8 = 0 \<longrightarrow> load_be (buf_at buf) pos (n div 8) = Inr v)"
proof -
  have fit: "unat pos + n \<le> 8 * length buf" using assms(2,3) by simp
  have "read_bits buf avail (unat pos) n = Inr (Some (bits_at buf (unat pos) n))"
    using read_bits_ok [of avail buf "unat pos" n] assms by simp
  moreover have "pk_read_bits (buf_at buf) pos n = Inr (bits_at buf (unat pos) n)"
    using plain_buf.pk_read_bits_eq [OF _ fit] assms(1) by simp
  moreover have "length buf \<le> 4096 \<longrightarrow> pk_read_bits (buf_at_masked buf) pos n = Inr (bits_at buf (unat pos) n)"
    using masked_buf.pk_read_bits_eq [OF _ fit] by simp
  moreover have "load_be (buf_at buf) pos (n div 8) = Inr (bits_at buf (unat pos) n)"
    if "n mod 8 = 0" "unat pos mod 8 = 0"
  proof -
    have n: "8 * (n div 8) = n" using that(1) by auto
    have "load_be (buf_at buf) pos (n div 8) = Inr (bits_at buf (unat pos) (8 * (n div 8)))"
    proof (rule plain_buf.load_be_eq)
      show "length buf \<le> plain_capacity" using assms(1) by simp
      show "unat pos + 8 * (n div 8) \<le> 8 * length buf" unfolding n by (rule fit)
    qed (rule that(2))
    then show ?thesis unfolding n .
  qed
  ultimately show ?thesis by (intro exI [of _ "bits_at buf (unat pos) n"] conjI impI) simp_all
qed

theorem field_reads_agree_witness:
  "\<exists>v. read_bits [0xAB, 0xCD, 0xEF] 24 (unat (8 :: u64)) 16 = Inr (Some v) \<and>
    pk_read_bits (buf_at [0xAB, 0xCD, 0xEF]) 8 16 = Inr v \<and>
    pk_read_bits (buf_at_masked [0xAB, 0xCD, 0xEF]) 8 16 = Inr v \<and>
    load_be (buf_at [0xAB, 0xCD, 0xEF]) 8 2 = Inr v"
  using field_reads_agree [of "[0xAB, 0xCD, 0xEF]" 8 16 24] by simp

section \<open>Select arms\<close>

text \<open>
  The chain of \<open>if\<close> and \<open>else\<close> the emitter makes of a select leaves for the target of the first arm
  that the interpreter's position search finds, and for the default, or the reject for a missing arm,
  when there is none; shortened range comparisons change nothing.
\<close>

theorem emit_arms_first_match:
  assumes "list_all (\<lambda>a. length (arm_entries a) = length keys) arms"
  shows "emit_arms p keys arms dflt s =
    (case arm_position keys arms i of
       Some (_, t) \<Rightarrow> emit_target p t s
     | None \<Rightarrow>
         (case dflt of
            Some t \<Rightarrow> emit_target p t s
          | None \<Rightarrow> reject PK_R_NO_MATCHING_SELECT_ARM s))"
  using assms
  by (induction arms arbitrary: i)
    (auto simp: arm_matches_def branch_def conds_c_eq split: option.split)

theorem emit_arms_first_match_witness:
  "\<forall>p s. emit_arms p [7]
     [\<lparr>arm_entries = [Range 0 5], arm_next = Accept\<rparr>,
      \<lparr>arm_entries = [Range 6 (- 1)], arm_next = Reject ''late'' SevInfo\<rparr>] None s =
   emit_target p (Reject ''late'' SevInfo) s"
proof (intro allI)
  fix p and s :: "'a pk_result_scheme locals"
  have "arm_position [7] [\<lparr>arm_entries = [Range 0 5], arm_next = Accept\<rparr>,
      \<lparr>arm_entries = [Range 6 (- 1)], arm_next = Reject ''late'' SevInfo\<rparr>] 0 =
      Some (1, Reject ''late'' SevInfo)"
    by (simp add: arm_matches_def)
  then show "emit_arms p [7]
     [\<lparr>arm_entries = [Range 0 5], arm_next = Accept\<rparr>,
      \<lparr>arm_entries = [Range 6 (- 1)], arm_next = Reject ''late'' SevInfo\<rparr>] None s =
   emit_target p (Reject ''late'' SevInfo) s"
    by (subst emit_arms_first_match [where i = 0]) simp_all
qed

section \<open>Reason codes\<close>

lemma number_from_zip: "number_from k xs = zip xs [k ..< k + length xs]"
  by (induction xs arbitrary: k) (simp_all add: upt_rec)

definition authored_reasons :: "parser \<Rightarrow> string list" where
  "authored_reasons p =
     filter (\<lambda>r. r \<notin> fst ` set builtin_reasons) (sort (remdups (reject_reasons p)))"

lemma reason_table_eq:
  "reason_table p = builtin_reasons @ zip (authored_reasons p) [16 ..< 16 + length (authored_reasons p)]"
  by (simp add: reason_table_def authored_reasons_def number_from_zip)

lemma reason_names_distinct: "distinct (map fst (reason_table p))"
proof -
  have "map fst (reason_table p) = map fst builtin_reasons @ authored_reasons p"
    by (simp add: reason_table_eq)
  moreover have "distinct (map fst builtin_reasons)" by (simp add: builtin_reasons_def)
  ultimately show ?thesis by (auto simp: authored_reasons_def)
qed

lemma reason_codes_distinct: "distinct (map snd (reason_table p))"
proof -
  have "map snd (reason_table p) = map snd builtin_reasons @ [16 ..< 16 + length (authored_reasons p)]"
    by (simp add: reason_table_eq)
  then show ?thesis by (auto simp: builtin_reasons_def)
qed

lemma reason_codes_less: "(r, k) \<in> set (reason_table p) \<Longrightarrow> k < 16 + length (authored_reasons p)"
  by (auto simp: reason_table_eq builtin_reasons_def dest: set_zip_rightD)

lemma find_code:
  assumes "distinct (map snd xs)" and "\<forall>(r, k)\<in>set xs. k < 65536" and "(r, k) \<in> set xs"
  shows "find (\<lambda>(_, c). (of_nat c :: u16) = of_nat k) xs = Some (r, k)"
  using assms
proof (induction xs)
  case Nil
  then show ?case by simp
next
  case (Cons x xs)
  obtain s c where x: "x = (s, c)" by force
  have small: "c < 65536" "k < 65536" using Cons.prems(2,3) x by auto
  then have "unat (of_nat c :: u16) = c" "unat (of_nat k :: u16) = k" by (simp_all add: unat_of_nat)
  then have "(of_nat c :: u16) = of_nat k \<longleftrightarrow> c = k" by metis
  moreover have "c = k \<Longrightarrow> s = r"
  proof -
    assume "c = k"
    then show "s = r" using Cons.prems(1,3) x by force
  qed
  ultimately show ?case using Cons x by auto
qed

lemma reason_number_nat:
  assumes "length (authored_reasons p) < 65520" and "r \<in> fst ` set (reason_table p)"
  shows "\<exists>k. (r, k) \<in> set (reason_table p) \<and> unat (reason_number p r) = k"
proof -
  from assms(2) obtain k where k: "(r, k) \<in> set (reason_table p)" by auto
  then have "reason_number p r = of_nat k"
    using map_of_is_SomeI [OF reason_names_distinct k] by (simp add: reason_number_def)
  moreover have "k < 65536" using reason_codes_less [OF k] assms(1) by simp
  ultimately show ?thesis using k by (auto simp: unat_of_nat)
qed

text \<open>
  The reason codes of the generated header name their reasons: as long as the table fits sixteen bits,
  every reason of the table, built-in or authored, has a code of its own.
\<close>

lemma reason_number_round_trip:
  assumes "length (authored_reasons p) < 65520" and "r \<in> fst ` set (reason_table p)"
  shows "reason_str p (reason_number p r) = r \<and> reason_number p r \<noteq> 0"
proof -
  obtain k where k: "(r, k) \<in> set (reason_table p)" "unat (reason_number p r) = k"
    using reason_number_nat [OF assms] by blast
  then have code: "reason_number p r = of_nat k" by auto
  have small: "\<forall>(r, k)\<in>set (reason_table p). k < 65536"
    using reason_codes_less assms(1) by fastforce
  have "k \<noteq> 0"
    using k(1) by (auto simp: reason_table_eq builtin_reasons_def dest: set_zip_rightD)
  with k(2) have "reason_number p r \<noteq> 0" by auto
  then show ?thesis
    using find_code [OF reason_codes_distinct small k(1)] code by (simp add: reason_str_def)
qed

section \<open>The eBPF frame\<close>

text \<open>
  The framing of the eBPF entry point: the bit length written as eight little-endian bytes before
  the packet is read back unchanged, and the packet starts right behind it.
\<close>

theorem entry_length_round_trip:
  "entry_bit_len (le64 n @ pkt) = Inr n \<and> length (le64 n) = 8 \<and> drop 8 (le64 n @ pkt) = pkt"
  using entry_bit_len_le64 [of n pkt] by simp

text \<open>
  The verdict word carries its three fields without loss when the reason code fits a byte and the
  consumed bits fit 48: outcome, reason and consumed bits decode to what the result struct held.
\<close>

theorem verdict_round_trip:
  assumes "unat (reason r) < 256" and "unat (consumed_bits r) < 2 ^ 48"
  shows "\<exists>w. entry_verdict (Return ret r) = Inr w \<and> verdict_outcome w = unat (outcome r) \<and>
    verdict_reason w = unat (reason r) \<and> verdict_consumed w = unat (consumed_bits r)"
  using verdict_fields [of "reason r" "consumed_bits r" "outcome r"] assms by (simp add: entry_verdict_def)

theorem verdict_round_trip_witness:
  "\<exists>w. entry_verdict (Return 1 \<lparr>outcome = 1, reason = 17, consumed_bits = 272\<rparr>) = Inr w \<and>
    verdict_outcome w = 1 \<and> verdict_reason w = 17 \<and> verdict_consumed w = 272"
  using verdict_round_trip [of "\<lparr>outcome = 1, reason = 17, consumed_bits = 272\<rparr>" 1] by simp


end
