(* ===== verification/Byte_Cursor.thy ===== *)
theory Byte_Cursor
  imports C_Layout
begin

text \<open>
  Cursors of the generated parsers that stand on byte boundaries: \<open>at_byte i\<close> is bit 8 i as a 64-bit
  word. What the closed-form specifications of the example parsers need of comparing and moving such
  cursors, and of loading the byte at one.
\<close>

section \<open>One byte\<close>

definition at_byte :: "nat \<Rightarrow> u64" where
  "at_byte i = of_nat (8 * i)"

lemma unat_at_byte: "i < 2 ^ 60 \<Longrightarrow> unat (at_byte i) = 8 * i"
  unfolding at_byte_def by (subst unat_of_nat) simp

lemma at_byte_Suc: "at_byte i + 8 = at_byte (Suc i)"
  by (simp add: at_byte_def)

lemma at_byte_0: "at_byte 0 = 0"
  by (simp add: at_byte_def)

lemma past_end: "i \<le> n \<Longrightarrow> n < 2 ^ 59 \<Longrightarrow> at_byte n < at_byte i + 8 \<longleftrightarrow> i = n"
  unfolding at_byte_Suc word_less_nat_alt by (subst unat_at_byte, simp)+ auto

lemma byte_at:
  "i < length buf \<Longrightarrow> length buf < 2 ^ 59 \<Longrightarrow> load_be (buf_at buf) (at_byte i) 1 = Inr (ucast (buf ! i))"
  using plain_buf.load_be_eq [of buf "at_byte i" 1] unat_at_byte [of i] by (simp add: bits_at_byte)

lemma at_byte_add: "at_byte i + at_byte j = at_byte (i + j)"
  by (simp add: at_byte_def algebra_simps)

lemma at_byte_diff: "i \<le> j \<Longrightarrow> at_byte j - at_byte i = at_byte (j - i)"
  by (simp add: at_byte_def of_nat_diff algebra_simps)

lemma at_byte_mult: "of_nat i * 8 = at_byte i"
  by (simp add: at_byte_def)

lemma at_byte_less: "i < 2 ^ 60 \<Longrightarrow> j < 2 ^ 60 \<Longrightarrow> at_byte i < at_byte j \<longleftrightarrow> i < j"
  by (simp add: word_less_nat_alt unat_at_byte)

lemma bytes_of_at_byte: "i < 2 ^ 60 \<Longrightarrow> drop_bit 3 (at_byte i) = of_nat i"
  by (simp add: word_unat_eq_iff unat_drop_bit_eq unat_at_byte unat_of_nat)
    (simp add: drop_bit_eq_div)

lemma of_nat_byte_0: "k < 256 \<Longrightarrow> (of_nat k :: u64) = 0 \<longleftrightarrow> k = 0"
proof
  assume "k < 256" "(of_nat k :: u64) = 0"
  moreover from this(1) have "unat (of_nat k :: u64) = k" by (simp add: unat_of_nat)
  ultimately show "k = 0" by simp
qed simp

end
