(* ===== verification/Counted_Items_Spec.thy ===== *)
theory Counted_Items_Spec
  imports Counted_Items_Refine Byte_Cursor
begin

text \<open>
  What examples/counted_items/gen/parser.c does with every packet, in closed form: a count byte n, then
  n items of one byte. The depth budget of 8 states covers the count, at most six items and the final
  state; with more items the parser gives up after seven, and a packet that ends early is truncated.
\<close>

section \<open>The loop over the items\<close>

lemma dec_byte:
  assumes "1 \<le> r" and "r < 256"
  shows "(of_nat r - 1 :: u64) AND 0xFF = of_nat (r - 1)"
proof -
  have "(of_nat r - 1 :: u64) = of_nat (r - 1)" using assms(1) by (simp add: of_nat_diff)
  then show ?thesis using assms(2) by (simp add: and_8 take_bit_of_nat take_bit_nat_eq_self)
qed

text \<open>The state of the locals when \<open>i\<close> bytes are read and \<open>r\<close> items are still expected.\<close>

definition item_state :: "nat \<Rightarrow> nat \<Rightarrow> cnt_result locals \<Rightarrow> bool" where
  "item_state i r s \<longleftrightarrow>
     off s = at_byte i \<and> cnt_m_remaining (out s) = of_nat r \<and> cnt_m_done (out s) = 0 \<and>
     cur_state s = (if r = 0 then cnt_S_MARK_DONE else cnt_S_PARSE_ITEM)"

lemma cnt_item_step:
  assumes "item_state i r s" and "1 \<le> r" and "r < 256" and "i \<le> length buf" and "length buf < 2 ^ 59"
  shows "if i = length buf
    then \<exists>o'. cnt_switch (buf_at buf) (at_byte (length buf)) s = Return 1 o' \<and> outcome o' = 1 \<and>
      reason o' = PK_R_OUT_OF_BOUNDS \<and> consumed_bits o' = at_byte i \<and> cnt_m_done o' = 0
    else \<exists>s'. cnt_switch (buf_at buf) (at_byte (length buf)) s = Continue s' \<and> item_state (Suc i) (r - 1) s'"
  using assms past_end [OF assms(4,5)] byte_at [of i buf] dec_byte [OF assms(2,3)] of_nat_byte_0 [of "r - 1"]
  by (auto simp: item_state_def cnt_switch_def cnt_case_parse_item_def pk_stmt at_byte_Suc)

lemma done_step:
  assumes "item_state i 0 s"
  shows "\<exists>o'. cnt_switch rd bit_len s = Return 0 o' \<and> outcome o' = 0 \<and> reason o' = PK_R_NONE \<and>
    consumed_bits o' = at_byte i \<and> cnt_m_done o' = 1"
  using assms by (simp add: item_state_def cnt_switch_def cnt_case_mark_done_def pk_stmt)

text \<open>\<open>ends o' ret why n d\<close>: the verdict, the bytes consumed and the value of the \<open>done\<close> mark.\<close>

definition ends :: "cnt_result flow \<Rightarrow> int \<Rightarrow> u16 \<Rightarrow> nat \<Rightarrow> u64 \<Rightarrow> bool" where
  "ends fl ret why n d \<longleftrightarrow>
     (\<exists>o'. fl = Return ret o' \<and> outcome o' = of_int ret \<and> reason o' = why \<and>
       consumed_bits o' = at_byte n \<and> cnt_m_done o' = d)"

lemma cnt_items_loop:
  assumes len: "length buf < 2 ^ 59"
  shows "item_state i r s \<Longrightarrow> r < 256 \<Longrightarrow> i \<le> length buf \<Longrightarrow> a = length buf - i \<Longrightarrow>
    (let fl = depth_loop k (cnt_switch (buf_at buf) (at_byte (length buf))) s in
     if a < r \<and> a < k then ends fl 1 PK_R_OUT_OF_BOUNDS (length buf) 0
     else if r < k then ends fl 0 PK_R_NONE (i + r) 1
     else ends fl 1 PK_R_MAX_DEPTH_EXCEEDED (i + k) 0)"
proof (induction k arbitrary: i r s a)
  case 0
  then show ?case by (simp add: ends_def item_state_def reject_def finish_def Let_def)
next
  case (Suc k)
  let ?sw = "cnt_switch (buf_at buf) (at_byte (length buf))"
  show ?case
  proof (cases "r = 0")
    case True
    then have "item_state i 0 s" using Suc.prems(1) by simp
    then obtain o' where "?sw s = Return 0 o'" "outcome o' = 0" "reason o' = PK_R_NONE"
      "consumed_bits o' = at_byte i" "cnt_m_done o' = 1"
      using done_step by blast
    then show ?thesis using True by (simp add: ends_def Let_def)
  next
    case False
    then have r: "1 \<le> r" by simp
    note step = cnt_item_step [OF Suc.prems(1) r Suc.prems(2,3) len]
    show ?thesis
    proof (cases "i = length buf")
      case True
      then show ?thesis using step Suc.prems(4) r by (auto simp: ends_def Let_def)
    next
      case False
      then obtain s' where s': "?sw s = Continue s'" "item_state (Suc i) (r - 1) s'" using step by auto
      have "Suc i \<le> length buf" "r - 1 < 256" "a - 1 = length buf - Suc i" "0 < a"
        using False Suc.prems by auto
      from Suc.IH [OF s'(2) this(2,1,3)] show ?thesis
        using s'(1) r \<open>0 < a\<close> by (auto simp: Let_def split: if_splits)
    qed
  qed
qed

section \<open>The parser\<close>

lemma count_step:
  assumes "0 < length buf" and "length buf < 2 ^ 59"
  shows "\<exists>s. cnt_switch (buf_at buf) (at_byte (length buf))
      (init_locals cnt_S_PARSE_COUNT 0 (cnt_zero\<lparr>cnt_m_done := 0, cnt_m_remaining := 0\<rparr>)) = Continue s \<and>
    item_state 1 (unat (buf ! 0)) s"
proof -
  have "unat (buf ! 0) < 2 ^ LENGTH(8)" by (rule unsigned_less)
  then have n: "unat (buf ! 0) < 256" by simp
  have byte: "load_be (buf_at buf) 0 1 = Inr (ucast (buf ! 0))"
    using byte_at [of 0 buf] assms by (simp add: at_byte_0)
  have fits: "\<not> at_byte (length buf) < 8"
    using past_end [of 0 "length buf"] assms by (simp add: at_byte_0)
  have narrow: "take_bit 8 (ucast (buf ! 0) :: u64) = ucast (buf ! 0)"
    by (rule bit_word_eqI) (auto simp: bit_simps dest: bit_imp_le_length)
  then have mask: "(ucast (buf ! 0) :: u64) AND 0xFF = ucast (buf ! 0)"
    unfolding and_8 .
  show ?thesis
    using byte fits mask n narrow of_nat_byte_0 [OF n]
    by (simp add: init_locals_def item_state_def cnt_switch_def cnt_case_parse_count_def pk_stmt at_byte_def)
qed

lemma eight_states: "depth_loop 8 = depth_loop (Suc 7)"
  by simp

text \<open>
  C11: The complete behaviour of \<open>pk_counted_items_parse\<close> on a packet of whole bytes. An empty packet is
  out of bounds at 0. Otherwise let n be the count byte: with fewer than min n 7 further bytes the
  packet is out of bounds at its end; with n at most 6 the parser accepts after n + 1 bytes and sets
  the \<open>done\<close> mark; with n above 6 it exceeds the depth budget after exactly 8 bytes.
\<close>

theorem counted_items_spec:
  assumes "length buf < 2 ^ 59"
  shows "let fl = cnt_parse (buf_at buf) (at_byte (length buf)) o'; n = unat (buf ! 0) in
    if length buf = 0 then ends fl 1 PK_R_OUT_OF_BOUNDS 0 0
    else if length buf - 1 < min n 7 then ends fl 1 PK_R_OUT_OF_BOUNDS (length buf) 0
    else if n \<le> 6 then ends fl 0 PK_R_NONE (n + 1) 1
    else ends fl 1 PK_R_MAX_DEPTH_EXCEEDED 8 0"
proof (cases "length buf = 0")
  case True
  then obtain r where "cnt_switch (buf_at buf) (at_byte (length buf))
      (init_locals cnt_S_PARSE_COUNT 0 (cnt_zero\<lparr>cnt_m_done := 0, cnt_m_remaining := 0\<rparr>)) = Return 1 r"
    "outcome r = 1" "reason r = PK_R_OUT_OF_BOUNDS" "consumed_bits r = 0" "cnt_m_done r = 0"
    by (simp add: init_locals_def cnt_switch_def cnt_case_parse_count_def pk_stmt at_byte_def cnt_zero_def)
  then have "ends (cnt_parse (buf_at buf) (at_byte (length buf)) o') 1 PK_R_OUT_OF_BOUNDS 0 0"
    unfolding cnt_parse_def cnt_parse_core_def eight_states depth_loop.simps by (simp add: ends_def at_byte_0)
  then show ?thesis using True by simp
next
  case False
  then have pos: "0 < length buf" by simp
  obtain s where s: "cnt_switch (buf_at buf) (at_byte (length buf))
      (init_locals cnt_S_PARSE_COUNT 0 (cnt_zero\<lparr>cnt_m_done := 0, cnt_m_remaining := 0\<rparr>)) = Continue s"
    "item_state 1 (unat (buf ! 0)) s"
    using count_step [OF pos assms] by blast
  have "unat (buf ! 0) < 2 ^ LENGTH(8)" by (rule unsigned_less)
  then have n: "unat (buf ! 0) < 256" by simp
  have fl: "cnt_parse (buf_at buf) (at_byte (length buf)) o' =
      depth_loop 7 (cnt_switch (buf_at buf) (at_byte (length buf))) s"
    unfolding cnt_parse_def cnt_parse_core_def eight_states depth_loop.simps using s(1) by simp
  have le: "1 \<le> length buf" using pos by linarith
  show ?thesis
    using cnt_items_loop [OF assms s(2) n le refl, of 7] False unfolding fl
    by (auto simp: Let_def min_def split: if_splits)
qed

theorem counted_items_spec_witness:
  "ends (cnt_parse (buf_at (replicate 4 2)) (at_byte 4) cnt_zero) 0 PK_R_NONE 3 1 \<and>
   ends (cnt_parse (buf_at (replicate 2 5)) (at_byte 2) cnt_zero) 1 PK_R_OUT_OF_BOUNDS 2 0 \<and>
   ends (cnt_parse (buf_at (replicate 10 7)) (at_byte 10) cnt_zero) 1 PK_R_MAX_DEPTH_EXCEEDED 8 0"
  using counted_items_spec [of "replicate 4 2" cnt_zero] counted_items_spec [of "replicate 2 5" cnt_zero]
    counted_items_spec [of "replicate 10 7" cnt_zero]
  by (simp add: Let_def)

end
