(* ===== verification/Tlv_Items_Spec.thy ===== *)
theory Tlv_Items_Spec
  imports Tlv_Items_Refine Byte_Cursor
begin

text \<open>
  What examples/tlv_items/gen/parser.c does with the encoding of a list of items: a byte with the total
  length, then kind, length and value of each item. The parser takes items apart in order; its depth
  budget of 8 states covers two items and the close, and with three or more it stops after the third.
\<close>

section \<open>The wire format\<close>

type_synonym tlv = "u8 \<times> bytes"

definition item_bytes :: "tlv \<Rightarrow> bytes" where
  "item_bytes x = fst x # of_nat (length (snd x)) # snd x"

definition tlv_body :: "tlv list \<Rightarrow> bytes" where
  "tlv_body xs = concat (map item_bytes xs)"

definition tlv_encode :: "tlv list \<Rightarrow> bytes" where
  "tlv_encode xs = of_nat (length (tlv_body xs)) # tlv_body xs"

lemma tlv_body_simps [simp]:
  "tlv_body [] = []" "tlv_body (x # xs) = item_bytes x @ tlv_body xs"
  "length (item_bytes x) = 2 + length (snd x)"
  by (simp_all add: tlv_body_def item_bytes_def)

lemma tlv_body_empty: "tlv_body xs = [] \<longleftrightarrow> xs = []"
  by (cases xs) (simp_all add: item_bytes_def)

section \<open>One item\<close>

text \<open>
  At the head of the loop, at byte \<open>i\<close>, with the items \<open>xs\<close> ahead and a region that ends behind them.
\<close>

definition tlv_ready :: "bytes \<Rightarrow> nat \<Rightarrow> tlv list \<Rightarrow> bytes \<Rightarrow> tlv_result locals \<Rightarrow> bool" where
  "tlv_ready buf i xs rest s \<longleftrightarrow>
     off s = at_byte i \<and> rsp s = 1 \<and> region_end s = [Some (at_byte (i + length (tlv_body xs)))] \<and>
     i \<le> length buf \<and> drop i buf = tlv_body xs @ rest \<and> length (tlv_body xs) < 256"

text \<open>The result struct shows item \<open>x\<close>, which begins at byte \<open>i\<close> of the packet.\<close>

definition shows_item :: "bytes \<Rightarrow> nat \<Rightarrow> tlv \<Rightarrow> tlv_result \<Rightarrow> bool" where
  "shows_item buf i x r \<longleftrightarrow>
     tlv_item_present r = 1 \<and> tlv_item_kind (tlv_item r) = fst x \<and>
     tlv_item_ln (tlv_item r) = of_nat (length (snd x)) \<and>
     tlv_item_val_bit_off (tlv_item r) = at_byte (i + 2) \<and>
     tlv_item_val_bit_len (tlv_item r) = at_byte (length (snd x)) \<and>
     take (length (snd x)) (drop (i + 2) buf) = snd x"

abbreviation "tlv_step buf \<equiv> tlv_switch (buf_at buf) (at_byte (length buf))"

lemma loop_step:
  assumes "tlv_ready buf i xs rest s" and "cur_state s = tlv_S_TLV_LOOP"
  shows "tlv_step buf s = Continue (s\<lparr>cur_state := if xs = [] then tlv_S_CLOSE else tlv_S_PARSE_ITEM\<rparr>)"
proof -
  let ?n = "length (tlv_body xs)"
  have n: "?n < 256" using assms(1) by (simp add: tlv_ready_def)
  have "at_byte (i + ?n) - at_byte i = at_byte ?n" using at_byte_diff [of i "i + ?n"] by simp
  then have key: "drop_bit 3 (at_byte (i + ?n) - at_byte i) = of_nat ?n"
    using n by (simp add: bytes_of_at_byte)
  have zero: "(of_nat ?n :: u64) = 0 \<longleftrightarrow> xs = []"
    using n by (simp add: of_nat_byte_0 tlv_body_empty)
  show ?thesis
    using assms key zero
    by (simp add: tlv_ready_def tlv_switch_def tlv_case_tlv_loop_def pk_stmt)
qed

lemma close_step:
  assumes "tlv_ready buf i [] rest s" and "cur_state s = tlv_S_CLOSE"
  shows "tlv_step buf s = Return 0 ((out s)\<lparr>outcome := 0, reason := PK_R_NONE, consumed_bits := at_byte i\<rparr>)"
  using assms by (simp add: tlv_ready_def tlv_switch_def tlv_case_close_def pk_stmt)

lemma item_bytes_at:
  assumes "drop i buf = tlv_body (x # xs) @ rest" and "i \<le> length buf"
  shows "buf ! i = fst x" "buf ! Suc i = of_nat (length (snd x))"
    "take (length (snd x)) (drop (i + 2) buf) = snd x"
    "drop (i + 2 + length (snd x)) buf = tlv_body xs @ rest"
    "length buf = i + 2 + length (snd x) + length (tlv_body xs) + length rest"
proof -
  have d: "drop i buf = fst x # of_nat (length (snd x)) # snd x @ tlv_body xs @ rest"
    using assms(1) by (simp add: item_bytes_def)
  from arg_cong [OF d, of length]
  show "length buf = i + 2 + length (snd x) + length (tlv_body xs) + length rest" using assms(2) by simp
  have nth: "buf ! (i + j) = drop i buf ! j" for j using assms(2) by simp
  from nth [of 0] nth [of 1] show "buf ! i = fst x" "buf ! Suc i = of_nat (length (snd x))"
    by (simp_all add: d)
  have drp: "drop (i + j) buf = drop j (drop i buf)" for j by (simp add: add.commute)
  show "take (length (snd x)) (drop (i + 2) buf) = snd x" by (simp only: drp d) simp
  have "drop (i + (2 + length (snd x))) buf = tlv_body xs @ rest" by (simp only: drp d) simp
  then show "drop (i + 2 + length (snd x)) buf = tlv_body xs @ rest" by (simp add: add.assoc)
qed

lemma at_byte_le: "i < 2 ^ 60 \<Longrightarrow> j < 2 ^ 60 \<Longrightarrow> at_byte i \<le> at_byte j \<longleftrightarrow> i \<le> j"
  by (simp add: word_le_nat_alt unat_at_byte)

lemma narrow_byte: "(ucast (ucast (b :: u8) :: u64) :: u8) = b"
  by (rule bit_word_eqI) (auto simp: bit_simps dest: bit_imp_le_length)

lemma ln_bits: "n < 256 \<Longrightarrow> ucast (of_nat n :: u8) * 8 = at_byte n"
proof -
  assume "n < 256"
  then have "unat (of_nat n :: u8) = n" by (simp add: unat_of_nat)
  then have "(ucast (of_nat n :: u8) :: u64) = of_nat n" by (simp add: word_unat_eq_iff unsigned_ucast_eq)
      (simp add: take_bit_nat_eq_self unat_of_nat)
  then show ?thesis by (simp add: at_byte_mult)
qed

lemma tlv_item_step:
  assumes ready: "tlv_ready buf i (x # xs) rest s" and state: "cur_state s = tlv_S_PARSE_ITEM"
    and small: "length buf < 2 ^ 59"
  shows "\<exists>s'. tlv_step buf s = Continue s' \<and> cur_state s' = tlv_S_TLV_LOOP \<and>
    tlv_ready buf (i + 2 + length (snd x)) xs rest s' \<and> shows_item buf i x (out s')"
proof -
  let ?l = "length (snd x)" and ?stop = "i + (2 + length (snd x) + length (tlv_body xs))"
  have d: "drop i buf = tlv_body (x # xs) @ rest" "i \<le> length buf" "2 + ?l + length (tlv_body xs) < 256"
    using ready by (simp_all add: tlv_ready_def)
  note at = item_bytes_at [OF d(1,2)]
  have l: "?l < 256" using d(3) by simp
  have bytes: "load_be (buf_at buf) (at_byte i) 1 = Inr (ucast (fst x))"
    "load_be (buf_at buf) (at_byte (Suc i)) 1 = Inr (ucast (of_nat ?l :: u8))"
    using byte_at [of i buf] byte_at [of "Suc i" buf] at small by simp_all
  have inside: "\<not> at_byte ?stop < at_byte (Suc i)" "\<not> at_byte (length buf) < at_byte (Suc i)"
    "\<not> at_byte ?stop < at_byte (Suc (Suc i))" "\<not> at_byte (length buf) < at_byte (Suc (Suc i))"
    "\<not> at_byte ?stop - at_byte (Suc (Suc i)) < at_byte ?l" "\<not> at_byte (length buf) - at_byte (Suc (Suc i)) < at_byte ?l"
    using at(5) small by (simp_all add: at_byte_diff at_byte_less not_less)
  have moved: "at_byte (Suc (Suc i)) + at_byte ?l = at_byte (i + 2 + ?l)"
    by (simp add: at_byte_add)
  show ?thesis
    using ready state inside bytes moved at ln_bits [OF l] l d(3)
    by (simp add: tlv_switch_def tlv_case_parse_item_def pk_stmt tlv_ready_def shows_item_def at_byte_Suc
        narrow_byte add.assoc)
qed

section \<open>The loop\<close>

text \<open>
  From the head of the loop with \<open>2 m + 1\<close> states left: fewer than \<open>m\<close> items are all taken and the
  region closes; otherwise \<open>m\<close> are taken and the budget is spent.
\<close>

definition takes :: "bytes \<Rightarrow> nat \<Rightarrow> tlv list \<Rightarrow> nat \<Rightarrow> tlv_result \<Rightarrow> tlv_result flow \<Rightarrow> bool" where
  "takes buf i xs m r0 fl \<longleftrightarrow>
     (\<exists>ret r. fl = Return ret r \<and> ret = (if length xs < m then 0 else 1) \<and> outcome r = of_int ret \<and>
       reason r = (if length xs < m then PK_R_NONE else PK_R_MAX_DEPTH_EXCEEDED) \<and>
       consumed_bits r = at_byte (i + length (tlv_body (take m xs))) \<and>
       (if take m xs = [] then tlv_item_present r = tlv_item_present r0
        else shows_item buf (i + length (tlv_body (butlast (take m xs)))) (last (take m xs)) r))"

lemma takes_cong: "tlv_item_present r0 = tlv_item_present r1 \<Longrightarrow> takes buf i xs m r0 fl = takes buf i xs m r1 fl"
  by (simp add: takes_def)

lemma takes_Cons:
  assumes "takes buf (i + 2 + length (snd x)) xs m r0 fl" and "shows_item buf i x r0"
    and "take m xs = [] \<Longrightarrow> \<forall>ret r. fl = Return ret r \<longrightarrow> tlv_item r = tlv_item r0"
  shows "takes buf i (x # xs) (Suc m) r1 fl"
  using assms by (auto simp: takes_def shows_item_def add.assoc split: if_splits)

lemma tlv_items_loop:
  assumes small: "length buf < 2 ^ 59"
  shows "tlv_ready buf i xs rest s \<Longrightarrow> cur_state s = tlv_S_TLV_LOOP \<Longrightarrow>
    takes buf i xs m (out s) (depth_loop (Suc (2 * m)) (tlv_step buf) s) \<and>
    (take m xs = [] \<longrightarrow>
      (\<forall>ret r. depth_loop (Suc (2 * m)) (tlv_step buf) s = Return ret r \<longrightarrow> tlv_item r = tlv_item (out s)))"
proof (induction m arbitrary: i xs s)
  case 0
  then show ?case
    using loop_step [OF 0] by (simp add: takes_def tlv_ready_def reject_def finish_def)
next
  case (Suc m)
  let ?s = "s\<lparr>cur_state := if xs = [] then tlv_S_CLOSE else tlv_S_PARSE_ITEM\<rparr>"
  have ready: "tlv_ready buf i xs rest ?s" using Suc.prems(1) by (simp add: tlv_ready_def)
  have loop: "depth_loop (Suc (2 * Suc m)) (tlv_step buf) s = depth_loop (Suc (Suc (2 * m))) (tlv_step buf) ?s"
    using loop_step [OF Suc.prems] by simp
  show ?case
  proof (cases xs)
    case Nil
    then show ?thesis
      unfolding loop using close_step [of buf i rest ?s] ready by (simp add: takes_def)
  next
    case (Cons x xs')
    obtain s' where s': "tlv_step buf ?s = Continue s'" "cur_state s' = tlv_S_TLV_LOOP"
      "tlv_ready buf (i + 2 + length (snd x)) xs' rest s'" "shows_item buf i x (out s')"
      using tlv_item_step [of buf i x xs' rest ?s] ready Cons small by auto
    have body: "depth_loop (Suc (2 * Suc m)) (tlv_step buf) s = depth_loop (Suc (2 * m)) (tlv_step buf) s'"
      unfolding loop using s'(1) by simp
    show ?thesis
      unfolding body Cons using Suc.IH [OF s'(3,2)] takes_Cons [OF _ s'(4)] by auto
  qed
qed

section \<open>The parser\<close>

lemma total_step:
  assumes buf: "buf = tlv_encode xs @ rest" and fits: "length (tlv_body xs) < 256"
    and small: "length buf < 2 ^ 59"
  shows "\<exists>s. tlv_step buf (init_locals tlv_S_PARSE_TOTAL 1 tlv_zero) = Continue s \<and>
    cur_state s = tlv_S_TLV_LOOP \<and> tlv_ready buf 1 xs rest s \<and>
    tlv_item_present (out s) = 0 \<and> tlv_total_len_total (tlv_total_len (out s)) = of_nat (length (tlv_body xs))"
proof -
  let ?n = "length (tlv_body xs)"
  have len: "length buf = Suc (?n + length rest)" by (simp add: buf tlv_encode_def)
  have byte: "load_be (buf_at buf) 0 1 = Inr (ucast (of_nat ?n :: u8))"
    using byte_at [of 0 buf] small len by (simp add: at_byte_0) (simp add: buf tlv_encode_def)
  have inside: "\<not> at_byte (length buf) < at_byte 1"
    using len small by (simp add: at_byte_less not_less)
  have top: "\<not> 0xffffffffffffffff - at_byte 1 < at_byte ?n"
  proof -
    have "unat (0xffffffffffffffff - at_byte 1 :: u64) = 0xfffffffffffffff7" by (simp add: at_byte_def)
    then show ?thesis using fits by (simp add: word_less_nat_alt unat_at_byte not_less)
  qed
  have one: "at_byte (Suc 0) = 8" by (simp add: at_byte_def)
  show ?thesis
    using byte inside top fits ln_bits [OF fits] at_byte_add [of 1 ?n]
    by (simp add: tlv_switch_def tlv_case_parse_total_def pk_stmt init_locals_def tlv_ready_def one
        narrow_byte tlv_zero_def) (simp add: buf tlv_encode_def add.commute)
qed

text \<open>
  C12: The generated TLV parser inverts the encoding. On the encoding of a list of items (whose sizes
  fit the total byte), whatever follows it in the packet, the parser accepts exactly when there are at
  most two items and otherwise exceeds its depth budget; it has consumed the total byte and the first
  three items; and its struct shows the last of these: kind, length, and an offset and bit length
  under which the packet holds the item's value.
\<close>

theorem tlv_parse_encode:
  assumes "length (tlv_body xs) < 256" and "length (tlv_encode xs @ rest) < 2 ^ 59"
  shows "takes (tlv_encode xs @ rest) 1 xs 3 tlv_zero
    (tlv_parse (buf_at (tlv_encode xs @ rest)) (at_byte (length (tlv_encode xs @ rest))) o')"
proof -
  let ?buf = "tlv_encode xs @ rest"
  obtain s where s: "tlv_step ?buf (init_locals tlv_S_PARSE_TOTAL 1 tlv_zero) = Continue s"
    "cur_state s = tlv_S_TLV_LOOP" "tlv_ready ?buf 1 xs rest s" "tlv_item_present (out s) = 0"
    using total_step [OF refl assms] by blast
  have eight: "depth_loop 8 = depth_loop (Suc (Suc (2 * 3)))" by simp
  have parse: "tlv_parse (buf_at ?buf) (at_byte (length ?buf)) o' = depth_loop (Suc (2 * 3)) (tlv_step ?buf) s"
    unfolding tlv_parse_def tlv_parse_core_def eight depth_loop.simps(2) [of "Suc (2 * 3)"] using s(1) by simp
  have present: "tlv_item_present tlv_zero = tlv_item_present (out s)" using s(4) by (simp add: tlv_zero_def)
  show ?thesis
    unfolding parse takes_cong [OF present] using tlv_items_loop [OF assms(2) s(3,2), THEN conjunct1] .
qed

theorem tlv_parse_encode_witness:
  "takes (tlv_encode [(7, replicate 3 1), (9, [])] @ [0]) 1 [(7, replicate 3 1), (9, [])] 3 tlv_zero
     (tlv_parse (buf_at (tlv_encode [(7, replicate 3 1), (9, [])] @ [0]))
       (at_byte (length (tlv_encode [(7, replicate 3 1), (9, [])] @ [0]))) tlv_zero) \<and>
   tlv_encode [(7, replicate 3 1), (9, [])] = [7, 7, 3, 1, 1, 1, 9, 0]"
proof -
  have "tlv_encode [(7, replicate 3 1), (9, [])] = [7, 7, 3, 1, 1, 1, 9, 0]"
    by (simp add: tlv_encode_def item_bytes_def numeral_3_eq_3)
  then show ?thesis
    using tlv_parse_encode [of "[(7, replicate 3 1), (9, [])]" "[0]" tlv_zero] by simp
qed

end
