(* ===== verification/Ir_Semantics.thy ===== *)
theory Ir_Semantics
  imports Ir_Invariants
begin

text \<open>
  The operational semantics of docs/reference/ir-semantics.md, rule by rule and under the names the
  document gives its rules, as inductive relations. It is the abstract specification of the
  interpreter: lengths and cursors are natural numbers, reads are the document's sum, arithmetic is
  modulo 2 ^ 64. The region stack is a list with the innermost end first. Headers and trace are read
  off a derivation and not part of a configuration, as in the document.
\<close>

section \<open>Domains\<close>

record config =
  cf_cursor :: nat
  cf_env :: env
  cf_meta :: meta_store
  cf_regions :: "nat list"

datatype verdict = VAccept nat meta_store | VReject string nat meta_store

text \<open>A judgment yields its result or halts the run.\<close>

datatype 'a judged = Yields 'a | Halts verdict

text \<open>\<open>read(\<pi>, c, n)\<close>, \<open>bound(R)\<close> and the value of \<open>remaining()\<close>.\<close>

definition read_value :: "bytes \<Rightarrow> nat \<Rightarrow> nat \<Rightarrow> nat" where
  "read_value packet c n = (\<Sum>i<n. 2 ^ (n - 1 - i) * of_bool (bit_at packet (c + i)))"

definition bound :: "nat \<Rightarrow> nat list \<Rightarrow> nat" where
  "bound len rs = (case rs of [] \<Rightarrow> len | e # _ \<Rightarrow> min e len)"

definition remaining_value :: "config \<Rightarrow> u64 option" where
  "remaining_value s =
     (case cf_regions s of [] \<Rightarrow> None | e # _ \<Rightarrow> Some (of_nat (e - cf_cursor s)))"

abbreviation rejects :: "string \<Rightarrow> config \<Rightarrow> 'a judged" where
  "rejects reason s \<equiv> Halts (VReject reason (cf_cursor s) (cf_meta s))"

section \<open>Expressions\<close>

inductive sem_expr :: "env \<Rightarrow> meta_store \<Rightarrow> u64 option \<Rightarrow> expr \<Rightarrow> u64 \<Rightarrow> bool" for env meta rem where
  V_Const: "sem_expr env meta rem (Constant k) k"
| V_Field: "env (i, f) = Some v \<Longrightarrow> sem_expr env meta rem (Field i f) v"
| V_Meta: "meta m = Some v \<Longrightarrow> sem_expr env meta rem (Metadata m) v"
| V_Remaining: "rem = Some v \<Longrightarrow> sem_expr env meta rem Remaining v"
| V_Add: "sem_expr env meta rem a x \<Longrightarrow> sem_expr env meta rem b y \<Longrightarrow>
    sem_expr env meta rem (Bin OpAdd a b) (x + y)"
| V_Sub: "sem_expr env meta rem a x \<Longrightarrow> sem_expr env meta rem b y \<Longrightarrow>
    sem_expr env meta rem (Bin OpSub a b) (x - y)"
| V_Mul: "sem_expr env meta rem a x \<Longrightarrow> sem_expr env meta rem b y \<Longrightarrow>
    sem_expr env meta rem (Bin OpMul a b) (x * y)"
| V_And: "sem_expr env meta rem a x \<Longrightarrow> sem_expr env meta rem b y \<Longrightarrow>
    sem_expr env meta rem (Bin OpAnd a b) (x AND y)"
| V_Or: "sem_expr env meta rem a x \<Longrightarrow> sem_expr env meta rem b y \<Longrightarrow>
    sem_expr env meta rem (Bin OpOr a b) (x OR y)"
| V_Shl: "sem_expr env meta rem a x \<Longrightarrow> sem_expr env meta rem b y \<Longrightarrow>
    sem_expr env meta rem (Bin OpShl a b) (of_nat (unat x * 2 ^ (unat y mod 64)))"
| V_Shr: "sem_expr env meta rem a x \<Longrightarrow> sem_expr env meta rem b y \<Longrightarrow>
    sem_expr env meta rem (Bin OpShr a b) (of_nat (unat x div 2 ^ (unat y mod 64)))"

inductive_simps sem_expr_simps [simp]:
  "sem_expr env meta rem (Constant k) v" "sem_expr env meta rem (Field i f) v"
  "sem_expr env meta rem (Metadata m) v" "sem_expr env meta rem Remaining v"
  "sem_expr env meta rem (Bin op a b) v"

section \<open>Sequences\<close>

text \<open>Fields, extracts, assigns and region operations run in declared order; a halt ends the sequence.\<close>

inductive sem_seq :: "('x \<Rightarrow> 's \<Rightarrow> 's judged \<Rightarrow> bool) \<Rightarrow> 'x list \<Rightarrow> 's \<Rightarrow> 's judged \<Rightarrow> bool" for J where
  S_Nil: "sem_seq J [] s (Yields s)"
| S_Cons: "J x s (Yields s') \<Longrightarrow> sem_seq J xs s' r \<Longrightarrow> sem_seq J (x # xs) s r"
| S_Halt: "J x s (Halts v) \<Longrightarrow> sem_seq J (x # xs) s (Halts v)"

inductive_cases sem_seq_NilE [elim!]: "sem_seq J [] s r"
inductive_cases sem_seq_ConsE: "sem_seq J (x # xs) s r"

section \<open>Extraction\<close>

inductive sem_field :: "bytes \<Rightarrow> nat \<Rightarrow> string \<Rightarrow> field \<Rightarrow> config \<Rightarrow> config judged \<Rightarrow> bool" for packet len i where
  E_Fixed: "field_width f = Bits n \<Longrightarrow> cf_cursor s + n \<le> bound len (cf_regions s) \<Longrightarrow>
    v = read_value packet (cf_cursor s) n \<Longrightarrow>
    sem_field packet len i f s
      (Yields (s\<lparr>cf_env := (cf_env s)((i, field_name f) \<mapsto> of_nat v), cf_cursor := cf_cursor s + n\<rparr>))"
| E_Fixed_Region: "field_width f = Bits n \<Longrightarrow> cf_cursor s + n > bound len (cf_regions s) \<Longrightarrow>
    cf_regions s = rtop # rs \<Longrightarrow> cf_cursor s + n > rtop \<Longrightarrow>
    sem_field packet len i f s (rejects ''out of region bounds'' s)"
| E_Fixed_Trunc: "field_width f = Bits n \<Longrightarrow> cf_cursor s + n > bound len (cf_regions s) \<Longrightarrow>
    (\<forall>rtop rs. cf_regions s = rtop # rs \<longrightarrow> cf_cursor s + n \<le> rtop) \<Longrightarrow>
    sem_field packet len i f s (rejects ''out of bounds'' s)"
| E_Var: "field_width f = BitLen e \<Longrightarrow> sem_expr (cf_env s) (cf_meta s) None e l \<Longrightarrow>
    cf_cursor s + unat l \<le> bound len (cf_regions s) \<Longrightarrow>
    sem_field packet len i f s (Yields (s\<lparr>cf_cursor := cf_cursor s + unat l\<rparr>))"
| E_Var_Region: "field_width f = BitLen e \<Longrightarrow> sem_expr (cf_env s) (cf_meta s) None e l \<Longrightarrow>
    cf_cursor s + unat l > bound len (cf_regions s) \<Longrightarrow>
    cf_regions s = rtop # rs \<Longrightarrow> cf_cursor s + unat l > rtop \<Longrightarrow>
    sem_field packet len i f s (rejects ''out of region bounds'' s)"
| E_Var_Trunc: "field_width f = BitLen e \<Longrightarrow> sem_expr (cf_env s) (cf_meta s) None e l \<Longrightarrow>
    cf_cursor s + unat l > bound len (cf_regions s) \<Longrightarrow>
    (\<forall>rtop rs. cf_regions s = rtop # rs \<longrightarrow> cf_cursor s + unat l \<le> rtop) \<Longrightarrow>
    sem_field packet len i f s (rejects ''out of bounds'' s)"

text \<open>A lookahead restores the cursor, also when it rejects.\<close>

inductive sem_extract :: "parser \<Rightarrow> bytes \<Rightarrow> nat \<Rightarrow> extract_op \<Rightarrow> config \<Rightarrow> config judged \<Rightarrow> bool"
  for p packet len where
  E_Extract: "find_header_type p (ex_header_type x) = Some h \<Longrightarrow> \<not> ex_lookahead x \<Longrightarrow>
    sem_seq (sem_field packet len (instance_of x)) (ht_fields h) s r \<Longrightarrow> sem_extract p packet len x s r"
| E_Peek: "find_header_type p (ex_header_type x) = Some h \<Longrightarrow> ex_lookahead x \<Longrightarrow>
    sem_seq (sem_field packet len (instance_of x)) (ht_fields h) s (Yields s') \<Longrightarrow>
    sem_extract p packet len x s (Yields (s'\<lparr>cf_cursor := cf_cursor s\<rparr>))"
| E_Peek_Reject: "find_header_type p (ex_header_type x) = Some h \<Longrightarrow> ex_lookahead x \<Longrightarrow>
    sem_seq (sem_field packet len (instance_of x)) (ht_fields h) s (Halts (VReject reason c meta)) \<Longrightarrow>
    sem_extract p packet len x s (Halts (VReject reason (cf_cursor s) meta))"

section \<open>Assigns and regions\<close>

inductive sem_assign :: "parser \<Rightarrow> assign \<Rightarrow> config \<Rightarrow> config judged \<Rightarrow> bool" for p where
  A_Assign: "find_metadata p (as_metadata a) = Some d \<Longrightarrow>
    sem_expr (cf_env s) (cf_meta s) (remaining_value s) (as_value a) v \<Longrightarrow>
    sem_assign p a s
      (Yields (s\<lparr>cf_meta := (cf_meta s)(as_metadata a \<mapsto> of_nat (unat v mod 2 ^ md_bits d))\<rparr>))"

text \<open>An end of 2 ^ 64 or more is the overflow the document checks for.\<close>

inductive sem_region_op :: "nat \<Rightarrow> region_op \<Rightarrow> config \<Rightarrow> config judged \<Rightarrow> bool" for len where
  G_Push: "sem_expr (cf_env s) (cf_meta s) None e l \<Longrightarrow> cf_cursor s + unat l < 2 ^ 64 \<Longrightarrow>
    (\<forall>rtop rs. cf_regions s = rtop # rs \<longrightarrow> cf_cursor s + unat l \<le> rtop) \<Longrightarrow>
    sem_region_op len (Push e) s (Yields (s\<lparr>cf_regions := (cf_cursor s + unat l) # cf_regions s\<rparr>))"
| G_Push_Lie: "sem_expr (cf_env s) (cf_meta s) None e l \<Longrightarrow>
    2 ^ 64 \<le> cf_cursor s + unat l \<or> (\<exists>rtop rs. cf_regions s = rtop # rs \<and> rtop < cf_cursor s + unat l) \<Longrightarrow>
    sem_region_op len (Push e) s (rejects ''region out of bounds'' s)"
| G_Pop: "cf_regions s = rtop # rs \<Longrightarrow> cf_cursor s = rtop \<Longrightarrow>
    sem_region_op len Pop s (Yields (s\<lparr>cf_regions := rs\<rparr>))"
| G_Pop_Trunc: "cf_regions s = rtop # rs \<Longrightarrow> cf_cursor s < rtop \<Longrightarrow> len < rtop \<Longrightarrow>
    sem_region_op len Pop s (rejects ''out of bounds'' s)"
| G_Pop_Short: "cf_regions s = rtop # rs \<Longrightarrow> cf_cursor s < rtop \<Longrightarrow> rtop \<le> len \<Longrightarrow>
    sem_region_op len Pop s (rejects ''region not exhausted'' s)"

section \<open>Transitions\<close>

text \<open>The target, or \<open>None\<close> where no arm matches and there is no default.\<close>

inductive sem_transition :: "transition \<Rightarrow> config \<Rightarrow> target option \<Rightarrow> bool" where
  T_Direct: "sem_transition (Direct t) s (Some t)"
| T_Arm: "list_all2 (sem_expr (cf_env s) (cf_meta s) (remaining_value s)) keys ks \<Longrightarrow>
    i < length arms \<Longrightarrow> list_all2 eval_entry (arm_entries (arms ! i)) ks \<Longrightarrow>
    (\<forall>j<i. \<not> list_all2 eval_entry (arm_entries (arms ! j)) ks) \<Longrightarrow>
    sem_transition (Select keys arms dflt) s (Some (arm_next (arms ! i)))"
| T_Default: "list_all2 (sem_expr (cf_env s) (cf_meta s) (remaining_value s)) keys ks \<Longrightarrow>
    (\<forall>a\<in>set arms. \<not> list_all2 eval_entry (arm_entries a) ks) \<Longrightarrow>
    sem_transition (Select keys arms dflt) s dflt"

section \<open>Steps and runs\<close>

text \<open>The body of a state: its extracts, assigns and region operations.\<close>

inductive sem_body :: "parser \<Rightarrow> bytes \<Rightarrow> nat \<Rightarrow> state \<Rightarrow> config \<Rightarrow> config judged \<Rightarrow> bool"
  for p packet len st where
  B_Extract: "sem_seq (sem_extract p packet len) (st_extracts st) s (Halts v) \<Longrightarrow>
    sem_body p packet len st s (Halts v)"
| B_Body: "sem_seq (sem_extract p packet len) (st_extracts st) s (Yields s1) \<Longrightarrow>
    sem_seq (sem_assign p) (st_assigns st) s1 (Yields s2) \<Longrightarrow>
    sem_seq (sem_region_op len) (st_region_ops st) s2 r \<Longrightarrow> sem_body p packet len st s r"

type_synonym machine_config = "string \<times> config \<times> nat"

inductive sem_step :: "parser \<Rightarrow> bytes \<Rightarrow> nat \<Rightarrow> machine_config \<Rightarrow> machine_config judged \<Rightarrow> bool"
  for p packet len where
  R_Depth: "Suc d > p_max_depth p \<Longrightarrow> sem_step p packet len (q, s, d) (rejects ''max depth exceeded'' s)"
| R_Body: "Suc d \<le> p_max_depth p \<Longrightarrow> find_state p q = Some st \<Longrightarrow>
    sem_body p packet len st s (Halts v) \<Longrightarrow> sem_step p packet len (q, s, d) (Halts v)"
| T_NoMatch: "Suc d \<le> p_max_depth p \<Longrightarrow> find_state p q = Some st \<Longrightarrow>
    sem_body p packet len st s (Yields s') \<Longrightarrow> sem_transition (st_transition st) s' None \<Longrightarrow>
    sem_step p packet len (q, s, d) (rejects ''no matching select arm'' s')"
| T_Goto: "Suc d \<le> p_max_depth p \<Longrightarrow> find_state p q = Some st \<Longrightarrow>
    sem_body p packet len st s (Yields s') \<Longrightarrow> sem_transition (st_transition st) s' (Some (ToState q')) \<Longrightarrow>
    sem_step p packet len (q, s, d) (Yields (q', s', Suc d))"
| T_Accept: "Suc d \<le> p_max_depth p \<Longrightarrow> find_state p q = Some st \<Longrightarrow>
    sem_body p packet len st s (Yields s') \<Longrightarrow> sem_transition (st_transition st) s' (Some Accept) \<Longrightarrow>
    sem_step p packet len (q, s, d) (Halts (VAccept (cf_cursor s') (cf_meta s')))"
| T_Reject: "Suc d \<le> p_max_depth p \<Longrightarrow> find_state p q = Some st \<Longrightarrow>
    sem_body p packet len st s (Yields s') \<Longrightarrow>
    sem_transition (st_transition st) s' (Some (Reject reason sev)) \<Longrightarrow>
    sem_step p packet len (q, s, d) (rejects reason s')"

inductive sem_run :: "parser \<Rightarrow> bytes \<Rightarrow> nat \<Rightarrow> machine_config \<Rightarrow> verdict \<Rightarrow> bool" for p packet len where
  Run_Halt: "sem_step p packet len x (Halts v) \<Longrightarrow> sem_run p packet len x v"
| Run_Step: "sem_step p packet len x (Yields y) \<Longrightarrow> sem_run p packet len y v \<Longrightarrow> sem_run p packet len x v"

definition init_config :: "parser \<Rightarrow> config" where
  "init_config p = \<lparr>cf_cursor = 0, cf_env = Map.empty, cf_meta = init_meta p, cf_regions = []\<rparr>"

definition sem_parses :: "parser \<Rightarrow> bytes \<Rightarrow> nat \<Rightarrow> verdict \<Rightarrow> bool" where
  "sem_parses p packet len v = sem_run p packet len (p_start_state p, init_config p, 0) v"

text \<open>The configurations a run can be in.\<close>

inductive reachable :: "parser \<Rightarrow> bytes \<Rightarrow> nat \<Rightarrow> machine_config \<Rightarrow> bool" for p packet len where
  Reach_Start: "reachable p packet len (p_start_state p, init_config p, 0)"
| Reach_Step: "reachable p packet len x \<Longrightarrow> sem_step p packet len x (Yields y) \<Longrightarrow> reachable p packet len y"

section \<open>At most one rule applies\<close>

text \<open>\<open>functional J\<close>: a judgment has at most one outcome.\<close>

definition functional :: "('x \<Rightarrow> 's \<Rightarrow> 't \<Rightarrow> bool) \<Rightarrow> bool" where
  "functional J \<longleftrightarrow> (\<forall>x s r r'. J x s r \<longrightarrow> J x s r' \<longrightarrow> r = r')"

lemma functionalD: "functional J \<Longrightarrow> J x s r \<Longrightarrow> J x s r' \<Longrightarrow> r = r'"
  unfolding functional_def by blast

lemma sem_expr_functional: "sem_expr env meta rem e v \<Longrightarrow> sem_expr env meta rem e w \<Longrightarrow> v = w"
proof (induction e arbitrary: v w)
  case (Bin op a b)
  then show ?case by (cases op) (auto, (metis+)?)
qed auto

lemma sem_seq_functional: "functional J \<Longrightarrow> functional (sem_seq J)"
proof -
  assume J: "functional J"
  have "sem_seq J xs s r \<Longrightarrow> sem_seq J xs s r' \<Longrightarrow> r = r'" for xs s r r'
  proof (induction xs arbitrary: s)
    case (Cons x xs)
    from Cons.prems show ?case
      by (elim sem_seq_ConsE) (auto dest: functionalD [OF J] intro: Cons.IH)
  qed auto
  then show ?thesis unfolding functional_def by blast
qed

lemma sem_field_functional: "functional (sem_field packet len i)"
proof -
  have "r = r'" if "sem_field packet len i f s r" "sem_field packet len i f s r'" for f s r r'
    using that by (elim sem_field.cases) (auto dest: sem_expr_functional)
  then show ?thesis unfolding functional_def by blast
qed

lemmas sem_fields_functional = sem_seq_functional [OF sem_field_functional]

lemma sem_extract_functional: "functional (sem_extract p packet len)"
proof -
  have "r = r'" if "sem_extract p packet len x s r" "sem_extract p packet len x s r'" for x s r r'
    using that by (elim sem_extract.cases) (auto dest: functionalD [OF sem_fields_functional])
  then show ?thesis unfolding functional_def by blast
qed

lemma sem_assign_functional: "functional (sem_assign p)"
proof -
  have "r = r'" if "sem_assign p a s r" "sem_assign p a s r'" for a s r r'
    using that by (elim sem_assign.cases) (auto dest: sem_expr_functional)
  then show ?thesis unfolding functional_def by blast
qed

lemma sem_region_op_functional: "functional (sem_region_op len)"
proof -
  have "r = r'" if "sem_region_op len op s r" "sem_region_op len op s r'" for op s r r'
    using that by (elim sem_region_op.cases) (auto dest: sem_expr_functional)
  then show ?thesis unfolding functional_def by blast
qed

lemma sem_exprs_functional:
  "list_all2 (sem_expr env meta rem) es vs \<Longrightarrow> list_all2 (sem_expr env meta rem) es ws \<Longrightarrow> vs = ws"
  by (induction es arbitrary: vs ws) (auto simp: list_all2_Cons1 dest: sem_expr_functional)

lemma first_arm_unique:
  assumes "P i" "\<forall>j<i. \<not> P j" "P k" "\<forall>j<k. \<not> P j"
  shows "(i::nat) = k"
  using assms by (metis linorder_neqE_nat)

lemma sem_transition_functional: "functional sem_transition"
proof -
  have "r = r'" if "sem_transition tr s r" "sem_transition tr s r'" for tr s r r'
    using that(1)
  proof cases
    case T_Direct
    then show ?thesis using that(2) by (auto elim: sem_transition.cases)
  next
    case arm: (T_Arm keys ks i arms dflt)
    show ?thesis using that(2)
    proof cases
      case (T_Arm keys' ks' i' arms' dflt')
      then have same: "keys' = keys" "arms' = arms" "ks' = ks"
        using arm sem_exprs_functional by blast+
      have "i = i'"
        by (rule first_arm_unique [of "\<lambda>i. list_all2 eval_entry (arm_entries (arms ! i)) ks"])
          (use arm T_Arm same in auto)
      then show ?thesis using arm T_Arm same by simp
    next
      case (T_Default keys' ks' arms')
      then have "arms' = arms" "ks' = ks" using arm sem_exprs_functional by blast+
      then show ?thesis using arm T_Default by (auto dest: nth_mem)
    qed (use arm in auto)
  next
    case none: (T_Default keys ks arms)
    show ?thesis using that(2)
    proof cases
      case (T_Arm keys' ks' i' arms' dflt')
      then have "arms' = arms" "ks' = ks" using none sem_exprs_functional by blast+
      then show ?thesis using none T_Arm by (auto dest: nth_mem)
    qed (use none in auto)
  qed
  then show ?thesis unfolding functional_def by blast
qed

lemmas sequences_functional =
  sem_seq_functional [OF sem_extract_functional] sem_seq_functional [OF sem_assign_functional]
  sem_seq_functional [OF sem_region_op_functional]

lemma sem_body_functional: "functional (sem_body p packet len)"
proof -
  have "r = r'" if "sem_body p packet len st s r" "sem_body p packet len st s r'" for st s r r'
    using that by (elim sem_body.cases) (auto dest: sequences_functional [THEN functionalD])
  then show ?thesis unfolding functional_def by blast
qed

text \<open>What a step makes of the target its transition chose.\<close>

definition follow :: "target option \<Rightarrow> config \<Rightarrow> nat \<Rightarrow> machine_config judged" where
  "follow t s d =
     (case t of
        None \<Rightarrow> rejects ''no matching select arm'' s
      | Some (ToState q) \<Rightarrow> Yields (q, s, Suc d)
      | Some Accept \<Rightarrow> Halts (VAccept (cf_cursor s) (cf_meta s))
      | Some (Reject reason sev) \<Rightarrow> rejects reason s)"

inductive_cases sem_stepE: "sem_step p packet len (q, s, d) r"

lemma sem_step_Body:
  assumes "Suc d \<le> p_max_depth p" and "find_state p q = Some st"
  shows "sem_step p packet len (q, s, d) r \<longleftrightarrow>
    (\<exists>v. sem_body p packet len st s (Halts v) \<and> r = Halts v) \<or>
    (\<exists>s' t. sem_body p packet len st s (Yields s') \<and> sem_transition (st_transition st) s' t \<and>
       r = follow t s' d)" (is "?L \<longleftrightarrow> ?R")
proof
  assume ?L
  then show ?R
    by (cases rule: sem_stepE) (use assms in \<open>force simp: follow_def\<close>)+
next
  assume ?R
  then show ?L
  proof (elim disjE exE conjE)
    fix s' t
    assume "sem_body p packet len st s (Yields s')" "sem_transition (st_transition st) s' t" "r = follow t s' d"
    then show ?L
      using assms by (cases t) (auto simp: follow_def intro: sem_step.intros split: target.splits)
  qed (use assms in \<open>auto intro: sem_step.intros\<close>)
qed

lemma sem_step_functional: "functional (\<lambda>_. sem_step p packet len)"
proof -
  have "r = r'" if step: "sem_step p packet len (q, s, d) r" "sem_step p packet len (q, s, d) r'" for q s d r r'
  proof (cases "Suc d \<le> p_max_depth p")
    case True
    then obtain st where st: "find_state p q = Some st" using step(1) True by (auto elim: sem_stepE)
    show ?thesis
      using step unfolding sem_step_Body [OF True st]
      by (elim disjE exE conjE)
        (auto dest: functionalD [OF sem_body_functional] functionalD [OF sem_transition_functional])
  next
    case False
    then show ?thesis using step by (auto elim!: sem_stepE)
  qed
  then show ?thesis unfolding functional_def by (metis prod_cases3)
qed

lemma sem_run_functional: "sem_run p packet len x v \<Longrightarrow> sem_run p packet len x w \<Longrightarrow> v = w"
proof (induction rule: sem_run.induct)
  case (Run_Halt x v)
  from Run_Halt.prems show ?case
    using functionalD [OF sem_step_functional Run_Halt.hyps] by (cases rule: sem_run.cases) auto
next
  case (Run_Step x y v)
  from Run_Step.prems show ?case
  proof (cases rule: sem_run.cases)
    case Run_Halt
    then show ?thesis using functionalD [OF sem_step_functional Run_Step.hyps(1)] by auto
  next
    case (Run_Step z)
    then show ?thesis using functionalD [OF sem_step_functional Run_Step.hyps(1)] Run_Step.IH by auto
  qed
qed

end
