(* ===== verification/Ir_Conformance.thy ===== *)
theory Ir_Conformance
  imports Ir_Semantics
begin

text \<open>
  The interpreter conforms to the operational semantics. First the invariants the document states in
  passing, over every reachable configuration; then a simulation, phase by phase: what a phase of the
  interpreter goes on with or stops with is what the judgment of the document yields or halts with.
  The judgments being functional, the converse comes for free.
\<close>

section \<open>Invariants of the semantics\<close>

text \<open>
  The cursor lies within the input and within the innermost region, regions nest, their ends fit in 64
  bits, and metadata is within its width.
\<close>

definition config_ok :: "parser \<Rightarrow> nat \<Rightarrow> config \<Rightarrow> bool" where
  "config_ok p len s \<longleftrightarrow>
     cf_cursor s \<le> len \<and> sorted (cf_cursor s # cf_regions s) \<and> (\<forall>e\<in>set (cf_regions s). e < 2 ^ 64) \<and>
     meta_fits p (cf_meta s)"

definition verdict_ok :: "parser \<Rightarrow> nat \<Rightarrow> verdict \<Rightarrow> bool" where
  "verdict_ok p len v =
     (case v of VAccept c meta \<Rightarrow> c \<le> len \<and> meta_fits p meta | VReject _ c meta \<Rightarrow> c \<le> len \<and> meta_fits p meta)"

fun judged_ok :: "('s \<Rightarrow> bool) \<Rightarrow> (verdict \<Rightarrow> bool) \<Rightarrow> 's judged \<Rightarrow> bool" where
  "judged_ok I V (Yields s) = I s"
| "judged_ok I V (Halts v) = V v"

lemma judged_ok_mono: "judged_ok I V r \<Longrightarrow> (\<And>s. I s \<Longrightarrow> I' s) \<Longrightarrow> judged_ok I' V r"
  by (cases r) auto

lemma rejects_ok: "config_ok p len s \<Longrightarrow> verdict_ok p len (VReject reason (cf_cursor s) (cf_meta s))"
  by (simp add: config_ok_def verdict_ok_def)

text \<open>\<open>keeping I V J\<close>: from a configuration with \<open>I\<close> the judgment yields one, or halts with \<open>V\<close>.\<close>

definition keeping :: "('s \<Rightarrow> bool) \<Rightarrow> (verdict \<Rightarrow> bool) \<Rightarrow> ('x \<Rightarrow> 's \<Rightarrow> 's judged \<Rightarrow> bool) \<Rightarrow> bool" where
  "keeping I V J \<longleftrightarrow> (\<forall>x s r. J x s r \<longrightarrow> I s \<longrightarrow> judged_ok I V r)"

lemma keepingI: "(\<And>x s r. J x s r \<Longrightarrow> I s \<Longrightarrow> judged_ok I V r) \<Longrightarrow> keeping I V J"
  unfolding keeping_def by blast

lemma keepingD: "keeping I V J \<Longrightarrow> J x s r \<Longrightarrow> I s \<Longrightarrow> judged_ok I V r"
  unfolding keeping_def by blast

lemma sem_seq_keeps:
  assumes "keeping I V J"
  shows "keeping I V (sem_seq J)"
proof (rule keepingI)
  show "sem_seq J xs s r \<Longrightarrow> I s \<Longrightarrow> judged_ok I V r" for xs s r
    by (induction rule: sem_seq.induct) (auto dest: keepingD [OF assms])
qed

lemma bound_le: "bound len rs \<le> len" "rs = rtop # rs' \<Longrightarrow> bound len rs \<le> rtop"
  by (auto simp: bound_def split: list.splits)

lemma bound_nested: "c' \<le> bound len rs \<Longrightarrow> sorted rs \<Longrightarrow> sorted (c' # rs)"
  by (cases rs) (auto simp: bound_def)

text \<open>Fields move the cursor forward within the bound, and touch neither regions nor metadata.\<close>

definition field_ok :: "parser \<Rightarrow> nat \<Rightarrow> config \<Rightarrow> config \<Rightarrow> bool" where
  "field_ok p len s0 s \<longleftrightarrow>
     config_ok p len s \<and> cf_cursor s0 \<le> cf_cursor s \<and> cf_regions s = cf_regions s0 \<and> cf_meta s = cf_meta s0"

lemma field_rejects_ok: "field_ok p len s0 s \<Longrightarrow> verdict_ok p len (VReject reason (cf_cursor s) (cf_meta s))"
  unfolding field_ok_def by (blast intro: rejects_ok)

lemma sem_field_keeps: "keeping (field_ok p len s0) (verdict_ok p len) (sem_field packet len i)"
proof (rule keepingI)
  fix f s r
  assume assms: "sem_field packet len i f s r" "field_ok p len s0 s"
  from assms(1) show "judged_ok (field_ok p len s0) (verdict_ok p len) r"
  proof cases
    case (E_Fixed n v)
    then show ?thesis
      using assms(2) bound_le(1) [of len "cf_regions s"] bound_nested [OF E_Fixed(3)]
      by (auto simp: field_ok_def config_ok_def)
  next
    case (E_Var e l)
    then show ?thesis
      using assms(2) bound_le(1) [of len "cf_regions s"] bound_nested [OF E_Var(4)]
      by (auto simp: field_ok_def config_ok_def)
  qed (use field_rejects_ok [OF assms(2)] in simp_all)
qed

lemma sem_extract_keeps: "keeping (config_ok p len) (verdict_ok p len) (sem_extract p packet len)"
proof (rule keepingI)
  fix x s r
  assume step: "sem_extract p packet len x s r" and ok: "config_ok p len s"
  have start: "field_ok p len s s" using ok by (simp add: field_ok_def)
  note fields = keepingD [OF sem_seq_keeps [OF sem_field_keeps] _ start]
  from step show "judged_ok (config_ok p len) (verdict_ok p len) r"
  proof cases
    case (E_Extract h)
    then show ?thesis using fields [OF E_Extract(3)] by (auto intro: judged_ok_mono simp: field_ok_def)
  next
    case (E_Peek h s')
    then show ?thesis using fields [OF E_Peek(4)] ok by (simp add: field_ok_def config_ok_def)
  next
    case (E_Peek_Reject h reason c meta)
    then show ?thesis using fields [OF E_Peek_Reject(4)] ok by (simp add: verdict_ok_def config_ok_def)
  qed
qed

lemma mod_fits: "of_nat (unat (v :: u64) mod 2 ^ n) = take_bit n v"
  by (simp flip: take_bit_eq_mod take_bit_of_nat)

lemma assigned_fits:
  "fits_width d (of_nat (unat (v :: u64) mod 2 ^ md_bits d))"
  unfolding mod_fits fits_width_code by simp

lemma sem_assign_keeps:
  assumes dist: "distinct (map md_name (p_metadata p))"
  shows "keeping (config_ok p len) (verdict_ok p len) (sem_assign p)"
proof (rule keepingI)
  fix a s r
  assume step: "sem_assign p a s r" and ok: "config_ok p len s"
  from step show "judged_ok (config_ok p len) (verdict_ok p len) r"
  proof cases
    case (A_Assign d v)
    have "e = d" if "e \<in> set (p_metadata p)" "md_name e = as_metadata a" for e
      using find_metadataD [OF A_Assign(2)] that dist by (auto simp: distinct_map inj_on_def)
    then show ?thesis
      using A_Assign ok assigned_fits [of d v]
      by (auto simp: config_ok_def meta_fits_def)
  qed
qed

lemma sem_region_op_keeps: "keeping (config_ok p len) (verdict_ok p len) (sem_region_op len)"
proof (rule keepingI)
  fix op s r
  assume step: "sem_region_op len op s r" and ok: "config_ok p len s"
  from step show "judged_ok (config_ok p len) (verdict_ok p len) r"
  proof cases
    case (G_Push e l)
    then show ?thesis using ok by (cases "cf_regions s") (auto simp: config_ok_def)
  qed (use ok in \<open>auto simp: config_ok_def verdict_ok_def\<close>)
qed

lemma sem_body_keeps:
  assumes dist: "distinct (map md_name (p_metadata p))"
  shows "keeping (config_ok p len) (verdict_ok p len) (sem_body p packet len)"
proof (rule keepingI)
  fix st s r
  assume step: "sem_body p packet len st s r" and ok: "config_ok p len s"
  note extracts = keepingD [OF sem_seq_keeps [OF sem_extract_keeps] _ ok]
  from step show "judged_ok (config_ok p len) (verdict_ok p len) r"
  proof cases
    case (B_Extract v)
    then show ?thesis using extracts [OF B_Extract(2)] by simp
  next
    case (B_Body s1 s2)
    have "config_ok p len s1" using extracts [OF B_Body(1)] by simp
    from keepingD [OF sem_seq_keeps [OF sem_assign_keeps [OF dist]] B_Body(2) this]
    have "config_ok p len s2" by simp
    from keepingD [OF sem_seq_keeps [OF sem_region_op_keeps] B_Body(3) this] show ?thesis .
  qed
qed

lemma sem_step_keeps:
  assumes dist: "distinct (map md_name (p_metadata p))"
    and step: "sem_step p packet len (q, s, d) r" and ok: "config_ok p len s"
  shows "judged_ok (\<lambda>(q, s, d). config_ok p len s \<and> d \<le> p_max_depth p) (verdict_ok p len) r"
  using step
proof cases
  case R_Depth
  then show ?thesis using rejects_ok [OF ok] by simp
next
  case (R_Body st v)
  then show ?thesis using keepingD [OF sem_body_keeps [OF dist] R_Body(4) ok] by simp
next
  case (T_NoMatch st s')
  then show ?thesis using keepingD [OF sem_body_keeps [OF dist] T_NoMatch(4) ok] rejects_ok by simp
next
  case (T_Goto st s' q')
  then show ?thesis using keepingD [OF sem_body_keeps [OF dist] T_Goto(4) ok] by simp
next
  case (T_Accept st s')
  then show ?thesis
    using keepingD [OF sem_body_keeps [OF dist] T_Accept(4) ok] by (simp add: config_ok_def verdict_ok_def)
next
  case (T_Reject st s' reason sev)
  then show ?thesis using keepingD [OF sem_body_keeps [OF dist] T_Reject(4) ok] rejects_ok by simp
qed

section \<open>Phases against judgments\<close>

definition config_of :: "machine \<Rightarrow> config" where
  "config_of m =
     \<lparr>cf_cursor = m_cursor m, cf_env = m_env m, cf_meta = m_meta m, cf_regions = m_regions m\<rparr>"

lemma config_of_sel [simp]:
  "cf_cursor (config_of m) = m_cursor m" "cf_env (config_of m) = m_env m"
  "cf_meta (config_of m) = m_meta m" "cf_regions (config_of m) = m_regions m"
  by (simp_all add: config_of_def)

text \<open>The verdict a result of the interpreter stands for.\<close>

definition reports :: "parser \<Rightarrow> parse_result \<Rightarrow> verdict \<Rightarrow> bool" where
  "reports p res v =
     (case v of
        VAccept c meta \<Rightarrow>
          pr_outcome res = Accepted \<and> pr_consumed_bits res = c \<and> pr_metadata res = final_meta p meta
      | VReject reason c meta \<Rightarrow>
          pr_outcome res = Rejected reason \<and> pr_consumed_bits res = c \<and> pr_metadata res = final_meta p meta)"

lemma reports_reject [simp]:
  "reports p (mk_reject p reason cur sev ctx c hs m) (VReject reason c (m_meta m))"
  by (simp add: reports_def mk_reject_def)

definition simulates ::
  "(parse_result \<Rightarrow> verdict \<Rightarrow> bool) \<Rightarrow> ('s judged \<Rightarrow> bool) \<Rightarrow> ('b \<Rightarrow> 's) \<Rightarrow> 'b phase \<Rightarrow> bool" where
  "simulates Q j view ph = keeps (\<lambda>b. j (Yields (view b))) (\<lambda>res. \<exists>v. j (Halts v) \<and> Q res v) ph"

lemma simulates_simps [simp]:
  "simulates Q j view (Inl e)" "simulates Q j view (Inr (Go b)) = j (Yields (view b))"
  "simulates Q j view (Inr (Stop res)) = (\<exists>v. j (Halts v) \<and> Q res v)"
  by (simp_all add: simulates_def)

lemma phase_cases:
  obtains (err) e where "ph = Inl e" | (go) b where "ph = Inr (Go b)" | (stop) res where "ph = Inr (Stop res)"
proof (cases ph)
  case (Inr x)
  then show ?thesis using go stop by (cases x) auto
qed (rule err)

lemma simulates_Cons:
  assumes "simulates Q (J x s) view ph"
    and "\<And>b. J x s (Yields (view b)) \<Longrightarrow> simulates Q (sem_seq J xs (view b)) view (g b)"
  shows "simulates Q (sem_seq J (x # xs) s) view (then_run ph g)"
proof (cases ph g rule: then_run_cases)
  case (go b)
  then have step: "J x s (Yields (view b))" using assms(1) by simp
  from assms(2) [OF this] show ?thesis
    unfolding go(2) simulates_def keeps_def using S_Cons [of J, OF step]
    by (auto split: sum.splits run.splits)
qed (use assms(1) in \<open>auto intro: S_Halt\<close>)

lemma simulates_bind: "(\<And>x. r = Inr x \<Longrightarrow> simulates Q j view (f x)) \<Longrightarrow> simulates Q j view (and_then r f)"
  by (cases r) auto

section \<open>Reads and expressions\<close>

lemma read_value_Suc:
  "read_value packet c (Suc n) = 2 * read_value packet c n + of_bool (bit_at packet (c + n))"
proof -
  have "(\<Sum>i<n. 2 ^ (n - i) * of_bool (bit_at packet (c + i))) =
      (\<Sum>i<n. 2 * (2 ^ (n - 1 - i) * of_bool (bit_at packet (c + i)) :: nat))"
    by (rule sum.cong) (auto simp: power_Suc [symmetric] Suc_diff_Suc simp del: power_Suc)
  then show ?thesis
    unfolding read_value_def sum.lessThan_Suc sum_distrib_left by simp
qed

lemma bits_at_value: "bits_at packet c n = of_nat (read_value packet c n)"
proof (induction n)
  case 0
  then show ?case by (simp add: read_value_def)
next
  case (Suc n)
  have "push_bit 1 w OR of_bool b = 2 * w + of_bool b" for w :: u64 and b
    by (cases b) (simp_all add: or_one_eq push_bit_eq_mult)
  then show ?case using Suc by (simp add: read_value_Suc)
qed

lemma shift_left_value: "push_bit k (x :: u64) = of_nat (unat x * 2 ^ k)"
  by (simp add: push_bit_eq_mult)

lemma shift_right_value: "drop_bit k (x :: u64) = of_nat (unat x div 2 ^ k)"
  by (simp add: word_unat_eq_iff unat_drop_bit_eq unat_of_nat)
    (simp add: drop_bit_eq_div take_bit_nat_eq_self div_le_dividend order.strict_trans1 [OF div_le_dividend])

lemma eval_sem_expr: "eval_expr e env meta rem = Inr v \<Longrightarrow> sem_expr env meta rem e v"
proof (induction e arbitrary: v)
  case (Bin op a b)
  then obtain x y where "eval_expr a env meta rem = Inr x" "eval_expr b env meta rem = Inr y"
    and v: "eval_binop op x y = Inr v"
    by (auto simp: and_then_Inr)
  then have "sem_expr env meta rem a x" "sem_expr env meta rem b y" using Bin.IH by auto
  then show ?case
    using v by (cases op) (auto simp: shift_amount shift_left_value shift_right_value)
qed (auto split: option.splits)

lemma eval_no_remaining: "\<not> contains_remaining e \<Longrightarrow> eval_expr e env meta rem = eval_expr e env meta None"
  by (induction e) simp_all

lemma remaining_config: "remaining_value (config_of m) = remaining_here m"
  by (cases "m_regions m") (simp_all add: remaining_value_def remaining_here_def)

section \<open>Extraction\<close>

lemma bound_config: "read_bound avail m = bound avail (m_regions m)"
  by (simp add: read_bound_def bound_def)

text \<open>A reject inside an extract reports \<open>entry\<close> as consumed when the extract is a lookahead.\<close>

definition reports_from :: "parser \<Rightarrow> extract_op \<Rightarrow> nat \<Rightarrow> parse_result \<Rightarrow> verdict \<Rightarrow> bool" where
  "reports_from p ex entry res v \<longleftrightarrow>
     (\<exists>reason c meta. v = VReject reason c meta \<and>
        reports p res (VReject reason (if ex_lookahead ex then entry else c) meta))"

lemma reports_fail [simp]:
  "reports_from p ex entry (extract_fail p cur ex entry f e parsed m)
     (VReject (oob_reason m e) (m_cursor m) (m_meta m))"
  by (simp add: reports_from_def extract_fail_def reports_def mk_reject_def)

lemma checked_add_commute: "checked_add a b = checked_add b a"
  by (simp add: checked_add_def add.commute)

text \<open>
  The reason of a failing read: an end past the innermost region, or past 64 bits while one is open,
  is structural. With ends below 2 ^ 64 the overflow is past the region end too.
\<close>

lemma extract_fail_simulates:
  assumes ok: "config_ok p len (config_of m)"
    and region: "\<And>rtop rs. m_regions m = rtop # rs \<Longrightarrow> m_cursor m + n > rtop \<Longrightarrow>
      J (rejects ''out of region bounds'' (config_of m))"
    and trunc: "\<forall>rtop rs. m_regions m = rtop # rs \<longrightarrow> m_cursor m + n \<le> rtop \<Longrightarrow>
      J (rejects ''out of bounds'' (config_of m))"
  shows "\<exists>v. J (Halts v) \<and>
    reports_from p ex entry (extract_fail p cur ex entry f (checked_add (m_cursor m) n) parsed m) v"
proof (intro exI conjI, rule_tac [2] reports_fail)
  let ?e = "checked_add (m_cursor m) n"
  show "J (Halts (VReject (oob_reason m ?e) (m_cursor m) (m_meta m)))"
  proof (cases "m_regions m")
    case Nil
    then show ?thesis using trunc by (simp add: oob_reason_def)
  next
    case (Cons rtop rs)
    then have "rtop < 2 ^ 64" using ok by (simp add: config_ok_def)
    then have "oob_reason m ?e = (if rtop < m_cursor m + n then ''out of region bounds'' else ''out of bounds'')"
      using Cons by (auto simp: oob_reason_def checked_add_def)
    then show ?thesis using Cons region trunc by simp
  qed
qed

lemma extract_field_simulates:
  assumes input: "input_ok packet avail" and ok: "config_ok p avail (config_of m)"
  shows "simulates (reports_from p ex entry) (sem_field packet avail (instance_of ex) f (config_of m))
    (config_of \<circ> fst) (extract_field p packet avail cur ex entry f (m, parsed))"
proof (cases "field_width f")
  case (Bits n)
  have len: "read_bound avail m \<le> 8 * length packet" "read_bound avail m < 2 ^ 64"
    using input bound_le(1) [of avail "m_regions m"] by (auto simp: input_ok_def bound_config)
  show ?thesis
  proof (cases "m_cursor m + n \<le> read_bound avail m")
    case True
    then show ?thesis
      using E_Fixed [OF Bits, of "config_of m" avail _ packet "instance_of ex"]
      by (simp add: extract_field_def Bits read_bits_ok [OF len, unfolded bound_config] bound_config config_of_def
          bits_at_value)
  next
    case False
    then have fail: "\<exists>v. sem_field packet avail (instance_of ex) f (config_of m) (Halts v) \<and>
        reports_from p ex entry (extract_fail p cur ex entry f (checked_add (m_cursor m) n) parsed m) v"
      using E_Fixed_Region [OF Bits, where s = "config_of m"] E_Fixed_Trunc [OF Bits, where s = "config_of m"]
      by (intro extract_fail_simulates [OF ok]) (simp_all add: bound_config not_le)
    then show ?thesis using False by (simp add: extract_field_def Bits read_bits_ok [OF len])
  qed
next
  case (BitLen e)
  show ?thesis
  proof (cases "eval_expr e (m_env m) (m_meta m) None")
    case (Inr l)
    then have l: "sem_expr (cf_env (config_of m)) (cf_meta (config_of m)) None e l"
      by (simp add: eval_sem_expr)
    have packet: "read_bound avail m \<le> 8 * length packet" "read_bound avail m < 2 ^ 64"
      using input bound_le(1) [of avail "m_regions m"] by (auto simp: input_ok_def bound_config)
    show ?thesis
    proof (cases "m_cursor m + unat l \<le> read_bound avail m")
      case True
      then have "\<exists>run. read_run packet (m_cursor m) (unat l) = Inr run"
        using packet by (intro read_run_ok) linarith
      moreover have "checked_add (unat l) (m_cursor m) = Some (m_cursor m + unat l)"
        using True packet by (auto simp: checked_add_def add.commute)
      ultimately show ?thesis
        using True E_Var [OF BitLen l, of avail packet "instance_of ex"] Inr
        by (auto simp: extract_field_def BitLen Let_def bound_config config_of_def)
    next
      case False
      then have fail: "\<exists>v. sem_field packet avail (instance_of ex) f (config_of m) (Halts v) \<and>
          reports_from p ex entry (extract_fail p cur ex entry f (checked_add (m_cursor m) (unat l)) parsed m) v"
        using E_Var_Region [OF BitLen l] E_Var_Trunc [OF BitLen l]
        by (intro extract_fail_simulates [OF ok]) (simp_all add: bound_config not_le)
      have "(case checked_add (unat l) (m_cursor m) of None \<Rightarrow> True | Some e \<Rightarrow> e > read_bound avail m)"
        using False by (auto simp: checked_add_def add.commute)
      then show ?thesis
        using fail Inr by (simp add: extract_field_def BitLen Let_def checked_add_commute [of "unat l"])
    qed
  qed (simp add: extract_field_def BitLen)
qed

lemma extract_fields_simulates:
  assumes input: "input_ok packet avail"
  shows "config_ok p avail (config_of m) \<Longrightarrow>
    simulates (reports_from p ex entry)
      (sem_seq (sem_field packet avail (instance_of ex)) fs (config_of m))
      (config_of \<circ> fst) (extract_fields p packet avail cur ex entry fs (m, parsed))"
proof (induction fs arbitrary: m parsed)
  case Nil
  then show ?case by (auto intro: sem_seq.intros)
next
  case (Cons f fs)
  have start: "field_ok p avail (config_of m) (config_of m)" using Cons.prems by (simp add: field_ok_def)
  have next_ok: "config_ok p avail (config_of m')"
    if "sem_field packet avail (instance_of ex) f (config_of m) (Yields (config_of m'))" for m'
    using keepingD [OF sem_field_keeps that start] by (simp add: field_ok_def)
  have rest: "simulates (reports_from p ex entry)
      (sem_seq (sem_field packet avail (instance_of ex)) fs ((config_of \<circ> fst) mp))
      (config_of \<circ> fst) (extract_fields p packet avail cur ex entry fs mp)"
    if "sem_field packet avail (instance_of ex) f (config_of m) (Yields ((config_of \<circ> fst) mp))" for mp
  proof -
    obtain m' parsed' where mp: "mp = (m', parsed')" by force
    have "sem_field packet avail (instance_of ex) f (config_of m) (Yields (config_of m'))"
      using that by (simp add: mp)
    from Cons.IH [OF next_ok [OF this], of parsed'] show ?thesis
      by (simp add: mp comp_def)
  qed
  show ?case
    unfolding extract_fields.simps
    by (rule simulates_Cons [of _ "sem_field packet avail (instance_of ex)", OF extract_field_simulates rest])
      (use input Cons.prems in simp_all)
qed

lemma extract_header_simulates:
  assumes input: "input_ok packet avail" and ok: "config_ok p avail (config_of m)"
  shows "simulates (reports p) (sem_extract p packet avail ex (config_of m)) config_of
    (extract_header p packet avail cur ex m)"
proof (cases "find_header_type p (ex_header_type ex)")
  case None
  then show ?thesis by (simp add: extract_header_def)
next
  case (Some ht)
  let ?parsed = "\<lparr>ph_instance = instance_of ex, ph_header_type = ht_name ht, ph_start_bit = m_cursor m, ph_fields = []\<rparr>"
  have fields: "simulates (reports_from p ex (m_cursor m))
      (sem_seq (sem_field packet avail (instance_of ex)) (ht_fields ht) (config_of m)) (config_of \<circ> fst)
      (extract_fields p packet avail cur ex (m_cursor m) (ht_fields ht) (m, ?parsed))" (is "simulates _ _ _ ?ph")
    using extract_fields_simulates [OF input ok] .
  show ?thesis
  proof (cases ?ph rule: phase_cases)
    case (err e)
    then show ?thesis by (simp add: extract_header_def Some)
  next
    case (go mp)
    obtain m' parsed where mp: "mp = (m', parsed)" by force
    have body: "sem_seq (sem_field packet avail (instance_of ex)) (ht_fields ht) (config_of m)
        (Yields (config_of m'))"
      using fields go by (simp add: mp)
    have "sem_extract p packet avail ex (config_of m)
        (Yields (config_of (m'\<lparr>m_headers := m_headers m' @ [parsed],
           m_cursor := (if ex_lookahead ex then m_cursor m else m_cursor m')\<rparr>)))"
      using E_Extract [OF Some _ body] E_Peek [OF Some _ body]
      by (cases "ex_lookahead ex") (simp_all add: config_of_def)
    then show ?thesis using go by (simp add: extract_header_def Some mp)
  next
    case (stop res)
    then obtain reason c meta where
      halt: "sem_seq (sem_field packet avail (instance_of ex)) (ht_fields ht) (config_of m)
        (Halts (VReject reason c meta))"
      and rep: "reports p res (VReject reason (if ex_lookahead ex then m_cursor m else c) meta)"
      using fields stop by (auto simp: reports_from_def)
    have "sem_extract p packet avail ex (config_of m)
        (Halts (VReject reason (if ex_lookahead ex then m_cursor m else c) meta))"
      using halt E_Extract [OF Some, of packet avail] E_Peek_Reject [OF Some _ halt] by simp
    then show ?thesis using rep stop by (auto simp: extract_header_def Some)
  qed
qed

lemma extract_headers_simulates:
  assumes input: "input_ok packet avail"
  shows "config_ok p avail (config_of m) \<Longrightarrow>
    simulates (reports p) (sem_seq (sem_extract p packet avail) exs (config_of m)) config_of
      (extract_headers p packet avail cur exs m)"
proof (induction exs arbitrary: m)
  case Nil
  then show ?case by (auto intro: sem_seq.intros)
next
  case (Cons ex exs)
  have next_ok: "config_ok p avail (config_of m')"
    if "sem_extract p packet avail ex (config_of m) (Yields (config_of m'))" for m'
    using keepingD [OF sem_extract_keeps that Cons.prems] by simp
  show ?case
    unfolding extract_headers.simps
    by (rule simulates_Cons [of _ "sem_extract p packet avail"])
      (use extract_header_simulates [OF input Cons.prems] Cons.IH [OF next_ok] in simp_all)
qed

section \<open>Assigns and region operations\<close>

lemma masked_value: "v AND (push_bit n 1 - 1) = take_bit n (v :: u64)"
  by (simp add: take_bit_eq_mask mask_eq_exp_minus_1 push_bit_of_1)

lemma run_assign_simulates: "simulates (reports p) (sem_assign p a (config_of m)) config_of (run_assign p a m)"
  unfolding run_assign_def
proof (rule simulates_bind)
  fix v
  assume "eval_expr (as_value a) (m_env m) (m_meta m) (remaining_here m) = Inr v"
  then have v: "sem_expr (cf_env (config_of m)) (cf_meta (config_of m)) (remaining_value (config_of m)) (as_value a) v"
    by (simp add: eval_sem_expr remaining_config)
  show "simulates (reports p) (sem_assign p a (config_of m)) config_of
      (case find_metadata p (as_metadata a) of
         None \<Rightarrow> Inl (UnresolvedAssign (as_metadata a))
       | Some d \<Rightarrow>
           Inr (Go (m\<lparr>m_meta := (m_meta m)(as_metadata a \<mapsto>
             (if md_bits d \<ge> 64 then v else v AND (push_bit (md_bits d) 1 - 1)))\<rparr>)))"
  proof (cases "find_metadata p (as_metadata a)")
    case (Some d)
    have "(if md_bits d \<ge> 64 then v else v AND (push_bit (md_bits d) 1 - 1)) = of_nat (unat v mod 2 ^ md_bits d)"
      unfolding mod_fits masked_value by (simp add: take_bit_word_eq_self)
    then show ?thesis using A_Assign [OF Some v] Some by (simp add: config_of_def)
  qed simp
qed

lemma run_assigns_simulates:
  "simulates (reports p) (sem_seq (sem_assign p) as (config_of m)) config_of (run_assigns p as m)"
proof (induction as arbitrary: m)
  case Nil
  then show ?case by (auto intro: sem_seq.intros)
next
  case (Cons a as)
  then show ?case
    unfolding run_assigns.simps
    by (intro simulates_Cons [of _ "sem_assign p"] run_assign_simulates)
qed

text \<open>Assigns have no failure mode.\<close>

lemma sem_assigns_yield: "sem_seq (sem_assign p) as s (Halts v) \<Longrightarrow> False"
proof (induction as arbitrary: s)
  case (Cons a as)
  from Cons.prems show ?case
    by cases (auto elim: sem_assign.cases dest: Cons.IH)
qed (auto elim: sem_seq.cases)

definition pure_pushes :: "region_op list \<Rightarrow> bool" where
  "pure_pushes ops \<longleftrightarrow> (\<forall>e. Push e \<in> set ops \<longrightarrow> \<not> contains_remaining e)"

lemma run_push_simulates:
  assumes ok: "config_ok p avail (config_of m)" and pure: "\<not> contains_remaining e"
  shows "simulates (reports p) (sem_region_op avail (Push e) (config_of m)) config_of
    (run_region_op p avail cur (Push e) m)"
  unfolding run_region_op_def region_op.case
proof (rule simulates_bind)
  fix l
  assume "eval_expr e (m_env m) (m_meta m) (remaining_here m) = Inr l"
  then have l: "sem_expr (cf_env (config_of m)) (cf_meta (config_of m)) None e l"
    using eval_no_remaining [OF pure, of "m_env m" "m_meta m" "remaining_here m"] by (simp add: eval_sem_expr)
  show "simulates (reports p) (sem_region_op avail (Push e) (config_of m)) config_of
      (case checked_add (unat l) (m_cursor m) of
         None \<Rightarrow> Inr (Stop (plain_reject p ''region out of bounds'' cur SevError m))
       | Some end_bits \<Rightarrow>
           if (case m_regions m of [] \<Rightarrow> False | rtop # _ \<Rightarrow> end_bits > rtop)
           then Inr (Stop (plain_reject p ''region out of bounds'' cur SevError m))
           else Inr (Go (m\<lparr>m_regions := end_bits # m_regions m\<rparr>)))"
  proof (cases "2 ^ 64 \<le> m_cursor m + unat l \<or> (\<exists>rtop rs. m_regions m = rtop # rs \<and> rtop < m_cursor m + unat l)")
    case True
    then have "sem_region_op avail (Push e) (config_of m) (rejects ''region out of bounds'' (config_of m))"
      using G_Push_Lie [OF l] by simp
    then have "\<exists>v. sem_region_op avail (Push e) (config_of m) (Halts v) \<and>
        reports p (plain_reject p ''region out of bounds'' cur SevError m) v"
      using reports_reject by fastforce
    then show ?thesis
      using True by (cases "m_regions m") (auto simp: checked_add_def add.commute)
  next
    case False
    then have "sem_region_op avail (Push e) (config_of m)
        (Yields ((config_of m)\<lparr>cf_regions := (m_cursor m + unat l) # m_regions m\<rparr>))"
      using G_Push [OF l] by (auto simp: not_le not_less)
    then show ?thesis
      using False by (cases "m_regions m") (auto simp: checked_add_def config_of_def add.commute)
  qed
qed

lemma run_pop_simulates:
  assumes ok: "config_ok p avail (config_of m)"
  shows "simulates (reports p) (sem_region_op avail Pop (config_of m)) config_of
    (run_region_op p avail cur Pop m)"
proof (cases "m_regions m")
  case (Cons rtop rs)
  note pop = G_Pop [of "config_of m" rtop rs avail] G_Pop_Trunc [of "config_of m" rtop rs avail]
    G_Pop_Short [of "config_of m" rtop rs avail]
  have "m_cursor m \<le> rtop" using ok Cons by (simp add: config_ok_def)
  then consider "m_cursor m = rtop" | "m_cursor m < rtop" "avail < rtop" | "m_cursor m < rtop" "rtop \<le> avail"
    by linarith
  then show ?thesis
    using pop Cons reports_reject
    by cases (force simp: run_region_op_def config_of_def)+
qed (simp add: run_region_op_def)

lemma run_region_ops_simulates:
  "config_ok p avail (config_of m) \<Longrightarrow> pure_pushes ops \<Longrightarrow>
   simulates (reports p) (sem_seq (sem_region_op avail) ops (config_of m)) config_of
     (run_region_ops p avail cur ops m)"
proof (induction ops arbitrary: m)
  case Nil
  then show ?case by (auto intro: sem_seq.intros)
next
  case (Cons op ops)
  have pure: "pure_pushes ops" using Cons.prems(2) by (simp add: pure_pushes_def)
  have next_ok: "config_ok p avail (config_of m')"
    if "sem_region_op avail op (config_of m) (Yields (config_of m'))" for m'
    using keepingD [OF sem_region_op_keeps that Cons.prems(1)] by simp
  have "simulates (reports p) (sem_region_op avail op (config_of m)) config_of (run_region_op p avail cur op m)"
    using run_push_simulates [OF Cons.prems(1)] run_pop_simulates [OF Cons.prems(1)] Cons.prems(2)
    by (cases op) (simp_all add: pure_pushes_def)
  then show ?case
    unfolding run_region_ops.simps
    by (rule simulates_Cons [of _ "sem_region_op avail"]) (use Cons.IH [OF next_ok pure] in simp)
qed

section \<open>Transitions\<close>

lemma eval_keys_sem:
  "eval_keys keys m = Inr ks \<Longrightarrow>
   list_all2 (sem_expr (m_env m) (m_meta m) (remaining_value (config_of m))) keys ks"
  by (induction keys arbitrary: ks) (auto simp: and_then_Inr remaining_config eval_sem_expr)

lemma arm_matches_entries: "arm_matches ks a \<longleftrightarrow> list_all2 eval_entry (arm_entries a) ks"
  by (auto simp: arm_matches_def dest: list_all2_lengthD)

lemma arm_position_Some:
  "arm_position ks arms k = Some (j, t) \<Longrightarrow>
   \<exists>i < length arms. t = arm_next (arms ! i) \<and> list_all2 eval_entry (arm_entries (arms ! i)) ks \<and>
     (\<forall>j<i. \<not> list_all2 eval_entry (arm_entries (arms ! j)) ks)"
proof (induction arms arbitrary: k)
  case (Cons a arms)
  show ?case
  proof (cases "arm_matches ks a")
    case True
    then show ?thesis using Cons.prems by (intro exI [of _ 0]) (simp add: arm_matches_entries)
  next
    case False
    then obtain i where "i < length arms" "t = arm_next (arms ! i)"
      "list_all2 eval_entry (arm_entries (arms ! i)) ks"
      "\<forall>j<i. \<not> list_all2 eval_entry (arm_entries (arms ! j)) ks"
      using Cons by auto
    then show ?thesis
      using False by (intro exI [of _ "Suc i"]) (auto simp: arm_matches_entries less_Suc_eq_0_disj)
  qed
qed simp

lemma arm_position_None:
  "arm_position ks arms k = None \<Longrightarrow> \<forall>a\<in>set arms. \<not> list_all2 eval_entry (arm_entries a) ks"
  by (induction arms arbitrary: k) (auto simp: arm_matches_entries split: if_splits)

lemma config_of_set_decision [simp]: "config_of (set_decision d m) = config_of m"
  by (simp add: set_decision_def config_of_def)

lemma choose_target_simulates:
  "keeps (\<lambda>(m', t). config_of m' = config_of m \<and> sem_transition tr (config_of m) (Some t))
     (\<lambda>res. sem_transition tr (config_of m) None \<and>
        reports p res (VReject ''no matching select arm'' (m_cursor m) (m_meta m)))
     (choose_target p cur tr m)"
proof (cases tr)
  case (Direct t)
  then show ?thesis by (simp add: choose_target_def T_Direct)
next
  case (Select keys arms dflt)
  show ?thesis
    unfolding choose_target_def Select transition.case
  proof (rule keeps_bind)
    fix ks
    assume "eval_keys keys m = Inr ks"
    then have ks: "list_all2 (sem_expr (cf_env (config_of m)) (cf_meta (config_of m))
        (remaining_value (config_of m))) keys ks"
      by (simp add: eval_keys_sem)
    show "keeps (\<lambda>(m', t). config_of m' = config_of m \<and> sem_transition (Select keys arms dflt) (config_of m) (Some t))
        (\<lambda>res. sem_transition (Select keys arms dflt) (config_of m) None \<and>
          reports p res (VReject ''no matching select arm'' (m_cursor m) (m_meta m)))
        (case arm_position ks arms 0 of
           Some (i, t) \<Rightarrow> Inr (Go (set_decision (DArm i) m, t))
         | None \<Rightarrow>
             (case dflt of
                Some t \<Rightarrow> Inr (Go (set_decision DDefault m, t))
              | None \<Rightarrow>
                  Inr (Stop (plain_reject p ''no matching select arm'' cur SevError (set_decision DDefault m)))))"
    proof (cases "arm_position ks arms 0")
      case None
      have "sem_transition (Select keys arms dflt) (config_of m) dflt"
        using T_Default [OF ks arm_position_None [OF None]] .
      then show ?thesis
        using None by (auto simp: reports_def mk_reject_def set_decision_def split: option.split)
    next
      case (Some it)
      obtain i t where it: "it = (i, t)" by force
      then show ?thesis using Some arm_position_Some [of ks arms 0 i t] T_Arm [OF ks] by auto
    qed
  qed
qed

section \<open>States and runs\<close>

lemma run_target_follows:
  "keeps (\<lambda>(m', q). follow (Some t) (config_of m) d = Yields (q, config_of m', Suc d))
     (\<lambda>res. \<exists>v. follow (Some t) (config_of m) d = Halts v \<and> reports p res v)
     (run_target p cur (m, t))"
  by (cases t) (auto simp: run_target_def follow_def reports_def mk_reject_def)

definition run_body :: "parser \<Rightarrow> bytes \<Rightarrow> nat \<Rightarrow> state \<Rightarrow> machine \<Rightarrow> machine phase" where
  "run_body p packet avail st m =
     then_run (extract_headers p packet avail (st_name st) (st_extracts st) m) (\<lambda>m.
     then_run (run_assigns p (st_assigns st) m) (run_region_ops p avail (st_name st) (st_region_ops st)))"

lemma run_state_body:
  "run_state p packet avail st m =
     then_run (run_body p packet avail st m) (\<lambda>m.
       then_run (choose_target p (st_name st) (st_transition st) m) (run_target p (st_name st)))"
  by (simp add: run_state_def run_body_def then_run_assoc)

lemma run_body_simulates:
  assumes input: "input_ok packet avail" and ok: "config_ok p avail (config_of m)"
    and dist: "distinct (map md_name (p_metadata p))" and pure: "pure_pushes (st_region_ops st)"
  shows "simulates (reports p) (sem_body p packet avail st (config_of m)) config_of (run_body p packet avail st m)"
proof (cases "extract_headers p packet avail (st_name st) (st_extracts st) m" rule: phase_cases)
  case (go m1)
  then have 1: "sem_seq (sem_extract p packet avail) (st_extracts st) (config_of m) (Yields (config_of m1))"
    using extract_headers_simulates [OF input ok, of "st_extracts st" "st_name st"] by simp
  note assigns = run_assigns_simulates [of p "st_assigns st" m1]
  show ?thesis
  proof (cases "run_assigns p (st_assigns st) m1" rule: phase_cases)
    case assigned: (go m2)
    then have 2: "sem_seq (sem_assign p) (st_assigns st) (config_of m1) (Yields (config_of m2))"
      using assigns by simp
    have "config_ok p avail (config_of m1)"
      using keepingD [OF sem_seq_keeps [OF sem_extract_keeps] 1 ok] by simp
    then have "config_ok p avail (config_of m2)"
      using keepingD [OF sem_seq_keeps [OF sem_assign_keeps [OF dist]] 2] by simp
    note ops = run_region_ops_simulates [OF this pure, of "st_name st"]
    show ?thesis
      by (cases "run_region_ops p avail (st_name st) (st_region_ops st) m2" rule: phase_cases)
        (use go assigned ops B_Body [OF 1 2] in \<open>auto simp: run_body_def\<close>)
  next
    case (stop res)
    then show ?thesis using assigns by (auto dest: sem_assigns_yield)
  qed (simp add: go run_body_def)
next
  case (stop res)
  then obtain v where "sem_seq (sem_extract p packet avail) (st_extracts st) (config_of m) (Halts v)" "reports p res v"
    using extract_headers_simulates [OF input ok, of "st_extracts st" "st_name st"] by auto
  then show ?thesis using stop B_Extract [of p packet avail st] by (auto simp: run_body_def)
qed (simp add: run_body_def)

lemma run_state_simulates:
  assumes input: "input_ok packet avail" and ok: "config_ok p avail (config_of m)"
    and dist: "distinct (map md_name (p_metadata p))"
    and st: "find_state p q = Some st" "Suc d \<le> p_max_depth p" and pure: "pure_pushes (st_region_ops st)"
  shows "keeps (\<lambda>(m', q'). sem_step p packet avail (q, config_of m, d) (Yields (q', config_of m', Suc d)))
    (\<lambda>res. \<exists>v. sem_step p packet avail (q, config_of m, d) (Halts v) \<and> reports p res v)
    (run_state p packet avail st m)" (is "keeps ?I ?J _")
proof -
  note step = sem_step_Body [OF st(2,1)] and body = run_body_simulates [OF input ok dist pure]
  show ?thesis
    unfolding run_state_body
  proof (cases "run_body p packet avail st m" rule: phase_cases)
    case body_go: (go m3)
    then have b: "sem_body p packet avail st (config_of m) (Yields (config_of m3))" using body by simp
    let ?choose = "choose_target p (st_name st) (st_transition st) m3"
    note choose = choose_target_simulates [of m3 "st_transition st" p "st_name st"]
    have "keeps ?I ?J (then_run ?choose (run_target p (st_name st)))"
    proof (cases ?choose rule: phase_cases)
      case (go mt)
      obtain m' t where mt: "mt = (m', t)" by force
      have same: "config_of m' = config_of m3"
        and "sem_transition (st_transition st) (config_of m3) (Some t)" using choose go by (auto simp: mt)
      then have "sem_step p packet avail (q, config_of m, d) r" if "r = follow (Some t) (config_of m3) d" for r
        using step b that by blast
      then show ?thesis
        using go run_target_follows [of t m' d p "st_name st"] same
        by (auto simp: mt keeps_def split: sum.splits run.splits)
    next
      case (stop res)
      then have "sem_transition (st_transition st) (config_of m3) None"
        and rep: "reports p res (VReject ''no matching select arm'' (m_cursor m3) (m_meta m3))"
        using choose by auto
      then have "sem_step p packet avail (q, config_of m, d) (follow None (config_of m3) d)" using step b by blast
      then show ?thesis using stop rep by (auto simp: follow_def)
    qed simp
    then show "keeps ?I ?J (then_run (run_body p packet avail st m) (\<lambda>m.
        then_run (choose_target p (st_name st) (st_transition st) m) (run_target p (st_name st))))"
      using body_go by simp
  next
    case (stop res)
    then have "?J res" using body step by (simp, blast)
    then show "keeps ?I ?J (then_run (run_body p packet avail st m) (\<lambda>m.
        then_run (choose_target p (st_name st) (st_transition st) m) (run_target p (st_name st))))"
      using stop by simp
  qed simp
qed

definition pushes_pure :: "parser \<Rightarrow> bool" where
  "pushes_pure p \<longleftrightarrow> (\<forall>st\<in>set (p_states p). pure_pushes (st_region_ops st))"

lemma config_of_enter [simp]: "config_of (enter cur m) = config_of m"
  by (simp add: enter_def config_of_def)

lemma run_loop_conforms:
  assumes input: "input_ok packet avail" and dist: "distinct (map md_name (p_metadata p))" and pure: "pushes_pure p"
  shows "config_ok p avail (config_of m) \<Longrightarrow> run_loop p packet avail d q m = Inr res \<Longrightarrow>
    \<exists>v. sem_run p packet avail (q, config_of m, d) v \<and> reports p res v"
proof (induction "p_max_depth p - d" arbitrary: d q m rule: less_induct)
  case less
  let ?m = "enter q m"
  show ?case
  proof (cases "p_max_depth p \<le> d")
    case True
    then have "res = plain_reject p ''max depth exceeded'' q SevError ?m"
      using less.prems(2) by (simp add: run_loop.simps [of p packet avail d] Let_def)
    then have "reports p res (VReject ''max depth exceeded'' (m_cursor m) (m_meta m))"
      by (simp add: reports_def mk_reject_def enter_def)
    moreover have "sem_step p packet avail (q, config_of m, d) (rejects ''max depth exceeded'' (config_of m))"
      using True by (intro R_Depth) simp
    ultimately show ?thesis using Run_Halt by fastforce
  next
    case False
    then obtain st where st: "find_state p q = Some st"
      using less.prems(2) by (auto simp: run_loop.simps [of p packet avail d] Let_def split: option.splits)
    then have "pure_pushes (st_region_ops st)"
      using pure find_stateD [OF st] by (simp add: pushes_pure_def)
    moreover have "config_ok p avail (config_of ?m)" using less.prems(1) by simp
    ultimately have sim: "keeps
        (\<lambda>(m', q'). sem_step p packet avail (q, config_of m, d) (Yields (q', config_of m', Suc d)))
        (\<lambda>res. \<exists>v. sem_step p packet avail (q, config_of m, d) (Halts v) \<and> reports p res v)
        (run_state p packet avail st ?m)"
      using run_state_simulates [OF input _ dist st, of ?m d] False by simp
    have loop: "(case run_state p packet avail st ?m of Inl e \<Rightarrow> Inl e | Inr (Stop res) \<Rightarrow> Inr res
        | Inr (Go (m', q')) \<Rightarrow> run_loop p packet avail (Suc d) q' m') = Inr res"
      using less.prems(2) False st by (simp add: run_loop.simps [of p packet avail d] Let_def)
    show ?thesis
    proof (cases "run_state p packet avail st ?m" rule: phase_cases)
      case (err e)
      then show ?thesis using loop by simp
    next
      case (go mq)
      obtain m' q' where mq: "mq = (m', q')" by force
      have step: "sem_step p packet avail (q, config_of m, d) (Yields (q', config_of m', Suc d))"
        using sim go by (simp add: mq)
      have "config_ok p avail (config_of m')"
        using sem_step_keeps [OF dist step less.prems(1)] by simp
      moreover have "run_loop p packet avail (Suc d) q' m' = Inr res" using loop go by (simp add: mq)
      moreover have "p_max_depth p - Suc d < p_max_depth p - d" using False by linarith
      ultimately obtain v where "sem_run p packet avail (q', config_of m', Suc d) v" "reports p res v"
        using less.hyps [of "Suc d" m' q'] by blast
      then show ?thesis using Run_Step [OF step] by blast
    next
      case (stop res')
      then show ?thesis using sim loop Run_Halt by fastforce
    qed
  qed
qed

lemma init_config_ok: "meta_decl_ok p \<Longrightarrow> config_ok p len (init_config p)"
  using init_meta_fits by (simp add: config_ok_def init_config_def)

lemma run_bits_conforms:
  assumes "input_ok packet avail" and "meta_decl_ok p" and "pushes_pure p" and "run_bits p packet avail = Inr res"
  shows "\<exists>v. sem_parses p packet avail v \<and> reports p res v"
proof -
  have start: "config_of (init_machine p) = init_config p"
    by (simp add: config_of_def init_machine_def init_config_def)
  have "distinct (map md_name (p_metadata p))" using assms(2) by (simp add: meta_decl_ok_def)
  from run_loop_conforms [OF assms(1) this assms(3)] start init_config_ok [OF assms(2)] assms(4)
  show ?thesis unfolding run_bits_def sem_parses_def by metis
qed

lemma sem_parses_functional: "sem_parses p packet avail v \<Longrightarrow> sem_parses p packet avail w \<Longrightarrow> v = w"
  unfolding sem_parses_def by (rule sem_run_functional)

lemma reachable_ok:
  assumes "meta_decl_ok p"
  shows "reachable p packet len x \<Longrightarrow> config_ok p len (fst (snd x)) \<and> snd (snd x) \<le> p_max_depth p"
proof (induction rule: reachable.induct)
  case Reach_Start
  then show ?case using init_config_ok [OF assms] by simp
next
  case (Reach_Step x y)
  then show ?case
    using sem_step_keeps [of p packet len "fst x" "fst (snd x)" "snd (snd x)" "Yields y"] assms
    by (auto simp: meta_decl_ok_def split: prod.splits)
qed

lemma run_verdict_ok:
  assumes dist: "distinct (map md_name (p_metadata p))"
  shows "sem_run p packet len x v \<Longrightarrow> config_ok p len (fst (snd x)) \<Longrightarrow> verdict_ok p len v"
proof (induction rule: sem_run.induct)
  case (Run_Halt x v)
  then show ?case
    using sem_step_keeps [OF dist, of packet len "fst x" "fst (snd x)" "snd (snd x)" "Halts v"] by simp
next
  case (Run_Step x y v)
  then show ?case
    using sem_step_keeps [OF dist, of packet len "fst x" "fst (snd x)" "snd (snd x)" "Yields y"]
    by (auto split: prod.splits)
qed

end
