(* ===== verification/Pop_Truncation.thy ===== *)
theory Pop_Truncation
  imports Ir_Conformance Codegen_Extract
begin

text \<open>
  The one place where the emitted C reports another reason than the document: a pop that finds its
  region reaching past the input. Here that place is described by the rules of the semantics alone, as a
  reachable configuration in which rule G-Pop-Trunc is the next to apply, and shown to be where the
  interpreter's \<open>pop_truncated\<close> results come from, and no others do.
\<close>

section \<open>The configuration\<close>

text \<open>
  In configuration \<open>(q, s, d)\<close> the extracts and assigns of state \<open>q\<close> succeed, as do the region operations
  before some pop, and that pop stands before the end of a region which reaches past the input.
\<close>

inductive cut_at_pop :: "parser \<Rightarrow> bytes \<Rightarrow> nat \<Rightarrow> machine_config \<Rightarrow> bool" for p packet len where
  Cut: "Suc d \<le> p_max_depth p \<Longrightarrow> find_state p q = Some st \<Longrightarrow>
    sem_seq (sem_extract p packet len) (st_extracts st) s (Yields s1) \<Longrightarrow>
    sem_seq (sem_assign p) (st_assigns st) s1 (Yields s2) \<Longrightarrow>
    st_region_ops st = pre @ Pop # post \<Longrightarrow> sem_seq (sem_region_op len) pre s2 (Yields s3) \<Longrightarrow>
    cf_regions s3 = rtop # rs \<Longrightarrow> cf_cursor s3 < rtop \<Longrightarrow> len < rtop \<Longrightarrow> cut_at_pop p packet len (q, s, d)"

definition truncated_pop :: "parser \<Rightarrow> bytes \<Rightarrow> nat \<Rightarrow> bool" where
  "truncated_pop p packet len \<longleftrightarrow> (\<exists>x. reachable p packet len x \<and> cut_at_pop p packet len x)"

text \<open>Only that rule lets a sequence of region operations halt for the reason.\<close>

definition ops_cut :: "nat \<Rightarrow> region_op list \<Rightarrow> config \<Rightarrow> bool" where
  "ops_cut len ops s \<longleftrightarrow> (\<exists>c meta. sem_seq (sem_region_op len) ops s (Halts (VReject ''out of bounds'' c meta)))"

lemma sem_seq_halts:
  "sem_seq J xs s (Halts v) \<longleftrightarrow> (\<exists>pre x post s'. xs = pre @ x # post \<and> sem_seq J pre s (Yields s') \<and> J x s' (Halts v))"
proof
  show "sem_seq J xs s (Halts v) \<Longrightarrow> \<exists>pre x post s'. xs = pre @ x # post \<and> sem_seq J pre s (Yields s') \<and> J x s' (Halts v)"
  proof (induction xs arbitrary: s)
    case (Cons x xs)
    from Cons.prems show ?case
    proof cases
      case (S_Cons s')
      then obtain pre y post s'' where "xs = pre @ y # post" "sem_seq J pre s' (Yields s'')" "J y s'' (Halts v)"
        using Cons.IH by blast
      then show ?thesis
        using sem_seq.S_Cons [of J x s s' pre, OF S_Cons(1)]
        by (intro exI [of _ "x # pre"] exI [of _ y] exI [of _ post] exI [of _ s'']) simp
    next
      case S_Halt
      then show ?thesis
        by (intro exI [of _ "[]"] exI [of _ x] exI [of _ xs] exI [of _ s]) (simp add: S_Nil)
    qed
  qed auto
  have "sem_seq J (pre @ x # post) s (Halts v)" if "sem_seq J pre s (Yields s')" "J x s' (Halts v)" for pre x post s'
    using that
  proof (induction pre arbitrary: s)
    case Nil
    then show ?case by (auto intro: S_Halt)
  next
    case (Cons y pre)
    from Cons.prems(1) show ?case
    proof cases
      case (S_Cons s1)
      then show ?thesis using Cons.IH [OF _ Cons.prems(2)] sem_seq.S_Cons [of J y s s1] by simp
    qed
  qed
  then show "\<exists>pre x post s'. xs = pre @ x # post \<and> sem_seq J pre s (Yields s') \<and> J x s' (Halts v) \<Longrightarrow>
      sem_seq J xs s (Halts v)" by blast
qed

lemma ops_cut_pop:
  "ops_cut len ops s \<longleftrightarrow>
    (\<exists>pre post s' rtop rs. ops = pre @ Pop # post \<and> sem_seq (sem_region_op len) pre s (Yields s') \<and>
       cf_regions s' = rtop # rs \<and> cf_cursor s' < rtop \<and> len < rtop)"
proof -
  have "(\<exists>c meta. sem_region_op len op s' (Halts (VReject ''out of bounds'' c meta))) \<longleftrightarrow>
      op = Pop \<and> (\<exists>rtop rs. cf_regions s' = rtop # rs \<and> cf_cursor s' < rtop \<and> len < rtop)" for op s'
    by (auto elim: sem_region_op.cases intro: G_Pop_Trunc)
  then show ?thesis unfolding ops_cut_def sem_seq_halts by blast
qed

lemma cut_at_pop_state:
  "cut_at_pop p packet len (q, s, d) \<longleftrightarrow>
    Suc d \<le> p_max_depth p \<and>
    (\<exists>st s1 s2. find_state p q = Some st \<and> sem_seq (sem_extract p packet len) (st_extracts st) s (Yields s1) \<and>
       sem_seq (sem_assign p) (st_assigns st) s1 (Yields s2) \<and> ops_cut len (st_region_ops st) s2)"
  unfolding ops_cut_pop
proof
  assume "cut_at_pop p packet len (q, s, d)"
  then show "Suc d \<le> p_max_depth p \<and>
    (\<exists>st s1 s2. find_state p q = Some st \<and> sem_seq (sem_extract p packet len) (st_extracts st) s (Yields s1) \<and>
       sem_seq (sem_assign p) (st_assigns st) s1 (Yields s2) \<and>
       (\<exists>pre post s' rtop rs. st_region_ops st = pre @ Pop # post \<and> sem_seq (sem_region_op len) pre s2 (Yields s') \<and>
          cf_regions s' = rtop # rs \<and> cf_cursor s' < rtop \<and> len < rtop))"
    by cases blast
qed (blast intro: Cut)

lemma cut_halts: "cut_at_pop p packet len x \<Longrightarrow> \<exists>v. sem_step p packet len x (Halts v)"
proof -
  assume cut: "cut_at_pop p packet len x"
  obtain q s d where x: "x = (q, s, d)" by (cases x)
  with cut show ?thesis unfolding x cut_at_pop_state ops_cut_def by (blast intro: R_Body B_Body)
qed

section \<open>A run halts in one configuration\<close>

lemma reachable_leads:
  assumes halt: "reachable p packet len x" "sem_step p packet len x (Halts v)"
  shows "reachable p packet len y \<Longrightarrow> (\<lambda>x y. sem_step p packet len x (Yields y))\<^sup>*\<^sup>* y x"
proof (induction rule: reachable.induct)
  case Reach_Start
  from halt(1) show ?case by (induction rule: reachable.induct) (rule rtranclp.rtrancl_refl, rule rtranclp.rtrancl_into_rtrancl)
next
  case (Reach_Step y z)
  have "y \<noteq> x" using functionalD [OF sem_step_functional Reach_Step.hyps(2)] halt(2) by blast
  with Reach_Step.IH obtain w where w: "sem_step p packet len y (Yields w)"
    "(\<lambda>x y. sem_step p packet len x (Yields y))\<^sup>*\<^sup>* w x" by (blast elim: converse_rtranclpE)
  then have "w = z" using functionalD [OF sem_step_functional Reach_Step.hyps(2)] by blast
  with w(2) show ?case by simp
qed

lemma reachable_halt_unique:
  assumes "reachable p packet len x" "sem_step p packet len x (Halts v)"
    and "reachable p packet len y" "sem_step p packet len y (Halts w)"
  shows "x = y"
proof -
  have "(\<lambda>x y. sem_step p packet len x (Yields y))\<^sup>*\<^sup>* y x" by (rule reachable_leads [OF assms(1-3)])
  then show ?thesis
    by (cases rule: converse_rtranclpE)
      (use functionalD [OF sem_step_functional assms(4)] in blast)+
qed

section \<open>Where the interpreter's truncations at a pop come from\<close>

lemma fields_untruncated:
  "keeps (\<lambda>_. True) (\<lambda>res. \<not> pop_truncated res) (extract_fields p packet avail cn ex entry fs mp)"
proof (induction fs arbitrary: mp)
  case Nil
  then show ?case by simp
next
  case (Cons f fs)
  have "keeps (\<lambda>_. True) (\<lambda>res. \<not> pop_truncated res) (extract_field p packet avail cn ex entry f mp)"
    by (auto simp: extract_field_def extract_fail_def pop_truncated_def mk_reject_def Let_def
        intro!: keeps_bind split: prod.split field_width.split option.split)
  then show ?case
    unfolding extract_fields.simps by (rule keeps_then) (rule Cons.IH)
qed

lemma headers_untruncated:
  "keeps (\<lambda>_. True) (\<lambda>res. \<not> pop_truncated res) (extract_headers p packet avail cn exs m)"
proof (induction exs arbitrary: m)
  case Nil
  then show ?case by simp
next
  case (Cons ex exs)
  have "keeps (\<lambda>_. True) (\<lambda>res. \<not> pop_truncated res) (extract_header p packet avail cn ex m)"
    by (auto simp: extract_header_def intro!: keeps_then [OF fields_untruncated] split: option.split prod.split)
  then show ?case
    unfolding extract_headers.simps by (rule keeps_then) (rule Cons.IH)
qed

lemma ops_truncated:
  "keeps (\<lambda>_. True) (\<lambda>res. pop_truncated res = (pr_outcome res = Rejected ''out of bounds''))
    (run_region_ops p avail cn ops m)"
proof (induction ops arbitrary: m)
  case Nil
  then show ?case by simp
next
  case (Cons op ops)
  have "keeps (\<lambda>_. True) (\<lambda>res. pop_truncated res = (pr_outcome res = Rejected ''out of bounds''))
      (run_region_op p avail cn op m)"
    by (auto simp: run_region_op_def pop_truncated_def mk_reject_def intro!: keeps_bind
        split: region_op.split option.split list.split)
  then show ?case
    unfolding run_region_ops.simps by (rule keeps_then) (rule Cons.IH)
qed

lemma choice_untruncated:
  assumes "\<forall>r sev. Reject r sev \<in> set (targets_of tr) \<longrightarrow> r \<noteq> ''out of bounds''"
  shows "keeps (\<lambda>_. True) (\<lambda>res. \<not> pop_truncated res) (then_run (choose_target p cn tr m) (run_target p cn))"
proof (rule keeps_then [where I = "\<lambda>(m, t). t \<in> set (targets_of tr)"])
  show "keeps (\<lambda>(m, t). t \<in> set (targets_of tr)) (\<lambda>res. \<not> pop_truncated res) (choose_target p cn tr m)"
    by (auto simp: choose_target_def pop_truncated_def mk_reject_def intro!: keeps_bind
        dest: arm_position_target split: transition.split option.split prod.split)
next
  fix mt :: "machine \<times> target"
  assume "case mt of (m, t) \<Rightarrow> t \<in> set (targets_of tr)"
  then show "keeps (\<lambda>_. True) (\<lambda>res. \<not> pop_truncated res) (run_target p cn mt)"
    using assms by (cases mt) (auto simp: run_target_def pop_truncated_def mk_reject_def split: target.split)
qed

lemma run_state_cut:
  assumes input: "input_ok packet avail" and ok: "config_ok p avail (config_of m)"
    and dist: "distinct (map md_name (p_metadata p))"
    and st: "find_state p q = Some st" "Suc d \<le> p_max_depth p" and pure: "pure_pushes (st_region_ops st)"
    and authored: "\<forall>r sev. Reject r sev \<in> set (targets_of (st_transition st)) \<longrightarrow> r \<noteq> ''out of bounds''"
    and stop: "run_state p packet avail st m = Inr (Stop res)"
  shows "pop_truncated res = cut_at_pop p packet avail (q, config_of m, d)"
proof -
  have cut: "cut_at_pop p packet avail (q, config_of m, d) \<longleftrightarrow>
      (\<exists>s1 s2. sem_seq (sem_extract p packet avail) (st_extracts st) (config_of m) (Yields s1) \<and>
         sem_seq (sem_assign p) (st_assigns st) s1 (Yields s2) \<and> ops_cut avail (st_region_ops st) s2)"
    using st by (simp add: cut_at_pop_state)
  note functional = sequences_functional [THEN functionalD]
  show ?thesis
  proof (cases "extract_headers p packet avail (st_name st) (st_extracts st) m" rule: phase_cases)
    case (stop r)
    then obtain v where v: "sem_seq (sem_extract p packet avail) (st_extracts st) (config_of m) (Halts v)"
      using extract_headers_simulates [OF input ok, of "st_extracts st" "st_name st"] by auto
    have "\<not> pop_truncated res"
      using headers_untruncated [of p packet avail "st_name st" "st_extracts st" m] stop assms(8)
      by (simp add: run_state_def)
    moreover have "\<not> cut_at_pop p packet avail (q, config_of m, d)"
      unfolding cut using functional(1) [OF v] by blast
    ultimately show ?thesis by simp
  next
    case ext: (go m1)
    then have 1: "sem_seq (sem_extract p packet avail) (st_extracts st) (config_of m) (Yields (config_of m1))"
      using extract_headers_simulates [OF input ok, of "st_extracts st" "st_name st"] by simp
    then have ok1: "config_ok p avail (config_of m1)"
      using keepingD [OF sem_seq_keeps [OF sem_extract_keeps] _ ok] by force
    show ?thesis
    proof (cases "run_assigns p (st_assigns st) m1" rule: phase_cases)
      case (stop r)
      then show ?thesis using run_assigns_simulates [of p "st_assigns st" m1] by (auto dest: sem_assigns_yield)
    next
      case asg: (go m2)
      then have 2: "sem_seq (sem_assign p) (st_assigns st) (config_of m1) (Yields (config_of m2))"
        using run_assigns_simulates [of p "st_assigns st" m1] by simp
      then have ok2: "config_ok p avail (config_of m2)"
        using keepingD [OF sem_seq_keeps [OF sem_assign_keeps [OF dist]] _ ok1] by force
      have cut2: "cut_at_pop p packet avail (q, config_of m, d) \<longleftrightarrow> ops_cut avail (st_region_ops st) (config_of m2)"
        unfolding cut using 1 2 functional(1) [OF 1] functional(2) [OF 2] by blast
      note ops = run_region_ops_simulates [OF ok2 pure, of "st_name st"]
        ops_truncated [of p avail "st_name st" "st_region_ops st" m2]
      show ?thesis
      proof (cases "run_region_ops p avail (st_name st) (st_region_ops st) m2" rule: phase_cases)
        case (stop r)
        then have "r = res" using ext asg assms(8) by (simp add: run_state_def)
        then obtain v where v: "sem_seq (sem_region_op avail) (st_region_ops st) (config_of m2) (Halts v)" "reports p res v"
          using ops(1) stop by auto
        have "ops_cut avail (st_region_ops st) (config_of m2) \<longleftrightarrow> pr_outcome res = Rejected ''out of bounds''"
          unfolding ops_cut_def using v functional(3) [OF v(1)]
          by (auto simp: reports_def split: verdict.splits)
        then show ?thesis using cut2 ops(2) stop \<open>r = res\<close> by simp
      next
        case (go m3)
        then have 3: "sem_seq (sem_region_op avail) (st_region_ops st) (config_of m2) (Yields (config_of m3))"
          using ops(1) by simp
        have "\<not> ops_cut avail (st_region_ops st) (config_of m2)"
          unfolding ops_cut_def using functional(3) [OF 3] by blast
        moreover have "\<not> pop_truncated res"
          using choice_untruncated [OF authored, of p "st_name st" m3] ext asg go assms(8) by (simp add: run_state_def)
        ultimately show ?thesis using cut2 by simp
      qed (use ext asg assms(8) in \<open>simp add: run_state_def\<close>)
    qed (use ext assms(8) in \<open>simp add: run_state_def\<close>)
  qed (use assms(8) in \<open>simp add: run_state_def\<close>)
qed

section \<open>A whole run\<close>

lemma run_loop_cut:
  assumes input: "input_ok packet avail" and dist: "distinct (map md_name (p_metadata p))"
    and pure: "pushes_pure p" and authored: "''out of bounds'' \<notin> set (reject_reasons p)"
  shows "config_ok p avail (config_of m) \<Longrightarrow> run_loop p packet avail d q m = Inr res \<Longrightarrow>
    reachable p packet avail (q, config_of m, d) \<Longrightarrow>
    \<exists>x v. reachable p packet avail x \<and> sem_step p packet avail x (Halts v) \<and>
      pop_truncated res = cut_at_pop p packet avail x"
proof (induction "p_max_depth p - d" arbitrary: d q m rule: less_induct)
  case less
  let ?m = "enter q m"
  show ?case
  proof (cases "p_max_depth p \<le> d")
    case True
    then have "res = plain_reject p ''max depth exceeded'' q SevError ?m"
      using less.prems(2) by (simp add: run_loop.simps [of p packet avail d] Let_def)
    then have "\<not> pop_truncated res" by (simp add: pop_truncated_def mk_reject_def)
    moreover have "\<not> cut_at_pop p packet avail (q, config_of m, d)" using True by (simp add: cut_at_pop_state)
    moreover have "sem_step p packet avail (q, config_of m, d) (rejects ''max depth exceeded'' (config_of m))"
      using True by (intro R_Depth) simp
    ultimately show ?thesis using less.prems(3) by blast
  next
    case False
    then obtain st where st: "find_state p q = Some st"
      using less.prems(2) by (auto simp: run_loop.simps [of p packet avail d] Let_def split: option.splits)
    have mem: "st \<in> set (p_states p)" using find_stateD [OF st] by simp
    then have pushes: "pure_pushes (st_region_ops st)" using pure by (simp add: pushes_pure_def)
    have ok: "config_ok p avail (config_of ?m)" using less.prems(1) by simp
    have depth: "Suc d \<le> p_max_depth p" using False by simp
    have rejects: "\<forall>r sev. Reject r sev \<in> set (targets_of (st_transition st)) \<longrightarrow> r \<noteq> ''out of bounds''"
      using authored mem by (force simp: reject_reasons_def)
    note sim = run_state_simulates [OF input ok dist st depth pushes]
    have loop: "(case run_state p packet avail st ?m of Inl e \<Rightarrow> Inl e | Inr (Stop res) \<Rightarrow> Inr res
        | Inr (Go (m', q')) \<Rightarrow> run_loop p packet avail (Suc d) q' m') = Inr res"
      using less.prems(2) False st by (simp add: run_loop.simps [of p packet avail d] Let_def)
    show ?thesis
    proof (cases "run_state p packet avail st ?m" rule: phase_cases)
      case (err e)
      then show ?thesis using loop by simp
    next
      case (go mq)
      obtain m' q' where mq: "mq = (m', q')" by force
      have step: "sem_step p packet avail (q, config_of m, d) (Yields (q', config_of m', Suc d))"
        using sim go by (simp add: mq)
      have "config_ok p avail (config_of m')"
        using sem_step_keeps [OF dist step less.prems(1)] by simp
      moreover have "run_loop p packet avail (Suc d) q' m' = Inr res" using loop go by (simp add: mq)
      moreover have "p_max_depth p - Suc d < p_max_depth p - d" using False by linarith
      moreover have "reachable p packet avail (q', config_of m', Suc d)"
        using Reach_Step [OF less.prems(3) step] .
      ultimately show ?thesis using less.hyps [of "Suc d" m' q'] by blast
    next
      case (stop res')
      then have "run_state p packet avail st ?m = Inr (Stop res)" using loop by simp
      from run_state_cut [OF input ok dist st depth pushes rejects this] sim this less.prems(3)
      show ?thesis by auto
    qed
  qed
qed

lemma run_bits_cut:
  assumes "input_ok packet avail" and "meta_decl_ok p" and "pushes_pure p"
    and "''out of bounds'' \<notin> set (reject_reasons p)" and "run_bits p packet avail = Inr res"
  shows "pop_truncated res = truncated_pop p packet avail"
proof -
  have start: "config_of (init_machine p) = init_config p"
    by (simp add: config_of_def init_machine_def init_config_def)
  have "distinct (map md_name (p_metadata p))" using assms(2) by (simp add: meta_decl_ok_def)
  from run_loop_cut [OF assms(1) this assms(3,4), of "init_machine p" 0 "p_start_state p" res]
  obtain x v where x: "reachable p packet avail x" "sem_step p packet avail x (Halts v)"
    "pop_truncated res = cut_at_pop p packet avail x"
    using start init_config_ok [OF assms(2)] assms(5) Reach_Start [of p packet avail] by (auto simp: run_bits_def)
  have "cut_at_pop p packet avail x" if "reachable p packet avail y" "cut_at_pop p packet avail y" for y
    using reachable_halt_unique [OF x(1,2) that(1)] cut_halts that(2) by blast
  then show ?thesis using x unfolding truncated_pop_def by blast
qed

end
