(* ===== verification/Semantics_Properties.thy ===== *)
theory Semantics_Properties
  imports Pop_Truncation Ir_Properties Codegen_Validated C_Layout
begin

text \<open>
  What the documented semantics gives for descriptions the validator accepts: it assigns exactly one
  verdict to every input, the interpreter reports it, and its configurations keep the invariants the
  document relies on. \<open>c_conforms\<close> says when a C result reports a verdict; the root theory joins it
  with the emitter.
\<close>

section \<open>Accepted descriptions\<close>

lemma init_fits:
  assumes "md_bits m < 64 \<longrightarrow> md_init m < push_bit (md_bits m) 1"
  shows "fits_width m (md_init m)"
proof (cases "md_bits m < 64")
  case True
  then have "(2 :: nat) ^ md_bits m < 2 ^ 64" by (intro power_strict_increasing) simp_all
  then have "unat (of_nat (2 ^ md_bits m) :: u64) = 2 ^ md_bits m" by (subst unat_of_nat) simp
  then have "unat (push_bit (md_bits m) (1 :: u64)) = 2 ^ md_bits m" by (simp add: push_bit_eq_mult)
  then show ?thesis using assms True by (simp add: fits_width_def word_less_nat_alt)
qed (simp add: fits_width_def)

lemma accepted_meta: "accepted l p \<Longrightarrow> meta_decl_ok p"
  using init_fits by (auto simp: accepted_def meta_decl_ok_def list_all_iff)

lemma accepted_pure: "accepted l p \<Longrightarrow> pushes_pure p"
  by (auto simp: accepted_def pushes_pure_def pure_pushes_def state_declared_def)

lemma validated_conforms:
  assumes valid: "validate_with_limits l p = Some []" and "w7_complete p" and input: "input_ok packet avail"
  shows "\<exists>res v. run_bits p packet avail = Inr res \<and> sem_parses p packet avail v \<and> reports p res v"
proof (rule validate_accepted [OF valid])
  fix depth
  assume acc: "accepted l p" and d: "definite_extraction_errors p = []" "depth_inv p depth []"
  have "wf_within p (reached p depth) (entry_known p) (depth_of depth)"
    using validated_wf acc d assms(2) by blast
  then obtain res where run: "run_bits p packet avail = Inr res"
    using run_bits_total_within input unfolding input_ok_def by blast
  with run_bits_conforms [OF input accepted_meta [OF acc] accepted_pure [OF acc] run] show ?thesis by blast
qed

lemma sem_parses_verdict_ok:
  "meta_decl_ok p \<Longrightarrow> sem_parses p packet len v \<Longrightarrow> verdict_ok p len v"
  using run_verdict_ok [of p packet len "(p_start_state p, init_config p, 0)" v] init_config_ok [of p len]
  by (simp add: sem_parses_def meta_decl_ok_def)

section \<open>The C result against a verdict\<close>

text \<open>
  The C reports a verdict: outcome, consumed bits, metadata, and the number of the reason. The number is
  that of ``region not exhausted'' where, and only where, the run ends at a pop of a region that reaches
  past the input, for which the document says ``out of bounds''.
\<close>

definition c_conforms ::
  "parser \<Rightarrow> bytes \<Rightarrow> nat \<Rightarrow> (slot \<Rightarrow> 'a pk_result_scheme \<Rightarrow> u64) \<Rightarrow> verdict \<Rightarrow> int \<Rightarrow> 'a pk_result_scheme \<Rightarrow> bool"
where
  "c_conforms p packet len get v ret r \<longleftrightarrow>
     (case v of
        VAccept c meta \<Rightarrow>
          ret = 0 \<and> outcome r = 0 \<and> reason r = PK_R_NONE \<and> unat (consumed_bits r) = c \<and>
          (\<forall>m\<in>set (p_metadata p). meta (md_name m) = Some (get (SMeta (md_name m)) r))
      | VReject why c meta \<Rightarrow>
          ret = 1 \<and> outcome r = 1 \<and> unat (consumed_bits r) = c \<and>
          reason r = (if truncated_pop p packet len then PK_R_REGION_NOT_EXHAUSTED else reason_number p why) \<and>
          (\<forall>m\<in>set (p_metadata p). meta (md_name m) = Some (get (SMeta (md_name m)) r)))"

lemma agrees_conforms:
  assumes agrees: "result_agrees p get slots res ret r" and rep: "reports p res v" and ok: "verdict_ok p len v"
    and cut: "pop_truncated res = truncated_pop p packet len"
  shows "c_conforms p packet len get v ret r"
proof -
  have metas: "meta (md_name m) = Some (get (SMeta (md_name m)) r)"
    if "pr_metadata res = final_meta p meta" "meta_fits p meta" "m \<in> set (p_metadata p)" for meta m
    using agrees that by (fastforce simp: result_agrees_def final_meta_def meta_fits_def)
  show ?thesis
  proof (cases v)
    case (VAccept c meta)
    then show ?thesis
      using agrees rep ok metas by (simp add: c_conforms_def reports_def verdict_ok_def result_agrees_def expected_reason_def)
  next
    case (VReject why c meta)
    then have "reason r = (if truncated_pop p packet len then PK_R_REGION_NOT_EXHAUSTED else reason_number p why)"
      using agrees rep cut by (auto simp: reports_def result_agrees_def expected_reason_def)
    then show ?thesis
      using VReject agrees rep ok metas by (auto simp: c_conforms_def reports_def verdict_ok_def result_agrees_def)
  qed
qed

section \<open>Claims\<close>

text \<open>
  C2: The reference interpreter implements the documented operational semantics. For every description
  the validator accepts (and that meets the rest of rule W7) and every input, the rules derive exactly
  one verdict, and the interpreter returns a result with that outcome, reason, consumed length and
  final metadata. In particular the documented machine never sticks and never has two applicable
  rules.
\<close>

theorem interp_conforms:
  assumes "validate_with_limits l p = Some []" and "w7_complete p"
    and "avail \<le> 8 * length packet" and "avail < 2 ^ 64"
  shows "(\<exists>!v. sem_parses p packet avail v) \<and>
    (\<exists>res v. run_bits p packet avail = Inr res \<and> sem_parses p packet avail v \<and> reports p res v)"
proof -
  have "input_ok packet avail" using assms(3,4) by (simp add: input_ok_def)
  from validated_conforms [OF assms(1,2) this] show ?thesis using sem_parses_functional by blast
qed

theorem interp_conforms_witness:
  "\<exists>res v. run_bits one_byte [0, 9] 16 = Inr res \<and> sem_parses one_byte [0, 9] 16 v \<and> reports one_byte res v"
  using interp_conforms [of default_limits one_byte 16 "[0, 9]"] one_byte_valid by simp

text \<open>
  C24: What the document states in passing about every reachable configuration holds: the cursor never
  passes the end of the input nor the end of the innermost region (so \<open>remaining()\<close> never goes
  negative and a pop never meets a cursor beyond its end), regions nest, metadata stays below its
  declared width, and no more states are entered than the depth budget allows.
\<close>

theorem semantics_invariants:
  assumes "reachable p packet len (q, s, d)" and "meta_decl_ok p"
  shows "d \<le> p_max_depth p \<and> cf_cursor s \<le> len \<and> sorted (cf_cursor s # cf_regions s) \<and>
    (\<forall>m\<in>set (p_metadata p). \<exists>v. cf_meta s (md_name m) = Some v \<and> fits_width m v)"
  using reachable_ok [OF assms(2,1)] by (simp add: config_ok_def meta_fits_def)

theorem semantics_invariants_witness:
  "\<exists>s. reachable one_byte [0, 9] 16 (''s'', s, 0) \<and> cf_cursor s \<le> 16 \<and> sorted (cf_cursor s # cf_regions s)"
proof -
  have start: "reachable one_byte [0, 9] 16 (''s'', init_config one_byte, 0)"
    using Reach_Start [of one_byte "[0, 9]" 16] by (simp add: one_byte_def)
  have "meta_decl_ok one_byte" using one_byte_run by simp
  from semantics_invariants [OF start this] start show ?thesis by blast
qed

lemma reachable_run:
  "reachable p packet len x \<Longrightarrow> sem_parses p packet len v \<Longrightarrow> sem_run p packet len x v"
proof (induction rule: reachable.induct)
  case Reach_Start
  then show ?case by (simp add: sem_parses_def)
next
  case (Reach_Step x y)
  from Reach_Step.IH [OF Reach_Step.prems] show ?case
  proof (cases rule: sem_run.cases)
    case Run_Halt
    then show ?thesis using functionalD [OF sem_step_functional Reach_Step.hyps(2)] by auto
  next
    case (Run_Step z)
    then show ?thesis using functionalD [OF sem_step_functional Reach_Step.hyps(2)] by auto
  qed
qed

text \<open>
  C4: Progress, the first theorem of the document's section 5, at every configuration a run can be in:
  for a validated description that meets the rest of rule W7 and any input, exactly one result of a
  step is derivable in every reachable configuration, so the machine never sticks and never chooses,
  and from there the run does end, in the one verdict of the whole input.
\<close>

theorem semantics_progress:
  assumes valid: "validate_with_limits l p = Some []" "w7_complete p"
    and packet: "avail \<le> 8 * length packet" "avail < 2 ^ 64"
    and reached: "reachable p packet avail x"
  shows "(\<exists>!r. sem_step p packet avail x r) \<and>
    (\<exists>v. sem_parses p packet avail v \<and> (\<forall>w. sem_run p packet avail x w = (w = v)))"
proof -
  have "input_ok packet avail" using packet by (simp add: input_ok_def)
  then obtain v where v: "sem_parses p packet avail v" using validated_conforms [OF valid] by blast
  note run = reachable_run [OF reached v]
  then have "\<exists>r. sem_step p packet avail x r" by (cases rule: sem_run.cases) auto
  then have "\<exists>!r. sem_step p packet avail x r" using functionalD [OF sem_step_functional] by blast
  then show ?thesis using v run sem_run_functional by blast
qed

theorem semantics_progress_witness:
  "(\<exists>!r. sem_step one_byte [0, 9] 16 (''s'', init_config one_byte, 0) r) \<and>
   (\<exists>v. sem_parses one_byte [0, 9] 16 v \<and>
     (\<forall>w. sem_run one_byte [0, 9] 16 (''s'', init_config one_byte, 0) w = (w = v)))"
proof -
  have start: "reachable one_byte [0, 9] 16 (''s'', init_config one_byte, 0)"
    using Reach_Start [of one_byte "[0, 9]" 16] by (simp add: one_byte_def)
  show ?thesis using semantics_progress [of default_limits one_byte 16 "[0, 9]", OF _ _ _ _ start] one_byte_valid by simp
qed

end
