(* ===== verification/Codegen_Demand.thy ===== *)
theory Codegen_Demand
  imports Codegen_Validated Ir_Properties Validator_Gaps
begin

text \<open>
  The capability report of codegen/mod.rs: \<open>expr_const\<close>, \<open>misaligned_var_runs\<close> and \<open>demand_report\<close>, the
  facts \<open>pakeles lint\<close> prints and on which the C harness and the Lua backend refuse a description.
  The backends that are not refused print a run of bits as whole bytes from \<open>bit_offset / 8\<close>, so an
  empty list has to mean that every run the interpreter reports is aligned and a number of bytes.
\<close>

section \<open>codegen/mod.rs\<close>

primrec expr_const :: "expr \<Rightarrow> u64 option" where
  "expr_const (Constant v) = Some v"
| "expr_const (Field i f) = None"
| "expr_const (Metadata m) = None"
| "expr_const Remaining = None"
| "expr_const (Bin op a b) =
     (case expr_const a of
        None \<Rightarrow> None
      | Some l \<Rightarrow>
          (case expr_const b of
             None \<Rightarrow> None
           | Some r \<Rightarrow>
               (case op of
                  OpAdd \<Rightarrow> Some (l + r)
                | OpSub \<Rightarrow> Some (l - r)
                | OpMul \<Rightarrow> Some (l * r)
                | OpShl \<Rightarrow> Some (push_bit (unat (ucast r :: u32) mod 64) l)
                | OpShr \<Rightarrow> Some (drop_bit (unat (ucast r :: u32) mod 64) l)
                | OpAnd \<Rightarrow> Some (l AND r)
                | OpOr \<Rightarrow> Some (l OR r)
                | OpUnspecified \<Rightarrow> None)))"

definition has_region_ops :: "parser \<Rightarrow> bool" where
  "has_region_ops p = list_ex (\<lambda>s. st_region_ops s \<noteq> []) (p_states p)"

text \<open>The condition under which the inner loop pushes the label of a field.\<close>

definition misaligned_run :: "parser \<Rightarrow> state \<Rightarrow> extract_op \<Rightarrow> field \<Rightarrow> bool" where
  "misaligned_run p s ex f =
     (case field_width f of
        Bits _ \<Rightarrow> False
      | BitLen e \<Rightarrow>
          \<not> (field_alignment p (emitter_alignment p) s (instance_of ex) (field_name f) = Some 0) \<or>
          \<not> (expr_mod8 e = Some 0))"

definition run_label :: "state \<Rightarrow> extract_op \<Rightarrow> field \<Rightarrow> string" where
  "run_label s ex f = st_name s @ ''/'' @ instance_of ex @ ''.'' @ field_name f"

definition misaligned_var_runs :: "parser \<Rightarrow> string list" where
  "misaligned_var_runs p =
     concat (map (\<lambda>s. concat (map (\<lambda>ex.
       case find_header_type p (ex_header_type ex) of
         None \<Rightarrow> []
       | Some ht \<Rightarrow> map (run_label s ex) (filter (misaligned_run p s ex) (ht_fields ht)))
       (st_extracts s))) (p_states p))"

text \<open>
  The three entries of the report without their English sentences. \<open>consumed\<close> are the instances some
  state extracts without lookahead.
\<close>

datatype demand = SizedRegions | OddHeaders "(string \<times> u32) list" | MisalignedRuns "string list"

definition consumed :: "parser \<Rightarrow> string set" where
  "consumed p = set (concat (map (\<lambda>s. map instance_of (filter (\<lambda>ex. \<not> ex_lookahead ex) (st_extracts s)))
     (p_states p)))"

definition fixed_bits :: "header_type \<Rightarrow> u32" where
  "fixed_bits ht = sum_list (map (\<lambda>f. case field_width f of Bits n \<Rightarrow> of_nat n | BitLen _ \<Rightarrow> 0) (ht_fields ht))"

definition odd_headers :: "parser \<Rightarrow> (string \<times> u32) list" where
  "odd_headers p =
     map (\<lambda>ht. (ht_name ht, fixed_bits ht))
       (filter (\<lambda>ht. list_all (\<lambda>f. case field_width f of Bits _ \<Rightarrow> True | BitLen _ \<Rightarrow> False) (ht_fields ht) \<and>
           fixed_bits ht mod 8 \<noteq> 0 \<and> ht_name ht \<in> consumed p) (p_header_types p))"

definition demand_report :: "parser \<Rightarrow> demand list" where
  "demand_report p =
     (if has_region_ops p then [SizedRegions] else []) @
     (if odd_headers p \<noteq> [] then [OddHeaders (odd_headers p)] else []) @
     (if misaligned_var_runs p \<noteq> [] then [MisalignedRuns (misaligned_var_runs p)] else [])"

section \<open>Constants\<close>

text \<open>What folds statically is what the interpreter computes, in every environment.\<close>

lemma expr_const_eval: "expr_const e = Some v \<Longrightarrow> eval_expr e env meta rem = Inr v"
proof (induction e arbitrary: v)
  case (Bin op a b)
  then show ?case by (cases op) (auto split: option.splits)
qed auto

lemma expr_const_mod8: "expr_const e = Some v \<Longrightarrow> expr_mod8 e = Some r \<Longrightarrow> unat v mod 8 = r"
  using expr_mod8_sound_aux [OF _ expr_const_eval] by blast

section \<open>Runs of whole bytes\<close>

text \<open>The bytes of an aligned run are the bytes of the packet.\<close>

lemma read_run_slice:
  assumes run: "read_run packet pos n = Inr r" and al: "pos mod 8 = 0" "n mod 8 = 0"
    and fit: "pos + n \<le> 8 * length packet"
  shows "r = take (n div 8) (drop (pos div 8) packet)"
proof (rule nth_equalityI)
  have r: "length r = (n + 7) div 8" "\<forall>j < 8 * length r. bit_at r j \<longleftrightarrow> j < n \<and> bit_at packet (pos + j)"
    using read_run_bits [OF fit] run by auto
  have n: "8 * (n div 8) = n" "8 * (pos div 8) = pos" using al by auto
  have len: "length r = n div 8" using r(1) n by linarith
  then show "length r = length (take (n div 8) (drop (pos div 8) packet))" using fit n by auto
  fix i
  assume "i < length r"
  then have i: "i < n div 8" using len by simp
  have "bit (r ! i) k = bit (packet ! (pos div 8 + i)) k" if k: "k < 8" for k
  proof -
    define l where "l = 7 - k"
    then have l: "l < 8" "k = 7 - l" using k by auto
    obtain a where a: "pos = 8 * a" using al(1) by auto
    let ?j = "8 * i + l"
    have "?j < n" "?j < 8 * length r" using i l n len by linarith+
    with r(2) have bits: "bit_at r ?j = bit_at packet (pos + ?j)" by blast
    have "pos + ?j = 8 * (a + i) + l" using a by simp
    then have "(pos + ?j) div 8 = a + i" "(pos + ?j) mod 8 = l" "?j div 8 = i" "?j mod 8 = l" "pos div 8 = a"
      using l(1) a by auto
    then show ?thesis using bits l(2) unfolding bit_at_def by simp
  qed
  then have "r ! i = packet ! (pos div 8 + i)" by (intro bit_word_eqI) simp
  then show "r ! i = take (n div 8) (drop (pos div 8) packet) ! i" using i fit n by simp
qed

text \<open>What a byte-addressed backend may assume of a field: it is an integer, or a slice of the packet.\<close>

definition byte_run :: "bytes \<Rightarrow> parsed_field \<Rightarrow> bool" where
  "byte_run packet pf =
     (case pf_value pf of
        Uint _ \<Rightarrow> True
      | BitRun run \<Rightarrow>
          pf_bit_offset pf mod 8 = 0 \<and> pf_bit_len pf mod 8 = 0 \<and>
          run = take (pf_bit_len pf div 8) (drop (pf_bit_offset pf div 8) packet))"

definition byte_runs :: "bytes \<Rightarrow> parsed_header list \<Rightarrow> bool" where
  "byte_runs packet hs = list_all (\<lambda>h. list_all (byte_run packet) (ph_fields h)) hs"

lemma byte_runs_append [simp]: "byte_runs packet (hs @ [h]) = (byte_runs packet hs \<and> list_all (byte_run packet) (ph_fields h))"
  by (simp add: byte_runs_def)

text \<open>A state none of whose fields is reported, with the uniqueness the validator and the caller give.\<close>

definition runs_aligned :: "parser \<Rightarrow> state \<Rightarrow> bool" where
  "runs_aligned p st \<longleftrightarrow>
     distinct (map instance_of (st_extracts st)) \<and>
     (\<forall>ex\<in>set (st_extracts st). \<exists>ht. find_header_type p (ex_header_type ex) = Some ht \<and>
        distinct (map field_name (ht_fields ht)) \<and> (\<forall>f\<in>set (ht_fields ht). \<not> misaligned_run p st ex f))"

lemma extract_field_runs:
  assumes avail: "avail \<le> 8 * length packet"
    and res: "residue p (emitter_alignment p) st pre fpre (m_cursor m)"
    and st: "st_extracts st = pre @ ex # post" "distinct (map instance_of (st_extracts st))"
    and ht: "find_header_type p (ex_header_type ex) = Some ht" "ht_fields ht = fpre @ f # fpost"
      "distinct (map field_name (ht_fields ht))"
    and f: "\<not> misaligned_run p st ex f"
    and ok: "byte_runs packet (m_headers m)" "list_all (byte_run packet) (ph_fields parsed)"
  shows "keeps (\<lambda>(m', parsed'). residue p (emitter_alignment p) st pre (fpre @ [f]) (m_cursor m') \<and>
      byte_runs packet (m_headers m') \<and> list_all (byte_run packet) (ph_fields parsed'))
    (\<lambda>res. byte_runs packet (pr_headers res)) (extract_field p packet avail n ex entry f (m, parsed))"
proof -
  have go: "residue p (emitter_alignment p) st pre (fpre @ [f]) (m_cursor m') \<and> m_headers m' = m_headers m"
    if "extract_field p packet avail n ex entry f (m, parsed) = Inr (Go (m', parsed'))" for m' parsed'
    using residue_field [OF res that] extract_field_go [OF that] by blast
  have run: "m_cursor m mod 8 = 0 \<and> unat v mod 8 = 0 \<and> r = take (unat v div 8) (drop (m_cursor m div 8) packet)"
    if e: "field_width f = BitLen e" "eval_expr e (m_env m) (m_meta m) None = Inr v"
      "read_run packet (m_cursor m) (unat v) = Inr r"
      "\<not> (case checked_add (unat v) (m_cursor m) of None \<Rightarrow> True | Some e \<Rightarrow> read_bound avail m < e)" for e v r
  proof -
    have al: "m_cursor m mod 8 = 0" "unat v mod 8 = 0"
      using f e(1) residue_alignment [OF res st ht] expr_mod8_sound_aux [OF _ e(2)]
      by (auto simp: misaligned_run_def)
    have "m_cursor m + unat v \<le> 8 * length packet"
      using e(4) read_bound_le [of avail m] avail by (auto simp: checked_add_def split: if_splits)
    from read_run_slice [OF e(3) al this] al show ?thesis by simp
  qed
  have "keeps (\<lambda>(m', parsed'). list_all (byte_run packet) (ph_fields parsed')) (\<lambda>res. byte_runs packet (pr_headers res))
      (extract_field p packet avail n ex entry f (m, parsed))"
    using ok run
    by (auto simp: extract_field_def extract_fail_def mk_reject_def byte_run_def Let_def
        intro!: keeps_bind split: field_width.split option.split)
  then show ?thesis
    using go ok(1) by (auto simp: keeps_def split: sum.splits run.splits)
qed

lemma extract_fields_runs:
  assumes avail: "avail \<le> 8 * length packet"
    and st: "st_extracts st = pre @ ex # post" "distinct (map instance_of (st_extracts st))"
    and ht: "find_header_type p (ex_header_type ex) = Some ht" "distinct (map field_name (ht_fields ht))"
    and f: "\<forall>f\<in>set (ht_fields ht). \<not> misaligned_run p st ex f"
  shows "ht_fields ht = fpre @ fs \<Longrightarrow> residue p (emitter_alignment p) st pre fpre (m_cursor m) \<Longrightarrow>
    byte_runs packet (m_headers m) \<Longrightarrow> list_all (byte_run packet) (ph_fields parsed) \<Longrightarrow>
    keeps (\<lambda>(m', parsed'). byte_runs packet (m_headers m') \<and> list_all (byte_run packet) (ph_fields parsed'))
      (\<lambda>res. byte_runs packet (pr_headers res)) (extract_fields p packet avail n ex entry fs (m, parsed))"
proof (induction fs arbitrary: fpre m parsed)
  case Nil
  then show ?case by simp
next
  case (Cons g gs)
  have "g \<in> set (ht_fields ht)" using Cons.prems(1) by simp
  with f have "\<not> misaligned_run p st ex g" by blast
  note step = extract_field_runs [OF avail Cons.prems(2) st ht(1) Cons.prems(1) ht(2) this Cons.prems(3,4)]
  show ?case
    unfolding extract_fields.simps
    by (rule keeps_then [OF step]) (use Cons.IH [of "fpre @ [g]"] Cons.prems(1) in auto)
qed

lemma extract_header_runs:
  assumes avail: "avail \<le> 8 * length packet"
    and ok: "runs_aligned p st" and st: "st_extracts st = pre @ ex # post"
    and m: "residue p (emitter_alignment p) st pre [] (m_cursor m)" "byte_runs packet (m_headers m)"
  shows "keeps (\<lambda>m'. residue p (emitter_alignment p) st (pre @ [ex]) [] (m_cursor m') \<and> byte_runs packet (m_headers m'))
    (\<lambda>res. byte_runs packet (pr_headers res)) (extract_header p packet avail n ex m)"
proof -
  have dist: "distinct (map instance_of (st_extracts st))" using ok by (simp add: runs_aligned_def)
  obtain ht where ht: "find_header_type p (ex_header_type ex) = Some ht" "distinct (map field_name (ht_fields ht))"
    and f: "\<forall>f\<in>set (ht_fields ht). \<not> misaligned_run p st ex f"
    using ok st by (auto simp: runs_aligned_def)
  have runs: "keeps (\<lambda>m'. byte_runs packet (m_headers m')) (\<lambda>res. byte_runs packet (pr_headers res))
      (extract_header p packet avail n ex m)"
    unfolding extract_header_def ht(1) option.case
    by (rule keeps_then [OF extract_fields_runs [OF avail st dist ht f]]) (use m in auto)
  have "residue p (emitter_alignment p) st (pre @ [ex]) [] (m_cursor m')"
    if "extract_header p packet avail n ex m = Inr (Go m')" for m'
    using extract_header_go [OF that] m(1) by blast
  with runs show ?thesis by (auto simp: keeps_def split: sum.splits run.splits)
qed

lemma extract_headers_runs:
  assumes avail: "avail \<le> 8 * length packet" and ok: "runs_aligned p st"
  shows "st_extracts st = pre @ exs \<Longrightarrow> residue p (emitter_alignment p) st pre [] (m_cursor m) \<Longrightarrow>
    byte_runs packet (m_headers m) \<Longrightarrow>
    keeps (\<lambda>m'. residue p (emitter_alignment p) st (st_extracts st) [] (m_cursor m') \<and> byte_runs packet (m_headers m'))
      (\<lambda>res. byte_runs packet (pr_headers res)) (extract_headers p packet avail n exs m)"
proof (induction exs arbitrary: pre m)
  case Nil
  then show ?case by simp
next
  case (Cons ex exs)
  show ?case
    unfolding extract_headers.simps
    by (rule keeps_then [OF extract_header_runs [OF avail ok Cons.prems]])
      (use Cons.IH [of "pre @ [ex]"] Cons.prems(1) in auto)
qed

section \<open>The rest of a state\<close>

text \<open>\<open>still c hs\<close>: the later phases of a state move no cursor and report no header.\<close>

definition still :: "nat \<Rightarrow> parsed_header list \<Rightarrow> machine \<Rightarrow> bool" where
  "still c hs m \<longleftrightarrow> m_cursor m = c \<and> m_headers m = hs"

lemma plain_reject_headers [simp]: "pr_headers (plain_reject p why n sev m) = m_headers m"
  by (simp add: mk_reject_def)

lemma run_assigns_still:
  "still c hs m \<Longrightarrow> keeps (still c hs) (\<lambda>res. pr_headers res = hs) (run_assigns p as m)"
proof (induction as arbitrary: m)
  case (Cons a as)
  have "keeps (still c hs) (\<lambda>res. pr_headers res = hs) (run_assign p a m)"
    using Cons.prems by (auto simp: run_assign_def still_def intro!: keeps_bind split: option.split)
  from keeps_then [OF this Cons.IH] show ?case by simp
qed simp

lemma run_region_ops_still:
  "still c hs m \<Longrightarrow> keeps (still c hs) (\<lambda>res. pr_headers res = hs) (run_region_ops p avail n ops m)"
proof (induction ops arbitrary: m)
  case (Cons op ops)
  have "keeps (still c hs) (\<lambda>res. pr_headers res = hs) (run_region_op p avail n op m)"
    using Cons.prems
    by (cases op) (auto simp: run_region_op_def still_def mk_reject_def intro!: keeps_bind split: option.split list.split)
  from keeps_then [OF this Cons.IH] show ?case by simp
qed simp

lemma set_decision_still [simp]: "still c hs (set_decision d m) = still c hs m"
  by (simp add: set_decision_def still_def)

lemma choose_target_still:
  assumes "still c hs m"
  shows "keeps (\<lambda>(m', t). still c hs m' \<and> t \<in> set (targets_of tr)) (\<lambda>res. pr_headers res = hs)
    (choose_target p n tr m)"
proof (cases tr)
  case (Direct t)
  then show ?thesis using assms by (simp add: choose_target_def)
next
  case (Select keys arms dflt)
  have "m_headers (set_decision d m) = hs" for d using assms by (simp add: set_decision_def still_def)
  then show ?thesis
    using assms
    by (auto simp: choose_target_def Select mk_reject_def intro!: keeps_bind dest!: arm_position_target
        split: option.split)
qed

lemma run_state_runs:
  assumes avail: "avail \<le> 8 * length packet"
    and ok: "runs_aligned p st" and m: "residue p (emitter_alignment p) st [] [] (m_cursor m)" "byte_runs packet (m_headers m)"
  shows "keeps (\<lambda>(m', n). residue p (emitter_alignment p) st (st_extracts st) [] (m_cursor m') \<and>
      byte_runs packet (m_headers m') \<and> ToState n \<in> set (targets_of (st_transition st)))
    (\<lambda>res. byte_runs packet (pr_headers res)) (run_state p packet avail st m)"
  unfolding run_state_def
proof (rule keeps_then [OF extract_headers_runs [OF avail ok append_Nil [symmetric] m]])
  fix m1 :: machine
  assume 1: "residue p (emitter_alignment p) st (st_extracts st) [] (m_cursor m1) \<and> byte_runs packet (m_headers m1)"
  define c hs where "c = m_cursor m1" and "hs = m_headers m1"
  have "still c hs m1" by (simp add: still_def c_def hs_def)
  then have body: "keeps (\<lambda>(m', t). still c hs m' \<and> t \<in> set (targets_of (st_transition st)))
      (\<lambda>res. pr_headers res = hs)
      (then_run (run_assigns p (st_assigns st) m1) (\<lambda>m.
       then_run (run_region_ops p avail (st_name st) (st_region_ops st) m) (\<lambda>m.
       choose_target p (st_name st) (st_transition st) m)))"
    by (intro keeps_then [OF run_assigns_still] keeps_then [OF run_region_ops_still] choose_target_still)
  have "keeps (\<lambda>(m', n). still c hs m' \<and> ToState n \<in> set (targets_of (st_transition st)))
      (\<lambda>res. pr_headers res = hs)
      (then_run (run_assigns p (st_assigns st) m1) (\<lambda>m.
       then_run (run_region_ops p avail (st_name st) (st_region_ops st) m) (\<lambda>m.
       then_run (choose_target p (st_name st) (st_transition st) m) (run_target p (st_name st)))))"
    unfolding then_run_assoc [symmetric]
    by (rule keeps_then [OF body [unfolded then_run_assoc [symmetric]]])
      (auto simp: run_target_def still_def mk_reject_def split: target.split)
  then show "keeps (\<lambda>(m', n). residue p (emitter_alignment p) st (st_extracts st) [] (m_cursor m') \<and>
      byte_runs packet (m_headers m') \<and> ToState n \<in> set (targets_of (st_transition st)))
    (\<lambda>res. byte_runs packet (pr_headers res))
      (then_run (run_assigns p (st_assigns st) m1) (\<lambda>m.
       then_run (run_region_ops p avail (st_name st) (st_region_ops st) m) (\<lambda>m.
       then_run (choose_target p (st_name st) (st_transition st) m) (run_target p (st_name st)))))"
    using 1 by (auto simp: keeps_def still_def c_def hs_def split: sum.splits run.splits)
qed

section \<open>Runs of a whole parse\<close>

text \<open>On entry to the state named \<open>n\<close>: it is reached, and the cursor has its residue, if it has one.\<close>

definition entry_inv :: "parser \<Rightarrow> string \<Rightarrow> nat \<Rightarrow> bool" where
  "entry_inv p n c \<longleftrightarrow>
     flow_reached p n \<and> (\<forall>a. emitter_alignment p n = Some a \<longrightarrow> c mod 8 = a mod 8)"

lemma entry_inv_residue: "entry_inv p n c \<Longrightarrow> st_name st = n \<Longrightarrow> residue p (emitter_alignment p) st [] [] c"
  by (simp add: entry_inv_def residue_def)

lemma entry_inv_edge:
  assumes "entry_inv p n c'" and st: "find_state p n = Some st" and dist: "distinct (map st_name (p_states p))"
    and ok: "runs_aligned p st" and res: "residue p (emitter_alignment p) st (st_extracts st) [] c"
    and edge: "ToState k \<in> set (targets_of (st_transition st))"
  shows "entry_inv p k c"
proof -
  have "state_map p n = Some st" using st state_map_find [OF dist] by simp
  moreover have "list_all (\<lambda>ex. find_header_type p (ex_header_type ex) \<noteq> None) (st_extracts st)"
    using ok by (auto simp: runs_aligned_def list_all_iff)
  ultimately have "flow_reached p k \<and> (emitter_alignment p k = None \<or>
      emitter_alignment p k = exit_residue p (emitter_alignment p) st)"
    using entry_alignments_edge edge assms(1) unfolding entry_inv_def by blast
  then show ?thesis
    using res by (auto simp: entry_inv_def exit_residue_def residue_def split: option.splits)
qed

lemma run_loop_runs:
  assumes avail: "avail \<le> 8 * length packet" and dist: "distinct (map st_name (p_states p))"
    and ok: "\<And>n st. find_state p n = Some st \<Longrightarrow> runs_aligned p st"
  shows "run_loop p packet avail d n m = Inr res \<Longrightarrow> entry_inv p n (m_cursor m) \<Longrightarrow>
    byte_runs packet (m_headers m) \<Longrightarrow> byte_runs packet (pr_headers res)"
proof (induction "p_max_depth p - d" arbitrary: d n m)
  case 0
  then show ?case
    by (auto simp: run_loop.simps [of p packet avail d] Let_def enter_def mk_reject_def)
next
  case (Suc j)
  then have lt: "d < p_max_depth p" by simp
  obtain st where st: "find_state p n = Some st"
    using Suc.prems(1) lt by (auto simp: run_loop.simps [of p packet avail d] Let_def split: option.splits)
  have name: "st_name st = n" using find_stateD [OF st] by simp
  have "residue p (emitter_alignment p) st [] [] (m_cursor (enter n m))"
    "byte_runs packet (m_headers (enter n m))"
    using entry_inv_residue [OF Suc.prems(2) name] Suc.prems(3) by (simp_all add: enter_def)
  note keep = run_state_runs [OF avail ok [OF st] this]
  show ?case
  proof (cases "run_state p packet avail st (enter n m)")
    case (Inl e)
    then show ?thesis using Suc.prems(1) lt st by (simp add: run_loop.simps [of p packet avail d] Let_def)
  next
    case (Inr r)
    show ?thesis
    proof (cases r)
      case (Stop res')
      then show ?thesis
        using keep Inr Suc.prems(1) lt st by (simp add: run_loop.simps [of p packet avail d] Let_def)
    next
      case (Go mn)
      obtain m' n' where mn: "mn = (m', n')" by force
      have next_run: "run_loop p packet avail (Suc d) n' m' = Inr res"
        using Inr Go mn Suc.prems(1) lt st by (simp add: run_loop.simps [of p packet avail d] Let_def)
      have after: "residue p (emitter_alignment p) st (st_extracts st) [] (m_cursor m')"
        "byte_runs packet (m_headers m')" "ToState n' \<in> set (targets_of (st_transition st))"
        using keep Inr Go mn by auto
      have "entry_inv p n' (m_cursor m')"
        by (rule entry_inv_edge [OF Suc.prems(2) st dist ok [OF st] after(1,3)])
      then show ?thesis using Suc.hyps(1) [of "Suc d"] Suc.hyps(2) lt next_run after(2) by simp
    qed
  qed
qed

lemma runs_aligned_validated:
  assumes acc: "accepted l p" and one: "single_extraction p" and none: "misaligned_var_runs p = []"
    and st: "find_state p n = Some st"
  shows "runs_aligned p st"
proof -
  have mem: "st \<in> set (p_states p)" using find_stateD [OF st] by simp
  have "\<exists>ht. find_header_type p (ex_header_type ex) = Some ht \<and> distinct (map field_name (ht_fields ht)) \<and>
      (\<forall>f\<in>set (ht_fields ht). \<not> misaligned_run p st ex f)" if ex: "ex \<in> set (st_extracts st)" for ex
  proof -
    have "extract_declared p ex" using acc mem ex by (auto simp: accepted_def)
    then obtain ht where ht: "find_header_type p (ex_header_type ex) = Some ht"
      using acc header_type_map_find [of p] by (auto simp: accepted_def extract_declared_def split: option.splits)
    then have "header_declared ht" using acc find_header_typeD by (fastforce simp: accepted_def list_all_iff)
    moreover have "filter (misaligned_run p st ex) (ht_fields ht) = []"
      using none mem ex ht unfolding misaligned_var_runs_def concat_eq_Nil_conv by fastforce
    ultimately show ?thesis using ht by (auto simp: header_declared_def filter_empty_conv)
  qed
  then show ?thesis
    using one mem by (auto simp: runs_aligned_def single_extraction_def list_all_iff)
qed

text \<open>
  C28: What \<open>misaligned_var_runs\<close> promises the byte-addressed backends. When it reports nothing for a
  validated description that extracts no instance twice in one state, every variable-length run the
  interpreter ever reports, on any packet, in an accepted or a rejected parse and even in a header it
  could not complete, starts at a byte boundary, is a whole number of bytes, and its value is the slice
  of the packet from \<open>bit_offset / 8\<close> that the backends print.
\<close>

theorem unreported_runs_are_bytes:
  assumes valid: "validate p = Some []" and one: "single_extraction p" and none: "misaligned_var_runs p = []"
    and packet: "avail \<le> 8 * length packet"
    and run: "run_bits p packet avail = Inr res"
    and field: "h \<in> set (pr_headers res)" "pf \<in> set (ph_fields h)" "pf_value pf = BitRun bytes"
  shows "8 dvd pf_bit_offset pf \<and> 8 dvd pf_bit_len pf \<and>
    bytes = take (pf_bit_len pf div 8) (drop (pf_bit_offset pf div 8) packet)"
proof -
  have acc: "accepted default_limits p" using valid unfolding validate_def by (rule validate_accepted)
  have "byte_runs packet (pr_headers res)"
  proof (rule run_loop_runs [OF packet])
    show "distinct (map st_name (p_states p))" using acc by (simp add: accepted_def)
    show "run_loop p packet avail 0 (p_start_state p) (init_machine p) = Inr res"
      using run by (simp add: run_bits_def)
    show "entry_inv p (p_start_state p) (m_cursor (init_machine p))"
      using entry_alignments_start [of p] by (auto simp: entry_inv_def init_machine_def)
  qed (use runs_aligned_validated [OF acc one none] in \<open>auto simp: init_machine_def byte_runs_def\<close>)
  then have "byte_run packet pf" using field(1,2) unfolding byte_runs_def list_all_iff by blast
  then show ?thesis using field(3) by (simp add: byte_run_def dvd_eq_mod_eq_0)
qed

text \<open>The description of the unit test: a length byte and that many bytes.\<close>

definition counted_run :: "expr \<Rightarrow> parser" where
  "counted_run e =
     gap_parser [\<lparr>ht_name = ''h'', ht_fields = [gap_byte ''n'', \<lparr>field_name = ''body'', field_width = BitLen e\<rparr>]\<rparr>]
       [\<lparr>st_name = ''s'', st_extracts = [gap_extract ''h''], st_assigns = [], st_region_ops = [],
         st_transition = Direct Accept\<rparr>]"

definition byte_sugar :: parser where
  "byte_sugar = counted_run (Bin OpMul (Field ''h'' ''n'') (Constant 8))"

definition body_field :: parsed_field where
  "body_field = \<lparr>pf_name = ''body'', pf_bit_offset = 8, pf_bit_len = 16, pf_value = BitRun [7, 9]\<rparr>"

definition body_header :: parsed_header where
  "body_header =
     \<lparr>ph_instance = ''h'', ph_header_type = ''h'', ph_start_bit = 0,
      ph_fields = [\<lparr>pf_name = ''n'', pf_bit_offset = 0, pf_bit_len = 8, pf_value = Uint 2\<rparr>, body_field]\<rparr>"

definition body_result :: parse_result where
  "body_result =
     \<lparr>pr_outcome = Accepted, pr_headers = [body_header], pr_trace = [(''s'', DDirect)], pr_error = None,
      pr_consumed_bits = 24, pr_metadata = []\<rparr>"

lemma byte_sugar_valid:
  "validate byte_sugar = Some []" "single_extraction byte_sugar" "misaligned_var_runs byte_sugar = []"
  "run_bits byte_sugar [2, 7, 9, 4] 32 = Inr body_result"
  by code_simp+

theorem unreported_runs_are_bytes_witness:
  "8 dvd pf_bit_offset body_field \<and> 8 dvd pf_bit_len body_field \<and>
   [7, 9] = take (pf_bit_len body_field div 8) (drop (pf_bit_offset body_field div 8) [2, 7, 9, 4 :: u8])"
  by (rule unreported_runs_are_bytes [OF byte_sugar_valid(1-3) _ byte_sugar_valid(4), of body_header])
    (simp_all add: body_result_def body_header_def body_field_def)

section \<open>Two reports\<close>

text \<open>The unit tests \<open>bit_granular_runs_are_a_derived_demand\<close> and \<open>const_lengths_fold\<close>.\<close>

lemma bit_granular_demand:
  "demand_report (counted_run (Field ''h'' ''n'')) = [MisalignedRuns [''s/h.body'']]"
  "demand_report byte_sugar = []"
  "expr_const (Bin OpMul (Constant 16) (Constant 8)) = Some 128"
  by code_simp+

text \<open>The empty instance name stands for the name of the header type.\<close>

definition odd_parser :: "string \<Rightarrow> parser" where
  "odd_parser inst =
     gap_parser [\<lparr>ht_name = ''h'', ht_fields = [\<lparr>field_name = ''x'', field_width = Bits 12\<rparr>]\<rparr>]
       [\<lparr>st_name = ''s'', st_extracts = [(gap_extract ''h'')\<lparr>ex_instance := inst\<rparr>], st_assigns = [],
         st_region_ops = [], st_transition = Direct Accept\<rparr>]"


end
