(* ===== verification/Fixed_Headers.thy ===== *)
theory Fixed_Headers
  imports Ir_Total
begin

text \<open>
  Extraction in closed form. Over fields of fixed width the interpreter reads consecutive slices of the
  packet, or stops at the last field boundary the input reaches; \<open>boundary\<close> is that place. What the
  closed specifications of parsers without regions are computed with.
\<close>

section \<open>Fixed-width fields\<close>

primrec boundary :: "nat list \<Rightarrow> nat \<Rightarrow> nat" where
  "boundary [] len = 0"
| "boundary (w # ws) len = (if w \<le> len then w + boundary ws (len - w) else 0)"

lemma boundary_append:
  "boundary (ws @ vs) len =
     (if sum_list ws \<le> len then sum_list ws + boundary vs (len - sum_list ws) else boundary ws len)"
  by (induction ws arbitrary: len) auto

definition fixed :: "field \<Rightarrow> bool" where
  "fixed f = (case field_width f of Bits _ \<Rightarrow> True | BitLen _ \<Rightarrow> False)"

definition bits_of :: "field \<Rightarrow> nat" where
  "bits_of f = (case field_width f of Bits n \<Rightarrow> n | BitLen _ \<Rightarrow> 0)"

definition total_bits :: "field list \<Rightarrow> nat" where
  "total_bits fs = sum_list (map bits_of fs)"

primrec read_fields :: "bytes \<Rightarrow> nat \<Rightarrow> field list \<Rightarrow> parsed_field list" where
  "read_fields packet c [] = []"
| "read_fields packet c (f # fs) =
     \<lparr>pf_name = field_name f, pf_bit_offset = c, pf_bit_len = bits_of f,
      pf_value = Uint (bits_at packet c (bits_of f))\<rparr> # read_fields packet (c + bits_of f) fs"

primrec bind_fields :: "bytes \<Rightarrow> string \<Rightarrow> nat \<Rightarrow> field list \<Rightarrow> env \<Rightarrow> env" where
  "bind_fields packet i c [] env = env"
| "bind_fields packet i c (f # fs) env =
     bind_fields packet i (c + bits_of f) fs (env((i, field_name f) \<mapsto> bits_at packet c (bits_of f)))"

text \<open>A run that stopped at bit \<open>c\<close> in a read past the end of the input.\<close>

definition truncated :: "nat \<Rightarrow> parse_result \<Rightarrow> bool" where
  "truncated c res \<longleftrightarrow>
     pr_outcome res = Rejected ''out of bounds'' \<and> pr_consumed_bits res = c \<and> pr_metadata res = [] \<and>
     (\<exists>e i. pr_error res = Some e \<and> pe_instance e = Some i)"

lemma extract_fields_append:
  "extract_fields p packet avail n ex entry (fs @ gs) mp =
     then_run (extract_fields p packet avail n ex entry fs mp) (extract_fields p packet avail n ex entry gs)"
proof (induction fs arbitrary: mp)
  case (Cons f fs)
  show ?case
    by (cases "extract_field p packet avail n ex entry f mp"
        "extract_fields p packet avail n ex entry (fs @ gs)" rule: then_run_cases) (simp_all add: Cons)
qed simp

lemma extract_fail_truncated:
  assumes "m_regions m = []" and "\<not> ex_lookahead ex" and "p_metadata p = []"
  shows "truncated (m_cursor m) (extract_fail p n ex entry f e parsed m)"
  using assms by (simp add: truncated_def extract_fail_def oob_reason_def mk_reject_def final_meta_def)

lemma extract_fixed_field:
  assumes "fixed f" and "m_regions m = []" and "input_ok packet avail"
  shows "extract_field p packet avail n ex entry f (m, parsed) =
    (if m_cursor m + bits_of f \<le> avail
     then Inr (Go
       (m\<lparr>m_env := (m_env m)((instance_of ex, field_name f) \<mapsto> bits_at packet (m_cursor m) (bits_of f)),
          m_cursor := m_cursor m + bits_of f\<rparr>,
        parsed\<lparr>ph_fields := ph_fields parsed @ read_fields packet (m_cursor m) [f]\<rparr>))
     else Inr (Stop (extract_fail p n ex entry f (checked_add (m_cursor m) (bits_of f)) parsed m)))"
proof -
  obtain b where b: "field_width f = Bits b" using assms(1) by (auto simp: fixed_def split: field_width.splits)
  have avail: "read_bound avail m = avail" using assms(2) by (simp add: read_bound_def)
  have "read_bits packet avail (m_cursor m) b =
      Inr (if m_cursor m + b \<le> avail then Some (bits_at packet (m_cursor m) b) else None)"
    using read_bits_ok assms(3) by (simp add: input_ok_def)
  then show ?thesis by (simp add: extract_field_def b avail bits_of_def)
qed

lemma extract_fixed:
  assumes "input_ok packet avail" and ex: "\<not> ex_lookahead ex" "p_metadata p = []"
  shows "list_all fixed fs \<Longrightarrow> m_regions m = [] \<Longrightarrow> m_cursor m \<le> avail \<Longrightarrow>
    (if m_cursor m + total_bits fs \<le> avail
     then extract_fields p packet avail n ex entry fs (m, parsed) =
       Inr (Go (m\<lparr>m_env := bind_fields packet (instance_of ex) (m_cursor m) fs (m_env m),
                  m_cursor := m_cursor m + total_bits fs\<rparr>,
                parsed\<lparr>ph_fields := ph_fields parsed @ read_fields packet (m_cursor m) fs\<rparr>))
     else \<exists>res. extract_fields p packet avail n ex entry fs (m, parsed) = Inr (Stop res) \<and>
       truncated (m_cursor m + boundary (map bits_of fs) (avail - m_cursor m)) res)"
proof (induction fs arbitrary: m parsed)
  case Nil
  then show ?case by (simp add: total_bits_def)
next
  case (Cons f fs)
  have f: "fixed f" "list_all fixed fs" using Cons.prems(1) by simp_all
  note step = extract_fixed_field [OF f(1) Cons.prems(2) assms(1), of p n ex entry parsed]
  show ?case
  proof (cases "m_cursor m + bits_of f \<le> avail")
    case True
    let ?m = "m\<lparr>m_env := (m_env m)((instance_of ex, field_name f) \<mapsto> bits_at packet (m_cursor m) (bits_of f)),
      m_cursor := m_cursor m + bits_of f\<rparr>"
    let ?parsed = "parsed\<lparr>ph_fields := ph_fields parsed @ read_fields packet (m_cursor m) [f]\<rparr>"
    have run: "extract_fields p packet avail n ex entry (f # fs) (m, parsed) =
        extract_fields p packet avail n ex entry fs (?m, ?parsed)"
      using True step by simp
    have "bits_of f \<le> avail - m_cursor m" using True by simp
    then have "avail - (m_cursor m + bits_of f) = avail - m_cursor m - bits_of f"
      "boundary (map bits_of (f # fs)) (avail - m_cursor m) =
       bits_of f + boundary (map bits_of fs) (avail - m_cursor m - bits_of f)" by simp_all
    with Cons.IH [OF f(2), of ?m ?parsed] True Cons.prems(2) show ?thesis
      unfolding run by (auto simp: total_bits_def add.assoc split: if_splits)
  next
    case False
    then have "boundary (map bits_of (f # fs)) (avail - m_cursor m) = 0" using Cons.prems(3) by auto
    moreover have "\<not> m_cursor m + total_bits (f # fs) \<le> avail" using False by (simp add: total_bits_def)
    moreover have "truncated (m_cursor m) (extract_fail p n ex entry f (checked_add (m_cursor m) (bits_of f)) parsed m)"
      using extract_fail_truncated [OF Cons.prems(2) ex] .
    ultimately show ?thesis using False step by simp
  qed
qed

section \<open>Variable-length fields and whole headers\<close>

lemma extract_var_field:
  assumes "input_ok packet avail" and "\<not> ex_lookahead ex" and "p_metadata p = []"
    and w: "field_width f = BitLen e" and v: "eval_expr e (m_env m) (m_meta m) None = Inr v" and "m_regions m = []"
  shows "if m_cursor m + unat v \<le> avail
    then \<exists>run. extract_field p packet avail n ex entry f (m, parsed) = Inr (Go
      (m\<lparr>m_cursor := m_cursor m + unat v\<rparr>,
       parsed\<lparr>ph_fields := ph_fields parsed @
         [\<lparr>pf_name = field_name f, pf_bit_offset = m_cursor m, pf_bit_len = unat v, pf_value = BitRun run\<rparr>]\<rparr>))
    else \<exists>res. extract_field p packet avail n ex entry f (m, parsed) = Inr (Stop res) \<and>
      truncated (m_cursor m) res"
proof -
  have avail: "read_bound avail m = avail" using assms(6) by (simp add: read_bound_def)
  have in_range: "avail \<le> 8 * length packet" "avail < 2 ^ 64" using assms(1) by (simp_all add: input_ok_def)
  show ?thesis
  proof (cases "m_cursor m + unat v \<le> avail")
    case True
    then obtain run where "read_run packet (m_cursor m) (unat v) = Inr run"
      using read_run_ok [of "m_cursor m" "unat v" packet] in_range(1) by auto
    then show ?thesis
      unfolding if_P [OF True] using True in_range(2)
      by (intro exI [of _ run]) (simp add: extract_field_def w v avail Let_def checked_add_def)
  next
    case False
    then have "(case checked_add (unat v) (m_cursor m) of None \<Rightarrow> True | Some e \<Rightarrow> read_bound avail m < e)"
      by (auto simp: checked_add_def avail)
    then show ?thesis
      using False extract_fail_truncated [OF assms(6,2,3)]
      by (simp add: extract_field_def w v Let_def)
  qed
qed

text \<open>The header an extract reads at \<open>c\<close>, with the fields it has so far.\<close>

definition header_at :: "extract_op \<Rightarrow> nat \<Rightarrow> parsed_field list \<Rightarrow> parsed_header" where
  "header_at ex c pfs =
     \<lparr>ph_instance = instance_of ex, ph_header_type = ex_header_type ex, ph_start_bit = c, ph_fields = pfs\<rparr>"

lemma extract_fixed_header:
  assumes "input_ok packet avail" and "\<not> ex_lookahead ex" and "p_metadata p = []"
    and ht: "find_header_type p (ex_header_type ex) = Some ht" "list_all fixed (ht_fields ht)"
    and m: "m_regions m = []" "m_cursor m \<le> avail"
  shows "if m_cursor m + total_bits (ht_fields ht) \<le> avail
    then extract_header p packet avail n ex m = Inr (Go
      (m\<lparr>m_env := bind_fields packet (instance_of ex) (m_cursor m) (ht_fields ht) (m_env m),
         m_cursor := m_cursor m + total_bits (ht_fields ht),
         m_headers := m_headers m @ [header_at ex (m_cursor m) (read_fields packet (m_cursor m) (ht_fields ht))]\<rparr>))
    else \<exists>res. extract_header p packet avail n ex m = Inr (Stop res) \<and>
      truncated (m_cursor m + boundary (map bits_of (ht_fields ht)) (avail - m_cursor m)) res"
proof -
  have name: "ht_name ht = ex_header_type ex" using find_header_typeD [OF ht(1)] by simp
  show ?thesis
    using extract_fixed [OF assms(1-3) ht(2) m, of n "m_cursor m" "header_at ex (m_cursor m) []"] assms(2)
    by (auto simp: extract_header_def ht(1) name header_at_def split: if_splits)
qed

text \<open>A header whose fixed fields come first.\<close>

lemma extract_mixed_header:
  assumes "input_ok packet avail" and ex: "\<not> ex_lookahead ex" "p_metadata p = []"
    and ht: "find_header_type p (ex_header_type ex) = Some ht" "ht_fields ht = fs @ gs" "list_all fixed fs"
    and m: "m_regions m = []" "m_cursor m \<le> avail"
  shows "if m_cursor m + total_bits fs \<le> avail
    then extract_header p packet avail n ex m =
      then_run
        (extract_fields p packet avail n ex (m_cursor m) gs
          (m\<lparr>m_env := bind_fields packet (instance_of ex) (m_cursor m) fs (m_env m),
             m_cursor := m_cursor m + total_bits fs\<rparr>,
           header_at ex (m_cursor m) (read_fields packet (m_cursor m) fs)))
        (\<lambda>(m', parsed). Inr (Go (m'\<lparr>m_headers := m_headers m' @ [parsed]\<rparr>)))
    else \<exists>res. extract_header p packet avail n ex m = Inr (Stop res) \<and>
      truncated (m_cursor m + boundary (map bits_of fs) (avail - m_cursor m)) res"
proof -
  have name: "ht_name ht = ex_header_type ex" using find_header_typeD [OF ht(1)] by simp
  show ?thesis
    using extract_fixed [OF assms(1-3) ht(3) m, of n "m_cursor m" "header_at ex (m_cursor m) []"] ex(1)
    by (auto simp: extract_header_def ht(1,2) extract_fields_append name header_at_def split: if_splits)
qed

declare boundary.simps [simp del]

end
