(* ===== verification/Eth_Ipvx_L4_Spec.thy ===== *)
theory Eth_Ipvx_L4_Spec
  imports Eth_Ipvx_L4_Refine Fixed_Headers
begin

text \<open>
  What examples/eth_ipvx_l4/gen/parser.c computes, in closed form over the bits of the packet: which
  packets it accepts, where it stops, why, and what every member of the struct is. Offsets are those of
  the wire formats: IPv4 begins at bit 112, its options at bit 272, IPv6 ends at bit 432. The proof goes
  through the interpreter, which the C refines, and the closed form of extraction.
\<close>

section \<open>The specification\<close>

text \<open>TCP or UDP at bit \<open>c\<close>: return value, reason, consumed bits.\<close>

definition l4_spec :: "nat \<Rightarrow> nat \<Rightarrow> u64 \<Rightarrow> int \<times> u16 \<times> nat" where
  "l4_spec len c proto =
     (if proto = 6 then
        if c + 160 \<le> len then (0, PK_R_NONE, c + 160)
        else (1, PK_R_OUT_OF_BOUNDS, c + boundary [16, 16, 32, 32, 4, 4, 8, 16, 16, 16] (len - c))
      else if proto = 17 then
        if c + 64 \<le> len then (0, PK_R_NONE, c + 64)
        else (1, PK_R_OUT_OF_BOUNDS, c + boundary [16, 16, 16, 16] (len - c))
      else (1, eth_R_UNSUPPORTED_IP_PROTOCOL, c))"

text \<open>The length of the IPv4 options in bits; with an IHL below 5 the subtraction wraps.\<close>

definition ipv4_options :: "bytes \<Rightarrow> u64" where
  "ipv4_options buf = (bits_at buf 116 4 * 4 - 20) * 8"

definition eth_spec :: "bytes \<Rightarrow> nat \<Rightarrow> int \<times> u16 \<times> nat" where
  "eth_spec buf len =
     (if len < 112 then (1, PK_R_OUT_OF_BOUNDS, boundary [48, 48, 16] len)
      else if bits_at buf 96 16 = 0x0800 then
        if len < 272
        then (1, PK_R_OUT_OF_BOUNDS, 112 + boundary [4, 4, 6, 2, 16, 16, 3, 13, 8, 8, 16, 32, 32] (len - 112))
        else if len < 272 + unat (ipv4_options buf) then (1, PK_R_OUT_OF_BOUNDS, 272)
        else l4_spec len (272 + unat (ipv4_options buf)) (bits_at buf 184 8)
      else if bits_at buf 96 16 = 0x86DD then
        if len < 432
        then (1, PK_R_OUT_OF_BOUNDS, 112 + boundary [4, 8, 20, 16, 8, 8, 128, 128] (len - 112))
        else l4_spec len 432 (bits_at buf 160 8)
      else (1, eth_R_UNSUPPORTED_ETHERTYPE, 112))"

text \<open>The members of an accepted packet: name, offset from the start of the header, width.\<close>

definition ethernet_layout :: "(string \<times> nat \<times> nat) list" where
  "ethernet_layout = [(''dst'', 0, 48), (''src'', 48, 48), (''ethertype'', 96, 16)]"

definition ipv4_layout :: "(string \<times> nat \<times> nat) list" where
  "ipv4_layout =
     [(''version'', 0, 4), (''ihl'', 4, 4), (''dscp'', 8, 6), (''ecn'', 14, 2), (''total_len'', 16, 16),
      (''id'', 32, 16), (''flags'', 48, 3), (''frag_offset'', 51, 13), (''ttl'', 64, 8), (''protocol'', 72, 8),
      (''checksum'', 80, 16), (''src'', 96, 32), (''dst'', 128, 32)]"

definition ipv6_layout :: "(string \<times> nat \<times> nat) list" where
  "ipv6_layout =
     [(''version'', 0, 4), (''traffic_class'', 4, 8), (''flow_label'', 12, 20), (''payload_length'', 32, 16),
      (''next_header'', 48, 8), (''hop_limit'', 56, 8)]"

definition tcp_layout :: "(string \<times> nat \<times> nat) list" where
  "tcp_layout =
     [(''sport'', 0, 16), (''dport'', 16, 16), (''seq'', 32, 32), (''ack'', 64, 32), (''data_offset'', 96, 4),
      (''reserved'', 100, 4), (''flags'', 104, 8), (''window'', 112, 16), (''checksum'', 128, 16), (''urgent'', 144, 16)]"

definition udp_layout :: "(string \<times> nat \<times> nat) list" where
  "udp_layout = [(''sport'', 0, 16), (''dport'', 16, 16), (''length'', 32, 16), (''checksum'', 48, 16)]"

text \<open>\<open>eth_get\<close> reads a member of the struct by name: \<open>out->ipv4.ihl\<close> is \<open>SFld ''ipv4'' ''ihl''\<close>.\<close>

abbreviation eth_get :: "slot \<Rightarrow> eth_result \<Rightarrow> u64" where
  "eth_get \<equiv> member_get eth_members"

definition shows_header :: "bytes \<Rightarrow> eth_result \<Rightarrow> string \<Rightarrow> nat \<Rightarrow> (string \<times> nat \<times> nat) list \<Rightarrow> bool" where
  "shows_header buf r i c layout =
     (eth_get (SPresent i) r = 1 \<and> list_all (\<lambda>(f, d, n). eth_get (SFld i f) r = bits_at buf (c + d) n) layout)"

definition shows_run :: "eth_result \<Rightarrow> string \<Rightarrow> string \<Rightarrow> u64 \<Rightarrow> u64 \<Rightarrow> bool" where
  "shows_run r i f c n = (eth_get (SOff i f) r = c \<and> eth_get (SLen i f) r = n)"

definition shows_l4 :: "bytes \<Rightarrow> eth_result \<Rightarrow> nat \<Rightarrow> u64 \<Rightarrow> bool" where
  "shows_l4 buf r c proto =
     (if proto = 6 then shows_header buf r ''tcp'' c tcp_layout \<and> eth_get (SPresent ''udp'') r = 0
      else shows_header buf r ''udp'' c udp_layout \<and> eth_get (SPresent ''tcp'') r = 0)"

definition eth_shows :: "bytes \<Rightarrow> eth_result \<Rightarrow> bool" where
  "eth_shows buf r =
     (shows_header buf r ''ethernet'' 0 ethernet_layout \<and>
      (if bits_at buf 96 16 = 0x0800 then
         shows_header buf r ''ipv4'' 112 ipv4_layout \<and> shows_run r ''ipv4'' ''options'' 272 (ipv4_options buf) \<and>
         eth_get (SPresent ''ipv6'') r = 0 \<and>
         shows_l4 buf r (272 + unat (ipv4_options buf)) (bits_at buf 184 8)
       else
         shows_header buf r ''ipv6'' 112 ipv6_layout \<and> shows_run r ''ipv6'' ''src'' 176 128 \<and>
         shows_run r ''ipv6'' ''dst'' 304 128 \<and> eth_get (SPresent ''ipv4'') r = 0 \<and>
         shows_l4 buf r 432 (bits_at buf 160 8)))"

section \<open>States\<close>

abbreviation eth_extract :: "string \<Rightarrow> extract_op" where
  "eth_extract h \<equiv> \<lparr>ex_header_type = h, ex_instance = [], ex_lookahead = False\<rparr>"

lemma eth_instance [simp]: "instance_of (eth_extract i) = i"
  by (simp add: instance_of_def)

text \<open>A result of the interpreter against the specification.\<close>

definition meets :: "int \<times> u16 \<times> nat \<Rightarrow> parse_result \<Rightarrow> bool" where
  "meets s res \<longleftrightarrow>
     (case s of (ret, why, c) \<Rightarrow>
        ret = (if pr_outcome res = Accepted then 0 else 1) \<and> why = expected_reason eth_ir res \<and>
        pr_consumed_bits res = c)"

lemma eth_reason_numbers [simp]:
  "reason_number eth_ir ''unsupported ip protocol'' = eth_R_UNSUPPORTED_IP_PROTOCOL"
  "reason_number eth_ir ''unsupported ethertype'' = eth_R_UNSUPPORTED_ETHERTYPE"
  by code_simp+

lemma truncated_meets: "truncated c res \<Longrightarrow> meets (1, PK_R_OUT_OF_BOUNDS, c) res"
  by (auto simp: truncated_def meets_def expected_reason_def pop_truncated_def)

text \<open>At bit \<open>c\<close>, with the headers \<open>hs\<close> behind and no region open.\<close>

definition at_bit :: "nat \<Rightarrow> parsed_header list \<Rightarrow> machine \<Rightarrow> bool" where
  "at_bit c hs m \<longleftrightarrow> m_cursor m = c \<and> m_headers m = hs \<and> m_regions m = []"

lemma at_bit_simps [simp]:
  "at_bit c hs (enter n m) = at_bit c hs m" "at_bit c hs (set_decision d m) = at_bit c hs m"
  by (simp_all add: at_bit_def enter_def set_decision_def)

definition ends :: "int \<times> u16 \<times> nat \<Rightarrow> parsed_header list \<Rightarrow> parse_result \<Rightarrow> bool" where
  "ends s hs res \<longleftrightarrow> meets s res \<and> (pr_outcome res = Accepted \<longrightarrow> pr_headers res = hs)"

lemma truncated_ends: "truncated c res \<Longrightarrow> ends (1, PK_R_OUT_OF_BOUNDS, c) hs res"
  using truncated_meets by (auto simp: ends_def truncated_def)

abbreviation header_of :: "bytes \<Rightarrow> header_type \<Rightarrow> nat \<Rightarrow> parsed_header" where
  "header_of buf ht c \<equiv> header_at (eth_extract (ht_name ht)) c (read_fields buf c (ht_fields ht))"

lemma run_loop_next:
  assumes "d < p_max_depth p" and "find_state p n = Some st"
  shows "run_loop p packet avail d n m =
    (case run_state p packet avail st (enter n m) of
       Inl e \<Rightarrow> Inl e
     | Inr (Stop res) \<Rightarrow> Inr res
     | Inr (Go (m', k)) \<Rightarrow> run_loop p packet avail (Suc d) k m')"
  using assms by (simp add: run_loop.simps [of p packet avail d n m] Let_def)

lemma eth_states:
  "find_state eth_ir ''parse_ethernet'' = Some eth_st_parse_ethernet"
  "find_state eth_ir ''parse_ipv4'' = Some eth_st_parse_ipv4"
  "find_state eth_ir ''parse_ipv6'' = Some eth_st_parse_ipv6"
  "find_state eth_ir ''parse_tcp'' = Some eth_st_parse_tcp"
  "find_state eth_ir ''parse_udp'' = Some eth_st_parse_udp"
  by (simp_all add: find_state_def eth_ir_sel eth_st_parse_ethernet_sel eth_st_parse_ipv4_sel
      eth_st_parse_ipv6_sel eth_st_parse_tcp_sel eth_st_parse_udp_sel)

text \<open>A state that extracts one fixed-width header and accepts.\<close>

lemma last_state:
  assumes st: "find_state eth_ir n = Some st" "st_extracts st = [eth_extract i]" "st_assigns st = []"
      "st_region_ops st = []" "st_transition st = Direct Accept"
    and ht: "find_header_type eth_ir i = Some ht" "list_all fixed (ht_fields ht)"
    and at: "at_bit c hs m" and d: "d < 4" and input: "input_ok buf len" "c \<le> len"
  shows "\<exists>res. run_loop eth_ir buf len d n m = Inr res \<and>
    ends (if c + total_bits (ht_fields ht) \<le> len then (0, PK_R_NONE, c + total_bits (ht_fields ht))
          else (1, PK_R_OUT_OF_BOUNDS, c + boundary (map bits_of (ht_fields ht)) (len - c)))
      (hs @ [header_of buf ht c]) res"
proof -
  let ?m = "enter n m"
  have m: "m_regions ?m = []" "m_cursor ?m = c" "m_headers ?m = hs"
    using at by (simp_all add: at_bit_def enter_def)
  have name: "ht_name ht = i" using find_header_typeD [OF ht(1)] by simp
  have d': "d < p_max_depth eth_ir" using d by (simp add: eth_ir_sel)
  note step = extract_fixed_header [of buf len "eth_extract i" eth_ir ht ?m "st_name st"]
  show ?thesis
  proof (cases "c + total_bits (ht_fields ht) \<le> len")
    case True
    then show ?thesis
      using step input ht m
      by (simp add: run_loop_next [OF d' st(1)] run_state_def st choose_target_def run_target_def
          ends_def meets_def expected_reason_def eth_ir_sel name set_decision_def)
  next
    case False
    then obtain res where "extract_header eth_ir buf len (st_name st) (eth_extract i) ?m = Inr (Stop res)"
      and t: "truncated (c + boundary (map bits_of (ht_fields ht)) (len - c)) res"
      using step input ht m by (auto simp: eth_ir_sel)
    then show ?thesis
      using False truncated_ends [OF t] by (simp add: run_loop_next [OF d' st(1)] run_state_def st)
  qed
qed

lemma fixed_headers:
  "list_all fixed (ht_fields eth_ht_ethernet)" "list_all fixed (ht_fields eth_ht_tcp)"
  "list_all fixed (ht_fields eth_ht_udp)"
  "map bits_of (ht_fields eth_ht_ethernet) = [48, 48, 16]"
  "map bits_of (ht_fields eth_ht_tcp) = [16, 16, 32, 32, 4, 4, 8, 16, 16, 16]"
  "map bits_of (ht_fields eth_ht_udp) = [16, 16, 16, 16]"
  by (simp_all add: fixed_def bits_of_def eth_ht_ethernet_def eth_ht_tcp_def eth_ht_udp_def)

lemma fixed_totals:
  "total_bits (ht_fields eth_ht_ethernet) = 112" "total_bits (ht_fields eth_ht_tcp) = 160"
  "total_bits (ht_fields eth_ht_udp) = 64"
  by (simp_all add: total_bits_def fixed_headers)

definition l4_header :: "bytes \<Rightarrow> u64 \<Rightarrow> nat \<Rightarrow> parsed_header" where
  "l4_header buf proto c = header_of buf (if proto = 6 then eth_ht_tcp else eth_ht_udp) c"

text \<open>The transition of both IP states, and what follows it.\<close>

abbreviation proto_select :: "string \<Rightarrow> string \<Rightarrow> transition" where
  "proto_select i f \<equiv> Select [Field i f]
     [\<lparr>arm_entries = [Value 6], arm_next = ToState ''parse_tcp''\<rparr>,
      \<lparr>arm_entries = [Value 17], arm_next = ToState ''parse_udp''\<rparr>]
     (Some (Reject ''unsupported ip protocol'' SevInfo))"

lemma proto_step:
  assumes at: "at_bit c hs m" and key: "m_env m (i, f) = Some k" and input: "input_ok buf len" "c \<le> len"
  shows "\<exists>res. (case then_run (choose_target eth_ir n (proto_select i f) m) (run_target eth_ir n) of
      Inl e \<Rightarrow> Inl e
    | Inr (Stop res) \<Rightarrow> Inr res
    | Inr (Go (m', k)) \<Rightarrow> run_loop eth_ir buf len 2 k m') = Inr res \<and>
    ends (l4_spec len c k) (hs @ [l4_header buf k c]) res"
proof -
  have at': "at_bit c hs (set_decision d m)" for d using at by simp
  consider (tcp) "k = 6" | (udp) "k = 17" | (other) "k \<noteq> 6" "k \<noteq> 17" by blast
  then show ?thesis
  proof cases
    case tcp
    have "\<exists>res. run_loop eth_ir buf len 2 ''parse_tcp'' (set_decision (DArm 0) m) = Inr res \<and>
        ends (l4_spec len c k) (hs @ [l4_header buf k c]) res"
      using last_state [OF eth_states(4) _ _ _ _ _ fixed_headers(2) at' _ input, of "''tcp''" 2 "DArm 0"]
      by (simp add: eth_st_parse_tcp_sel fixed_headers fixed_totals tcp l4_spec_def l4_header_def cong: if_cong)
    then show ?thesis
      using tcp key by (simp add: choose_target_def run_target_def arm_matches_def)
  next
    case udp
    have "\<exists>res. run_loop eth_ir buf len 2 ''parse_udp'' (set_decision (DArm 1) m) = Inr res \<and>
        ends (l4_spec len c k) (hs @ [l4_header buf k c]) res"
      using last_state [OF eth_states(5) _ _ _ _ _ fixed_headers(3) at' _ input, of "''udp''" 2 "DArm 1"]
      by (simp add: eth_st_parse_udp_sel fixed_headers fixed_totals udp l4_spec_def l4_header_def cong: if_cong)
    then show ?thesis
      using udp key by (simp add: choose_target_def run_target_def arm_matches_def)
  next
    case other
    then show ?thesis
      using key at
      by (simp add: choose_target_def run_target_def arm_matches_def l4_spec_def ends_def meets_def
          expected_reason_def pop_truncated_def mk_reject_def at_bit_def set_decision_def)
  qed
qed

text \<open>Both IP states: one header, then the transition.\<close>

lemma ip_state:
  assumes st: "find_state eth_ir n = Some st" "st_extracts st = [eth_extract i]" "st_assigns st = []"
      "st_region_ops st = []" "st_transition st = proto_select i f"
    and hdr: "extract_header eth_ir buf len (st_name st) (eth_extract i) (enter n m) = Inr (Go m')"
    and m': "at_bit c hs m'" "m_env m' (i, f) = Some k" and input: "input_ok buf len" "c \<le> len"
  shows "\<exists>res. run_loop eth_ir buf len 1 n m = Inr res \<and>
    ends (l4_spec len c k) (hs @ [l4_header buf k c]) res"
proof -
  have "1 < p_max_depth eth_ir" by (simp add: eth_ir_sel)
  from run_loop_next [OF this st(1), of buf len m, unfolded Suc_1] show ?thesis
    using proto_step [OF m' input, of "st_name st"] by (simp add: run_state_def st(2-5) hdr)
qed

lemma ip_state_stops:
  assumes "find_state eth_ir n = Some st" "st_extracts st = [eth_extract i]"
    and "extract_header eth_ir buf len (st_name st) (eth_extract i) (enter n m) = Inr (Stop res)"
  shows "run_loop eth_ir buf len 1 n m = Inr res"
  using run_loop_next [of 1 eth_ir n st] assms by (simp add: eth_ir_sel run_state_def)

section \<open>IPv4\<close>

definition ipv4_fixed :: "field list" where
  "ipv4_fixed = take 13 (ht_fields eth_ht_ipv4)"

definition ipv4_var :: field where
  "ipv4_var = last (ht_fields eth_ht_ipv4)"

lemma ipv4_fields:
  "ht_fields eth_ht_ipv4 = ipv4_fixed @ [ipv4_var]" "list_all fixed ipv4_fixed"
  "map bits_of ipv4_fixed = [4, 4, 6, 2, 16, 16, 3, 13, 8, 8, 16, 32, 32]" "total_bits ipv4_fixed = 160"
  by (simp_all add: ipv4_fixed_def ipv4_var_def eth_ht_ipv4_def fixed_def bits_of_def total_bits_def)

lemma ipv4_env:
  "bind_fields buf ''ipv4'' 112 ipv4_fixed env (''ipv4'', ''ihl'') = Some (bits_at buf 116 4)"
  "bind_fields buf ''ipv4'' 112 ipv4_fixed env (''ipv4'', ''protocol'') = Some (bits_at buf 184 8)"
  by (simp_all add: ipv4_fixed_def eth_ht_ipv4_def bits_of_def)

text \<open>The header, whose options the interpreter copies out as \<open>run\<close>.\<close>

definition ipv4_header :: "bytes \<Rightarrow> bytes \<Rightarrow> parsed_header" where
  "ipv4_header buf run =
     header_at (eth_extract ''ipv4'') 112 (read_fields buf 112 ipv4_fixed @
       [\<lparr>pf_name = ''options'', pf_bit_offset = 272, pf_bit_len = unat (ipv4_options buf), pf_value = BitRun run\<rparr>])"

definition ipv4_spec :: "bytes \<Rightarrow> nat \<Rightarrow> int \<times> u16 \<times> nat" where
  "ipv4_spec buf len =
     (if len < 272
      then (1, PK_R_OUT_OF_BOUNDS, 112 + boundary [4, 4, 6, 2, 16, 16, 3, 13, 8, 8, 16, 32, 32] (len - 112))
      else if len < 272 + unat (ipv4_options buf) then (1, PK_R_OUT_OF_BOUNDS, 272)
      else l4_spec len (272 + unat (ipv4_options buf)) (bits_at buf 184 8))"

lemma ipv4_extract:
  assumes m: "at_bit 112 hs m" and input: "input_ok buf len" "112 \<le> len"
  shows "if len < 272 + unat (ipv4_options buf)
    then \<exists>res. extract_header eth_ir buf len n (eth_extract ''ipv4'') m = Inr (Stop res) \<and>
      truncated (if len < 272 then 112 + boundary (map bits_of ipv4_fixed) (len - 112) else 272) res
    else \<exists>run m'. extract_header eth_ir buf len n (eth_extract ''ipv4'') m = Inr (Go m') \<and>
      at_bit (272 + unat (ipv4_options buf)) (hs @ [ipv4_header buf run]) m' \<and>
      m_env m' (''ipv4'', ''protocol'') = Some (bits_at buf 184 8)"
proof -
  have at: "m_cursor m = 112" "m_headers m = hs" "m_regions m = []" using m by (simp_all add: at_bit_def)
  note mixed = extract_mixed_header [of buf len "eth_extract ''ipv4''" eth_ir eth_ht_ipv4 ipv4_fixed "[ipv4_var]" m n,
      OF input(1) _ _ _ ipv4_fields(1,2) at(3), unfolded at ipv4_fields(4)]
  show ?thesis
  proof (cases "len < 272")
    case True
    then show ?thesis using mixed input(2) by (simp add: eth_ir_sel)
  next
    case False
    let ?m = "m\<lparr>m_env := bind_fields buf ''ipv4'' 112 ipv4_fixed (m_env m), m_cursor := 272\<rparr>"
    let ?h = "header_at (eth_extract ''ipv4'') 112 (read_fields buf 112 ipv4_fixed)"
    have prefix: "extract_header eth_ir buf len n (eth_extract ''ipv4'') m =
        then_run (extract_fields eth_ir buf len n (eth_extract ''ipv4'') 112 [ipv4_var] (?m, ?h))
          (\<lambda>(m', parsed). Inr (Go (m'\<lparr>m_headers := m_headers m' @ [parsed]\<rparr>)))"
      using mixed False input(2) by (simp add: eth_ir_sel)
    have width: "field_width ipv4_var = BitLen (Bin OpMul (Bin OpSub (Bin OpMul (Field ''ipv4'' ''ihl'')
        (Constant 4)) (Constant 20)) (Constant 8))" and name: "field_name ipv4_var = ''options''"
      by (simp_all add: ipv4_var_def eth_ht_ipv4_def)
    note var = extract_var_field [of buf len "eth_extract ''ipv4''" eth_ir ipv4_var _ ?m "ipv4_options buf" n 112 ?h,
        OF input(1) _ _ width]
    show ?thesis
      using var False at prefix
      by (auto simp: eth_ir_sel ipv4_env ipv4_options_def name at_bit_def header_at_def ipv4_header_def)
  qed
qed

lemma ipv4_state:
  assumes m: "at_bit 112 hs m" and input: "input_ok buf len" "112 \<le> len"
  shows "\<exists>res run. run_loop eth_ir buf len 1 ''parse_ipv4'' m = Inr res \<and>
    ends (ipv4_spec buf len)
      (hs @ [ipv4_header buf run, l4_header buf (bits_at buf 184 8) (272 + unat (ipv4_options buf))]) res"
proof -
  have m': "at_bit 112 hs (enter ''parse_ipv4'' m)" using m by simp
  note hdr = ipv4_extract [OF m' input, of "st_name eth_st_parse_ipv4"]
  note st = eth_states(2) eth_st_parse_ipv4_sel(2)
  show ?thesis
  proof (cases "len < 272 + unat (ipv4_options buf)")
    case True
    with hdr obtain res where res: "extract_header eth_ir buf len (st_name eth_st_parse_ipv4)
        (eth_extract ''ipv4'') (enter ''parse_ipv4'' m) = Inr (Stop res)"
      "truncated (if len < 272 then 112 + boundary (map bits_of ipv4_fixed) (len - 112) else 272) res"
      by auto
    from truncated_ends [OF this(2)] True show ?thesis
      unfolding ip_state_stops [OF st res(1)] ipv4_spec_def ipv4_fields by (auto split: if_splits)
  next
    case False
    with hdr obtain run m' where go: "extract_header eth_ir buf len (st_name eth_st_parse_ipv4)
        (eth_extract ''ipv4'') (enter ''parse_ipv4'' m) = Inr (Go m')"
      "at_bit (272 + unat (ipv4_options buf)) (hs @ [ipv4_header buf run]) m'"
      "m_env m' (''ipv4'', ''protocol'') = Some (bits_at buf 184 8)" by auto
    have "272 + unat (ipv4_options buf) \<le> len" using False by simp
    from ip_state [OF st eth_st_parse_ipv4_sel(3-5) go input(1) this] False show ?thesis
      by (auto simp: ipv4_spec_def)
  qed
qed

text \<open>No packet is long enough for an IHL below 5: the wrapped length exceeds every input.\<close>

lemma short_ihl_truncated:
  assumes "unat (bits_at buf 116 4) < 5" and "len < 2 ^ 63" and "272 \<le> len"
  shows "ipv4_spec buf len = (1, PK_R_OUT_OF_BOUNDS, 272)"
proof -
  let ?w = "bits_at buf 116 4"
  have "unat ?w = 0 \<or> unat ?w = 1 \<or> unat ?w = 2 \<or> unat ?w = 3 \<or> unat ?w = 4" using assms(1) by auto
  then have "?w = 0 \<or> ?w = 1 \<or> ?w = 2 \<or> ?w = 3 \<or> ?w = 4" by (simp add: word_unat_eq_iff)
  then have "2 ^ 63 \<le> unat (ipv4_options buf)" by (elim disjE) (simp_all add: ipv4_options_def)
  then show ?thesis using assms(2,3) by (simp add: ipv4_spec_def)
qed

section \<open>IPv6\<close>

definition ipv6_fixed :: "field list" where
  "ipv6_fixed = take 6 (ht_fields eth_ht_ipv6)"

definition ipv6_address :: "string \<Rightarrow> field" where
  "ipv6_address f = \<lparr>field_name = f, field_width = BitLen (Bin OpMul (Constant 16) (Constant 8))\<rparr>"

lemma ipv6_fields:
  "ht_fields eth_ht_ipv6 = ipv6_fixed @ [ipv6_address ''src'', ipv6_address ''dst'']" "list_all fixed ipv6_fixed"
  "map bits_of ipv6_fixed = [4, 8, 20, 16, 8, 8]" "total_bits ipv6_fixed = 64"
  by (simp_all add: ipv6_fixed_def ipv6_address_def eth_ht_ipv6_def fixed_def bits_of_def total_bits_def)

lemma ipv6_env:
  "bind_fields buf ''ipv6'' 112 ipv6_fixed env (''ipv6'', ''next_header'') = Some (bits_at buf 160 8)"
  by (simp add: ipv6_fixed_def eth_ht_ipv6_def bits_of_def)

definition address_at :: "string \<Rightarrow> nat \<Rightarrow> bytes \<Rightarrow> parsed_field" where
  "address_at f c run = \<lparr>pf_name = f, pf_bit_offset = c, pf_bit_len = 128, pf_value = BitRun run\<rparr>"

definition ipv6_header :: "bytes \<Rightarrow> bytes \<times> bytes \<Rightarrow> parsed_header" where
  "ipv6_header buf runs =
     header_at (eth_extract ''ipv6'') 112 (read_fields buf 112 ipv6_fixed @
       [address_at ''src'' 176 (fst runs), address_at ''dst'' 304 (snd runs)])"

definition ipv6_end :: "nat \<Rightarrow> nat" where
  "ipv6_end len = 112 + boundary [4, 8, 20, 16, 8, 8, 128, 128] (len - 112)"

lemma ipv6_end_cases:
  "112 \<le> len \<Longrightarrow> len < 176 \<Longrightarrow> ipv6_end len = 112 + boundary [4, 8, 20, 16, 8, 8] (len - 112)"
  "176 \<le> len \<Longrightarrow> len < 304 \<Longrightarrow> ipv6_end len = 176"
  "304 \<le> len \<Longrightarrow> len < 432 \<Longrightarrow> ipv6_end len = 304"
  using boundary_append [of "[4, 8, 20, 16, 8, 8]" "[128, 128]" "len - 112"]
  by (auto simp: ipv6_end_def boundary.simps(1) boundary.simps(2) [of 128])

lemma extract_address:
  assumes "input_ok buf len" and "m_regions m = []"
  shows "if m_cursor m + 128 \<le> len
    then \<exists>run. extract_field eth_ir buf len n (eth_extract i) entry (ipv6_address f) (m, parsed) = Inr (Go
      (m\<lparr>m_cursor := m_cursor m + 128\<rparr>,
       parsed\<lparr>ph_fields := ph_fields parsed @ [address_at f (m_cursor m) run]\<rparr>))
    else \<exists>res. extract_field eth_ir buf len n (eth_extract i) entry (ipv6_address f) (m, parsed) = Inr (Stop res) \<and>
      truncated (m_cursor m) res"
  using extract_var_field [of buf len "eth_extract i" eth_ir "ipv6_address f" "Bin OpMul (Constant 16) (Constant 8)"
      m 128 n entry parsed] assms
  by (simp add: eth_ir_sel ipv6_address_def address_at_def cong: if_cong)

lemma ipv6_extract:
  assumes m: "at_bit 112 hs m" and input: "input_ok buf len" "112 \<le> len"
  shows "if len < 432
    then \<exists>res. extract_header eth_ir buf len n (eth_extract ''ipv6'') m = Inr (Stop res) \<and>
      truncated (ipv6_end len) res
    else \<exists>runs m'. extract_header eth_ir buf len n (eth_extract ''ipv6'') m = Inr (Go m') \<and>
      at_bit 432 (hs @ [ipv6_header buf runs]) m' \<and>
      m_env m' (''ipv6'', ''next_header'') = Some (bits_at buf 160 8)"
proof -
  have at: "m_cursor m = 112" "m_headers m = hs" "m_regions m = []" using m by (simp_all add: at_bit_def)
  note mixed = extract_mixed_header [of buf len "eth_extract ''ipv6''" eth_ir eth_ht_ipv6 ipv6_fixed
      "[ipv6_address ''src'', ipv6_address ''dst'']" m n,
      OF input(1) _ _ _ ipv6_fields(1,2) at(3), unfolded at ipv6_fields(3,4)]
  show ?thesis
  proof (cases "len < 176")
    case True
    then show ?thesis using mixed input(2) by (simp add: eth_ir_sel ipv6_end_cases)
  next
    case False
    let ?m = "m\<lparr>m_env := bind_fields buf ''ipv6'' 112 ipv6_fixed (m_env m), m_cursor := 176\<rparr>"
    let ?h = "header_at (eth_extract ''ipv6'') 112 (read_fields buf 112 ipv6_fixed)"
    have prefix: "extract_header eth_ir buf len n (eth_extract ''ipv6'') m =
        then_run (extract_fields eth_ir buf len n (eth_extract ''ipv6'') 112
            [ipv6_address ''src'', ipv6_address ''dst''] (?m, ?h))
          (\<lambda>(m', parsed). Inr (Go (m'\<lparr>m_headers := m_headers m' @ [parsed]\<rparr>)))"
      using mixed False input(2) by (simp add: eth_ir_sel)
    note src = extract_address [of buf len ?m n "''ipv6''" 112 "''src''" ?h, OF input(1)]
    show ?thesis
    proof (cases "len < 304")
      case True
      then show ?thesis using src False at prefix by (auto simp: ipv6_end_cases)
    next
      case False
      with src at obtain run where 1: "extract_field eth_ir buf len n (eth_extract ''ipv6'') 112
          (ipv6_address ''src'') (?m, ?h) =
        Inr (Go (?m\<lparr>m_cursor := 304\<rparr>, ?h\<lparr>ph_fields := ph_fields ?h @ [address_at ''src'' 176 run]\<rparr>))"
        by auto
      note dst = extract_address [of buf len "?m\<lparr>m_cursor := 304\<rparr>" n "''ipv6''" 112 "''dst''"
          "?h\<lparr>ph_fields := ph_fields ?h @ [address_at ''src'' 176 run]\<rparr>", OF input(1)]
      show ?thesis
      proof (cases "len < 432")
        case True
        then show ?thesis using dst False at prefix 1 by (auto simp: ipv6_end_cases)
      next
        case False
        with dst at obtain run' where "extract_field eth_ir buf len n (eth_extract ''ipv6'') 112
            (ipv6_address ''dst'') (?m\<lparr>m_cursor := 304\<rparr>,
              ?h\<lparr>ph_fields := ph_fields ?h @ [address_at ''src'' 176 run]\<rparr>) =
          Inr (Go (?m\<lparr>m_cursor := 432\<rparr>,
            ?h\<lparr>ph_fields := ph_fields ?h @ [address_at ''src'' 176 run, address_at ''dst'' 304 run']\<rparr>))"
          by auto
        then have "extract_header eth_ir buf len n (eth_extract ''ipv6'') m =
            Inr (Go (?m\<lparr>m_cursor := 432, m_headers := hs @ [ipv6_header buf (run, run')]\<rparr>))"
          using prefix 1 at by (simp add: ipv6_header_def header_at_def)
        then show ?thesis using False at ipv6_env by (force simp: at_bit_def)
      qed
    qed
  qed
qed

definition ipv6_spec :: "bytes \<Rightarrow> nat \<Rightarrow> int \<times> u16 \<times> nat" where
  "ipv6_spec buf len =
     (if len < 432 then (1, PK_R_OUT_OF_BOUNDS, ipv6_end len) else l4_spec len 432 (bits_at buf 160 8))"

lemma ipv6_state:
  assumes m: "at_bit 112 hs m" and input: "input_ok buf len" "112 \<le> len"
  shows "\<exists>res runs. run_loop eth_ir buf len 1 ''parse_ipv6'' m = Inr res \<and>
    ends (ipv6_spec buf len) (hs @ [ipv6_header buf runs, l4_header buf (bits_at buf 160 8) 432]) res"
proof -
  have m': "at_bit 112 hs (enter ''parse_ipv6'' m)" using m by simp
  note hdr = ipv6_extract [OF m' input, of "st_name eth_st_parse_ipv6"]
  note st = eth_states(3) eth_st_parse_ipv6_sel(2)
  show ?thesis
  proof (cases "len < 432")
    case True
    with hdr obtain res where res: "extract_header eth_ir buf len (st_name eth_st_parse_ipv6)
        (eth_extract ''ipv6'') (enter ''parse_ipv6'' m) = Inr (Stop res)" "truncated (ipv6_end len) res"
      by auto
    from truncated_ends [OF this(2)] True show ?thesis
      unfolding ip_state_stops [OF st res(1)] ipv6_spec_def by auto
  next
    case False
    with hdr obtain runs m' where go: "extract_header eth_ir buf len (st_name eth_st_parse_ipv6)
        (eth_extract ''ipv6'') (enter ''parse_ipv6'' m) = Inr (Go m')"
      "at_bit 432 (hs @ [ipv6_header buf runs]) m'"
      "m_env m' (''ipv6'', ''next_header'') = Some (bits_at buf 160 8)" by auto
    have "432 \<le> len" using False by simp
    from ip_state [OF st eth_st_parse_ipv6_sel(3-5) go input(1) this] False show ?thesis
      by (auto simp: ipv6_spec_def simp del: split_paired_Ex)
  qed
qed

section \<open>Ethernet\<close>

abbreviation "ethernet_header buf \<equiv> header_of buf eth_ht_ethernet 0"

text \<open>The headers of an accepted packet, up to the bytes of its variable-length fields.\<close>

definition eth_headers :: "bytes \<Rightarrow> parsed_header list \<Rightarrow> bool" where
  "eth_headers buf hs \<longleftrightarrow>
     (\<exists>run runs. hs =
        (if bits_at buf 96 16 = 0x0800
         then [ethernet_header buf, ipv4_header buf run,
           l4_header buf (bits_at buf 184 8) (272 + unat (ipv4_options buf))]
         else [ethernet_header buf, ipv6_header buf runs, l4_header buf (bits_at buf 160 8) 432]))"

lemma eth_spec_eq:
  "eth_spec buf len =
     (if len < 112 then (1, PK_R_OUT_OF_BOUNDS, boundary [48, 48, 16] len)
      else if bits_at buf 96 16 = 0x0800 then ipv4_spec buf len
      else if bits_at buf 96 16 = 0x86DD then ipv6_spec buf len
      else (1, eth_R_UNSUPPORTED_ETHERTYPE, 112))"
  by (simp add: eth_spec_def ipv4_spec_def ipv6_spec_def ipv6_end_def)

lemma ethernet_run:
  assumes input: "input_ok buf len"
  shows "\<exists>res hs. run_bits eth_ir buf len = Inr res \<and> ends (eth_spec buf len) hs res \<and> eth_headers buf hs"
proof -
  let ?m = "enter ''parse_ethernet'' (init_machine eth_ir)"
  let ?ty = "bits_at buf 96 16"
  have head: "\<exists>hs. eth_headers buf hs" by (auto simp: eth_headers_def)
  have m: "m_regions ?m = []" "m_cursor ?m = 0" "m_headers ?m = []" by (simp_all add: enter_def init_machine_def)
  have "0 < p_max_depth eth_ir" by (simp add: eth_ir_sel)
  note loop = run_loop_next [OF this eth_states(1), of buf len "init_machine eth_ir"]
  note hdr = extract_fixed_header [of buf len "eth_extract ''ethernet''" eth_ir eth_ht_ethernet ?m
      "''parse_ethernet''", OF input _ _ _ fixed_headers(1) m(1), unfolded m fixed_totals fixed_headers]
  show ?thesis
  proof (cases "112 \<le> len")
    case True
    define m1 where "m1 = ?m\<lparr>m_env := bind_fields buf ''ethernet'' 0 (ht_fields eth_ht_ethernet) (m_env ?m),
      m_cursor := 112, m_headers := [ethernet_header buf]\<rparr>"
    have go: "extract_header eth_ir buf len ''parse_ethernet'' (eth_extract ''ethernet'') ?m = Inr (Go m1)"
      using hdr True by (simp add: eth_ir_sel m1_def eth_ht_ethernet_def)
    have key: "m_env m1 (''ethernet'', ''ethertype'') = Some ?ty"
      by (simp add: m1_def eth_ht_ethernet_def bits_of_def)
    have at: "at_bit 112 [ethernet_header buf] (set_decision d m1)" for d
      using m by (simp add: at_bit_def m1_def set_decision_def)
    consider (v4) "?ty = 0x0800" | (v6) "?ty = 0x86DD" | (other) "?ty \<noteq> 0x0800" "?ty \<noteq> 0x86DD" by blast
    then show ?thesis
    proof cases
      case v4
      have "run_bits eth_ir buf len = run_loop eth_ir buf len 1 ''parse_ipv4'' (set_decision (DArm 0) m1)"
        using v4 key by (simp add: run_bits_def eth_ir_sel(2) loop run_state_def eth_st_parse_ethernet_sel go
            choose_target_def run_target_def arm_matches_def)
      then show ?thesis
        using ipv4_state [OF at input True] v4 True by (fastforce simp: eth_spec_eq eth_headers_def simp del: split_paired_Ex)
    next
      case v6
      have "run_bits eth_ir buf len = run_loop eth_ir buf len 1 ''parse_ipv6'' (set_decision (DArm 1) m1)"
        using v6 key by (simp add: run_bits_def eth_ir_sel(2) loop run_state_def eth_st_parse_ethernet_sel go
            choose_target_def run_target_def arm_matches_def)
      then show ?thesis
        using ipv6_state [OF at input True] v6 True by (fastforce simp: eth_spec_eq eth_headers_def simp del: split_paired_Ex)
    next
      case other
      have "\<exists>res. run_bits eth_ir buf len = Inr res \<and> ends (1, 16, 112) hs res" for hs
        using other key at [of DDefault]
        by (simp add: run_bits_def eth_ir_sel(2) loop run_state_def eth_st_parse_ethernet_sel go
            choose_target_def run_target_def arm_matches_def ends_def meets_def expected_reason_def
            pop_truncated_def mk_reject_def at_bit_def set_decision_def)
      then show ?thesis using head other True by (fastforce simp: eth_spec_eq)
    qed
  next
    case False
    then obtain res where res: "extract_header eth_ir buf len ''parse_ethernet''
        (eth_extract ''ethernet'') ?m = Inr (Stop res)" "truncated (boundary [48, 48, 16] len) res"
      using hdr by (auto simp: eth_ir_sel)
    then have "run_bits eth_ir buf len = Inr res"
      by (simp add: run_bits_def eth_ir_sel(2) loop run_state_def eth_st_parse_ethernet_sel)
    then show ?thesis using truncated_ends [OF res(2)] False head by (auto simp: eth_spec_eq)
  qed
qed

section \<open>The generated parser\<close>

text \<open>The value the last write to a slot leaves there.\<close>

lemma replay_lookup:
  "replay hs x = (case map_of (rev (concat (map header_writes hs))) x of None \<Rightarrow> 0 | Some v \<Rightarrow> v)"
proof -
  have "foldl (\<lambda>m (x, v). m(x := v)) f ws x = (case map_of (rev ws) x of None \<Rightarrow> f x | Some v \<Rightarrow> v)"
    for f :: "slot \<Rightarrow> u64" and ws
    by (induction ws rule: rev_induct) auto
  then show ?thesis by (simp add: replay_def)
qed

lemmas eth_write_simps = header_writes_def header_at_def field_writes_def bits_of_def add.assoc

lemma ethernet_writes:
  "header_writes (ethernet_header buf) =
     (SPresent ''ethernet'', 1) # map (\<lambda>(f, d, n). (SFld ''ethernet'' f, bits_at buf d n)) ethernet_layout"
  by (simp add: eth_write_simps eth_ht_ethernet_def ethernet_layout_def)

lemma ipv4_writes:
  "header_writes (ipv4_header buf run) =
     (SPresent ''ipv4'', 1) # map (\<lambda>(f, d, n). (SFld ''ipv4'' f, bits_at buf (112 + d) n)) ipv4_layout @
     [(SOff ''ipv4'' ''options'', 272), (SLen ''ipv4'' ''options'', ipv4_options buf)]"
  by (simp add: eth_write_simps ipv4_header_def ipv4_fixed_def eth_ht_ipv4_def ipv4_layout_def)

lemma ipv6_writes:
  "header_writes (ipv6_header buf runs) =
     (SPresent ''ipv6'', 1) # map (\<lambda>(f, d, n). (SFld ''ipv6'' f, bits_at buf (112 + d) n)) ipv6_layout @
     [(SOff ''ipv6'' ''src'', 176), (SLen ''ipv6'' ''src'', 128), (SOff ''ipv6'' ''dst'', 304), (SLen ''ipv6'' ''dst'', 128)]"
  by (simp add: eth_write_simps ipv6_header_def ipv6_fixed_def address_at_def eth_ht_ipv6_def ipv6_layout_def)

lemma l4_writes:
  "header_writes (l4_header buf k c) =
     (if k = 6
      then (SPresent ''tcp'', 1) # map (\<lambda>(f, d, n). (SFld ''tcp'' f, bits_at buf (c + d) n)) tcp_layout
      else (SPresent ''udp'', 1) # map (\<lambda>(f, d, n). (SFld ''udp'' f, bits_at buf (c + d) n)) udp_layout)"
  by (simp add: eth_write_simps l4_header_def eth_ht_tcp_def eth_ht_udp_def tcp_layout_def udp_layout_def)

lemmas eth_layouts = ethernet_layout_def ipv4_layout_def ipv6_layout_def tcp_layout_def udp_layout_def

text \<open>Each instance is extracted once, so its members are those of its own header.\<close>

fun slot_instance :: "slot \<Rightarrow> string option" where
  "slot_instance (SPresent i) = Some i"
| "slot_instance (SFld i f) = Some i"
| "slot_instance (SOff i f) = Some i"
| "slot_instance (SLen i f) = Some i"
| "slot_instance (SMeta m) = None"

lemma field_writes_instance: "(x, v) \<in> set (field_writes i pf) \<Longrightarrow> slot_instance x = Some i"
  by (cases "pf_value pf") (auto simp: field_writes_def)

lemma header_writes_instance: "(x, v) \<in> set (header_writes h) \<Longrightarrow> slot_instance x = Some (ph_instance h)"
  by (auto simp: header_writes_def field_writes_instance)

lemma no_write: "slot_instance x \<noteq> Some (ph_instance h) \<Longrightarrow> map_of (rev (header_writes h)) x = None"
  using header_writes_instance by (force simp: map_of_eq_None_iff)

lemma no_writes:
  "(\<forall>h\<in>set hs. slot_instance x \<noteq> Some (ph_instance h)) \<Longrightarrow> map_of (rev (concat (map header_writes hs))) x = None"
  by (induction hs) (auto simp: no_write map_add_def)

lemma replay_absent: "(\<forall>h\<in>set hs. slot_instance x \<noteq> Some (ph_instance h)) \<Longrightarrow> replay hs x = 0"
  by (simp add: replay_lookup no_writes)

lemma replay_own:
  assumes "distinct (map ph_instance hs)" and "h \<in> set hs" and "slot_instance x = Some (ph_instance h)"
  shows "replay hs x = (case map_of (rev (header_writes h)) x of None \<Rightarrow> 0 | Some v \<Rightarrow> v)"
proof -
  obtain as bs where hs: "hs = as @ h # bs" using assms(2) by (auto dest: split_list)
  have other: "\<forall>h'\<in>set as. slot_instance x \<noteq> Some (ph_instance h')"
    "\<forall>h'\<in>set bs. slot_instance x \<noteq> Some (ph_instance h')" using assms(1,3) by (auto simp: hs)
  then show ?thesis by (simp add: replay_lookup hs no_writes map_add_def split: option.splits)
qed

text \<open>A header that writes a layout shows it.\<close>

lemma layout_lookup:
  assumes w: "header_writes h = (SPresent i, 1) # map (\<lambda>(f, d, n). (SFld i f, bits_at buf (c + d) n)) layout @ post"
    and dist: "distinct (map fst layout)" and post: "\<forall>x\<in>fst ` set post. \<forall>f. x \<noteq> SFld i f \<and> x \<noteq> SPresent i"
  shows "map_of (rev (header_writes h)) (SPresent i) = Some 1"
    and "(f, d, n) \<in> set layout \<Longrightarrow> map_of (rev (header_writes h)) (SFld i f) = Some (bits_at buf (c + d) n)"
proof -
  have none: "map_of (rev post) (SPresent i) = None" "map_of (rev post) (SFld i f) = None" for f
    using post by (fastforce simp: map_of_eq_None_iff)+
  let ?ws = "map (\<lambda>(f, d, n). (SFld i f, bits_at buf (c + d) n)) layout"
  have "map_of (rev ?ws) (SPresent i) = None" by (auto simp: map_of_eq_None_iff)
  then show "map_of (rev (header_writes h)) (SPresent i) = Some 1" by (simp add: w none map_add_def)
  have "map fst (rev ?ws) = map (SFld i) (map fst (rev layout))" by (auto simp: rev_map [symmetric])
  then have "distinct (map fst (rev ?ws))" using dist by (simp add: distinct_map rev_map [symmetric] inj_on_def)
  moreover assume "(f, d, n) \<in> set layout"
  then have "(SFld i f, bits_at buf (c + d) n) \<in> set (rev ?ws)" by force
  ultimately have "map_of (rev ?ws) (SFld i f) = Some (bits_at buf (c + d) n)" by (rule map_of_is_SomeI)
  then show "map_of (rev (header_writes h)) (SFld i f) = Some (bits_at buf (c + d) n)"
    by (simp add: w none map_add_def)
qed

definition eth_tables :: "(string \<times> (string \<times> nat \<times> nat) list) list" where
  "eth_tables =
     [(''ethernet'', ethernet_layout), (''ipv4'', ipv4_layout), (''ipv6'', ipv6_layout), (''tcp'', tcp_layout),
      (''udp'', udp_layout)]"

definition eth_slots :: "slot list" where
  "eth_slots =
     concat (map (\<lambda>(i, layout). SPresent i # map (\<lambda>(f, d, n). SFld i f) layout) eth_tables) @
     [SOff ''ipv4'' ''options'', SLen ''ipv4'' ''options'', SOff ''ipv6'' ''src'', SLen ''ipv6'' ''src'',
      SOff ''ipv6'' ''dst'', SLen ''ipv6'' ''dst'']"

lemma eth_slots_members: "list_all (\<lambda>x. x \<in> member_slots eth_members \<and> \<not> is_meta x) eth_slots"
  by (simp add: eth_slots_def eth_tables_def eth_layouts)

lemma eth_slots_layout:
  "(i, layout) \<in> set eth_tables \<Longrightarrow> SPresent i \<in> set eth_slots"
  "(i, layout) \<in> set eth_tables \<Longrightarrow> (f, d, n) \<in> set layout \<Longrightarrow> SFld i f \<in> set eth_slots"
  unfolding eth_slots_def by force+

lemma eth_layouts_distinct: "list_all (\<lambda>(i, layout). distinct (map fst layout)) eth_tables"
  by (simp add: eth_tables_def eth_layouts)

text \<open>A struct that agrees with the headers \<open>hs\<close>.\<close>

definition eth_replays :: "parsed_header list \<Rightarrow> eth_result \<Rightarrow> bool" where
  "eth_replays hs r \<longleftrightarrow> distinct (map ph_instance hs) \<and> (\<forall>x\<in>set eth_slots. eth_get x r = replay hs x)"

lemma shows_header_at:
  assumes "eth_replays hs r" and "h \<in> set hs" and "ph_instance h = i" and table: "(i, layout) \<in> set eth_tables"
    and w: "header_writes h = (SPresent i, 1) # map (\<lambda>(f, d, n). (SFld i f, bits_at buf (c + d) n)) layout @ post"
    and post: "\<forall>x\<in>fst ` set post. \<forall>f. x \<noteq> SFld i f \<and> x \<noteq> SPresent i"
  shows "shows_header buf r i c layout"
proof -
  have dist: "distinct (map fst layout)" using eth_layouts_distinct table by (auto simp: list_all_iff)
  note look = layout_lookup [OF w dist post]
  note own = replay_own [of hs h, unfolded assms(3)]
  have read: "eth_get x r = replay hs x" if "x \<in> set eth_slots" for x
    using assms(1) that by (simp add: eth_replays_def)
  have inst: "distinct (map ph_instance hs)" using assms(1) by (simp add: eth_replays_def)
  have "eth_get (SPresent i) r = 1"
    using read [OF eth_slots_layout(1) [OF table]] own [OF inst assms(2), of "SPresent i"] look(1) by simp
  moreover have "eth_get (SFld i f) r = bits_at buf (c + d) n" if "(f, d, n) \<in> set layout" for f d n
    using read [OF eth_slots_layout(2) [OF table that]] own [OF inst assms(2), of "SFld i f"] look(2) [OF that]
    by simp
  ultimately show ?thesis by (auto simp: shows_header_def list_all_iff)
qed

lemma absent:
  assumes "eth_replays hs r" and "(i, layout) \<in> set eth_tables" and "i \<notin> ph_instance ` set hs"
  shows "eth_get (SPresent i) r = 0"
proof -
  have "replay hs (SPresent i) = 0" using assms(3) by (intro replay_absent) auto
  then show ?thesis using assms(1) eth_slots_layout(1) [OF assms(2)] by (simp add: eth_replays_def)
qed

lemma eth_tables_in:
  "(''ethernet'', ethernet_layout) \<in> set eth_tables" "(''ipv4'', ipv4_layout) \<in> set eth_tables"
  "(''ipv6'', ipv6_layout) \<in> set eth_tables" "(''tcp'', tcp_layout) \<in> set eth_tables"
  "(''udp'', udp_layout) \<in> set eth_tables"
  by (simp_all add: eth_tables_def)

lemma eth_header_instances [simp]:
  "ph_instance (header_at (eth_extract i) c pfs) = i"
  "ph_instance (ipv4_header buf run) = ''ipv4''" "ph_instance (ipv6_header buf runs) = ''ipv6''"
  "ph_instance (l4_header buf k c) = (if k = 6 then ''tcp'' else ''udp'')"
  by (simp_all add: header_at_def ipv4_header_def ipv6_header_def l4_header_def eth_ht_tcp_def eth_ht_udp_def)

lemma eth_ethernet_name [simp]: "ht_name eth_ht_ethernet = ''ethernet''"
  by (simp add: eth_ht_ethernet_def)

lemma shows_ethernet:
  assumes "eth_replays hs r" and "ethernet_header buf \<in> set hs"
  shows "shows_header buf r ''ethernet'' 0 ethernet_layout"
  by (rule shows_header_at [OF assms _ eth_tables_in(1), where post = "[]"]) (use ethernet_writes in simp_all)

lemma shows_ipv4:
  assumes "eth_replays hs r" and "ipv4_header buf run \<in> set hs"
  shows "shows_header buf r ''ipv4'' 112 ipv4_layout \<and> shows_run r ''ipv4'' ''options'' 272 (ipv4_options buf)"
proof
  show "shows_header buf r ''ipv4'' 112 ipv4_layout"
    by (rule shows_header_at [OF assms _ eth_tables_in(2) ipv4_writes]) simp_all
  have "replay hs x = (case map_of (rev (header_writes (ipv4_header buf run))) x of None \<Rightarrow> 0 | Some v \<Rightarrow> v)"
    if "slot_instance x = Some ''ipv4''" for x
    using replay_own [of hs, OF _ assms(2)] assms(1) that by (simp add: eth_replays_def)
  then show "shows_run r ''ipv4'' ''options'' 272 (ipv4_options buf)"
    using assms(1) by (simp add: shows_run_def eth_replays_def eth_slots_def ipv4_writes)
qed

lemma shows_ipv6:
  assumes "eth_replays hs r" and "ipv6_header buf runs \<in> set hs"
  shows "shows_header buf r ''ipv6'' 112 ipv6_layout \<and> shows_run r ''ipv6'' ''src'' 176 128 \<and>
    shows_run r ''ipv6'' ''dst'' 304 128"
proof
  show "shows_header buf r ''ipv6'' 112 ipv6_layout"
    by (rule shows_header_at [OF assms _ eth_tables_in(3) ipv6_writes]) simp_all
  have "replay hs x = (case map_of (rev (header_writes (ipv6_header buf runs))) x of None \<Rightarrow> 0 | Some v \<Rightarrow> v)"
    if "slot_instance x = Some ''ipv6''" for x
    using replay_own [of hs, OF _ assms(2)] assms(1) that by (simp add: eth_replays_def)
  then show "shows_run r ''ipv6'' ''src'' 176 128 \<and> shows_run r ''ipv6'' ''dst'' 304 128"
    using assms(1) by (simp add: shows_run_def eth_replays_def eth_slots_def ipv6_writes)
qed

lemma shows_l4_at:
  assumes r: "eth_replays hs r" and h: "l4_header buf k c \<in> set hs"
    and only: "(if k = 6 then ''udp'' else ''tcp'') \<notin> ph_instance ` set hs"
  shows "shows_l4 buf r c k"
proof (cases "k = 6")
  case True
  have "shows_header buf r ''tcp'' c tcp_layout"
    by (rule shows_header_at [OF r h _ eth_tables_in(4), where post = "[]"]) (simp_all add: l4_writes True)
  then show ?thesis using absent [OF r eth_tables_in(5)] only True by (simp add: shows_l4_def)
next
  case False
  have "shows_header buf r ''udp'' c udp_layout"
    by (rule shows_header_at [OF r h _ eth_tables_in(5), where post = "[]"]) (simp_all add: l4_writes False)
  then show ?thesis using absent [OF r eth_tables_in(4)] only False by (simp add: shows_l4_def)
qed

lemma eth_agrees_shows:
  assumes hs: "eth_headers buf hs"
    and agrees: "\<And>x. x \<in> member_slots eth_members \<Longrightarrow> \<not> is_meta x \<Longrightarrow> eth_get x r = replay hs x"
  shows "eth_shows buf r"
proof -
  have "distinct (map ph_instance hs)" using hs by (auto simp: eth_headers_def split: if_splits)
  moreover have "eth_get x r = replay hs x" if "x \<in> set eth_slots" for x
    using that agrees eth_slots_members unfolding list_all_iff by blast
  ultimately have r: "eth_replays hs r" by (simp add: eth_replays_def)
  from hs obtain run runs where hs': "hs =
      (if bits_at buf 96 16 = 0x0800
       then [ethernet_header buf, ipv4_header buf run,
         l4_header buf (bits_at buf 184 8) (272 + unat (ipv4_options buf))]
       else [ethernet_header buf, ipv6_header buf runs, l4_header buf (bits_at buf 160 8) 432])"
    unfolding eth_headers_def by blast
  show ?thesis
  proof (cases "bits_at buf 96 16 = 0x0800")
    case True
    then show ?thesis
      using hs' shows_ethernet [OF r] shows_ipv4 [OF r, of buf run]
        shows_l4_at [OF r, of buf "bits_at buf 184 8"] absent [OF r eth_tables_in(3)]
      by (simp add: eth_shows_def)
  next
    case False
    then show ?thesis
      using hs' shows_ethernet [OF r] shows_ipv6 [OF r, of buf runs]
        shows_l4_at [OF r, of buf "bits_at buf 160 8"] absent [OF r eth_tables_in(2)]
      by (simp add: eth_shows_def)
  qed
qed

text \<open>
  C6: \<open>pk_eth_ipvx_l4_parse\<close> computes \<open>eth_spec\<close>. On every packet and every declared bit length the
  parser returns, with the return value, the reason and the consumed bits the specification reads off
  the packet: accept for Ethernet, IPv4 or IPv6, TCP or UDP, whose headers fit; ``out of bounds'' at the
  last field boundary reached when they do not, and at the options when the IHL promises more than
  there is or is below 5; the authored reasons for another ethertype or protocol. When it accepts,
  every member of the struct is the slice of the packet its header's layout names, the IPv4 options and
  the IPv6 addresses are located by offset and length, and the headers that are absent are marked so.
\<close>

theorem eth_parse_spec:
  assumes "length buf \<le> plain_capacity" and "unat bit_len \<le> 8 * length buf"
  shows "\<exists>ret r. eth_parse (buf_at buf) bit_len o' = Return ret r \<and>
    (ret, reason r, unat (consumed_bits r)) = eth_spec buf (unat bit_len) \<and>
    outcome r = of_int ret \<and> (ret = 0 \<longrightarrow> eth_shows buf r)"
proof -
  let ?len = "unat bit_len"
  have "input_ok buf ?len" using assms(2) unat_u64_less by (simp add: input_ok_def)
  from ethernet_run [OF this] obtain res hs where run: "run_bits eth_ir buf ?len = Inr res"
    and ends: "ends (eth_spec buf ?len) hs res" and hs: "eth_headers buf hs" by blast
  from eth_run_agrees [OF assms run, of o'] obtain ret r
    where c: "eth_parse (buf_at buf) bit_len o' = Return ret r"
      and agrees: "result_agrees eth_ir eth_get (member_slots eth_members) res ret r" by blast
  have same: "(ret, reason r, unat (consumed_bits r)) = eth_spec buf ?len"
    using agrees ends by (auto simp: result_agrees_def ends_def meets_def split: prod.splits)
  have "eth_shows buf r" if "ret = 0"
  proof (rule eth_agrees_shows [OF hs])
    have "pr_headers res = hs" using that agrees ends by (auto simp: result_agrees_def ends_def split: if_splits)
    then show "eth_get x r = replay hs x" if "x \<in> member_slots eth_members" "\<not> is_meta x" for x
      using agrees that by (simp add: result_agrees_def)
  qed
  then show ?thesis using c same agrees by (auto simp: result_agrees_def)
qed

text \<open>An IPv4 packet without options that carries an empty UDP datagram, and one whose IHL is 4.\<close>

definition udp_packet :: "u8 \<Rightarrow> bytes" where
  "udp_packet version_ihl =
     [0, 1, 2, 3, 4, 5, 6, 7, 8, 9, 10, 11, 8, 0,
      version_ihl, 0, 0, 28, 0, 0, 0, 0, 64, 17, 0, 0, 10, 0, 0, 1, 10, 0, 0, 2,
      0, 53, 0, 53, 0, 8, 0, 0]"

lemma bits_at_nibble: "bits_at buf c 4 = bits_at buf c (Suc (Suc (Suc (Suc 0))))"
  by (simp only: eval_nat_numeral BitM.simps One_nat_def)

lemma udp_packet_bits:
  "bits_at (udp_packet 0x45) 96 16 = 0x0800" "bits_at (udp_packet 0x45) 116 4 = 5"
  "bits_at (udp_packet 0x45) 184 8 = 17"
  "bits_at (udp_packet 0x44) 96 16 = 0x0800" "bits_at (udp_packet 0x44) 116 4 = 4"
  using bits_at_add [of "udp_packet 0x45" 96 8 8] bits_at_add [of "udp_packet 0x44" 96 8 8]
  by (simp_all add: bits_at_byte bits_at_nibble bit_at_def udp_packet_def)

lemma udp_packet_spec:
  "eth_spec (udp_packet 0x45) 336 = (0, PK_R_NONE, 336)"
  "eth_spec (udp_packet 0x44) 336 = (1, PK_R_OUT_OF_BOUNDS, 272)"
  by (simp_all add: eth_spec_def l4_spec_def ipv4_options_def udp_packet_bits)

theorem eth_parse_spec_witness:
  "\<exists>r. eth_parse (buf_at (udp_packet 0x45)) 336 eth_zero = Return 0 r \<and> reason r = PK_R_NONE \<and>
    unat (consumed_bits r) = 336 \<and> eth_shows (udp_packet 0x45) r"
proof -
  have "length (udp_packet 0x45) = 42" by (simp add: udp_packet_def)
  then show ?thesis using eth_parse_spec [of "udp_packet 0x45" 336 eth_zero] udp_packet_spec by auto
qed

end
