(* ===== verification/C_Declarations.thy ===== *)
theory C_Declarations
  imports Codegen_Properties Validator_Gaps "HOL-Library.Multiset"
begin

text \<open>
  What the emitter of codegen/c.rs declares: structs, enumerations, functions and macros, with their
  identifiers spelled out. The validator promises (validate.rs, \<open>validate_symbol\<close>) that no two authored
  names lower onto one identifier. Proved: which of the collisions it rules out, and exactly which it
  leaves possible. The descriptions at the end run into those.
\<close>

section \<open>Declarations\<close>

datatype c_type = UInt nat | Struct string

type_synonym struct_decl = "string \<times> (c_type \<times> string) list"

definition struct_name :: "string \<Rightarrow> string \<Rightarrow> string" where
  "struct_name prefix inst = prefix @ ''_'' @ c_ident inst @ ''_t''"

definition field_decls :: "field \<Rightarrow> (c_type \<times> string) list" where
  "field_decls f =
     (case field_width f of
        Bits n \<Rightarrow> [(UInt (uint_type n), c_ident (field_name f))]
      | BitLen _ \<Rightarrow>
          [(UInt 64, c_ident (field_name f) @ ''_bit_off''), (UInt 64, c_ident (field_name f) @ ''_bit_len'')])"

definition header_struct :: "string \<Rightarrow> parser \<Rightarrow> string \<times> string \<Rightarrow> struct_decl option" where
  "header_struct prefix p x =
     map_option (\<lambda>ht. (struct_name prefix (fst x), concat (map field_decls (ht_fields ht))))
       (find_header_type p (snd x))"

definition instance_decls :: "string \<Rightarrow> string \<Rightarrow> (c_type \<times> string) list" where
  "instance_decls prefix inst =
     [(UInt 8, c_ident inst @ ''_present''), (Struct (struct_name prefix inst), c_ident inst)]"

definition result_struct :: "string \<Rightarrow> parser \<Rightarrow> struct_decl" where
  "result_struct prefix p =
     (prefix @ ''_result_t'',
      [(UInt 8, ''outcome''), (UInt 16, ''reason''), (UInt 64, ''consumed_bits'')] @
      concat (map (instance_decls prefix) (map fst (instances p))) @
      map (\<lambda>m. (UInt 64, ''m_'' @ md_name m)) (p_metadata p))"

text \<open>\<open>structs\<close>; an unknown header type is its error.\<close>

definition structs :: "string \<Rightarrow> parser \<Rightarrow> struct_decl list option" where
  "structs prefix p =
     map_option (\<lambda>ss. ss @ [result_struct prefix p]) (those (map (header_struct prefix p) (instances p)))"

definition outcome_enum :: "string \<Rightarrow> (string \<times> nat) list" where
  "outcome_enum prefix =
     [(map to_ascii_uppercase prefix @ ''_ACCEPT'', 0), (map to_ascii_uppercase prefix @ ''_REJECT'', 1)]"

text \<open>
  The identifiers of parser.h, parser.c and parser.bpf.c at file scope. Types, enumerators and functions
  share one name space; macros replace every later occurrence of their name, members included. parser.h
  includes stdint.h and stddef.h, whose macros without arguments are \<open>library_macros\<close>.
\<close>

definition type_names :: "string \<Rightarrow> struct_decl list \<Rightarrow> string list" where
  "type_names prefix ss = map fst ss @ [prefix @ ''_reason_t'']"

definition function_names :: "string \<Rightarrow> string list" where
  "function_names prefix =
     [prefix @ ''_parse'', prefix @ ''_reason_str'', prefix @ ''_parse_core'', ''pk_read_bits'', ''pk_entry'']"

definition guard_name :: "string \<Rightarrow> string" where
  "guard_name prefix = map to_ascii_uppercase prefix @ ''_H''"

definition macro_names :: "string \<Rightarrow> parser \<Rightarrow> string list" where
  "macro_names prefix p =
     guard_name prefix # map fst (state_defines p) @
     (if region_cap p > 0 then [''PK_RMASK''] else []) @ [''PK_BUF_MASK'']"

definition library_macros :: "string list" where
  "library_macros =
     ''NULL'' #
     concat (map (\<lambda>t. [''INT'' @ t @ ''_MIN'', ''INT'' @ t @ ''_MAX'', ''UINT'' @ t @ ''_MAX''])
       (concat (map (\<lambda>n. [n, ''_LEAST'' @ n, ''_FAST'' @ n]) [''8'', ''16'', ''32'', ''64'']) @ [''PTR'', ''MAX''])) @
     concat (map (\<lambda>t. [t @ ''_MIN'', t @ ''_MAX'']) [''PTRDIFF'', ''SIG_ATOMIC'', ''WCHAR'', ''WINT'']) @ [''SIZE_MAX'']"

definition all_members :: "struct_decl list \<Rightarrow> string list" where
  "all_members ss = concat (map (map snd \<circ> snd) ss)"

text \<open>No identifier is declared twice in its name space, and no member of a struct is a macro.\<close>

definition declares_once :: "string \<Rightarrow> parser \<Rightarrow> bool" where
  "declares_once name p =
     (let prefix = ''pk_'' @ name in
      case structs prefix p of
        None \<Rightarrow> False
      | Some ss \<Rightarrow>
          distinct (type_names prefix ss @ function_names prefix @
            map fst (outcome_enum prefix) @ map fst (reason_enum p) @ macro_names prefix p) \<and>
          list_all (\<lambda>s. distinct (map snd (snd s))) ss \<and>
          list_all (\<lambda>m. m \<notin> set (macro_names prefix p @ library_macros)) (all_members ss))"

section \<open>Members of a header\<close>

lemma field_violations_members:
  "field_violations ht seen members fs = [] \<Longrightarrow>
   distinct (map fst (concat (map emitted_members fs))) \<and>
   fst ` set (concat (map emitted_members fs)) \<inter> fst ` set members = {}"
proof (induction fs arbitrary: seen members)
  case Nil
  then show ?case by simp
next
  case (Cons f fs)
  from Cons.prems have rest: "field_violations ht (field_name f # seen) (rev (emitted_members f) @ members) fs = []"
    and here: "collisions members (emitted_members f) = []" by simp_all
  from Cons.IH [OF rest] here [unfolded collisions_none] show ?case by auto
qed

lemma field_decls_names:
  "map snd (field_decls f) = map (snd \<circ> fst) (filter (\<lambda>x. fst (fst x) = ''C'') (emitted_members f))"
  by (simp add: field_decls_def emitted_members_def split: field_width.split)

lemma field_decls_distinct:
  assumes "field_violations ht seen members fs = []"
  shows "distinct (map snd (concat (map field_decls fs)))"
proof -
  let ?xs = "concat (map emitted_members fs)" and ?C = "\<lambda>x :: (string \<times> string) \<times> string. fst (fst x) = ''C''"
  have "map snd (concat (map field_decls fs)) = map (snd \<circ> fst) (filter ?C ?xs)"
    by (induction fs) (simp_all add: field_decls_names)
  moreover have "distinct (map fst (filter ?C ?xs))"
    using field_violations_members [OF assms] by (blast intro: distinct_map_filter)
  moreover have "inj_on snd (fst ` set (filter ?C ?xs))" by (auto simp: inj_on_def)
  ultimately show ?thesis by (simp add: distinct_map comp_inj_on)
qed

lemma header_violations_fields:
  "header_violations seen hts = [] \<Longrightarrow> ht \<in> set hts \<Longrightarrow> field_violations (ht_name ht) [] [] (ht_fields ht) = []"
  by (induction hts arbitrary: seen) auto

section \<open>Instances in order\<close>

lemma remdups_insert: "x \<in> set ys \<Longrightarrow> remdups (xs @ x # ys) = remdups (xs @ ys)"
  by (induction xs) auto

lemma add_instances_names:
  "distinct (map fst xs) \<Longrightarrow>
   map fst (add_instances xs exs) = rev (remdups (rev (map fst xs @ map instance_of exs)))"
proof (induction exs arbitrary: xs)
  case Nil
  then show ?case by (simp add: distinct_remdups_id)
next
  case (Cons e exs)
  show ?case
  proof (cases "instance_of e \<in> fst ` set xs")
    case True
    with Cons show ?thesis
      using remdups_insert [of "instance_of e" "rev (map fst xs)" "rev (map instance_of exs)"] by simp
  next
    case False
    with Cons show ?thesis by simp
  qed
qed

lemma instances_names: "map fst (instances p) = distinct_instances p"
proof -
  have "map (instance_of \<circ> snd) (all_extracts p) = map instance_of (concat (map st_extracts (p_states p)))"
    unfolding all_extracts_def by (induction "p_states p") (simp_all add: map_concat comp_def)
  then show ?thesis by (simp add: instances_def distinct_instances_def add_instances_names)
qed

section \<open>Members of the result\<close>

lemma member_violations_distinct:
  "member_violations members is = [] \<Longrightarrow>
   distinct (map fst (concat (map instance_members is))) \<and>
   fst ` set (concat (map instance_members is)) \<inter> fst ` set members = {}"
proof (induction "is" arbitrary: members)
  case Nil
  then show ?case by simp
next
  case (Cons i "is")
  from Cons.prems have rest: "member_violations (rev (instance_members i) @ members) is = []"
    and here: "collisions members (instance_members i) = []" by simp_all
  from Cons.IH [OF rest] here [unfolded collisions_none] show ?case by auto
qed

lemma metadata_member_violations_distinct:
  "metadata_member_violations members p4 ms = [] \<Longrightarrow>
   distinct (map (\<lambda>m. ''m_'' @ m) ms) \<and> (\<lambda>m. ''m_'' @ m) ` set ms \<inter> fst ` set members = {}"
proof (induction ms arbitrary: members p4)
  case Nil
  then show ?case by simp
next
  case (Cons m ms)
  from Cons.prems have rest: "metadata_member_violations ((''m_'' @ m, m) # members) ((p4_ident m, m) # p4) ms = []"
    and here: "collisions members [(''m_'' @ m, m)] = []" by simp_all
  from Cons.IH [OF rest] here [unfolded collisions_none] show ?case by auto
qed

lemma instance_decls_names:
  "mset (map snd (concat (map (instance_decls prefix) is))) = mset (map fst (concat (map instance_members is)))"
  by (induction "is") (simp_all add: instance_decls_def instance_members_def)

lemma result_struct_distinct:
  assumes "struct_violations p = []"
  shows "distinct (map snd (snd (result_struct prefix p)))" and "distinct (map c_ident (map fst (instances p)))"
proof -
  let ?is = "distinct_instances p"
  let ?names = "map fst (concat (map instance_members ?is))"
  have members: "distinct ?names" "set ?names \<inter> fst ` set builtin_members = {}"
    using assms member_violations_distinct [of builtin_members ?is] by (auto simp: struct_violations_def)
  have "metadata_member_violations (rev (concat (map instance_members ?is)) @ builtin_members) []
      (map md_name (p_metadata p)) = []"
    using assms by (simp add: struct_violations_def)
  note meta = metadata_member_violations_distinct [OF this]
  have same: "mset (map snd (snd (result_struct prefix p))) =
      mset (map fst builtin_members @ ?names @ map (\<lambda>m. ''m_'' @ m) (map md_name (p_metadata p)))"
    using instance_decls_names [of prefix ?is]
    by (simp add: result_struct_def instances_names builtin_members_def comp_def)
  have "distinct (bs @ ns @ ms)"
    if "distinct bs" "distinct ns \<and> set ns \<inter> set bs = {}" "distinct ms \<and> set ms \<inter> (set ns \<union> set bs) = {}"
    for bs ns ms :: "string list" using that by auto
  moreover have "distinct (map fst builtin_members)" by (simp add: builtin_members_def)
  ultimately have "distinct (map fst builtin_members @ ?names @ map (\<lambda>m. ''m_'' @ m) (map md_name (p_metadata p)))"
    using members meta by (simp only: set_map set_append set_rev image_Un)
  then show "distinct (map snd (snd (result_struct prefix p)))"
    using mset_eq_imp_distinct_iff [OF same] by blast
  have "distinct (map c_ident is)" if "distinct (map fst (concat (map instance_members is)))" for "is"
    using that by (induction "is") (auto simp: instance_members_def image_UN)
  then show "distinct (map c_ident (map fst (instances p)))" using members(1) by (simp only: instances_names)
qed

section \<open>Reasons\<close>

text \<open>
  The identifiers recorded so far, each that of its own reason and no other's; what a checked writer
  leaves is such a record again, with every reason it met in it.
\<close>

definition idents_ok :: "reason_idents \<Rightarrow> bool" where
  "idents_ok ids \<longleftrightarrow>
     (\<forall>x\<in>set ids. fst x = c_reason_ident (snd x)) \<and> inj_on c_reason_ident (snd ` set ids)"

definition records :: "(reason_idents \<Rightarrow> violation list \<times> reason_idents) \<Rightarrow> string set \<Rightarrow> bool" where
  "records f rs \<longleftrightarrow>
     (\<forall>ids. fst (f ids) = [] \<longrightarrow> idents_ok ids \<longrightarrow>
        idents_ok (snd (f ids)) \<and> snd ` set ids \<union> rs \<subseteq> snd ` set (snd (f ids)))"

lemma records_nothing: "records (Pair es) {}"
  by (simp add: records_def)

lemma records_chain:
  assumes "records f rs" and "records g rs'"
  shows "records (\<lambda>ids. chain (f ids) g) (rs \<union> rs')"
  unfolding records_def
proof (intro allI impI)
  fix ids assume none: "fst (chain (f ids) g) = []" and ok: "idents_ok ids"
  then have none: "fst (f ids) = []" "fst (g (snd (f ids))) = []" by (simp_all add: chain_none)
  have f: "idents_ok (snd (f ids)) \<and> snd ` set ids \<union> rs \<subseteq> snd ` set (snd (f ids))"
    using assms(1) none(1) ok unfolding records_def by blast
  then have g: "idents_ok (snd (g (snd (f ids)))) \<and>
      snd ` set (snd (f ids)) \<union> rs' \<subseteq> snd ` set (snd (g (snd (f ids))))"
    using assms(2) none(2) unfolding records_def by blast
  have eq: "snd (chain (f ids) g) = snd (g (snd (f ids)))" by (simp add: chain_def Let_def)
  show "idents_ok (snd (chain (f ids) g)) \<and> snd ` set ids \<union> (rs \<union> rs') \<subseteq> snd ` set (snd (chain (f ids) g))"
    unfolding eq using f g by blast
qed

definition reason_of :: "target \<Rightarrow> string set" where
  "reason_of t = (case t of Reject r _ \<Rightarrow> {r} | _ \<Rightarrow> {})"

lemma idents_ok_insert:
  assumes ok: "idents_ok ids" and same: "\<And>prev. map_of ids (c_reason_ident r) = Some prev \<Longrightarrow> prev = r"
  shows "idents_ok ((c_reason_ident r, r) # ids)"
proof -
  have "snd x = r" if x: "x \<in> set ids" "c_reason_ident (snd x) = c_reason_ident r" for x
  proof -
    have "fst x = c_reason_ident r" using ok x by (simp add: idents_ok_def)
    then obtain prev where prev: "map_of ids (c_reason_ident r) = Some prev"
      using x(1) by (metis map_of_eq_None_iff not_None_eq image_eqI)
    then have "(c_reason_ident r, prev) \<in> set ids" by (rule map_of_SomeD)
    then have "prev \<in> snd ` set ids" "c_reason_ident prev = c_reason_ident r"
      using ok by (force simp: idents_ok_def)+
    then have "snd x = prev" using ok x unfolding idents_ok_def by (metis image_eqI inj_onD)
    then show ?thesis using same [OF prev] by simp
  qed
  then have "c_reason_ident r \<notin> c_reason_ident ` (snd ` set ids - {r})" by force
  then show ?thesis using ok by (simp add: idents_ok_def inj_on_insert)
qed

lemma records_target: "records (check_target p st t) (reason_of t)"
proof (cases t)
  case (Reject r sev)
  have "idents_ok ((c_reason_ident r, r) # ids)"
    if "fst (check_target p st t ids) = []" "idents_ok ids" for ids
    using that Reject by (intro idents_ok_insert) (auto simp: check_target_def split: if_splits)
  with Reject show ?thesis by (auto simp: records_def check_target_def reason_of_def)
qed (simp_all add: records_def check_target_def reason_of_def)

lemma records_arms: "records (arm_violations p st keys arms) (\<Union>a\<in>set arms. reason_of (arm_next a))"
proof (induction arms)
  case Nil
  then show ?case by (simp add: records_def)
next
  case (Cons a arms)
  let ?es = "(if length (arm_entries a) \<noteq> length keys
      then [Shape (ArmArity st (length (arm_entries a)) (length keys))] else []) @
     concat (map (entry_violations p st) (zip (arm_entries a) keys))"
  have "records (\<lambda>ids. chain (chain (Pair ?es ids) (check_target p st (arm_next a))) (arm_violations p st keys arms))
      ({} \<union> reason_of (arm_next a) \<union> (\<Union>a\<in>set arms. reason_of (arm_next a)))"
    by (intro records_chain records_nothing records_target Cons)
  then show ?case by (simp add: Un_commute cong: if_cong)
qed

lemma records_transition:
  "records (transition_violations l p st tr) (\<Union>t\<in>set (targets_of tr). reason_of t)"
proof (cases tr)
  case (Direct t)
  then have "transition_violations l p st tr = check_target p st t"
    by (simp add: transition_violations_def fun_eq_iff)
  then show ?thesis using Direct records_target by simp
next
  case (Select keys arms d)
  let ?es = "(if keys = [] then [Shape (NoKeys st)] else []) @ concat (map (check_value l p) keys)"
  let ?d = "case d of None \<Rightarrow> (\<lambda>ids. ([Shape (NoDefault st)], ids)) | Some t \<Rightarrow> check_target p st t"
  have "records ?d (case d of None \<Rightarrow> {} | Some t \<Rightarrow> reason_of t)"
    using records_nothing records_target by (simp split: option.split)
  then have "records (\<lambda>ids. chain (chain (Pair ?es ids) (arm_violations p st keys arms)) ?d)
      ({} \<union> (\<Union>a\<in>set arms. reason_of (arm_next a)) \<union> (case d of None \<Rightarrow> {} | Some t \<Rightarrow> reason_of t))"
    by (intro records_chain records_nothing records_arms)
  moreover have "(\<Union>t\<in>set (targets_of tr). reason_of t) =
      (\<Union>a\<in>set arms. reason_of (arm_next a)) \<union> (case d of None \<Rightarrow> {} | Some t \<Rightarrow> reason_of t)"
    using Select by (auto split: option.splits)
  moreover have "transition_violations l p st tr = (\<lambda>ids. chain (chain (Pair ?es ids) (arm_violations p st keys arms)) ?d)"
    using Select by (simp add: transition_violations_def fun_eq_iff)
  ultimately show ?thesis by simp
qed

lemma records_states:
  "records (state_violations l p ss) (\<Union>s\<in>set ss. \<Union>t\<in>set (targets_of (st_transition s)). reason_of t)"
proof (induction ss)
  case Nil
  then show ?case by (simp add: records_def)
next
  case (Cons s ss)
  let ?es = "region_op_violations l p (st_name s) 0 (st_region_ops s) @
      concat (map (assign_violations l p) (st_assigns s))"
  let ?tr = "transition_violations l p (st_name s) (st_transition s)"
  have "records (\<lambda>ids. chain (chain (Pair ?es ids) ?tr) (state_violations l p ss))
      ({} \<union> (\<Union>t\<in>set (targets_of (st_transition s)). reason_of t) \<union>
       (\<Union>s\<in>set ss. \<Union>t\<in>set (targets_of (st_transition s)). reason_of t))"
    by (intro records_chain records_nothing records_transition Cons)
  moreover have "state_violations l p (s # ss) = (\<lambda>ids. chain (chain (Pair ?es ids) ?tr) (state_violations l p ss))"
    by (simp add: fun_eq_iff)
  ultimately show ?case by simp
qed

lemma reject_reasons_of:
  "set (reject_reasons p) = (\<Union>s\<in>set (p_states p). \<Union>t\<in>set (targets_of (st_transition s)). reason_of t)"
proof -
  have "set (case t of Reject r _ \<Rightarrow> [r] | _ \<Rightarrow> []) = reason_of t" for t
    by (simp add: reason_of_def split: target.split)
  then show ?thesis by (simp add: reject_reasons_def)
qed

lemma reason_idents_distinct:
  assumes "fst (state_violations l p (p_states p) builtin_reason_idents) = []"
  shows "inj_on c_reason_ident (fst ` set (reason_table p))"
proof -
  have builtin: "idents_ok builtin_reason_idents" "snd ` set builtin_reason_idents = fst ` set builtin_reasons"
    by code_simp+
  from records_states [of l p "p_states p"] assms builtin(1) obtain ids where ids: "idents_ok ids"
      "fst ` set builtin_reasons \<union> set (reject_reasons p) \<subseteq> snd ` set ids"
    unfolding records_def reject_reasons_of builtin(2) [symmetric] by blast
  moreover have "fst ` set (reason_table p) \<subseteq> fst ` set builtin_reasons \<union> set (reject_reasons p)"
    by (auto simp: reason_table_eq authored_reasons_def dest: set_zip_leftD)
  ultimately show ?thesis unfolding idents_ok_def by (meson inj_on_subset)
qed

section \<open>What the validator's promise amounts to\<close>

lemma c_ident_not_reserved: "\<not> is_c_reserved (c_ident n)"
  by (simp add: c_ident_def is_c_reserved_def c_keywords_def)

lemma c_ident_result: "c_ident i = ''result'' \<Longrightarrow> i = ''result''"
  by (simp add: c_ident_def split: if_splits)

lemma those_map: "(\<And>x. x \<in> set xs \<Longrightarrow> f x = Some (g x)) \<Longrightarrow> those (map f xs) = Some (map g xs)"
  by (induction xs) simp_all

lemma struct_names_distinct:
  assumes "distinct (map c_ident is)" and "''result'' \<notin> set is"
  shows "distinct (map (struct_name prefix) is @ [prefix @ ''_result_t''])"
proof -
  have "distinct (map (struct_name prefix) is)"
    using assms(1) by (induction "is") (auto simp: struct_name_def)
  moreover have "struct_name prefix i \<noteq> prefix @ ''_result_t''" if "i \<in> set is" for i
  proof
    assume "struct_name prefix i = prefix @ ''_result_t''"
    then have "c_ident i @ ''_t'' = ''result'' @ ''_t''" by (simp add: struct_name_def)
    then have "c_ident i = ''result''" by (simp only: append_same_eq)
    with c_ident_result assms(2) that show False by blast
  qed
  then have "prefix @ ''_result_t'' \<notin> struct_name prefix ` set is" by force
  ultimately show ?thesis by simp
qed

lemma accepted_instances:
  assumes "accepted l p" and "x \<in> set (instances p)"
  obtains ht where "find_header_type p (snd x) = Some ht"
proof -
  have "find_header_type p (ex_header_type e) \<noteq> None"
    if e: "e \<in> set (concat (map st_extracts (p_states p)))" for e
  proof -
    have "extract_declared p e" "distinct (map ht_name (p_header_types p))" using assms(1) e by (auto simp: accepted_def)
    then show ?thesis by (auto simp: extract_declared_def header_type_map_find split: option.splits)
  qed
  then have "find_header_type p (snd x) \<noteq> None"
    using add_instances_ok [of "[]" "\<lambda>x. find_header_type p (snd x) \<noteq> None" "concat (map st_extracts (p_states p))"]
      assms(2) by (auto simp: instances_def)
  then show ?thesis using that by auto
qed

section \<open>Name spaces that cannot meet\<close>

text \<open>Types and functions end in a lower-case letter, enumerators and macros have none.\<close>

definition upper_only :: "string \<Rightarrow> bool" where
  "upper_only x = list_all (\<lambda>c. \<not> ascii_lower c) x"

lemma uppercase_not_lower: "\<not> ascii_lower (to_ascii_uppercase c)"
proof (cases "map_of (zip lowercase_letters uppercase_letters) c")
  case None
  have "length lowercase_letters = length uppercase_letters" by code_simp
  then have "c \<notin> set lowercase_letters" using None by (simp add: map_of_zip_is_None)
  then show ?thesis using None by (simp add: to_ascii_uppercase_def ascii_lower_def)
next
  case (Some u)
  then have "u \<in> set uppercase_letters" by (blast dest: map_of_SomeD set_zip_rightD)
  then show ?thesis
    using Some by (auto simp: to_ascii_uppercase_def ascii_lower_def uppercase_letters_def lowercase_letters_def)
qed

lemma upper_only_append [simp]: "upper_only (x @ y) \<longleftrightarrow> upper_only x \<and> upper_only y"
  by (simp add: upper_only_def)

lemma upper_only_uppercase [simp]: "upper_only (map to_ascii_uppercase x)"
  using uppercase_not_lower by (simp add: upper_only_def list_all_iff)

lemma upper_only_ident: "upper_only (c_reason_ident r)"
  using uppercase_not_lower
  by (auto simp: c_reason_ident_def upper_only_def list_all_iff ascii_lower_def lowercase_letters_def)

lemma upper_only_literals:
  "upper_only ''_H''" "upper_only ''_ACCEPT''" "upper_only ''_REJECT''" "upper_only ''PK_S_''"
  "upper_only ''PK_R_NONE''" "upper_only ''PK_RMASK''" "upper_only ''PK_BUF_MASK''"
  by code_simp+

lemma upper_only_macro: "upper_only (state_macro n)"
  using uppercase_not_lower unfolding state_macro_def upper_only_append
  by (simp add: upper_only_literals(4) del: append.simps)

lemma reason_enum_names:
  "set (map fst (reason_enum p)) =
     insert ''PK_R_NONE'' (c_reason_ident ` (fst ` set builtin_reasons \<union> set (reject_reasons p)))"
proof -
  have "fst ` set (reason_table p) = fst ` set builtin_reasons \<union> set (reject_reasons p)"
    using reject_reasons_numbered [of _ p]
    by (auto simp: reason_table_eq authored_reasons_def dest: set_zip_leftD)
  moreover have "set (map fst (reason_enum p)) = insert ''PK_R_NONE'' (c_reason_ident ` fst ` set (reason_table p))"
    by (simp add: reason_enum_def case_prod_unfold image_image comp_def)
  ultimately show ?thesis by simp
qed

lemma macros_upper:
  assumes "x \<in> set (map fst (outcome_enum prefix) @ map fst (reason_enum p) @ macro_names prefix p)"
  shows "upper_only x"
proof -
  have names: "set (map fst (state_defines p)) = (state_macro \<circ> st_name) ` set (p_states p)"
    unfolding state_defines_def map_fst_number_from by simp
  have "x \<in> set (map fst (outcome_enum prefix)) \<or> x \<in> set (map fst (reason_enum p)) \<or> x = guard_name prefix \<or>
      x \<in> set (map fst (state_defines p)) \<or> x \<in> {''PK_RMASK'', ''PK_BUF_MASK''}"
    using assms by (auto simp: macro_names_def split: if_splits)
  then show ?thesis
    unfolding reason_enum_names names
    by (auto simp: outcome_enum_def guard_name_def upper_only_macro upper_only_literals upper_only_ident)
qed

lemma upper_only_last: "upper_only x \<Longrightarrow> x \<noteq> [] \<Longrightarrow> \<not> ascii_lower (last x)"
  by (simp add: upper_only_def list_all_iff)

lemma function_last:
  "x \<in> set (function_names prefix) \<Longrightarrow> x \<noteq> [] \<and> last x \<in> set ''ersy''"
  by (auto simp: function_names_def)

lemma type_last:
  "map fst ss = map (struct_name prefix) is @ [prefix @ ''_result_t''] \<Longrightarrow> x \<in> set (type_names prefix ss) \<Longrightarrow>
   x \<noteq> [] \<and> last x = CHR ''t''"
  unfolding type_names_def by (auto simp: struct_name_def)

lemma functions_distinct: "distinct (function_names prefix)"
proof -
  have "prefix @ x \<noteq> y" if "last x \<noteq> last y" "x \<noteq> []" for x y :: string using that by auto
  then show ?thesis by (simp add: function_names_def)
qed

lemma lower_names:
  assumes "map fst ss = map (struct_name prefix) is @ [prefix @ ''_result_t'']"
  shows "set (type_names prefix ss) \<inter> set (function_names prefix) = {}"
    and "x \<in> set (type_names prefix ss) \<union> set (function_names prefix) \<Longrightarrow> \<not> upper_only x"
proof -
  have False if "y \<in> set (type_names prefix ss)" "y \<in> set (function_names prefix)" for y
    using type_last [OF assms that(1)] function_last [OF that(2)] by simp
  then show "set (type_names prefix ss) \<inter> set (function_names prefix) = {}" by blast
  assume "x \<in> set (type_names prefix ss) \<union> set (function_names prefix)"
  then have x: "x \<noteq> []" "last x \<in> insert CHR ''t'' (set ''ersy'')"
    using type_last [OF assms, of x] function_last [of x prefix] by auto
  have "ascii_lower c" if "c \<in> insert CHR ''t'' (set ''ersy'')" for c
    using that by (auto simp: ascii_lower_def lowercase_letters_def)
  then show "\<not> upper_only x" using upper_only_last [OF _ x(1)] x(2) by blast
qed

section \<open>What the validator's promise amounts to\<close>

text \<open>The structs of an accepted description, each with distinct members.\<close>

lemma accepted_structs:
  assumes static: "static_violations l p = []"
  obtains ss where "structs prefix p = Some ss"
    and "map fst ss = map (struct_name prefix) (map fst (instances p)) @ [prefix @ ''_result_t'']"
    and "list_all (\<lambda>s. distinct (map snd (snd s))) ss"
proof -
  have acc: "accepted l p" using static by (rule static_accepted)
  have parts: "header_violations [] (p_header_types p) = []" "struct_violations p = []"
    using static by (simp_all add: static_violations_def)
  define decl where "decl x = the (header_struct prefix p x)" for x
  have decl: "\<exists>ht\<in>set (p_header_types p). header_struct prefix p x = Some (decl x) \<and>
      decl x = (struct_name prefix (fst x), concat (map field_decls (ht_fields ht)))"
    if x: "x \<in> set (instances p)" for x
  proof -
    obtain ht where ht: "find_header_type p (snd x) = Some ht" by (rule accepted_instances [OF acc x])
    then have "header_struct prefix p x = Some (struct_name prefix (fst x), concat (map field_decls (ht_fields ht)))"
      by (simp add: header_struct_def)
    then show ?thesis using find_header_typeD [OF ht] by (intro bexI [of _ ht]) (simp_all add: decl_def)
  qed
  let ?ss = "map decl (instances p) @ [result_struct prefix p]"
  have "those (map (header_struct prefix p) (instances p)) = Some (map decl (instances p))"
    using decl by (intro those_map) blast
  then have "structs prefix p = Some ?ss" by (simp add: structs_def)
  moreover have "map fst ?ss = map (struct_name prefix) (map fst (instances p)) @ [prefix @ ''_result_t'']"
    using decl by (fastforce simp: result_struct_def)
  moreover have "distinct (map snd (snd (decl x)))" if x: "x \<in> set (instances p)" for x
    using decl [OF x] field_decls_distinct [OF header_violations_fields [OF parts(1)]] by auto
  then have "list_all (\<lambda>s. distinct (map snd (snd s))) ?ss"
    using result_struct_distinct(1) [OF parts(2), of prefix] by (simp add: list_all_iff)
  ultimately show thesis by (rule that)
qed

lemma c_ident_plain: "c_ident ''result'' = ''result''" "c_ident ''reason'' = ''reason''"
  by code_simp+

lemma types_distinct:
  assumes struct: "struct_violations p = []"
    and ss: "map fst ss = map (struct_name prefix) (map fst (instances p)) @ [prefix @ ''_result_t'']"
  shows "distinct (type_names prefix ss) \<longleftrightarrow> ''result'' \<notin> fst ` set (instances p)"
proof -
  note members = result_struct_distinct [OF struct]
  have "prefix @ ''_reason_t'' \<notin> struct_name prefix ` fst ` set (instances p)"
  proof
    assume "prefix @ ''_reason_t'' \<in> struct_name prefix ` fst ` set (instances p)"
    then obtain i where i: "i \<in> fst ` set (instances p)" "struct_name prefix i = prefix @ ''_reason_t''" by force
    then have "c_ident i @ ''_t'' = ''reason'' @ ''_t''" by (simp add: struct_name_def)
    then have "c_ident i = ''reason''" by (simp only: append_same_eq)
    then have "''reason'' \<in> set (map snd (concat (map (instance_decls prefix) (map fst (instances p)))))"
      using i(1) by (force simp: instance_decls_def)
    then show False using members(1) [of prefix] by (auto simp: result_struct_def)
  qed
  moreover have "prefix @ ''_result_t'' \<in> struct_name prefix ` fst ` set (instances p)"
    if "''result'' \<in> fst ` set (instances p)"
    using that by (intro image_eqI [of _ _ "''result''"]) (simp_all add: struct_name_def c_ident_plain)
  moreover have "distinct (map (struct_name prefix) (map fst (instances p)) @ [prefix @ ''_result_t''])"
    if "''result'' \<notin> fst ` set (instances p)"
    using that by (intro struct_names_distinct members(2)) simp
  ultimately show ?thesis unfolding type_names_def ss by auto
qed

text \<open>
  The identifiers with the parser's name in upper case: the two outcomes and the include guard.
\<close>

definition parser_idents :: "string \<Rightarrow> string list" where
  "parser_idents prefix = map fst (outcome_enum prefix) @ [guard_name prefix]"

lemma state_defines_names: "map fst (state_defines p) = map (state_macro \<circ> st_name) (p_states p)"
  unfolding state_defines_def by (rule map_fst_number_from)

text \<open>The masks meet none of the names that come from the description.\<close>

lemma masks_apart:
  assumes "x \<in> {''PK_RMASK'', ''PK_BUF_MASK''}"
  shows "x \<notin> set (parser_idents prefix)" "x \<notin> set (map fst (reason_enum p))" "x \<noteq> state_macro n"
proof -
  have "last x = CHR ''K''" using assms by auto
  moreover have "last y \<in> {CHR ''T'', CHR ''H''}" if "y \<in> set (parser_idents prefix)" for y
    using that by (auto simp: parser_idents_def outcome_enum_def guard_name_def)
  ultimately show "x \<notin> set (parser_idents prefix)" by fastforce
  have "x ! 4 \<noteq> CHR ''_''" "x ! 3 \<noteq> CHR ''S''" using assms by auto
  moreover have "y ! 4 = CHR ''_''" if "y \<in> set (map fst (reason_enum p))" for y
    using that unfolding reason_enum_names by (auto simp: c_reason_ident_def)
  ultimately show "x \<notin> set (map fst (reason_enum p))" "x \<noteq> state_macro n"
    by (auto simp: state_macro_def)
qed

lemma reasons_states_apart: "state_macro n \<notin> set (map fst (reason_enum p))"
  unfolding reason_enum_names by (auto simp: state_macro_def c_reason_ident_def)

lemma parser_idents_builtin:
  assumes "y \<in> set (parser_idents prefix)"
  shows "y \<noteq> ''PK_R_NONE'' \<and> y \<notin> c_reason_ident ` fst ` set builtin_reasons"
proof -
  have "last y \<in> {CHR ''T'', CHR ''H''}"
    using assms by (auto simp: parser_idents_def outcome_enum_def guard_name_def)
  moreover have "last x \<notin> {CHR ''T'', CHR ''H''}"
    if "x \<in> set (''PK_R_NONE'' # map (c_reason_ident \<circ> fst) builtin_reasons)" for x
  proof -
    have "list_all (\<lambda>x. last x \<notin> {CHR ''T'', CHR ''H''}) (''PK_R_NONE'' # map (c_reason_ident \<circ> fst) builtin_reasons)"
      by code_simp
    then show ?thesis using that unfolding list_all_iff by blast
  qed
  ultimately have "y \<notin> set (''PK_R_NONE'' # map (c_reason_ident \<circ> fst) builtin_reasons)" by blast
  then show ?thesis by (simp add: image_image)
qed

lemma parser_idents_distinct: "distinct (parser_idents prefix)"
  by (simp add: parser_idents_def outcome_enum_def guard_name_def)

lemma distinct_parts:
  "distinct (os @ [g]) \<Longrightarrow> distinct ms \<Longrightarrow> set (os @ [g]) \<inter> set ms = {} \<Longrightarrow> set rs \<inter> set ms = {} \<Longrightarrow>
   set ss \<inter> set ms = {} \<Longrightarrow> set rs \<inter> set ss = {} \<Longrightarrow>
   distinct (os @ rs @ g # ss @ ms) \<longleftrightarrow>
     distinct rs \<and> distinct ss \<and> set (os @ [g]) \<inter> set rs = {} \<and> set (os @ [g]) \<inter> set ss = {}"
  by auto

lemma upper_names_distinct:
  "distinct (map fst (outcome_enum prefix) @ map fst (reason_enum p) @ macro_names prefix p) \<longleftrightarrow>
     distinct (map fst (reason_enum p)) \<and> distinct (map (state_macro \<circ> st_name) (p_states p)) \<and>
     set (parser_idents prefix) \<inter>
       (c_reason_ident ` set (reject_reasons p) \<union> (state_macro \<circ> st_name) ` set (p_states p)) = {}"
proof -
  let ?O = "map fst (outcome_enum prefix)" and ?G = "guard_name prefix" and ?R = "map fst (reason_enum p)"
    and ?S = "map (state_macro \<circ> st_name) (p_states p)"
    and ?M = "(if region_cap p > 0 then [''PK_RMASK''] else []) @ [''PK_BUF_MASK'']"
  define X where "X = {''PK_RMASK'', ''PK_BUF_MASK''}"
  have M: "set ?M \<subseteq> X" "distinct ?M" by (auto simp: X_def)
  note masks = masks_apart [folded X_def]
  have states: "set ?S = (\<lambda>s. state_macro (st_name s)) ` set (p_states p)" by auto
  have "set (?O @ [?G]) \<inter> X = {}" "set ?R \<inter> X = {}"
    using masks(1) [of _ prefix] masks(2) [of _ p] unfolding parser_idents_def set_append list.set by blast+
  moreover have "set ?S \<inter> X = {}" "set ?R \<inter> set ?S = {}"
    using masks(3) reasons_states_apart [of _ p] unfolding states by blast+
  ultimately have apart: "set (?O @ [?G]) \<inter> set ?M = {}" "set ?R \<inter> set ?M = {}" "set ?S \<inter> set ?M = {}"
    "set ?R \<inter> set ?S = {}"
    using M(1) by blast+
  have "set (?O @ [?G]) \<inter> set ?R = {} \<longleftrightarrow> set (?O @ [?G]) \<inter> c_reason_ident ` set (reject_reasons p) = {}"
    using parser_idents_builtin [of _ prefix] unfolding reason_enum_names parser_idents_def by blast
  moreover have "distinct (?O @ ?R @ ?G # ?S @ ?M) \<longleftrightarrow>
      distinct ?R \<and> distinct ?S \<and> set (?O @ [?G]) \<inter> set ?R = {} \<and> set (?O @ [?G]) \<inter> set ?S = {}"
    using parser_idents_distinct [of prefix] unfolding parser_idents_def by (rule distinct_parts [OF _ M(2) apart])
  ultimately show ?thesis
    unfolding macro_names_def state_defines_names parser_idents_def by (simp only: set_map Int_Un_distrib Un_empty)
qed

lemma reason_enum_distinct:
  assumes "fst (state_violations l p (p_states p) builtin_reason_idents) = []"
  shows "distinct (map fst (reason_enum p)) \<longleftrightarrow> ''PK_R_NONE'' \<notin> c_reason_ident ` set (reject_reasons p)"
proof -
  have names: "map fst (reason_enum p) = ''PK_R_NONE'' # map c_reason_ident (map fst (reason_table p))"
    by (simp add: reason_enum_def comp_def case_prod_unfold)
  have "distinct (map c_reason_ident (map fst (reason_table p)))"
    unfolding distinct_map [of c_reason_ident]
    using reason_names_distinct reason_idents_distinct [OF assms] by simp
  moreover have "''PK_R_NONE'' \<notin> c_reason_ident ` fst ` set builtin_reasons" by code_simp
  moreover have "set (map fst (reason_table p)) \<subseteq> fst ` set builtin_reasons \<union> set (reject_reasons p)"
    "set (reject_reasons p) \<subseteq> set (map fst (reason_table p))"
    using reject_reasons_numbered [of _ p]
    by (auto simp: reason_table_eq authored_reasons_def dest: set_zip_leftD)
  ultimately show ?thesis
    unfolding names distinct.simps set_map [of c_reason_ident] by blast
qed



text \<open>Then the core compiles, too.\<close>

lemma declares_once_compiles:
  assumes "accepted l p" and "declares_once name p"
  shows "core_compiles p"
proof -
  have "distinct (map fst (state_defines p))" "distinct (map fst (reason_enum p))"
    using assms(2) by (auto simp: declares_once_def Let_def macro_names_def split: option.splits)
  moreover have "n \<in> set (map st_name (p_states p))"
    if "n \<in> set (p_start_state p # concat (map successor_states (p_states p)))" for n
  proof -
    have "target_known p (ToState m)" if "s \<in> set (p_states p)" "ToState m \<in> set (targets_of (st_transition s))" for s m
      using assms(1) that by (auto simp: accepted_def state_declared_def transition_declared_def list_all_iff)
    then show ?thesis
      using that assms(1) by (fastforce simp: accepted_def successor_states_def target_known_def split: target.splits)
  qed
  ultimately show ?thesis
    unfolding core_compiles_def state_defines_names list_all_iff set_map [of "state_macro \<circ> st_name"]
      image_comp [symmetric] set_map [of st_name, symmetric] by blast
qed

section \<open>Names that collide all the same\<close>

definition plain_states :: "string \<Rightarrow> target \<Rightarrow> parser" where
  "plain_states n t =
     gap_parser []
       [\<lparr>st_name = ''s'', st_extracts = [], st_assigns = [], st_region_ops = [],
         st_transition = Direct (ToState n)\<rparr>,
        \<lparr>st_name = n, st_extracts = [], st_assigns = [], st_region_ops = [], st_transition = Direct t\<rparr>]"

definition one_header :: "string \<Rightarrow> string \<Rightarrow> parser" where
  "one_header h f =
     gap_parser [\<lparr>ht_name = h, ht_fields = [gap_byte f]\<rparr>]
       [\<lparr>st_name = ''s'', st_extracts = [gap_extract h], st_assigns = [], st_region_ops = [],
         st_transition = Direct Accept\<rparr>]"

text \<open>
  Descriptions the validator accepts, each with the parser's name, and each running into one of the
  exceptions of \<open>declared_names_distinct\<close>: two states whose names differ in case are numbered by one macro,
  an instance called result has the struct type of the parse result, the reason none is the enumerator for
  no reason, in a parser called r the reason accept is the enumerator of the outcome, in a parser called s
  the state h has the name of the include guard, and a field called NULL is a macro of stddef.h.
\<close>

definition colliding :: "(string \<times> parser) list" where
  "colliding =
     [(''p'', plain_states ''S'' Accept),
      (''p'', one_header ''result'' ''n''),
      (''p'', plain_states ''t'' (Reject ''none'' SevInfo)),
      (''r'', plain_states ''t'' (Reject ''accept'' SevInfo)),
      (''s'', plain_states ''h'' Accept),
      (''p'', one_header ''b'' ''NULL'')]"


end
