(* ===== verification/Example_Declarations.thy ===== *)
theory Example_Declarations
  imports Examples_Validated C_Declarations
begin

text \<open>
  The declarations at the head of the generated files of the three examples, name by name: the structs
  and enumerations of parser.bpf.c, which repeats those of parser.h, the enumerations of parser.h, the
  state numbers of parser.c and parser.bpf.c. They are what the emitter makes of the descriptions.
\<close>

definition tlv_bpf_structs :: "struct_decl list" where
  "tlv_bpf_structs =
     [(''pk_tlv_items_total_len_t'',
       [(UInt 8, ''total'')]),
      (''pk_tlv_items_item_t'',
       [(UInt 8, ''kind''),
        (UInt 8, ''ln''),
        (UInt 64, ''val_bit_off''),
        (UInt 64, ''val_bit_len'')]),
      (''pk_tlv_items_result_t'',
       [(UInt 8, ''outcome''),
        (UInt 16, ''reason''),
        (UInt 64, ''consumed_bits''),
        (UInt 8, ''total_len_present''),
        (Struct ''pk_tlv_items_total_len_t'', ''total_len''),
        (UInt 8, ''item_present''),
        (Struct ''pk_tlv_items_item_t'', ''item'')])]"

definition tlv_bpf_reason_enum :: "(string \<times> nat) list" where
  "tlv_bpf_reason_enum =
     [(''PK_R_NONE'', 0),
      (''PK_R_OUT_OF_BOUNDS'', 1),
      (''PK_R_MAX_DEPTH_EXCEEDED'', 2),
      (''PK_R_NO_MATCHING_SELECT_ARM'', 3),
      (''PK_R_OUT_OF_REGION_BOUNDS'', 4),
      (''PK_R_REGION_OUT_OF_BOUNDS'', 5),
      (''PK_R_REGION_NOT_EXHAUSTED'', 6)]"

definition tlv_bpf_state_defines :: "(string \<times> nat) list" where
  "tlv_bpf_state_defines =
     [(''PK_S_PARSE_TOTAL'', 0),
      (''PK_S_TLV_LOOP'', 1),
      (''PK_S_PARSE_ITEM'', 2),
      (''PK_S_CLOSE'', 3)]"

definition tlv_reason_enum :: "(string \<times> nat) list" where
  "tlv_reason_enum =
     [(''PK_R_NONE'', 0),
      (''PK_R_OUT_OF_BOUNDS'', 1),
      (''PK_R_MAX_DEPTH_EXCEEDED'', 2),
      (''PK_R_NO_MATCHING_SELECT_ARM'', 3),
      (''PK_R_OUT_OF_REGION_BOUNDS'', 4),
      (''PK_R_REGION_OUT_OF_BOUNDS'', 5),
      (''PK_R_REGION_NOT_EXHAUSTED'', 6)]"

definition tlv_state_defines :: "(string \<times> nat) list" where
  "tlv_state_defines =
     [(''PK_S_PARSE_TOTAL'', 0),
      (''PK_S_TLV_LOOP'', 1),
      (''PK_S_PARSE_ITEM'', 2),
      (''PK_S_CLOSE'', 3)]"

definition tlv_outcome_enum :: "(string \<times> nat) list" where
  "tlv_outcome_enum =
     [(''PK_TLV_ITEMS_ACCEPT'', 0),
      (''PK_TLV_ITEMS_REJECT'', 1)]"

definition cnt_bpf_structs :: "struct_decl list" where
  "cnt_bpf_structs =
     [(''pk_counted_items_count_t'',
       [(UInt 8, ''n'')]),
      (''pk_counted_items_item_t'',
       [(UInt 8, ''v'')]),
      (''pk_counted_items_result_t'',
       [(UInt 8, ''outcome''),
        (UInt 16, ''reason''),
        (UInt 64, ''consumed_bits''),
        (UInt 8, ''count_present''),
        (Struct ''pk_counted_items_count_t'', ''count''),
        (UInt 8, ''item_present''),
        (Struct ''pk_counted_items_item_t'', ''item''),
        (UInt 64, ''m_done''),
        (UInt 64, ''m_remaining'')])]"

definition cnt_bpf_reason_enum :: "(string \<times> nat) list" where
  "cnt_bpf_reason_enum =
     [(''PK_R_NONE'', 0),
      (''PK_R_OUT_OF_BOUNDS'', 1),
      (''PK_R_MAX_DEPTH_EXCEEDED'', 2),
      (''PK_R_NO_MATCHING_SELECT_ARM'', 3),
      (''PK_R_OUT_OF_REGION_BOUNDS'', 4),
      (''PK_R_REGION_OUT_OF_BOUNDS'', 5),
      (''PK_R_REGION_NOT_EXHAUSTED'', 6)]"

definition cnt_bpf_state_defines :: "(string \<times> nat) list" where
  "cnt_bpf_state_defines =
     [(''PK_S_PARSE_COUNT'', 0),
      (''PK_S_PARSE_ITEM'', 1),
      (''PK_S_MARK_DONE'', 2)]"

definition cnt_reason_enum :: "(string \<times> nat) list" where
  "cnt_reason_enum =
     [(''PK_R_NONE'', 0),
      (''PK_R_OUT_OF_BOUNDS'', 1),
      (''PK_R_MAX_DEPTH_EXCEEDED'', 2),
      (''PK_R_NO_MATCHING_SELECT_ARM'', 3),
      (''PK_R_OUT_OF_REGION_BOUNDS'', 4),
      (''PK_R_REGION_OUT_OF_BOUNDS'', 5),
      (''PK_R_REGION_NOT_EXHAUSTED'', 6)]"

definition cnt_state_defines :: "(string \<times> nat) list" where
  "cnt_state_defines =
     [(''PK_S_PARSE_COUNT'', 0),
      (''PK_S_PARSE_ITEM'', 1),
      (''PK_S_MARK_DONE'', 2)]"

definition cnt_outcome_enum :: "(string \<times> nat) list" where
  "cnt_outcome_enum =
     [(''PK_COUNTED_ITEMS_ACCEPT'', 0),
      (''PK_COUNTED_ITEMS_REJECT'', 1)]"

definition eth_bpf_structs :: "struct_decl list" where
  "eth_bpf_structs =
     [(''pk_eth_ipvx_l4_ethernet_t'',
       [(UInt 64, ''dst''),
        (UInt 64, ''src''),
        (UInt 16, ''ethertype'')]),
      (''pk_eth_ipvx_l4_ipv4_t'',
       [(UInt 8, ''version''),
        (UInt 8, ''ihl''),
        (UInt 8, ''dscp''),
        (UInt 8, ''ecn''),
        (UInt 16, ''total_len''),
        (UInt 16, ''id''),
        (UInt 8, ''flags''),
        (UInt 16, ''frag_offset''),
        (UInt 8, ''ttl''),
        (UInt 8, ''protocol''),
        (UInt 16, ''checksum''),
        (UInt 32, ''src''),
        (UInt 32, ''dst''),
        (UInt 64, ''options_bit_off''),
        (UInt 64, ''options_bit_len'')]),
      (''pk_eth_ipvx_l4_ipv6_t'',
       [(UInt 8, ''version''),
        (UInt 8, ''traffic_class''),
        (UInt 32, ''flow_label''),
        (UInt 16, ''payload_length''),
        (UInt 8, ''next_header''),
        (UInt 8, ''hop_limit''),
        (UInt 64, ''src_bit_off''),
        (UInt 64, ''src_bit_len''),
        (UInt 64, ''dst_bit_off''),
        (UInt 64, ''dst_bit_len'')]),
      (''pk_eth_ipvx_l4_tcp_t'',
       [(UInt 16, ''sport''),
        (UInt 16, ''dport''),
        (UInt 32, ''seq''),
        (UInt 32, ''ack''),
        (UInt 8, ''data_offset''),
        (UInt 8, ''reserved''),
        (UInt 8, ''flags''),
        (UInt 16, ''window''),
        (UInt 16, ''checksum''),
        (UInt 16, ''urgent'')]),
      (''pk_eth_ipvx_l4_udp_t'',
       [(UInt 16, ''sport''),
        (UInt 16, ''dport''),
        (UInt 16, ''length''),
        (UInt 16, ''checksum'')]),
      (''pk_eth_ipvx_l4_result_t'',
       [(UInt 8, ''outcome''),
        (UInt 16, ''reason''),
        (UInt 64, ''consumed_bits''),
        (UInt 8, ''ethernet_present''),
        (Struct ''pk_eth_ipvx_l4_ethernet_t'', ''ethernet''),
        (UInt 8, ''ipv4_present''),
        (Struct ''pk_eth_ipvx_l4_ipv4_t'', ''ipv4''),
        (UInt 8, ''ipv6_present''),
        (Struct ''pk_eth_ipvx_l4_ipv6_t'', ''ipv6''),
        (UInt 8, ''tcp_present''),
        (Struct ''pk_eth_ipvx_l4_tcp_t'', ''tcp''),
        (UInt 8, ''udp_present''),
        (Struct ''pk_eth_ipvx_l4_udp_t'', ''udp'')])]"

definition eth_bpf_reason_enum :: "(string \<times> nat) list" where
  "eth_bpf_reason_enum =
     [(''PK_R_NONE'', 0),
      (''PK_R_OUT_OF_BOUNDS'', 1),
      (''PK_R_MAX_DEPTH_EXCEEDED'', 2),
      (''PK_R_NO_MATCHING_SELECT_ARM'', 3),
      (''PK_R_OUT_OF_REGION_BOUNDS'', 4),
      (''PK_R_REGION_OUT_OF_BOUNDS'', 5),
      (''PK_R_REGION_NOT_EXHAUSTED'', 6),
      (''PK_R_UNSUPPORTED_ETHERTYPE'', 16),
      (''PK_R_UNSUPPORTED_IP_PROTOCOL'', 17)]"

definition eth_bpf_state_defines :: "(string \<times> nat) list" where
  "eth_bpf_state_defines =
     [(''PK_S_PARSE_ETHERNET'', 0),
      (''PK_S_PARSE_IPV4'', 1),
      (''PK_S_PARSE_IPV6'', 2),
      (''PK_S_PARSE_TCP'', 3),
      (''PK_S_PARSE_UDP'', 4)]"

definition eth_reason_enum :: "(string \<times> nat) list" where
  "eth_reason_enum =
     [(''PK_R_NONE'', 0),
      (''PK_R_OUT_OF_BOUNDS'', 1),
      (''PK_R_MAX_DEPTH_EXCEEDED'', 2),
      (''PK_R_NO_MATCHING_SELECT_ARM'', 3),
      (''PK_R_OUT_OF_REGION_BOUNDS'', 4),
      (''PK_R_REGION_OUT_OF_BOUNDS'', 5),
      (''PK_R_REGION_NOT_EXHAUSTED'', 6),
      (''PK_R_UNSUPPORTED_ETHERTYPE'', 16),
      (''PK_R_UNSUPPORTED_IP_PROTOCOL'', 17)]"

definition eth_state_defines :: "(string \<times> nat) list" where
  "eth_state_defines =
     [(''PK_S_PARSE_ETHERNET'', 0),
      (''PK_S_PARSE_IPV4'', 1),
      (''PK_S_PARSE_IPV6'', 2),
      (''PK_S_PARSE_TCP'', 3),
      (''PK_S_PARSE_UDP'', 4)]"

definition eth_outcome_enum :: "(string \<times> nat) list" where
  "eth_outcome_enum =
     [(''PK_ETH_IPVX_L4_ACCEPT'', 0),
      (''PK_ETH_IPVX_L4_REJECT'', 1)]"

section \<open>They are the emitter's\<close>

lemma tlv_declarations:
  "structs ''pk_tlv_items'' tlv_ir = Some tlv_bpf_structs \<and>
   reason_enum tlv_ir = tlv_reason_enum \<and> reason_enum tlv_ir = tlv_bpf_reason_enum \<and>
   state_defines tlv_ir = tlv_state_defines \<and> state_defines tlv_ir = tlv_bpf_state_defines \<and>
   outcome_enum ''pk_tlv_items'' = tlv_outcome_enum"
  by code_simp

lemma cnt_declarations:
  "structs ''pk_counted_items'' cnt_ir = Some cnt_bpf_structs \<and>
   reason_enum cnt_ir = cnt_reason_enum \<and> reason_enum cnt_ir = cnt_bpf_reason_enum \<and>
   state_defines cnt_ir = cnt_state_defines \<and> state_defines cnt_ir = cnt_bpf_state_defines \<and>
   outcome_enum ''pk_counted_items'' = cnt_outcome_enum"
  by code_simp

lemma eth_declarations:
  "structs ''pk_eth_ipvx_l4'' eth_ir = Some eth_bpf_structs \<and>
   reason_enum eth_ir = eth_reason_enum \<and> reason_enum eth_ir = eth_bpf_reason_enum \<and>
   state_defines eth_ir = eth_state_defines \<and> state_defines eth_ir = eth_bpf_state_defines \<and>
   outcome_enum ''pk_eth_ipvx_l4'' = eth_outcome_enum"
  by code_simp


end
