(* ===== verification/C_Text.thy ===== *)
theory C_Text
  imports Codegen_Properties
begin

text \<open>
  Authored reasons as text of the generated C: \<open>c_string\<close> and \<open>c_comment\<close> of codegen/c.rs and the cases of
  the generated \<open>reason_str\<close>. A string is a list of bytes. The reader is the compiler's: in the C99 mode
  the generated files are built with, trigraphs are replaced first, then a string literal is read with
  its escapes. Proved: the compiled \<open>reason_str\<close> returns the authored reason unless a trigraph is in it,
  and a comment ends where the emitter ends it.
\<close>

section \<open>The emitter\<close>

definition octal_digit :: "nat \<Rightarrow> char" where
  "octal_digit d = char_of (48 + d)"

definition c_char :: "char \<Rightarrow> string" where
  "c_char c =
     (let n = of_char c :: nat in
      if c = CHR 0x5C then [CHR 0x5C, CHR 0x5C]
      else if c = CHR 0x22 then [CHR 0x5C, CHR 0x22]
      else if c = CHR 0x0A then [CHR 0x5C, CHR ''n'']
      else if c = CHR 0x0D then [CHR 0x5C, CHR ''r'']
      else if c = CHR 0x09 then [CHR 0x5C, CHR ''t'']
      else if 0x20 \<le> n \<and> n \<le> 0x7e then [c]
      else [CHR 0x5C, octal_digit (n div 64), octal_digit (n div 8 mod 8), octal_digit (n mod 8)])"

definition c_string :: "string \<Rightarrow> string" where
  "c_string s = concat (map c_char s)"

text \<open>\<open>s.replace("*/", "* /")\<close>, from the left and without overlap, then newlines become blanks.\<close>

fun split_ends :: "string \<Rightarrow> string" where
  "split_ends (a # b # cs) =
     (if a = CHR ''*'' \<and> b = CHR ''/'' then CHR ''*'' # CHR '' '' # CHR ''/'' # split_ends cs
      else a # split_ends (b # cs))"
| "split_ends cs = cs"

definition c_comment :: "string \<Rightarrow> string" where
  "c_comment s = map (\<lambda>c. if c = CHR 0x0D \<or> c = CHR 0x0A then CHR '' '' else c) (split_ends s)"

text \<open>The cases of \<open>reason_str\<close>: the code and what stands between the quotes.\<close>

definition reason_cases :: "parser \<Rightarrow> (nat \<times> string) list" where
  "reason_cases p = map (\<lambda>(r, k). (k, c_string r)) (reason_table p)"

section \<open>The compiler's reading\<close>

definition trigraph :: "char \<Rightarrow> char option" where
  "trigraph c =
     map_of (zip ''=/'' [CHR ''#'', CHR 0x5C] @ [(CHR 0x27, CHR ''^'')] @ zip ''()!<>-'' ''[]|{}~'') c"

fun trigraphs :: "string \<Rightarrow> string" where
  "trigraphs (a # b # c # cs) =
     (if a = CHR ''?'' \<and> b = CHR ''?'' \<and> trigraph c \<noteq> None then the (trigraph c) # trigraphs cs
      else a # trigraphs (b # c # cs))"
| "trigraphs cs = cs"

fun has_trigraph :: "string \<Rightarrow> bool" where
  "has_trigraph (a # b # c # cs) =
     (a = CHR ''?'' \<and> b = CHR ''?'' \<and> trigraph c \<noteq> None \<or> has_trigraph (b # c # cs))"
| "has_trigraph _ = False"

definition simple_escape :: "char \<Rightarrow> char option" where
  "simple_escape c =
     map_of [(CHR 0x5C, CHR 0x5C), (CHR 0x22, CHR 0x22), (CHR 0x27, CHR 0x27), (CHR ''?'', CHR ''?''),
       (CHR ''a'', CHR 0x07), (CHR ''b'', CHR 0x08), (CHR ''f'', CHR 0x0C), (CHR ''n'', CHR 0x0A),
       (CHR ''r'', CHR 0x0D), (CHR ''t'', CHR 0x09), (CHR ''v'', CHR 0x0B)] c"

definition octal_value :: "char \<Rightarrow> nat option" where
  "octal_value c = (let n = of_char c :: nat in if 48 \<le> n \<and> n \<le> 55 then Some (n - 48) else None)"

text \<open>An octal escape takes as many digits as there are, at most three.\<close>

primrec octal_run :: "nat \<Rightarrow> nat \<Rightarrow> string \<Rightarrow> nat \<times> string" where
  "octal_run 0 v cs = (v, cs)"
| "octal_run (Suc k) v cs =
     (case cs of
        [] \<Rightarrow> (v, [])
      | c # cs' \<Rightarrow> (case octal_value c of None \<Rightarrow> (v, cs) | Some d \<Rightarrow> octal_run k (8 * v + d) cs'))"

lemma octal_run_shorter: "length (snd (octal_run k v cs)) \<le> length cs"
proof (induction k arbitrary: v cs)
  case (Suc k)
  show ?case
  proof (cases cs)
    case (Cons c cs')
    have "length (snd (octal_run k w cs')) \<le> Suc (length cs')" for w
      using Suc [of w cs'] by simp
    with Cons show ?thesis by (simp split: option.split)
  qed simp
qed simp

text \<open>The bytes of a string literal's body; \<open>None\<close> for what is no body of a literal.\<close>

function c_literal :: "string \<Rightarrow> string option" where
  "c_literal [] = Some []"
| "c_literal (c # cs) =
     (if c = CHR 0x5C then
        (case cs of
           [] \<Rightarrow> None
         | d # ds \<Rightarrow>
             (case simple_escape d of
                Some x \<Rightarrow> map_option (Cons x) (c_literal ds)
              | None \<Rightarrow>
                  if octal_value d = None then None
                  else if 256 \<le> fst (octal_run 3 0 cs) then None
                  else map_option (Cons (char_of (fst (octal_run 3 0 cs)))) (c_literal (snd (octal_run 3 0 cs)))))
      else if c = CHR 0x22 \<or> c = CHR 0x0A then None
      else map_option (Cons c) (c_literal cs))"
  by pat_completeness auto
termination
  by (relation "measure length") (auto intro!: le_less_trans [OF octal_run_shorter])

declare c_literal.simps(2) [simp del]

text \<open>\<open>reason_str\<close> as compiled: the literal of the case with the reason's code, by default the empty one.\<close>

definition c_reason_str :: "(nat \<times> string) list \<Rightarrow> u16 \<Rightarrow> string option" where
  "c_reason_str cases k =
     (case map_of cases (unat k) of None \<Rightarrow> Some [] | Some body \<Rightarrow> c_literal (trigraphs body))"

text \<open>What follows the first end of a comment.\<close>

fun after_comment :: "string \<Rightarrow> string option" where
  "after_comment (a # b # cs) =
     (if a = CHR ''*'' \<and> b = CHR ''/'' then Some cs else after_comment (b # cs))"
| "after_comment _ = None"

section \<open>String literals\<close>

lemma of_char_less: "(of_char c :: nat) < 256"
  by (metis of_char_mod_256 mod_less_divisor zero_less_numeral)

lemma of_char_not_ge [simp]: "\<not> 256 \<le> (of_char c :: nat)"
  by (simp only: not_le of_char_less)

lemma octal_value_digit: "d < 8 \<Longrightarrow> octal_value (octal_digit d) = Some d"
  by (simp add: octal_value_def octal_digit_def)

lemma simple_escape_digit: "d < 8 \<Longrightarrow> simple_escape (octal_digit d) = None"
proof -
  have "\<forall>d\<in>set [0 ..< 8]. simple_escape (octal_digit d) = None" by code_simp
  then show "d < 8 \<Longrightarrow> simple_escape (octal_digit d) = None" by simp
qed

lemma octal_round: "64 * (n div 64) + 8 * (n div 8 mod 8) + n mod 8 = (n :: nat)"
proof -
  have "n div 8 div 8 = n div 64" by (simp flip: div_mult2_eq)
  then show ?thesis using mult_div_mod_eq [of 8 "n div 8"] mult_div_mod_eq [of 8 n] by linarith
qed

lemma c_literal_octal:
  assumes "n = (of_char c :: nat)"
  shows "c_literal (CHR 0x5C # octal_digit (n div 64) # octal_digit (n div 8 mod 8) # octal_digit (n mod 8) # rest) =
    map_option (Cons c) (c_literal rest)"
proof -
  have n: "n < 256" using of_char_less assms by simp
  let ?cs = "octal_digit (n div 64) # octal_digit (n div 8 mod 8) # octal_digit (n mod 8) # rest"
  have small: "n div 64 < 8" "n div 8 mod 8 < 8" "n mod 8 < 8" using n by auto
  have "octal_run 3 0 ?cs = (8 * (8 * (n div 64) + n div 8 mod 8) + n mod 8, rest)"
    using small by (simp add: numeral_3_eq_3 octal_value_digit)
  also have "8 * (8 * (n div 64) + n div 8 mod 8) + n mod 8 = n" using octal_round [of n] by (simp add: algebra_simps)
  finally have run: "octal_run 3 0 ?cs = (n, rest)" .
  show ?thesis
    using n small run assms
    by (simp add: c_literal.simps simple_escape_digit octal_value_digit)
qed

lemma c_literal_char: "c_literal (c_char c @ rest) = map_option (Cons c) (c_literal rest)"
proof (cases "c \<in> {CHR 0x5C, CHR 0x22, CHR 0x0A, CHR 0x0D, CHR 0x09}")
  case True
  then show ?thesis by (auto simp: c_char_def c_literal.simps simple_escape_def)
next
  case False
  show ?thesis
  proof (cases "0x20 \<le> (of_char c :: nat) \<and> of_char c \<le> (0x7e :: nat)")
    case True
    with False show ?thesis by (simp add: c_char_def Let_def c_literal.simps)
  next
    case out: False
    with False have "c_char c = [CHR 0x5C, octal_digit (of_char c div 64), octal_digit (of_char c div 8 mod 8),
        octal_digit (of_char c mod 8)]" by (simp add: c_char_def Let_def)
    then show ?thesis by (simp add: c_literal_octal)
  qed
qed

lemma c_literal_string: "c_literal (c_string s) = Some s"
  by (induction s) (simp_all add: c_string_def c_literal_char)

section \<open>Trigraphs\<close>

lemma trigraphs_none: "\<not> has_trigraph s \<Longrightarrow> trigraphs s = s"
  by (induction s rule: trigraphs.induct) auto

lemma has_trigraph_Cons:
  "has_trigraph (a # s) \<longleftrightarrow>
   a = CHR ''?'' \<and> (\<exists>c cs. s = CHR ''?'' # c # cs \<and> trigraph c \<noteq> None) \<or> has_trigraph s"
proof (cases s)
  case (Cons b t)
  then show ?thesis by (cases t) auto
qed simp

lemma has_trigraph_append: "CHR ''?'' \<notin> set xs \<Longrightarrow> has_trigraph (xs @ s) = has_trigraph s"
  by (induction xs) (auto simp: has_trigraph_Cons)

lemma octal_digit_not_question: "d < 8 \<Longrightarrow> octal_digit d \<noteq> CHR ''?''"
  using octal_value_digit [of d] by (auto simp: octal_value_def)

lemma c_char_forms: "c_char c = [c] \<or> (\<exists>xs. c_char c = CHR 0x5C # xs \<and> CHR ''?'' \<notin> set xs)"
proof -
  have "(of_char c :: nat) div 64 < 8"
    by (intro less_mult_imp_div_less less_trans [OF of_char_less]) simp
  then show ?thesis
    using octal_digit_not_question [of "of_char c div 64"] octal_digit_not_question [of "of_char c div 8 mod 8"]
      octal_digit_not_question [of "of_char c mod 8"]
    by (auto simp: c_char_def Let_def)
qed

lemma c_string_head:
  assumes "c_string s = x # t" and "x \<noteq> CHR 0x5C"
  obtains s' where "s = x # s'" "t = c_string s'"
proof (cases s)
  case (Cons a s')
  with assms c_char_forms [of a] have "a = x" "t = c_string s'" by (auto simp: c_string_def)
  with Cons that show thesis by blast
qed (use assms in \<open>simp add: c_string_def\<close>)

lemma trigraph_backslash: "trigraph (CHR 0x5C) = None"
  by (simp add: trigraph_def)

text \<open>Escaping makes no trigraph: what it inserts starts with a backslash.\<close>

lemma c_string_no_trigraph: "\<not> has_trigraph s \<Longrightarrow> \<not> has_trigraph (c_string s)"
proof (induction s)
  case Nil
  then show ?case by (simp add: c_string_def)
next
  case (Cons a s)
  then have rest: "\<not> has_trigraph (c_string s)" by (simp add: has_trigraph_Cons)
  have string: "c_string (a # s) = c_char a @ c_string s" by (simp add: c_string_def)
  consider (self) "c_char a = [a]" | (escape) xs where "c_char a = CHR 0x5C # xs" "CHR ''?'' \<notin> set xs"
    using c_char_forms [of a] by blast
  then show ?case
  proof cases
    case self
    have False if q: "a = CHR ''?''" "c_string s = CHR ''?'' # c # cs" "trigraph c \<noteq> None" for c cs
    proof -
      obtain t where t: "s = CHR ''?'' # t" "c # cs = c_string t" using q(2) by (rule c_string_head) simp
      have "c \<noteq> CHR 0x5C" using q(3) trigraph_backslash by auto
      with t(2) [symmetric] obtain u where "t = c # u" by (rule c_string_head)
      with t q Cons.prems show False by simp
    qed
    with self string rest show ?thesis by (auto simp: has_trigraph_Cons)
  next
    case escape
    with string rest show ?thesis by (simp add: has_trigraph_append has_trigraph_Cons)
  qed
qed

text \<open>
  C31: The generated \<open>reason_str\<close>, as a C99 compiler reads it, gives every reason of the table back for the
  code the parser reports: as long as the codes fit sixteen bits and no trigraph occurs in the reason,
  the text between the quotes, whatever bytes are in it, is a literal of exactly these bytes.
\<close>

theorem reason_text_round_trip:
  assumes "length (authored_reasons p) < 65520" and "r \<in> fst ` set (reason_table p)"
    and "\<not> has_trigraph r"
  shows "c_reason_str (reason_cases p) (reason_number p r) = Some r \<and> reason_number p r \<noteq> 0"
proof -
  obtain k where k: "(r, k) \<in> set (reason_table p)" "unat (reason_number p r) = k"
    using reason_number_nat [OF assms(1,2)] by blast
  have "(k, c_string r) \<in> set (reason_cases p)" using k(1) by (force simp: reason_cases_def)
  moreover have "distinct (map fst (reason_cases p))"
    using reason_codes_distinct [of p] by (simp add: reason_cases_def comp_def case_prod_unfold)
  ultimately have "map_of (reason_cases p) k = Some (c_string r)" by simp
  then show ?thesis
    using k(2) trigraphs_none [OF c_string_no_trigraph [OF assms(3)]] reason_number_round_trip [OF assms(1,2)]
    by (simp add: c_reason_str_def c_literal_string)
qed

definition quoting :: parser where
  "quoting =
     \<lparr>p_header_types = [],
      p_states =
        [\<lparr>st_name = ''s'', st_extracts = [], st_assigns = [], st_region_ops = [],
          st_transition = Direct (Reject [CHR 0x22, CHR ''a'', CHR 0x5C, CHR 0x07, CHR ''7'', CHR ''?''] SevError)\<rparr>],
      p_start_state = ''s'', p_max_depth = 1, p_metadata = []\<rparr>"

theorem reason_text_round_trip_witness:
  "c_reason_str (reason_cases quoting)
     (reason_number quoting [CHR 0x22, CHR ''a'', CHR 0x5C, CHR 0x07, CHR ''7'', CHR ''?'']) =
   Some [CHR 0x22, CHR ''a'', CHR 0x5C, CHR 0x07, CHR ''7'', CHR ''?'']"
proof -
  have "authored_reasons quoting = [[CHR 0x22, CHR ''a'', CHR 0x5C, CHR 0x07, CHR ''7'', CHR ''?'']]" and r: "[CHR 0x22, CHR ''a'', CHR 0x5C, CHR 0x07, CHR ''7'', CHR ''?''] \<in> fst ` set (reason_table quoting)"
    and plain: "\<not> has_trigraph [CHR 0x22, CHR ''a'', CHR 0x5C, CHR 0x07, CHR ''7'', CHR ''?'']"
    by code_simp+
  then have "length (authored_reasons quoting) < 65520" by simp
  then show ?thesis using r plain by (rule reason_text_round_trip [THEN conjunct1])
qed

section \<open>Comments\<close>

lemma after_comment_skip: "xs \<noteq> [] \<Longrightarrow> a \<noteq> CHR ''*'' \<or> hd xs \<noteq> CHR ''/'' \<Longrightarrow> after_comment (a # xs) = after_comment xs"
  by (cases xs) auto

lemma split_ends_hd: "cs \<noteq> [] \<Longrightarrow> split_ends cs \<noteq> [] \<and> hd (split_ends cs) = hd cs"
proof (cases cs)
  case (Cons a t)
  then show ?thesis by (cases t) auto
qed simp

lemma after_comment_text: "after_comment (c_comment s @ CHR 0x22 # t) = after_comment (CHR 0x22 # t)"
  unfolding c_comment_def
proof (induction s rule: split_ends.induct)
  case (1 a b cs)
  let ?g = "\<lambda>c. if c = CHR 0x0D \<or> c = CHR 0x0A then CHR '' '' else c"
  show ?case
  proof (cases "a = CHR ''*'' \<and> b = CHR ''/''")
    case True
    then show ?thesis using 1(1) by (simp add: after_comment_skip hd_append)
  next
    case False
    have "hd (map ?g (split_ends (b # cs)) @ CHR 0x22 # t) = ?g b"
      using split_ends_hd [of "b # cs"] by (simp add: hd_append hd_map)
    then have "after_comment (?g a # map ?g (split_ends (b # cs)) @ CHR 0x22 # t) =
        after_comment (map ?g (split_ends (b # cs)) @ CHR 0x22 # t)"
      using False by (intro after_comment_skip) auto
    moreover have "split_ends (a # b # cs) = a # split_ends (b # cs)" using False by auto
    ultimately show ?thesis using 1(2) [OF False] by (simp del: split_ends.simps)
  qed
qed (auto simp: after_comment_skip)

text \<open>
  The comment behind an enumerator is closed by the emitter's own end and not by the reason in it, and
  it stays on its line.
\<close>

lemma comment_closed:
  "after_comment (CHR 0x22 # c_comment r @ CHR 0x22 # '' */'' @ rest) = Some rest \<and>
   CHR 0x0A \<notin> set (c_comment r) \<and> CHR 0x0D \<notin> set (c_comment r)"
proof -
  have "after_comment (CHR 0x22 # c_comment r @ CHR 0x22 # '' */'' @ rest) =
      after_comment (c_comment r @ CHR 0x22 # '' */'' @ rest)"
    by (rule after_comment_skip) auto
  also have "\<dots> = Some rest" by (simp add: after_comment_text)
  finally show ?thesis by (auto simp: c_comment_def)
qed

section \<open>The exception\<close>

definition doubtful :: parser where
  "doubtful =
     \<lparr>p_header_types = [],
      p_states =
        [\<lparr>st_name = ''s'', st_extracts = [], st_assigns = [], st_region_ops = [],
          st_transition = Direct (Reject ''what??!'' SevError)\<rparr>],
      p_start_state = ''s'', p_max_depth = 1, p_metadata = []\<rparr>"

text \<open>
  A reason may contain a trigraph, which \<open>c_string\<close> does not break up: the C99 compiler the generated
  files are made for replaces it, and the generated \<open>reason_str\<close> returns another text.
\<close>

theorem reason_text_trigraph:
  "has_trigraph ''what??!'' \<and> ''what??!'' \<in> fst ` set (reason_table doubtful) \<and>
   c_reason_str (reason_cases doubtful) (reason_number doubtful ''what??!'') = Some ''what|''"
  by code_simp

end
