(* ===== verification/Path_Id.thy ===== *)
theory Path_Id
  imports Validator_Gaps
begin

text \<open>
  The path identifier of a run: rust/pakeles/src/symex/pathid.rs replays a result of the interpreter along
  the description and spells the path it took. codegen/p4.rs bounds a length by interval arithmetic
  (\<open>expr_range\<close>), which the replay uses to tell an impossible length from a short packet. Here are the
  definitions of both files and the soundness of the bounds, where no operation wraps; Path_Trace has
  what the replay gives for a run.
\<close>

section \<open>Bounds of an expression\<close>

datatype range_error =
    RemainingBound | UnknownRangeInstance string | UnknownRangeType string | UnknownRangeField string string
  | NotFixed string string | UnknownRangeMetadata string | RangeOperator | MulOverflow | RangePanic

definition header_type_of :: "parser \<Rightarrow> string \<Rightarrow> range_error + header_type" where
  "header_type_of p inst =
     (case map_of (instances p) inst of
        None \<Rightarrow> Inl (UnknownRangeInstance inst)
      | Some t \<Rightarrow>
          (case find_header_type p t of None \<Rightarrow> Inl (UnknownRangeType t) | Some ht \<Rightarrow> Inr ht))"

definition fixed_width :: "parser \<Rightarrow> string \<Rightarrow> string \<Rightarrow> range_error + nat" where
  "fixed_width p inst f =
     and_then (header_type_of p inst) (\<lambda>ht.
       case find (\<lambda>g. field_name g = f) (ht_fields ht) of
         None \<Rightarrow> Inl (UnknownRangeField inst f)
       | Some g \<Rightarrow> (case field_width g of Bits n \<Rightarrow> Inr n | BitLen _ \<Rightarrow> Inl (NotFixed inst f)))"

definition metadata_bits :: "parser \<Rightarrow> string \<Rightarrow> range_error + nat" where
  "metadata_bits p m =
     (case find_metadata p m of None \<Rightarrow> Inl (UnknownRangeMetadata m) | Some d \<Rightarrow> Inr (md_bits d))"

text \<open>
  Intervals of \<open>u128\<close>. The additions, the product of the lower ends and \<open>1u128 << n\<close> panic when they leave
  the type, with overflow checks; \<open>checked_shl\<close> checks the amount, which is at most 64, and drops the
  bits it shifts out.
\<close>

definition u128_range :: "nat \<times> nat \<Rightarrow> range_error + nat \<times> nat" where
  "u128_range r = (if fst r < 2 ^ 128 \<and> snd r < 2 ^ 128 then Inr r else Inl RangePanic)"

definition bits_range :: "nat \<Rightarrow> range_error + nat \<times> nat" where
  "bits_range n = (if n < 128 then Inr (0, 2 ^ n - 1) else Inl RangePanic)"

fun binop_range :: "binop \<Rightarrow> nat \<times> nat \<Rightarrow> nat \<times> nat \<Rightarrow> range_error + nat \<times> nat" where
  "binop_range OpAdd (lmin, lmax) (rmin, rmax) = u128_range (lmin + rmin, lmax + rmax)"
| "binop_range OpSub (lmin, lmax) (rmin, rmax) = Inr (lmin - rmax, lmax - rmin)"
| "binop_range OpMul (lmin, lmax) (rmin, rmax) =
     (if 2 ^ 128 \<le> lmin * rmin then Inl RangePanic
      else if 2 ^ 128 \<le> lmax * rmax then Inl MulOverflow
      else Inr (lmin * rmin, lmax * rmax))"
| "binop_range OpShl (lmin, lmax) (rmin, rmax) =
     Inr (lmin * 2 ^ min rmin 64 mod 2 ^ 128, lmax * 2 ^ min rmax 64 mod 2 ^ 128)"
| "binop_range OpShr (lmin, lmax) (rmin, rmax) = Inr (lmin div 2 ^ min rmax 127, lmax div 2 ^ min rmin 127)"
| "binop_range OpAnd (lmin, lmax) (rmin, rmax) = Inr (0, min lmax rmax)"
| "binop_range OpOr (lmin, lmax) (rmin, rmax) = u128_range (max lmin rmin, lmax + rmax)"
| "binop_range OpUnspecified _ _ = Inl RangeOperator"

primrec expr_range :: "parser \<Rightarrow> expr \<Rightarrow> range_error + nat \<times> nat" where
  "expr_range p (Constant v) = Inr (unat v, unat v)"
| "expr_range p (Field i f) = and_then (fixed_width p i f) bits_range"
| "expr_range p (Metadata m) = and_then (metadata_bits p m) bits_range"
| "expr_range p Remaining = Inl RemainingBound"
| "expr_range p (Bin op a b) =
     and_then (expr_range p a) (\<lambda>l. and_then (expr_range p b) (\<lambda>r. binop_range op l r))"

definition expr_max :: "expr \<Rightarrow> parser \<Rightarrow> range_error + nat" where
  "expr_max e p = and_then (expr_range p e) (\<lambda>r. Inr (snd r))"

section \<open>Where the bounds hold\<close>

text \<open>
  Conditions under which no operation leaves the 64 bits the interpreter computes with, node by node:
  sums, products and left shifts stay below 2 ^ 64, a difference is not negative, and shift amounts are
  below 64, where the interpreter's masking of the amount changes nothing.
\<close>

fun stays :: "binop \<Rightarrow> nat \<times> nat \<Rightarrow> nat \<times> nat \<Rightarrow> bool" where
  "stays OpAdd (lmin, lmax) (rmin, rmax) = (lmax + rmax < 2 ^ 64)"
| "stays OpSub (lmin, lmax) (rmin, rmax) = (rmax \<le> lmin)"
| "stays OpMul (lmin, lmax) (rmin, rmax) = (lmax * rmax < 2 ^ 64)"
| "stays OpShl (lmin, lmax) (rmin, rmax) = (rmax < 64 \<and> lmax * 2 ^ rmax < 2 ^ 64)"
| "stays OpShr (lmin, lmax) (rmin, rmax) = (rmax < 64)"
| "stays _ _ _ = True"

primrec never_wraps :: "parser \<Rightarrow> expr \<Rightarrow> bool" where
  "never_wraps p (Constant v) = True"
| "never_wraps p (Field i f) = True"
| "never_wraps p (Metadata m) = True"
| "never_wraps p Remaining = True"
| "never_wraps p (Bin op a b) =
     (never_wraps p a \<and> never_wraps p b \<and>
      (case (expr_range p a, expr_range p b) of (Inr l, Inr r) \<Rightarrow> stays op l r | _ \<Rightarrow> True))"

definition between :: "nat \<times> nat \<Rightarrow> u64 \<Rightarrow> bool" where
  "between r v \<longleftrightarrow> fst r \<le> unat v \<and> unat v \<le> snd r"

lemma unat_or_le: "unat (a OR b :: u64) \<le> unat a + unat b"
proof -
  have "int (unat (a OR b)) = int (unat a) OR int (unat b)" by (simp add: unsigned_or_eq of_nat_or_eq)
  also have "\<dots> \<le> int (unat a) + int (unat b)"
    using plus_and_or [of "int (unat a)" "int (unat b)"] and_nonnegative_int_iff [of "int (unat a)" "int (unat b)"]
    by linarith
  finally show ?thesis by linarith
qed

lemma unat_push_bit_less: "unat a * 2 ^ n < 2 ^ 64 \<Longrightarrow> unat (push_bit n (a :: u64)) = unat a * 2 ^ n"
  by (subst unsigned_push_bit_eq) (simp add: push_bit_eq_mult take_bit_nat_eq_self)

lemma masked_amount: "unat r < 64 \<Longrightarrow> unat (ucast (r :: u64) :: u32) mod 64 = unat r"
  by (simp add: unsigned_ucast_eq take_bit_nat_eq_self)

lemma binop_between:
  assumes "between l a" and "between r b" and "binop_range op l r = Inr i" and "stays op l r"
    and "eval_binop op a b = Inr v"
  shows "between i v"
proof -
  obtain lmin lmax rmin rmax where lr: "l = (lmin, lmax)" "r = (rmin, rmax)" by (cases l; cases r)
  have a: "lmin \<le> unat a" "unat a \<le> lmax" and b: "rmin \<le> unat b" "unat b \<le> rmax"
    using assms(1,2) by (simp_all add: between_def lr)
  show ?thesis
  proof (cases op)
    case OpAdd
    have "unat a + unat b < 2 ^ 64" using assms(4) a(2) b(2) by (simp add: lr OpAdd)
    then have "unat (a + b) = unat a + unat b" by (simp add: unat_word_ariths)
    with assms a b show ?thesis by (auto simp: lr OpAdd u128_range_def between_def split: if_splits)
  next
    case OpSub
    have "unat b \<le> unat a" using assms(4) a(1) b(2) by (simp add: lr OpSub)
    then have "unat (a - b) = unat a - unat b" by (simp add: unat_sub word_le_nat_alt)
    with assms a b show ?thesis by (auto simp: lr OpSub between_def)
  next
    case OpMul
    have prod: "lmin * rmin \<le> unat a * unat b" "unat a * unat b \<le> lmax * rmax" using a b by (simp_all add: mult_le_mono)
    then have "unat a * unat b < 2 ^ 64" using assms(4) by (simp add: lr OpMul)
    then have "unat (a * b) = unat a * unat b" by (simp add: unat_word_ariths)
    with assms prod show ?thesis by (auto simp: lr OpMul between_def split: if_splits)
  next
    case OpShl
    have small: "rmax < 64" "lmax * 2 ^ rmax < 2 ^ 64" using assms(4) by (simp_all add: lr OpShl)
    have prod: "lmin * 2 ^ rmin \<le> unat a * 2 ^ unat b" "unat a * 2 ^ unat b \<le> lmax * 2 ^ rmax"
      using a b by (simp_all add: mult_le_mono)
    then have "unat a * 2 ^ unat b < 2 ^ 64" using small(2) by simp
    then have v: "unat v = unat a * 2 ^ unat b"
      using assms(5) small(1) b(2) by (auto simp: OpShl masked_amount unat_push_bit_less)
    have "i = (lmin * 2 ^ rmin mod 2 ^ 128, lmax * 2 ^ rmax mod 2 ^ 128)"
      using assms(3) small(1) b by (simp add: lr OpShl)
    moreover have "lmax * 2 ^ rmax mod 2 ^ 128 = lmax * 2 ^ rmax" using small(2) by simp
    moreover have "lmin * 2 ^ rmin mod 2 ^ 128 \<le> lmin * 2 ^ rmin" by (rule mod_less_eq_dividend)
    ultimately show ?thesis using v prod by (simp add: between_def)
  next
    case OpShr
    have small: "unat b < 64" using assms(4) b(2) by (simp add: lr OpShr)
    then have "v = drop_bit (unat b) a" using assms(5) by (auto simp: OpShr masked_amount)
    then have "unat v = unat a div 2 ^ unat b" by (simp add: unat_drop_bit_eq flip: drop_bit_eq_div)
    moreover have "lmin div 2 ^ min rmax 127 \<le> unat a div 2 ^ unat b"
      using a b assms(4)
      by (intro le_trans [OF div_le_mono2 div_le_mono]) (auto simp: lr OpShr intro: power_increasing)
    moreover have "unat a div 2 ^ unat b \<le> lmax div 2 ^ min rmin 127"
      using a b small by (intro le_trans [OF div_le_mono div_le_mono2]) (auto intro: power_increasing)
    ultimately show ?thesis using assms(3) by (auto simp: lr OpShr between_def)
  next
    case OpAnd
    have "unat (a AND b) \<le> unat a" "unat (a AND b) \<le> unat b"
      by (simp_all add: word_and_le1 word_and_le2 flip: word_le_nat_alt)
    with assms a b show ?thesis by (auto simp: lr OpAnd between_def)
  next
    case OpOr
    have "unat a \<le> unat (a OR b)" "unat b \<le> unat (a OR b)"
      by (simp_all add: le_word_or1 le_word_or2 flip: word_le_nat_alt)
    with assms a b unat_or_le [of a b] show ?thesis
      by (auto simp: lr OpOr u128_range_def between_def split: if_splits)
  qed (use assms in simp)
qed

text \<open>The values an expression reads are within the declared widths.\<close>

definition within_widths :: "parser \<Rightarrow> env \<Rightarrow> meta_store \<Rightarrow> bool" where
  "within_widths p env meta \<longleftrightarrow>
     (\<forall>i f v n. env (i, f) = Some v \<longrightarrow> fixed_width p i f = Inr n \<longrightarrow> unat v < 2 ^ n) \<and>
     (\<forall>m v n. meta m = Some v \<longrightarrow> metadata_bits p m = Inr n \<longrightarrow> unat v < 2 ^ n)"

lemma expr_range_between:
  assumes "within_widths p env meta"
  shows "expr_range p e = Inr r \<Longrightarrow> never_wraps p e \<Longrightarrow> eval_expr e env meta rem = Inr v \<Longrightarrow> between r v"
proof (induction e arbitrary: r v)
  case (Bin op a b)
  from Bin.prems obtain x y l r' where ab: "eval_expr a env meta rem = Inr x" "eval_expr b env meta rem = Inr y"
    "eval_binop op x y = Inr v" "expr_range p a = Inr l" "expr_range p b = Inr r'" "binop_range op l r' = Inr r"
    by (auto simp: and_then_Inr)
  then have "between l x" "between r' y" "stays op l r'" using Bin.IH Bin.prems(2) by simp_all
  with ab show ?case using binop_between by blast
next
  case (Field i f)
  then obtain n where "fixed_width p i f = Inr n" "r = (0, 2 ^ n - 1)"
    by (auto simp: and_then_Inr bits_range_def split: if_splits)
  moreover have "env (i, f) = Some v" using Field by (simp split: option.splits)
  ultimately show ?case using assms by (fastforce simp: within_widths_def between_def)
next
  case (Metadata m)
  then obtain n where "metadata_bits p m = Inr n" "r = (0, 2 ^ n - 1)"
    by (auto simp: and_then_Inr bits_range_def split: if_splits)
  moreover have "meta m = Some v" using Metadata by (simp split: option.splits)
  ultimately show ?case using assms by (fastforce simp: within_widths_def between_def)
qed (auto simp: between_def)

section \<open>The replay of a run\<close>

datatype path_error =
    UnknownPathState string | UnknownPathHeader string | PathLength interp_error | PathBound range_error | PopNoRegion

text \<open>An early end of \<open>path_id\<close>: an error, or the segments it joins and returns.\<close>

datatype path_stop = PathFails path_error | PathEnds "string list"

definition or_fail :: "('e \<Rightarrow> path_error) \<Rightarrow> 'e + 'a \<Rightarrow> path_stop + 'a" where
  "or_fail g r = (case r of Inl e \<Rightarrow> Inl (PathFails (g e)) | Inr x \<Rightarrow> Inr x)"

text \<open>
  The local variables of \<open>path_id\<close>: the segments, what is left of the iterator over the headers, the
  cursor and the ends of the open regions, innermost first.
\<close>

record path_walk =
  rp_segments :: "string list"
  rp_headers :: "parsed_header list"
  rp_cursor :: nat
  rp_regions :: "nat list"

abbreviation push_segment :: "string \<Rightarrow> path_walk \<Rightarrow> path_walk" where
  "push_segment x rp \<equiv> rp\<lparr>rp_segments := rp_segments rp @ [x]\<rparr>"

definition ends_with :: "string \<Rightarrow> path_walk \<Rightarrow> path_stop + 'a" where
  "ends_with x rp = Inl (PathEnds (rp_segments rp @ [x]))"

definition sanity_bits :: nat where
  "sanity_bits = 8 * 1024 * 1024"

text \<open>The fixed-width values of all headers; \<open>insert\<close> keeps the last one of a field.\<close>

definition uint_values :: "string \<Rightarrow> parsed_field list \<Rightarrow> ((string \<times> string) \<times> u64) list" where
  "uint_values inst fs =
     concat (map (\<lambda>f. case pf_value f of Uint u \<Rightarrow> [((inst, pf_name f), u)] | BitRun _ \<Rightarrow> []) fs)"

definition env_of :: "parsed_header list \<Rightarrow> env" where
  "env_of hs = map_of (rev (concat (map (\<lambda>h. uint_values (ph_instance h) (ph_fields h)) hs)))"

text \<open>\<open>eval_expr_pub\<close>: no metadata store and no region.\<close>

definition eval_expr_pub :: "expr \<Rightarrow> env \<Rightarrow> interp_error + u64" where
  "eval_expr_pub e env = eval_expr e env Map.empty None"

definition bound_bits :: "parser \<Rightarrow> expr \<Rightarrow> range_error + nat" where
  "bound_bits p e = and_then (expr_max e p) (\<lambda>m. Inr (min m sanity_bits))"

definition missing_mark :: "parser \<Rightarrow> env \<Rightarrow> bool \<Rightarrow> string \<Rightarrow> field \<Rightarrow> path_stop + string" where
  "missing_mark p env roob inst f =
     (let at = inst @ ''.'' @ field_name f in
      if roob then Inr (''!roob@'' @ at)
      else
        (case field_width f of
           Bits _ \<Rightarrow> Inr (''!trunc@'' @ at)
         | BitLen e \<Rightarrow>
             and_then (or_fail PathLength (eval_expr_pub e env)) (\<lambda>v.
             and_then (or_fail PathBound (bound_bits p e)) (\<lambda>b.
               Inr ((if b < unat v then ''!oob@'' else ''!trunc@'') @ at)))))"

definition replay_field ::
  "parser \<Rightarrow> env \<Rightarrow> bool \<Rightarrow> string \<Rightarrow> parsed_header option \<Rightarrow> field \<Rightarrow> path_walk \<Rightarrow> path_stop + path_walk"
where
  "replay_field p env roob inst parsed f rp =
     (case Option.bind parsed (\<lambda>h. find (\<lambda>g. pf_name g = field_name f) (ph_fields h)) of
        Some pf \<Rightarrow> Inr (rp\<lparr>rp_cursor := pf_bit_offset pf + pf_bit_len pf\<rparr>)
      | None \<Rightarrow> and_then (missing_mark p env roob inst f) (\<lambda>x. ends_with x rp))"

primrec replay_fields ::
  "parser \<Rightarrow> env \<Rightarrow> bool \<Rightarrow> string \<Rightarrow> parsed_header option \<Rightarrow> field list \<Rightarrow> path_walk \<Rightarrow> path_stop + path_walk"
where
  "replay_fields p env roob inst parsed [] rp = Inr rp"
| "replay_fields p env roob inst parsed (f # fs) rp =
     and_then (replay_field p env roob inst parsed f rp) (replay_fields p env roob inst parsed fs)"

definition next_header :: "parsed_header list \<Rightarrow> parsed_header option" where
  "next_header hs = (case hs of [] \<Rightarrow> None | h # _ \<Rightarrow> Some h)"

definition replay_extract :: "parser \<Rightarrow> env \<Rightarrow> bool \<Rightarrow> extract_op \<Rightarrow> path_walk \<Rightarrow> path_stop + path_walk" where
  "replay_extract p env roob ex rp =
     (case header_type_map p (ex_header_type ex) of
        None \<Rightarrow> Inl (PathFails (UnknownPathHeader (ex_header_type ex)))
      | Some ht \<Rightarrow>
          and_then
            (replay_fields p env roob (instance_of ex) (next_header (rp_headers rp)) (ht_fields ht)
              (rp\<lparr>rp_headers := tl (rp_headers rp)\<rparr>))
            (\<lambda>rp'. Inr (if ex_lookahead ex then rp'\<lparr>rp_cursor := rp_cursor rp\<rparr> else rp')))"

primrec replay_extracts :: "parser \<Rightarrow> env \<Rightarrow> bool \<Rightarrow> extract_op list \<Rightarrow> path_walk \<Rightarrow> path_stop + path_walk" where
  "replay_extracts p env roob [] rp = Inr rp"
| "replay_extracts p env roob (ex # exs) rp =
     and_then (replay_extract p env roob ex rp) (replay_extracts p env roob exs)"

fun decimal :: "nat \<Rightarrow> string" where
  "decimal n = (if n < 10 then [char_of (48 + n)] else decimal (n div 10) @ [char_of (48 + n mod 10)])"

definition replay_op :: "parser \<Rightarrow> env \<Rightarrow> string \<Rightarrow> nat \<Rightarrow> region_op \<Rightarrow> path_walk \<Rightarrow> path_stop + path_walk" where
  "replay_op p env st i op rp =
     (case op of
        Push e \<Rightarrow>
          and_then (or_fail PathLength (eval_expr_pub e env)) (\<lambda>v.
          and_then (or_fail PathBound (bound_bits p e)) (\<lambda>b.
            let region_end = rp_cursor rp + unat v in
            if b < unat v \<or> (case rp_regions rp of [] \<Rightarrow> False | r # _ \<Rightarrow> r < region_end)
            then ends_with (''!rpush@'' @ st @ ''#'' @ decimal i) rp
            else Inr (rp\<lparr>rp_regions := region_end # rp_regions rp\<rparr>)))
      | Pop \<Rightarrow>
          (case rp_regions rp of
             [] \<Rightarrow> Inl (PathFails PopNoRegion)
           | r # rs \<Rightarrow>
               if rp_cursor rp < r then ends_with (''!rtrail@'' @ st @ ''#'' @ decimal i) (rp\<lparr>rp_regions := rs\<rparr>)
               else Inr (rp\<lparr>rp_regions := rs\<rparr>)))"

primrec replay_ops :: "parser \<Rightarrow> env \<Rightarrow> string \<Rightarrow> nat \<Rightarrow> region_op list \<Rightarrow> path_walk \<Rightarrow> path_stop + path_walk" where
  "replay_ops p env st i [] rp = Inr rp"
| "replay_ops p env st i (op # ops) rp =
     and_then (replay_op p env st i op rp) (replay_ops p env st (Suc i) ops)"

definition decision_segments :: "decision \<Rightarrow> string list" where
  "decision_segments d =
     (case d of DArm i \<Rightarrow> [''arm'' @ decimal i] | DDefault \<Rightarrow> [''default''] | DDirect \<Rightarrow> [] | DNone \<Rightarrow> [])"

definition replay_step ::
  "parser \<Rightarrow> env \<Rightarrow> outcome \<Rightarrow> bool \<Rightarrow> string \<times> decision \<Rightarrow> path_walk \<Rightarrow> path_stop + path_walk"
where
  "replay_step p env oc last_step step rp =
     (case step of (st, d) \<Rightarrow>
       (let rp = push_segment st rp in
        if last_step \<and> d = DNone \<and> oc = Rejected ''max depth exceeded'' then Inl (PathEnds (rp_segments rp))
        else
          (case state_map p st of
             None \<Rightarrow> Inl (PathFails (UnknownPathState st))
           | Some s \<Rightarrow>
               and_then (replay_extracts p env (oc = Rejected ''out of region bounds'') (st_extracts s) rp) (\<lambda>rp.
               and_then (replay_ops p env st 0 (st_region_ops s) rp) (\<lambda>rp.
                 Inr (rp\<lparr>rp_segments := rp_segments rp @ decision_segments d\<rparr>))))))"

primrec replay_trace ::
  "parser \<Rightarrow> env \<Rightarrow> outcome \<Rightarrow> (string \<times> decision) list \<Rightarrow> path_walk \<Rightarrow> path_stop + path_walk"
where
  "replay_trace p env oc [] rp = Inr rp"
| "replay_trace p env oc (x # xs) rp =
     and_then (replay_step p env oc (xs = []) x rp) (replay_trace p env oc xs)"

fun join_path :: "string list \<Rightarrow> string" where
  "join_path [] = []"
| "join_path [x] = x"
| "join_path (x # xs) = x @ ''/'' @ join_path xs"

definition path_id :: "parser \<Rightarrow> parse_result \<Rightarrow> path_error + string" where
  "path_id p res =
     (case replay_trace p (env_of (pr_headers res)) (pr_outcome res) (pr_trace res)
         \<lparr>rp_segments = [], rp_headers = pr_headers res, rp_cursor = 0, rp_regions = []\<rparr> of
        Inl (PathFails e) \<Rightarrow> Inl e
      | Inl (PathEnds segs) \<Rightarrow> Inr (join_path segs)
      | Inr rp \<Rightarrow> Inr (join_path (rp_segments rp)))"

end
