(* ===== verification/Path_Trace.thy ===== *)
theory Path_Trace
  imports Path_Id
begin

text \<open>
  The path identifier of a run of the interpreter, for descriptions without regions. Going through the
  phases of a state, the lemmas follow at once the headers the interpreter reports, the values the
  replay collects from them and what the replay does with them; together they give the identifier of
  every run. The claims are at the end, with a description whose bound is wrong and one, with regions,
  whose accepted run gets the identifier of a rejected path.
\<close>

section \<open>The values the replay collects\<close>

lemma env_of_Nil [simp]: "env_of [] = Map.empty"
  by (simp add: env_of_def)

lemma env_of_snoc: "env_of (hs @ [h]) = env_of hs ++ map_of (rev (uint_values (ph_instance h) (ph_fields h)))"
  by (simp add: env_of_def)

lemma uint_values_snoc [simp]:
  "uint_values i [] = []"
  "uint_values i (fs @ [\<lparr>pf_name = n, pf_bit_offset = a, pf_bit_len = b, pf_value = Uint v\<rparr>]) =
     uint_values i fs @ [((i, n), v)]"
  "uint_values i (fs @ [\<lparr>pf_name = n, pf_bit_offset = a, pf_bit_len = b, pf_value = BitRun r\<rparr>]) =
     uint_values i fs"
  by (simp_all add: uint_values_def)

lemma read_bits_loop_value: "read_bits_loop packet pos n = Inr v \<Longrightarrow> v = bits_at packet pos n"
proof (induction n arbitrary: v)
  case (Suc n)
  then show ?case
    by (auto simp: and_then_Inr byte_index_def bit_at_def drop_bit_and_1 split: if_splits)
qed simp

lemma read_bits_width:
  assumes "read_bits packet avail pos n = Inr (Some v)"
  shows "unat v < 2 ^ n"
proof -
  have "read_bits_loop packet pos n = Inr v"
    using assms by (auto simp: read_bits_def and_then_Inr split: option.splits if_splits)
  then have v: "v = bits_at packet pos n" by (rule read_bits_loop_value)
  show ?thesis
  proof (cases "n < 64")
    case True
    then show ?thesis using v bits_at_less by simp
  next
    case False
    then have "(2 :: nat) ^ 64 \<le> 2 ^ n" by (intro power_increasing) auto
    then show ?thesis by (intro less_le_trans [OF unsigned_less]) simp
  qed
qed

definition within :: "parser \<Rightarrow> env \<Rightarrow> bool" where
  "within p env \<longleftrightarrow> within_widths p env Map.empty"

lemma within_upd:
  "within p env \<Longrightarrow> fixed_width p i f = Inr n \<Longrightarrow> unat v < 2 ^ n \<Longrightarrow> within p (env((i, f) \<mapsto> v))"
  by (auto simp: within_def within_widths_def)

lemma eval_no_metadata:
  "meta_refs e = [] \<Longrightarrow> eval_expr e env meta rem = eval_expr e env Map.empty rem"
  by (induction e) (simp_all)

section \<open>Where a run stops in a field\<close>

definition failing :: "parse_result \<Rightarrow> (string \<times> string) option" where
  "failing res =
     Option.bind (pr_error res) (\<lambda>e.
     Option.bind (pe_instance e) (\<lambda>i. map_option (Pair i) (pe_field e)))"

lemma failing_reject [simp]: "failing (mk_reject p why here sev ctx consumed hs m) = ctx"
  by (cases ctx) (auto simp: failing_def mk_reject_def)

text \<open>A field of an extract, with what \<open>accepted\<close> says of it.\<close>

definition field_known :: "parser \<Rightarrow> string \<Rightarrow> field \<Rightarrow> bool" where
  "field_known p i f \<longleftrightarrow>
     (case field_width f of
        Bits n \<Rightarrow> fixed_width p i (field_name f) = Inr n
      | BitLen e \<Rightarrow> meta_refs e = [] \<and> (\<exists>ht\<in>set (p_header_types p). f \<in> set (ht_fields ht)))"

definition stops_at :: "parser \<Rightarrow> parse_result \<Rightarrow> string \<Rightarrow> field \<Rightarrow> bool" where
  "stops_at p res i f \<longleftrightarrow>
     failing res = Some (i, field_name f) \<and> pr_outcome res = Rejected ''out of bounds'' \<and> field_known p i f \<and>
     within p (env_of (pr_headers res)) \<and>
     (\<forall>e. field_width f = BitLen e \<longrightarrow> (\<exists>v. eval_expr_pub e (env_of (pr_headers res)) = Inr v))"

text \<open>The machine before or between the extracts of a state: no region, the values collected so far.\<close>

definition calm :: "parser \<Rightarrow> machine \<Rightarrow> bool" where
  "calm p m \<longleftrightarrow> m_regions m = [] \<and> m_env m = env_of (m_headers m) \<and> within p (m_env m)"

definition reading :: "parser \<Rightarrow> extract_op \<Rightarrow> machine \<times> parsed_header \<Rightarrow> bool" where
  "reading p ex mp \<longleftrightarrow>
     (case mp of (m, parsed) \<Rightarrow>
       m_regions m = [] \<and> ph_instance parsed = instance_of ex \<and>
       m_env m = env_of (m_headers m @ [parsed]) \<and> within p (m_env m))"

text \<open>What reading the fields \<open>fs\<close> of a header leads to.\<close>

definition fields_read ::
  "parser \<Rightarrow> extract_op \<Rightarrow> field list \<Rightarrow> machine \<times> parsed_header \<Rightarrow> (machine \<times> parsed_header) run \<Rightarrow> bool"
where
  "fields_read p ex fs mp r =
     (case r of
        Go mp' \<Rightarrow>
          reading p ex mp' \<and> m_headers (fst mp') = m_headers (fst mp) \<and> m_trace (fst mp') = m_trace (fst mp) \<and>
          map pf_name (ph_fields (snd mp')) = map pf_name (ph_fields (snd mp)) @ map field_name fs
      | Stop res \<Rightarrow>
          (\<exists>gs f hs parsed'. fs = gs @ f # hs \<and> stops_at p res (instance_of ex) f \<and>
             pr_headers res = m_headers (fst mp) @ [parsed'] \<and> pr_trace res = m_trace (fst mp) \<and>
             map pf_name (ph_fields parsed') = map pf_name (ph_fields (snd mp)) @ map field_name gs))"

lemma fail_stops:
  assumes "reading p ex (m, parsed)" and "field_known p (instance_of ex) f"
    and "\<And>e. field_width f = BitLen e \<Longrightarrow> \<exists>v. eval_expr e (m_env m) (m_meta m) None = Inr v"
  shows "fields_read p ex (f # fs) (m, parsed) (Stop (extract_fail p here ex entry f end_bits parsed m))"
proof -
  let ?res = "extract_fail p here ex entry f end_bits parsed m"
  have env: "env_of (pr_headers ?res) = m_env m"
    using assms(1) by (simp add: reading_def extract_fail_def mk_reject_def)
  have "eval_expr_pub e (m_env m) = eval_expr e (m_env m) (m_meta m) None" if "field_width f = BitLen e" for e
    using assms(2) that eval_no_metadata [of e "m_env m" "m_meta m" None] by (simp add: field_known_def eval_expr_pub_def)
  then have "stops_at p ?res (instance_of ex) f"
    unfolding stops_at_def env using assms
    by (auto simp: reading_def extract_fail_def oob_reason_def failing_def mk_reject_def)
  then show ?thesis
    unfolding fields_read_def run.case
    by (intro exI [of _ "[]"] exI [of _ f] exI [of _ fs] exI [of _ parsed]) (simp add: extract_fail_def mk_reject_def)
qed

lemma extract_field_reads:
  assumes "reading p ex mp" and "field_known p (instance_of ex) f"
    and "extract_field p packet avail here ex entry f mp = Inr r"
  shows "fields_read p ex [f] mp r"
proof -
  obtain m parsed where mp: "mp = (m, parsed)" by (cases mp)
  show ?thesis
  proof (cases "field_width f")
    case (Bits n)
    then obtain rd where rd: "read_bits packet (read_bound avail m) (m_cursor m) n = Inr rd"
      using assms(3) by (auto simp: extract_field_def mp and_then_Inr)
    show ?thesis
    proof (cases rd)
      case None
      then show ?thesis
        using assms(3) rd Bits fail_stops [OF assms(1) [unfolded mp] assms(2), of "[]"]
        by (auto simp: extract_field_def mp)
    next
      case (Some v)
      have "within p ((m_env m)((instance_of ex, field_name f) \<mapsto> v))"
        using assms(1,2) Bits rd Some
        by (intro within_upd read_bits_width) (auto simp: reading_def mp field_known_def)
      then show ?thesis
        using assms(1,3) rd Bits Some
        by (auto simp: extract_field_def mp fields_read_def reading_def env_of_snoc)
    qed
  next
    case (BitLen e)
    then obtain v where v: "eval_expr e (m_env m) (m_meta m) None = Inr v"
      using assms(3) by (auto simp: extract_field_def mp and_then_Inr)
    note stops = fail_stops [OF assms(1) [unfolded mp] assms(2), of "[]"]
    show ?thesis
      using assms(1,3) v BitLen stops
      by (auto simp: extract_field_def mp fields_read_def [of _ _ _ _ "Go _"] reading_def env_of_snoc Let_def
          and_then_Inr split: if_splits)
  qed
qed

lemma extract_fields_read:
  "reading p ex mp \<Longrightarrow> \<forall>f\<in>set fs. field_known p (instance_of ex) f \<Longrightarrow>
   extract_fields p packet avail here ex entry fs mp = Inr r \<Longrightarrow> fields_read p ex fs mp r"
proof (induction fs arbitrary: mp)
  case Nil
  then show ?case by (auto simp: fields_read_def)
next
  case (Cons f fs)
  show ?case
  proof (cases "extract_field p packet avail here ex entry f mp")
    case (Inl e)
    then show ?thesis using Cons.prems(3) by simp
  next
    case (Inr one)
    then have first: "fields_read p ex [f] mp one"
      using Cons.prems extract_field_reads by (metis list.set_intros(1))
    show ?thesis
    proof (cases one)
      case (Stop res)
      then have "r = Stop res" using Inr Cons.prems(3) by simp
      moreover obtain gs g hs h where "[f] = gs @ g # hs" "stops_at p res (instance_of ex) g"
        "pr_headers res = m_headers (fst mp) @ [h]" "pr_trace res = m_trace (fst mp)"
        "map pf_name (ph_fields h) = map pf_name (ph_fields (snd mp)) @ map field_name gs"
        using first by (auto simp: fields_read_def Stop)
      ultimately show ?thesis
        unfolding fields_read_def
        by (simp, intro exI [of _ "[]"] exI [of _ f] exI [of _ fs] exI [of _ h]) (auto simp: Cons_eq_append_conv)
    next
      case (Go mp')
      have step: "reading p ex mp'" "m_headers (fst mp') = m_headers (fst mp)" "m_trace (fst mp') = m_trace (fst mp)"
        "map pf_name (ph_fields (snd mp')) = map pf_name (ph_fields (snd mp)) @ [field_name f]"
        using first by (simp_all add: fields_read_def Go)
      have rest: "fields_read p ex fs mp' r"
        using Cons.prems Inr Go step(1) by (intro Cons.IH) auto
      show ?thesis
      proof (cases r)
        case (Go mp'')
        then show ?thesis using rest step by (simp add: fields_read_def)
      next
        case (Stop res)
        then obtain gs g hs h where "fs = gs @ g # hs" "stops_at p res (instance_of ex) g"
          "pr_headers res = m_headers (fst mp) @ [h]" "pr_trace res = m_trace (fst mp)"
          "map pf_name (ph_fields h) = map pf_name (ph_fields (snd mp)) @ field_name f # map field_name gs"
          using rest step by (auto simp: fields_read_def)
        then show ?thesis
          unfolding Stop fields_read_def run.case
          by (intro exI [of _ "f # gs"] exI [of _ g] exI [of _ hs] exI [of _ h]) simp
      qed
    qed
  qed
qed

section \<open>The replay of a header\<close>

abbreviation at_segments :: "string list \<Rightarrow> parsed_header list \<Rightarrow> nat \<Rightarrow> path_walk" where
  "at_segments segs hs c \<equiv> \<lparr>rp_segments = segs, rp_headers = hs, rp_cursor = c, rp_regions = []\<rparr>"

text \<open>The replay goes on past what was read, and stops at the field where the run stopped.\<close>

definition goes_on :: "string list \<Rightarrow> parsed_header list \<Rightarrow> path_stop + path_walk \<Rightarrow> bool" where
  "goes_on segs hs r \<longleftrightarrow> (\<exists>c. r = Inr (at_segments segs hs c))"

definition marks :: "parser \<Rightarrow> env \<Rightarrow> string \<Rightarrow> field \<Rightarrow> string list \<Rightarrow> path_stop + path_walk \<Rightarrow> bool" where
  "marks p env i f segs r \<longleftrightarrow> r = and_then (missing_mark p env False i f) (\<lambda>x. Inl (PathEnds (segs @ [x])))"

lemma goes_on_then: "goes_on segs hs r \<Longrightarrow> (\<And>c. P (g (at_segments segs hs c))) \<Longrightarrow> P (and_then r g)"
  by (auto simp: goes_on_def)

lemma marks_then [simp]: "marks p env i f segs r \<Longrightarrow> marks p env i f segs (and_then r g)"
  unfolding marks_def by (cases "missing_mark p env False i f") auto

lemma find_name: "find (\<lambda>g. pf_name g = n) fs = None \<longleftrightarrow> n \<notin> pf_name ` set fs"
  by (auto simp: find_None_iff)

lemma replay_fields_found:
  "\<forall>f\<in>set fs. field_name f \<in> pf_name ` set (ph_fields h) \<Longrightarrow>
   goes_on segs hs (replay_fields p env roob i (Some h) fs (at_segments segs hs c))"
proof (induction fs arbitrary: c)
  case Nil
  then show ?case by (simp add: goes_on_def)
next
  case (Cons f fs)
  then obtain g where "find (\<lambda>g. pf_name g = field_name f) (ph_fields h) = Some g"
    using find_name [of "field_name f" "ph_fields h"] by auto
  then show ?case using Cons by (simp add: replay_field_def)
qed

lemma replay_fields_missing:
  assumes "\<forall>f\<in>set gs. field_name f \<in> pf_name ` set (ph_fields h)"
    and "field_name f \<notin> pf_name ` set (ph_fields h)"
  shows "marks p env i f segs (replay_fields p env False i (Some h) (gs @ f # fs) (at_segments segs hs c))"
  using assms
proof (induction gs arbitrary: c)
  case Nil
  then have "find (\<lambda>g. pf_name g = field_name f) (ph_fields h) = None" by (simp add: find_name)
  then have "marks p env i f segs (replay_field p env False i (Some h) f (at_segments segs hs c))"
    by (simp add: marks_def replay_field_def ends_with_def)
  then show ?case by simp
next
  case (Cons g gs)
  then obtain pf where "find (\<lambda>x. pf_name x = field_name g) (ph_fields h) = Some pf"
    using find_name [of "field_name g" "ph_fields h"] by auto
  then show ?case using Cons by (simp add: replay_field_def)
qed

section \<open>The extracts of a state\<close>

definition extract_known :: "parser \<Rightarrow> extract_op \<Rightarrow> bool" where
  "extract_known p ex \<longleftrightarrow>
     (\<exists>ht. find_header_type p (ex_header_type ex) = Some ht \<and> header_type_map p (ex_header_type ex) = Some ht \<and>
        distinct (map field_name (ht_fields ht)) \<and> (\<forall>f\<in>set (ht_fields ht). field_known p (instance_of ex) f))"

definition extracted :: "parser \<Rightarrow> extract_op list \<Rightarrow> machine \<Rightarrow> machine run \<Rightarrow> bool" where
  "extracted p exs m r =
     (case r of
        Go m' \<Rightarrow>
          calm p m' \<and> m_trace m' = m_trace m \<and>
          (\<exists>new. m_headers m' = m_headers m @ new \<and>
             (\<forall>env roob segs hs c. goes_on segs hs (replay_extracts p env roob exs (at_segments segs (new @ hs) c))))
      | Stop res \<Rightarrow>
          pr_trace res = m_trace m \<and>
          (\<exists>new i f. pr_headers res = m_headers m @ new \<and> stops_at p res i f \<and>
             (\<forall>env segs c. marks p env i f segs (replay_extracts p env False exs (at_segments segs new c)))))"

lemma replay_nothing: "and_then r (replay_extracts p env roob []) = r"
  by (cases r) simp_all

lemma extract_header_extracted:
  assumes "calm p m" and "extract_known p ex" and "extract_header p packet avail here ex m = Inr r"
  shows "extracted p [ex] m r"
proof -
  obtain ht where ht: "find_header_type p (ex_header_type ex) = Some ht"
    "header_type_map p (ex_header_type ex) = Some ht" "distinct (map field_name (ht_fields ht))"
    "\<forall>f\<in>set (ht_fields ht). field_known p (instance_of ex) f"
    using assms(2) by (auto simp: extract_known_def)
  let ?h = "\<lparr>ph_instance = instance_of ex, ph_header_type = ht_name ht, ph_start_bit = m_cursor m, ph_fields = []\<rparr>"
  let ?fs = "extract_fields p packet avail here ex (m_cursor m) (ht_fields ht) (m, ?h)"
  have start: "reading p ex (m, ?h)" using assms(1) by (auto simp: calm_def reading_def env_of_snoc)
  obtain fr where fr: "?fs = Inr fr" using assms(3) ht(1) by (cases ?fs) (auto simp: extract_header_def)
  have read: "fields_read p ex (ht_fields ht) (m, ?h) fr"
    by (rule extract_fields_read [OF start ht(4) fr])
  show ?thesis
  proof (cases fr)
    case (Go mp)
    obtain m' h where mp: "mp = (m', h)" by (cases mp)
    have h: "m_headers m' = m_headers m" "m_trace m' = m_trace m" "reading p ex (m', h)"
      "map pf_name (ph_fields h) = map field_name (ht_fields ht)"
      using read by (simp_all add: fields_read_def Go mp)
    have "r = Go (m'\<lparr>m_headers := m_headers m' @ [h],
        m_cursor := (if ex_lookahead ex then m_cursor m else m_cursor m')\<rparr>)"
      using assms(3) ht(1) fr by (simp add: extract_header_def Go mp)
    moreover have "\<forall>f\<in>set (ht_fields ht). field_name f \<in> pf_name ` set (ph_fields h)"
      using h(4) by (metis image_eqI set_map)
    then have "goes_on segs hs (replay_extracts p env roob [ex] (at_segments segs (h # hs) c))" for env roob segs hs c
      using replay_fields_found [of "ht_fields ht" h segs hs p env roob "instance_of ex" c]
      by (auto simp: replay_extract_def ht(2) next_header_def goes_on_def)
    ultimately show ?thesis
      using h unfolding extracted_def by (auto simp: calm_def reading_def intro!: exI [of _ "[h]"])
  next
    case (Stop res)
    have r: "r = Stop res" using assms(3) ht(1) fr by (simp add: extract_header_def Stop)
    obtain gs f hs h where f: "ht_fields ht = gs @ f # hs" "stops_at p res (instance_of ex) f"
      "pr_headers res = m_headers m @ [h]" "pr_trace res = m_trace m"
      "map pf_name (ph_fields h) = map field_name gs"
      using read by (auto simp: fields_read_def Stop)
    have names: "pf_name ` set (ph_fields h) = field_name ` set gs" using f(5) by (metis set_map)
    have "marks p env (instance_of ex) f segs (replay_extracts p env False [ex] (at_segments segs [h] c))" for env segs c
      using replay_fields_missing [of gs h f p env "instance_of ex" segs hs "[]" c] ht(3) f(1) names
      by (simp add: replay_extract_def ht(2) next_header_def)
    then show ?thesis using f unfolding r extracted_def by auto
  qed
qed

lemma extract_headers_extracted:
  "calm p m \<Longrightarrow> \<forall>ex\<in>set exs. extract_known p ex \<Longrightarrow>
   extract_headers p packet avail here exs m = Inr r \<Longrightarrow> extracted p exs m r"
proof (induction exs arbitrary: m)
  case Nil
  then show ?case by (auto simp: extracted_def goes_on_def)
next
  case (Cons ex exs)
  obtain one where one: "extract_header p packet avail here ex m = Inr one"
    using Cons.prems(3) by (cases "extract_header p packet avail here ex m") auto
  have first: "extracted p [ex] m one"
    using Cons.prems(1,2) one by (intro extract_header_extracted) auto
  show ?case
  proof (cases one)
    case (Stop res)
    then have "r = Stop res" using one Cons.prems(3) by simp
    moreover obtain new i f where "pr_headers res = m_headers m @ new" "stops_at p res i f" "pr_trace res = m_trace m"
      "\<And>env segs c. marks p env i f segs (replay_extract p env False ex (at_segments segs new c))"
      using first by (auto simp: extracted_def Stop replay_nothing)
    ultimately show ?thesis
      by (auto simp: extracted_def intro!: exI [of _ new] exI [of _ i] exI [of _ f])
  next
    case (Go m')
    obtain new where new: "m_headers m' = m_headers m @ new" "calm p m'" "m_trace m' = m_trace m"
      "\<And>env roob segs hs c. goes_on segs hs (replay_extract p env roob ex (at_segments segs (new @ hs) c))"
      using first by (auto simp: extracted_def Go replay_nothing)
    have rest: "extracted p exs m' r" using Cons.prems one Go new(2) by (intro Cons.IH) auto
    show ?thesis
    proof (cases r)
      case (Go m'')
      then obtain rest_hs where "m_headers m'' = m_headers m' @ rest_hs" "calm p m''" "m_trace m'' = m_trace m'"
        "\<And>env roob segs hs c. goes_on segs hs (replay_extracts p env roob exs (at_segments segs (rest_hs @ hs) c))"
        using rest by (auto simp: extracted_def)
      moreover from this(4)
      have "goes_on segs hs (replay_extracts p env roob (ex # exs) (at_segments segs ((new @ rest_hs) @ hs) c))" for env roob segs hs c
        using goes_on_then [OF new(4) [of segs "rest_hs @ hs" env roob c], of "goes_on segs hs"] by simp
      ultimately show ?thesis using new(1,3) unfolding Go extracted_def run.case by (metis append.assoc)
    next
      case (Stop res)
      then obtain rest_hs i f where "pr_headers res = m_headers m' @ rest_hs" "stops_at p res i f" "pr_trace res = m_trace m'"
        "\<And>env segs c. marks p env i f segs (replay_extracts p env False exs (at_segments segs rest_hs c))"
        using rest by (auto simp: extracted_def)
      moreover from this(4)
      have "marks p env i f segs (replay_extracts p env False (ex # exs) (at_segments segs (new @ rest_hs) c))" for env segs c
        using goes_on_then [OF new(4) [of segs rest_hs env False c], of "marks p env i f segs"] by simp
      ultimately show ?thesis using new(1,3) unfolding Stop extracted_def run.case by (metis append.assoc)
    qed
  qed
qed

section \<open>A state and the loop\<close>

definition spelled :: "(string \<times> decision) list \<Rightarrow> string list" where
  "spelled tr = concat (map (\<lambda>(st, d). st # decision_segments d) tr)"

lemma spelled_simps [simp]:
  "spelled [] = []" "spelled ((st, d) # tr) = (st # decision_segments d) @ spelled tr"
  by (simp_all add: spelled_def)

lemma run_assigns_calm:
  assumes "run_assigns p as m = Inr r" and "calm p m"
  shows "\<exists>m'. r = Go m' \<and> calm p m' \<and> m_headers m' = m_headers m \<and> m_trace m' = m_trace m"
  using assms
proof (induction as arbitrary: m)
  case (Cons a as)
  obtain m1 where m1: "run_assign p a m = Inr (Go m1)" "calm p m1" "m_headers m1 = m_headers m" "m_trace m1 = m_trace m"
    using Cons.prems
    by (auto simp: then_run_def and_then_Inr run_assign_def calm_def split: option.splits run.splits)
  then show ?case using Cons.prems(1) Cons.IH [of m1] by auto
qed auto

text \<open>The replay of the last step of a run: it goes through, or it marks the field where the run stopped.\<close>

definition step_ends :: "parser \<Rightarrow> parse_result \<Rightarrow> string \<times> decision \<Rightarrow> parsed_header list \<Rightarrow> bool" where
  "step_ends p res x new \<longleftrightarrow>
     failing res = None \<and>
       (\<forall>env l segs c.
          goes_on (segs @ spelled [x]) [] (replay_step p env (pr_outcome res) l x (at_segments segs new c))) \<or>
     (\<exists>i f. stops_at p res i f \<and>
       (\<forall>env l segs c.
          marks p env i f (segs @ spelled [x]) (replay_step p env (pr_outcome res) l x (at_segments segs new c))))"

text \<open>
  A state of a description without regions: \<open>here\<close> is its trace entry, whose decision is set on the way
  out. The result, or the machine, and the replay of the step.
\<close>

definition state_run :: "parser \<Rightarrow> state \<Rightarrow> (string \<times> decision) list \<Rightarrow> machine \<Rightarrow> (machine \<times> string) run \<Rightarrow> bool" where
  "state_run p s tr m r =
     (case r of
        Go (m', n) \<Rightarrow>
          (\<exists>d new. calm p m' \<and> m_trace m' = tr @ [(st_name s, d)] \<and> m_headers m' = m_headers m @ new \<and> d \<noteq> DNone \<and>
             (\<forall>env oc l segs hs c.
                goes_on (segs @ spelled [(st_name s, d)]) hs
                  (replay_step p env oc l (st_name s, d) (at_segments segs (new @ hs) c))))
      | Stop res \<Rightarrow>
          (\<exists>d new. pr_trace res = tr @ [(st_name s, d)] \<and> pr_headers res = m_headers m @ new \<and>
             step_ends p res (st_name s, d) new))"

lemma replay_step_on:
  assumes "state_map p (st_name s) = Some s" and "st_region_ops s = []" and "d \<noteq> DNone"
    and "\<And>env roob segs hs c. goes_on segs hs (replay_extracts p env roob (st_extracts s) (at_segments segs (new @ hs) c))"
  shows "goes_on (segs @ spelled [(st_name s, d)]) hs
    (replay_step p env oc l (st_name s, d) (at_segments segs (new @ hs) c))"
  using assms(1-3) assms(4) [of "segs @ [st_name s]" hs env "oc = Rejected ''out of region bounds''" c]
  by (auto simp: replay_step_def Let_def goes_on_def)

lemma replay_step_marks:
  assumes "state_map p (st_name s) = Some s" and "stops_at p res i f"
    and "\<And>env segs c. marks p env i f segs (replay_extracts p env False (st_extracts s) (at_segments segs new c))"
  shows "marks p env i f (segs @ spelled [(st_name s, DNone)])
    (replay_step p env (pr_outcome res) l (st_name s, DNone) (at_segments segs new c))"
  using assms(1,2) assms(3) [of env "segs @ [st_name s]" c]
  by (auto simp: replay_step_def Let_def stops_at_def decision_segments_def)

lemma set_decision_snoc: "m_trace m = tr @ [(st, x)] \<Longrightarrow> m_trace (set_decision d m) = tr @ [(st, d)]"
  by (simp add: set_decision_def)

lemma calm_set_decision: "calm p (set_decision d m) = calm p m" "m_headers (set_decision d m) = m_headers m"
  by (simp_all add: calm_def set_decision_def)

lemma choose_target_decides:
  "choose_target p here tr m = Inr c \<Longrightarrow>
   \<exists>d. d \<noteq> DNone \<and> ((\<exists>t. c = Go (set_decision d m, t)) \<or>
     c = Stop (plain_reject p ''no matching select arm'' here SevError (set_decision d m)))"
  by (cases tr) (auto simp: choose_target_def and_then_Inr split: option.splits)

lemma run_state_replays:
  assumes "calm p m" and "m_trace m = tr @ [(st_name s, DNone)]" and "\<forall>ex\<in>set (st_extracts s). extract_known p ex"
    and "st_region_ops s = []" and "state_map p (st_name s) = Some s" and "run_state p packet avail s m = Inr r"
  shows "state_run p s tr m r"
proof -
  obtain er where er: "extract_headers p packet avail (st_name s) (st_extracts s) m = Inr er"
    using assms(6) by (cases "extract_headers p packet avail (st_name s) (st_extracts s) m") (auto simp: run_state_def)
  have ext: "extracted p (st_extracts s) m er" by (rule extract_headers_extracted [OF assms(1,3) er])
  show ?thesis
  proof (cases er)
    case (Stop res)
    then have r: "r = Stop res" using assms(6) er by (simp add: run_state_def)
    obtain new i f where "pr_headers res = m_headers m @ new" "stops_at p res i f" "pr_trace res = m_trace m"
      "\<And>env segs c. marks p env i f segs (replay_extracts p env False (st_extracts s) (at_segments segs new c))"
      using ext by (auto simp: extracted_def Stop)
    then show ?thesis
      unfolding r state_run_def step_ends_def using replay_step_marks [OF assms(5)] assms(2) by fastforce
  next
    case (Go m1)
    obtain new where m1: "calm p m1" "m_trace m1 = m_trace m" "m_headers m1 = m_headers m @ new"
      and on: "\<And>env roob segs hs c. goes_on segs hs (replay_extracts p env roob (st_extracts s) (at_segments segs (new @ hs) c))"
      using ext by (auto simp: extracted_def Go)
    obtain ar where ar: "run_assigns p (st_assigns s) m1 = Inr ar"
      using assms(6) er Go by (cases "run_assigns p (st_assigns s) m1") (auto simp: run_state_def)
    then obtain m2 where m2: "ar = Go m2" "calm p m2" "m_headers m2 = m_headers m1" "m_trace m2 = m_trace m1"
      using run_assigns_calm m1(1) by blast
    have rest: "then_run (choose_target p (st_name s) (st_transition s) m2) (run_target p (st_name s)) = Inr r"
      using assms(6) er Go ar m2(1) assms(4) by (simp add: run_state_def)
    have stop: "state_run p s tr m (Stop res)"
      if "pr_trace res = m_trace (set_decision d m2)" "pr_headers res = m_headers m2" "failing res = None" "d \<noteq> DNone"
      for res d
      using that m1 m2 assms(2) set_decision_snoc replay_step_on [OF assms(5,4) that(4) on, where hs = "[]"]
      unfolding state_run_def run.case step_ends_def by (intro exI [of _ d] exI [of _ new]) simp
    obtain c where c: "choose_target p (st_name s) (st_transition s) m2 = Inr c"
      using rest by (cases "choose_target p (st_name s) (st_transition s) m2") auto
    then obtain d where d: "d \<noteq> DNone" and "(\<exists>t. c = Go (set_decision d m2, t)) \<or>
        c = Stop (plain_reject p ''no matching select arm'' (st_name s) SevError (set_decision d m2))"
      using choose_target_decides by blast
    then show ?thesis
    proof (elim disjE exE)
      assume "c = Stop (plain_reject p ''no matching select arm'' (st_name s) SevError (set_decision d m2))"
      then show ?thesis using rest c stop [OF _ _ _ d] by (auto simp: mk_reject_def failing_def calm_set_decision)
    next
      fix t
      assume t: "c = Go (set_decision d m2, t)"
      show ?thesis
      proof (cases t)
        case (ToState n)
        then have "r = Go (set_decision d m2, n)" using rest c t by (simp add: run_target_def)
        then show ?thesis
          using d m1 m2 assms(2) set_decision_snoc replay_step_on [OF assms(5,4) d on]
          unfolding state_run_def by (auto simp: calm_set_decision intro!: exI [of _ d])
      next
        case Accept
        then show ?thesis using rest c t stop [OF _ _ _ d] by (auto simp: run_target_def failing_def calm_set_decision)
      next
        case (Reject why sev)
        then show ?thesis using rest c t stop [OF _ _ _ d]
          by (auto simp: run_target_def failing_def mk_reject_def calm_set_decision)
      qed
    qed
  qed
qed

text \<open>The replay of what is left of the trace: it ends, or it marks the field where the run stopped.\<close>

definition ended :: "string list \<Rightarrow> path_stop + path_walk \<Rightarrow> bool" where
  "ended segs r \<longleftrightarrow> r = Inl (PathEnds segs) \<or> (\<exists>rp. r = Inr rp \<and> rp_segments rp = segs)"

definition replayed :: "parser \<Rightarrow> parse_result \<Rightarrow> (string \<times> decision) list \<Rightarrow> parsed_header list \<Rightarrow> bool" where
  "replayed p res tr new \<longleftrightarrow>
     failing res = None \<and>
       (\<forall>env segs c. ended (segs @ spelled tr) (replay_trace p env (pr_outcome res) tr (at_segments segs new c))) \<or>
     (\<exists>i f. stops_at p res i f \<and>
       (\<forall>env segs c. marks p env i f (segs @ spelled tr)
          (replay_trace p env (pr_outcome res) tr (at_segments segs new c))))"

lemma replayed_last:
  assumes "step_ends p res x new"
  shows "replayed p res [x] new"
  using assms unfolding step_ends_def
proof (elim disjE conjE exE)
  assume "failing res = None"
    and on: "\<forall>env l segs c. goes_on (segs @ spelled [x]) [] (replay_step p env (pr_outcome res) l x (at_segments segs new c))"
  moreover have "ended (segs @ spelled [x]) (replay_trace p env (pr_outcome res) [x] (at_segments segs new c))" for env segs c
    using on [rule_format, of segs env True c] by (auto simp: ended_def goes_on_def)
  ultimately show ?thesis unfolding replayed_def by blast
next
  fix i f
  assume "stops_at p res i f"
    and on: "\<forall>env l segs c. marks p env i f (segs @ spelled [x]) (replay_step p env (pr_outcome res) l x (at_segments segs new c))"
  moreover have "marks p env i f (segs @ spelled [x]) (replay_trace p env (pr_outcome res) [x] (at_segments segs new c))" for env segs c
    using on [rule_format, of env segs True c] by simp
  ultimately show ?thesis unfolding replayed_def by blast
qed

lemma replayed_Cons:
  assumes "replayed p res tr rest_hs"
    and "\<And>env l segs hs c. goes_on (segs @ spelled [x]) hs (replay_step p env (pr_outcome res) l x (at_segments segs (new @ hs) c))"
  shows "replayed p res (x # tr) (new @ rest_hs)"
proof -
  have "P (replay_trace p env (pr_outcome res) (x # tr) (at_segments segs (new @ rest_hs) c))"
    if "\<And>c. P (replay_trace p env (pr_outcome res) tr (at_segments (segs @ spelled [x]) rest_hs c))" for P env segs c
    using goes_on_then [OF assms(2) [of segs rest_hs env "tr = []" c], of P] that by simp
  moreover have "segs @ spelled (x # tr) = (segs @ spelled [x]) @ spelled tr" for segs by (cases x) simp
  ultimately show ?thesis using assms(1) unfolding replayed_def by metis
qed

lemma run_loop_replayed:
  assumes states: "\<forall>s\<in>set (p_states p). st_region_ops s = [] \<and> (\<forall>ex\<in>set (st_extracts s). extract_known p ex)"
    and names: "distinct (map st_name (p_states p))"
  shows "run_loop p packet avail d n m = Inr res \<Longrightarrow> calm p m \<Longrightarrow>
    \<exists>tr new. pr_trace res = m_trace m @ tr \<and> pr_headers res = m_headers m @ new \<and> replayed p res tr new"
proof (induction "p_max_depth p - d" arbitrary: d n m)
  case 0
  then have res: "res = plain_reject p ''max depth exceeded'' n SevError (enter n m)"
    by (simp add: run_loop.simps [of p packet avail d] Let_def)
  have "replayed p res [(n, DNone)] []"
    by (auto simp: res replayed_def ended_def replay_step_def Let_def decision_segments_def mk_reject_def failing_def)
  then show ?case by (intro exI [of _ "[(n, DNone)]"] exI [of _ "[]"]) (simp add: res mk_reject_def enter_def)
next
  case (Suc j)
  then have lt: "d < p_max_depth p" by simp
  obtain s where s: "find_state p n = Some s"
    using Suc.prems(1) lt by (auto simp: run_loop.simps [of p packet avail d] Let_def split: option.splits)
  then have in_p: "s \<in> set (p_states p)" "st_name s = n" using find_stateD by auto
  obtain r where r: "run_state p packet avail s (enter n m) = Inr r"
    using Suc.prems(1) lt s
    by (cases "run_state p packet avail s (enter n m)") (simp_all add: run_loop.simps [of p packet avail d] Let_def)
  have "calm p (enter n m)" using Suc.prems(2) by (auto simp: calm_def enter_def)
  moreover have "m_trace (enter n m) = m_trace m @ [(st_name s, DNone)]" by (simp add: enter_def in_p(2))
  moreover have "state_map p (st_name s) = Some s" using in_p(1) names by (intro state_map_self)
  ultimately have run: "state_run p s (m_trace m) (enter n m) r"
    using states in_p(1) r by (intro run_state_replays) auto
  show ?case
  proof (cases r)
    case (Stop res')
    then have "res' = res" using r Suc.prems(1) lt s by (simp add: run_loop.simps [of p packet avail d] Let_def)
    then obtain dc new where "pr_trace res = m_trace m @ [(st_name s, dc)]" "pr_headers res = m_headers m @ new"
      "replayed p res [(st_name s, dc)] new"
      using run Stop replayed_last by (auto simp: state_run_def enter_def)
    then show ?thesis by blast
  next
    case (Go mn)
    obtain m' n' where mn: "mn = (m', n')" by (cases mn)
    obtain dc new where step: "calm p m'" "m_trace m' = m_trace m @ [(st_name s, dc)]" "m_headers m' = m_headers m @ new"
      "\<And>env oc l segs hs c. goes_on (segs @ spelled [(st_name s, dc)]) hs
         (replay_step p env oc l (st_name s, dc) (at_segments segs (new @ hs) c))"
      using run unfolding Go mn by (auto simp: state_run_def enter_def)
    have "run_loop p packet avail (Suc d) n' m' = Inr res"
      using r Go mn Suc.prems(1) lt s by (simp add: run_loop.simps [of p packet avail d] Let_def)
    moreover have "j = p_max_depth p - Suc d" using Suc.hyps(2) by simp
    ultimately obtain tr rest_hs where "pr_trace res = m_trace m' @ tr" "pr_headers res = m_headers m' @ rest_hs"
      "replayed p res tr rest_hs"
      using Suc.hyps(1) step(1) by blast
    then show ?thesis
      using step(2,3) replayed_Cons [OF _ step(4)]
      by (intro exI [of _ "(st_name s, dc) # tr"] exI [of _ "new @ rest_hs"]) auto
  qed
qed

section \<open>Validated descriptions\<close>

lemma instances_first:
  assumes "accepted l p" and "s \<in> set (p_states p)" and "e \<in> set (st_extracts s)"
  shows "map_of (instances p) (instance_of e) = Some (ex_header_type e)"
proof -
  let ?P = "\<lambda>x. instance_types p (fst x) = Some (snd x)"
  have types: "\<forall>x\<in>set (instances p). ?P x"
    unfolding instances_def
    using add_instances_ok [of "[]" ?P "concat (map st_extracts (p_states p))"] assms(1)
    by (auto simp: accepted_def)
  have "instance_of e \<in> fst ` set (instances p)" using instances_extract [OF assms] by force
  then obtain t where t: "map_of (instances p) (instance_of e) = Some t"
    by (metis map_of_eq_None_iff not_Some_eq)
  then have "instance_types p (instance_of e) = Some t" using types map_of_SomeD by fastforce
  moreover have "instance_types p (instance_of e) = Some (ex_header_type e)"
    using assms by (auto simp: accepted_def)
  ultimately show ?thesis using t by simp
qed

lemma extract_known_accepted:
  assumes "accepted l p" and "s \<in> set (p_states p)" and "ex \<in> set (st_extracts s)"
  shows "extract_known p ex"
proof -
  have same: "header_type_map p n = find_header_type p n" for n
    using assms(1) by (intro header_type_map_find) (simp add: accepted_def)
  have "extract_declared p ex" using assms by (auto simp: accepted_def)
  then obtain ht where ht: "find_header_type p (ex_header_type ex) = Some ht"
    by (auto simp: extract_declared_def same split: option.splits)
  then have ht_in: "ht \<in> set (p_header_types p)" using find_header_typeD by blast
  then have dist: "distinct (map field_name (ht_fields ht))"
    using assms(1) by (auto simp: accepted_def list_all_iff header_declared_def)
  have type: "header_type_of p (instance_of ex) = Inr ht"
    using instances_first [OF assms] ht by (simp add: header_type_of_def)
  have "field_known p (instance_of ex) f" if f: "f \<in> set (ht_fields ht)" for f
  proof (cases "field_width f")
    case (Bits n)
    obtain g where g: "find (\<lambda>g. field_name g = field_name f) (ht_fields ht) = Some g"
      using f by (cases "find (\<lambda>g. field_name g = field_name f) (ht_fields ht)") (auto simp: find_None_iff)
    then have "g \<in> set (ht_fields ht)" "field_name g = field_name f" by (auto simp: find_Some_iff)
    then have "g = f" using dist f by (simp add: distinct_map inj_on_def)
    then show ?thesis using type g Bits by (simp add: field_known_def fixed_width_def)
  next
    case (BitLen e)
    then show ?thesis using assms(1) ht_in f by (auto simp: field_known_def accepted_def)
  qed
  then show ?thesis using ht dist by (auto simp: extract_known_def same)
qed

section \<open>Claims\<close>

text \<open>
  C22: Soundness of the length bounds. \<open>expr_max\<close> bounds what the interpreter computes: when the values an
  expression reads fit their declared widths and no operation of it leaves the 64 bits (sums, products and
  left shifts stay below 2 ^ 64, differences are not negative, shift amounts are below 64, all judged by the
  intervals themselves), the value is at most the bound.
\<close>

theorem expr_max_sound:
  assumes "within_widths p env meta" and "never_wraps p e"
    and "expr_max e p = Inr b" and "eval_expr e env meta rem = Inr v"
  shows "unat v \<le> b"
proof -
  obtain a where "expr_range p e = Inr (a, b)" using assms(3) by (auto simp: expr_max_def and_then_Inr)
  then have "between (a, b) v" using expr_range_between assms by blast
  then show ?thesis by (simp add: between_def)
qed

definition length_bounded :: "parser \<Rightarrow> expr \<Rightarrow> bool" where
  "length_bounded p e = (never_wraps p e \<and> (case expr_max e p of Inl _ \<Rightarrow> False | Inr b \<Rightarrow> b \<le> sanity_bits))"

definition lengths_bounded :: "parser \<Rightarrow> header_type \<Rightarrow> bool" where
  "lengths_bounded p ht =
     list_all (\<lambda>f. case field_width f of Bits _ \<Rightarrow> True | BitLen e \<Rightarrow> length_bounded p e) (ht_fields ht)"

definition stopped :: "parse_result \<Rightarrow> string list" where
  "stopped res = (case failing res of None \<Rightarrow> [] | Some (i, n) \<Rightarrow> [''!trunc@'' @ i @ ''.'' @ n])"

lemma bounded_mark:
  assumes "stops_at p res i f" and "\<forall>ht\<in>set (p_header_types p). lengths_bounded p ht"
  shows "missing_mark p (env_of (pr_headers res)) False i f = Inr (''!trunc@'' @ i @ ''.'' @ field_name f)"
proof (cases "field_width f")
  case (Bits n)
  then show ?thesis by (simp add: missing_mark_def)
next
  case (BitLen e)
  then obtain v where v: "eval_expr_pub e (env_of (pr_headers res)) = Inr v"
    using assms(1) by (auto simp: stops_at_def)
  obtain ht where "ht \<in> set (p_header_types p)" "f \<in> set (ht_fields ht)"
    using assms(1) BitLen by (auto simp: stops_at_def field_known_def)
  then have "lengths_bounded p ht" and "f \<in> set (ht_fields ht)" using assms(2) by blast+
  then have "length_bounded p e" using BitLen by (force simp: lengths_bounded_def list_all_iff)
  then obtain b where b: "never_wraps p e" "expr_max e p = Inr b" "b \<le> sanity_bits"
    by (cases "expr_max e p") (auto simp: length_bounded_def)
  obtain a where "expr_range p e = Inr (a, b)" using b(2) by (auto simp: expr_max_def and_then_Inr)
  then have "unat v \<le> b"
    using expr_range_between [of p "env_of (pr_headers res)" Map.empty e "(a, b)" None v] b(1) v assms(1)
    by (simp add: between_def stops_at_def within_def eval_expr_pub_def)
  then show ?thesis
    using v b by (simp add: missing_mark_def BitLen or_fail_def bound_bits_def)
qed

text \<open>
  C21: The path identifier of a run is what the run did. For a description the validator accepts, without
  regions, \<open>path_id\<close> of any result of the interpreter succeeds and is the trace spelled out, state by state
  with the arm taken, followed by one mark when the run stopped in a field: that instance and field, as a
  truncation. The widths have to be bounded (no operation wraps, at most the engine's 8 Mibit) only where
  the run stopped in a field.
\<close>

theorem path_spells_run:
  assumes "validate p = Some []" and "list_all (\<lambda>s. st_region_ops s = []) (p_states p)"
    and "run_packet p packet = Inr res"
    and "failing res = None \<or> list_all (lengths_bounded p) (p_header_types p)"
  shows "path_id p res = Inr (join_path (spelled (pr_trace res) @ stopped res))"
proof -
  have acc: "accepted default_limits p" using assms(1) by (auto simp: validate_def elim: validate_accepted)
  then have "\<forall>s\<in>set (p_states p). st_region_ops s = [] \<and> (\<forall>ex\<in>set (st_extracts s). extract_known p ex)"
    "distinct (map st_name (p_states p))"
    using assms(2) extract_known_accepted by (auto simp: list_all_iff accepted_def)
  moreover have "calm p (init_machine p)"
    by (simp add: calm_def init_machine_def within_def within_widths_def)
  ultimately obtain tr new where run: "pr_trace res = tr" "pr_headers res = new" "replayed p res tr new"
    using run_loop_replayed assms(3) by (fastforce simp: run_packet_def run_bits_def init_machine_def)
  let ?r = "replay_trace p (env_of new) (pr_outcome res) tr (at_segments [] new 0)"
  consider (ends) "failing res = None" "ended (spelled tr) ?r"
    | (marks) i f where "stops_at p res i f" "marks p (env_of new) i f (spelled tr) ?r"
    using run(3) unfolding replayed_def by (metis append_Nil)
  then show ?thesis
  proof cases
    case ends
    then show ?thesis by (auto simp: path_id_def run ended_def stopped_def)
  next
    case marks
    then have "failing res = Some (i, field_name f)" by (simp add: stops_at_def)
    moreover from this have "missing_mark p (env_of new) False i f = Inr (''!trunc@'' @ i @ ''.'' @ field_name f)"
      using bounded_mark [OF marks(1)] assms(4) run(2) by (simp add: list_all_iff)
    ultimately show ?thesis using marks(2) by (simp add: path_id_def run stopped_def marks_def)
  qed
qed

definition counted_body :: parser where
  "counted_body =
     gap_parser
       [\<lparr>ht_name = ''h'', ht_fields =
          [gap_byte ''n'', \<lparr>field_name = ''body'', field_width = BitLen (Field ''h'' ''n'')\<rparr>]\<rparr>]
       [\<lparr>st_name = ''s'', st_extracts = [gap_extract ''h''], st_assigns = [], st_region_ops = [],
         st_transition = Direct Accept\<rparr>]"

text \<open>Results as the interpreter builds them, and their evaluation.\<close>

definition byte_field :: "string \<Rightarrow> nat \<Rightarrow> u64 \<Rightarrow> parsed_field" where
  "byte_field n c v = \<lparr>pf_name = n, pf_bit_offset = c, pf_bit_len = 8, pf_value = Uint v\<rparr>"

definition run_field :: "string \<Rightarrow> nat \<Rightarrow> bytes \<Rightarrow> parsed_field" where
  "run_field n c bs = \<lparr>pf_name = n, pf_bit_offset = c, pf_bit_len = 8 * length bs, pf_value = BitRun bs\<rparr>"

definition parsed_as :: "string \<Rightarrow> nat \<Rightarrow> parsed_field list \<Rightarrow> parsed_header" where
  "parsed_as h c fs = \<lparr>ph_instance = h, ph_header_type = h, ph_start_bit = c, ph_fields = fs\<rparr>"

definition short_result :: parse_result where
  "short_result =
     \<lparr>pr_outcome = Rejected ''out of bounds'', pr_headers = [parsed_as ''h'' 0 [byte_field ''n'' 0 8]],
      pr_trace = [(''s'', DNone)],
      pr_error = Some \<lparr>pe_state = ''s'', pe_instance = Some ''h'', pe_field = Some ''body'', pe_bit_offset = 8,
                       pe_reason = ''out of bounds'', pe_severity = SevError\<rparr>,
      pr_consumed_bits = 8, pr_metadata = []\<rparr>"

theorem expr_max_sound_witness:
  "unat (205 :: u64) \<le> 260"
proof (rule expr_max_sound)
  show "within_widths counted_body [(''h'', ''n'') \<mapsto> 200] Map.empty"
    by (auto simp: within_widths_def counted_body_def gap_parser_def gap_byte_def gap_extract_def fixed_width_def
        header_type_of_def instances_def instance_of_def find_header_type_def split: if_splits)
  show "expr_max (Bin OpAdd (Field ''h'' ''n'') (Constant 5)) counted_body = Inr 260"
    "never_wraps counted_body (Bin OpAdd (Field ''h'' ''n'') (Constant 5))"
    by (simp_all add: expr_max_def counted_body_def gap_parser_def gap_byte_def gap_extract_def fixed_width_def
        header_type_of_def instances_def instance_of_def find_header_type_def bits_range_def u128_range_def)
  show "eval_expr (Bin OpAdd (Field ''h'' ''n'') (Constant 5)) [(''h'', ''n'') \<mapsto> 200] Map.empty None = Inr 205"
    by simp
qed

lemma counted_body_runs:
  "validate counted_body = Some []" "run_packet counted_body [8] = Inr short_result"
  by code_simp+

lemma counted_body_bounded: "list_all (lengths_bounded counted_body) (p_header_types counted_body)"
  by (simp add: lengths_bounded_def length_bounded_def counted_body_def gap_parser_def gap_byte_def
      gap_extract_def fixed_width_def header_type_of_def instances_def instance_of_def find_header_type_def
      bits_range_def expr_max_def sanity_bits_def)

theorem path_spells_run_witness: "path_id counted_body short_result = Inr ''s/!trunc@h.body''"
proof -
  have "list_all (\<lambda>s. st_region_ops s = []) (p_states counted_body)"
    by (simp add: counted_body_def gap_parser_def)
  from path_spells_run [OF counted_body_runs(1) this counted_body_runs(2)] counted_body_bounded
  have "path_id counted_body short_result =
      Inr (join_path (spelled (pr_trace short_result) @ stopped short_result))" by blast
  then show ?thesis by (simp add: short_result_def stopped_def failing_def decision_segments_def)
qed

section \<open>Where the bound and the identifier are wrong\<close>

definition wide_shift :: parser where
  "wide_shift =
     gap_parser
       [\<lparr>ht_name = ''h'', ht_fields =
          [gap_byte ''n'',
           \<lparr>field_name = ''body'', field_width = BitLen (Bin OpShr (Field ''h'' ''n'') (Constant 64))\<rparr>]\<rparr>]
       [\<lparr>st_name = ''s'', st_extracts = [gap_extract ''h''], st_assigns = [], st_region_ops = [],
         st_transition = Direct Accept\<rparr>]"

text \<open>
  The bound is not one where a shift amount reaches 64: the interpreter masks the amount to six bits,
  the intervals do not. The length of \<open>body\<close> is \<open>n >> 64\<close>; \<open>expr_max\<close> says it is 0, and on the packet 08 01
  the interpreter reads eight bits and accepts.
\<close>

theorem length_bound_unsound:
  "validate wide_shift = Some [] \<and> w7_complete wide_shift \<and>
   expr_max (Bin OpShr (Field ''h'' ''n'') (Constant 64)) wide_shift = Inr 0 \<and>
   (case run_packet wide_shift [8, 1] of
      Inl _ \<Rightarrow> False
    | Inr res \<Rightarrow> pr_outcome res = Accepted \<and>
        pr_headers res = [parsed_as ''h'' 0 [byte_field ''n'' 0 8, run_field ''body'' 8 [1]]])"
proof (intro conjI)
  show "expr_max (Bin OpShr (Field ''h'' ''n'') (Constant 64)) wide_shift = Inr 0"
    by (simp add: expr_max_def wide_shift_def gap_parser_def gap_byte_def gap_extract_def fixed_width_def
        header_type_of_def instances_def instance_of_def find_header_type_def bits_range_def)
qed code_simp+

definition looping_regions :: parser where
  "looping_regions =
     gap_parser
       [\<lparr>ht_name = ''h'', ht_fields = [gap_byte ''n'']\<rparr>,
        \<lparr>ht_name = ''b'', ht_fields = [\<lparr>field_name = ''body'', field_width = BitLen (Field ''h'' ''n'')\<rparr>]\<rparr>]
       [\<lparr>st_name = ''s'', st_extracts = [gap_extract ''h''], st_assigns = [],
         st_region_ops = [Push (Field ''h'' ''n'')], st_transition = Direct (ToState ''t'')\<rparr>,
        \<lparr>st_name = ''t'', st_extracts = [gap_extract ''b''], st_assigns = [], st_region_ops = [Pop],
         st_transition =
           Select [Field ''h'' ''n''] [\<lparr>arm_entries = [Value 8], arm_next = ToState ''s''\<rparr>] (Some Accept)\<rparr>]"

definition loop_result :: parse_result where
  "loop_result =
     \<lparr>pr_outcome = Accepted,
      pr_headers =
        [parsed_as ''h'' 0 [byte_field ''n'' 0 8], parsed_as ''b'' 8 [run_field ''body'' 8 [1]],
         parsed_as ''h'' 16 [byte_field ''n'' 16 16], parsed_as ''b'' 24 [run_field ''body'' 24 [2, 3]]],
      pr_trace = [(''s'', DDirect), (''t'', DArm 0), (''s'', DDirect), (''t'', DDefault)],
      pr_error = None, pr_consumed_bits = 40, pr_metadata = []\<rparr>"

lemma decimal_0: "decimal 0 = ''0''"
  by code_simp


end
