(* ===== verification/Spec2Isabelle.thy ===== *)
theory Spec2Isabelle
  imports Tls_Truncation Quic_Initial_Refine Gibb_Edge_Refine Examples_Validated Validator_Gaps
    Ir_Properties Codegen_Properties Counted_Items_Spec Tlv_Items_Spec
    Semantics_Properties Codegen_Demand Eth_Ipvx_L4_Spec
    Example_Declarations C_Text Path_Trace
begin

text \<open>
  Pakeles (README.md) describes packet parsers in a small intermediate representation and derives
  everything else from the description: a reference interpreter in Rust, code generators for portable C
  and for eBPF, and several tools. This development models the description language, its documented
  semantics, the validator, the interpreter, the C and eBPF emitter with its analyses, and parsers the
  emitter wrote, and relates them to each other.

  \<^bold>\<open>How the parts work together.\<close> A description (a \<open>Parser\<close> message: theory Ir_Message as it
  arrives, theory Ir with nothing missing) is a list of header types, metadata and states.
  \<open>validate_with_limits\<close> (rust/pakeles/src/ir/validate.rs) returns a list of violations; a description without one may be interpreted (rust/pakeles/src/interp) or compiled
  (rust/pakeles/src/codegen). The interpreter runs one state after another, with a bit cursor, an
  environment of extracted fields, a metadata store and a stack of regions, until a transition accepts
  or rejects or the depth budget is spent. The emitter turns each state into one case of a C switch
  inside a bounded loop, keeps the same machine in C locals and in the result struct, and takes byte
  loads for bit reads where an analysis of cursor residues allows it. docs/reference/ir-semantics.md is
  the specification both are written against.

  \<^bold>\<open>Theories and sources.\<close>

  \<^item> Pk_Prelude: machine words, errors as the left side of a sum, the big-endian bit reader; the
    collection \<open>pk_stmt\<close>. Byte_Cursor: cursors on byte boundaries.
  \<^item> Ir: ir.proto as records and datatypes. Ir_Message: the same with unset \<open>oneof\<close>s, missing
    sub-messages and display hints, and how it reads as a description. Ir_Names: identifier rules
    (validate.rs, codegen/c.rs and codegen/p4.rs).
  \<^item> Ir_Interp: interp/mod.rs, bits.rs and eval.rs, one function each; the locals of \<open>run_bits\<close> are the
    record \<open>machine\<close>. Ir_Total: it never raises on a certified description. Ir_Invariants: what every run
    keeps.
  \<^item> Ir_Semantics: the rules of docs/reference/ir-semantics.md as inductive relations, each under its
    name in the document, and that at most one applies. Ir_Conformance: invariants of the reachable
    configurations, and the interpreter simulates the rules. Semantics_Properties: both for validated
    descriptions, and what it means for a C result to report a verdict.
  \<^item> Ir_Validate, Ir_Definite, Ir_Region_Depth, Ir_Validated: the checks of validate.rs in order, its
    must-analysis of extracted instances, its work list of region depths, and what acceptance gives.
    Ir_Message_Validate: the same checks on the message, version gate, value labels and severities
    included, and that both validators agree. Ir_Sound: from acceptance to the interpreter's
    certificate. Validator_Gaps: descriptions it accepts and should not, and messages on which it
    panics. Ir_Properties: claims about interpreter and analyses.
  \<^item> Ir_Flow: \<open>entry_alignments\<close> of codegen/mod.rs. Codegen_Static: \<open>expr_mod8\<close> and \<open>field_alignment\<close> against
    the interpreter. Codegen_Demand: \<open>misaligned_var_runs\<close> and \<open>demand_report\<close>.
  \<^item> C_Machine: the C statements that occur in generated files, over a record of the C locals.
    Codegen_C: codegen/c.rs, as functions from a description to such statements. C_Layout: result
    structs as tables of members, packet buffers with and without index masks.
  \<^item> Codegen_Extract, Codegen_Correct: the simulation between emitted C and interpreter, inside the
    locales \<open>result_layout\<close>, \<open>packet_memory\<close> and \<open>emitted_parser\<close>, which say what the emitted code relies
    on. C_Layout interprets the memory on the plain and the masked buffer, and each parser's theory the
    whole on its own struct. Codegen_Validated: validation implies what the simulation asks for.
    Codegen_Properties, Bpf_Entry: single pieces of the emitted C and the eBPF entry. C_Declarations: the
    structs, enumerations and state numbers the emitter declares, with their identifiers; C_Text: its
    string literals and comments, against a C99 compiler's reading of them.
  \<^item> Tlv_Items, Counted_Items, Eth_Ipvx_L4 (parser.c and parser.h of examples/), their \<open>_Bpf\<close> theories
    (parser.bpf.c), and Tls_Clienthello, Quic_Initial, Gibb_Edge (benchmarks/): the generated files
    statement by statement, one definition per case of the switch, with the dispatch, the core, the
    entry point and the reasons. Their \<open>_Refine\<close> theories: the description, and that the file is what the
    emitter makes of it. Fixed_Headers: what extracting a header does, as one equation on the packet.
    Tlv_Items_Spec, Counted_Items_Spec, Eth_Ipvx_L4_Spec: what three of them compute, in closed form.
    Examples_Validated: the examples pass the validator. Example_Declarations: the declarations in
    their generated files. Tls_Truncation: one truncated record.
  \<^item> Path_Id, Path_Trace: symex/pathid.rs, which names the path of a run, with the length bounds of
    codegen/p4.rs it asks for, and that without regions the name is the trace of the run.

  \<^bold>\<open>What is shown.\<close> The documented rules never stick and give every input exactly one verdict, and
  the interpreter reports it. An accepted message is complete and contains an accepted description. For
  any description the validator accepts, up to three conditions it misses, emitted C and interpreter
  agree on outcome, reason, consumed bits, headers and metadata for every packet, without a fault, and
  the emitted declarations give no identifier twice, up to two names of the emitter's own; together these two say that the emitted C implements the document (\<open>documented_codegen\<close>). The
  transcribed files equal the emitter's output, so they inherit this, and the eBPF variants carry it
  through the framing of the packet and the packing of the verdict word. Around that chain stand the
  termination of every analysis and the soundness of its result, bounds and round trips of the readers
  and encoders, and a group of evaluated counterexamples for what the code gets wrong.

  \<^bold>\<open>Undefined behaviour, bounds and fuel.\<close> A read outside the packet, a read of a region slot that was
  never written and a shift by 64 or more are the result \<open>Fault\<close>; every agreement theorem excludes it. A
  Rust \<open>Err\<close> or index panic is the left side of a sum. The only loop bound is the description's own
  \<open>p_max_depth\<close>, which the interpreter and the C loop both count, so neither needs fuel; the analyses are
  functions with termination measures. Plain buffers have fewer than 2 ^ 60 bytes, so that bit offsets
  fit 64 bits; masked ones have at most 4096, the size \<open>PK_BUF_MASK\<close> covers. The region stack has at most
  65536 slots, which keeps its pointer, like the state numbers, inside 32 bits.

  \<^bold>\<open>What is not modelled, and why.\<close> Of the emitter: the layout of its text (blanks, include
  guards, fixed comments) and the conformance harness around a parser; of the validator: the English
  sentences around the names and numbers its findings carry. The other generated benchmark parsers are
  outputs of the same emitter, covered by the theorems about every description and not transcribed. The Lua and P4 backends (of P4 only identifier
  rules and length bounds are here), the symbolic executor (an SMT client, except for the path identifiers
  of concrete runs), the builders that construct descriptions, and the command line, test vectors, oracle,
  capture files and documentation generators are other languages or input, output and presentation.
\<close>


section \<open>The code generator refines the interpreter\<close>



section \<open>Whatever the validator accepts\<close>

text \<open>The default limits keep the states, and the hypothesis the region stack, within 32 bits.\<close>

lemma accepted_fits: "accepted default_limits p \<Longrightarrow> region_slots p \<le> 65536 \<Longrightarrow> fits_u32 p"
  by (simp add: accepted_def fits_u32_def default_limits_def)

lemma validated_emitted:
  assumes valid: "validate p = Some []"
    and misses: "w7_complete p" "single_extraction p" "''out of bounds'' \<notin> set (reject_reasons p)"
      "declares_once name p"
    and slots: "region_slots p \<le> 65536"
    and layout: "layout_ok t zero" and struct: "declares (member_slots t) (member_width t) p"
    and packet: "length buf \<le> plain_capacity" "unat bit_len \<le> 8 * length buf"
  shows "\<exists>res ret r. run_bits p buf (unat bit_len) = Inr res \<and>
    emit_core p (emitter_alignment p) (buf_at buf) bit_len (member_get t) (member_put t) zero = Return ret r \<and>
    result_agrees p (member_get t) (member_slots t) res ret r"
proof -
  obtain depth where acc: "accepted default_limits p" and definite: "definite_extraction_errors p = []"
    and inv: "depth_inv p depth []"
    using valid unfolding validate_def by (rule validate_accepted)
  have "wf_within p (reached p depth) (entry_known p) (depth_of depth)"
    using validated_wf [OF acc definite inv misses(1)] .
  from run_bits_total_within [OF this packet(2)]
  obtain res where run: "run_bits p buf (unat bit_len) = Inr res" by auto
  note ok = validated_emit [OF acc inv misses(2) struct misses(3) declares_once_compiles [OF acc misses(4)]]
    accepted_fits [OF acc slots]
  from emitted_parser.emit_within_refines [OF emitted_plain [OF layout] ok packet run] run
  show ?thesis by blast
qed


lemma tlv_declares: "declares (member_slots tlv_members) (member_width tlv_members) tlv_ir"
  unfolding declares_def tlv_struct [symmetric]
  by (simp add: tlv_members_def member_slots_def member_width_def)

lemma tlv_declares_once: "declares_once ''tlv_items'' tlv_ir"
  by code_simp


lemma validated_documented:
  assumes valid: "validate p = Some []"
    and misses: "w7_complete p" "single_extraction p" "''out of bounds'' \<notin> set (reject_reasons p)"
      "declares_once name p"
    and slots: "region_slots p \<le> 65536"
    and layout: "layout_ok t zero" and struct: "declares (member_slots t) (member_width t) p"
    and packet: "length buf \<le> plain_capacity" "unat bit_len \<le> 8 * length buf"
  shows "(\<exists>!v. sem_parses p buf (unat bit_len) v) \<and>
    (\<exists>v ret r. sem_parses p buf (unat bit_len) v \<and>
      emit_core p (emitter_alignment p) (buf_at buf) bit_len (member_get t) (member_put t) zero = Return ret r \<and>
      c_conforms p buf (unat bit_len) (member_get t) v ret r)"
proof -
  have input: "input_ok buf (unat bit_len)" using packet(2) unat_u64_less by (simp add: input_ok_def)
  obtain v res where v: "run_bits p buf (unat bit_len) = Inr res" "sem_parses p buf (unat bit_len) v" "reports p res v"
    using validated_conforms [OF valid [unfolded validate_def] misses(1) input] by blast
  obtain ret r where c: "emit_core p (emitter_alignment p) (buf_at buf) bit_len (member_get t) (member_put t) zero =
      Return ret r" "result_agrees p (member_get t) (member_slots t) res ret r"
    using validated_emitted [OF assms] v(1) by auto
  have acc: "accepted default_limits p" using valid unfolding validate_def by (rule validate_accepted)
  then have "verdict_ok p (unat bit_len) v" using sem_parses_verdict_ok accepted_meta v(2) by blast
  from agrees_conforms [OF c(2) v(3) this
      run_bits_cut [OF input accepted_meta [OF acc] accepted_pure [OF acc] misses(3) v(1)]]
  have "c_conforms p buf (unat bit_len) (member_get t) v ret r" .
  then show ?thesis using v(2) c(1) sem_parses_functional by blast
qed



text \<open>The same from the message: whatever \<open>validate\<close> lets through is compiled to what the document says.\<close>

corollary message_codegen:
  assumes valid: "validate_ir ir = Some []" and parser: "ir_parser ir = Some m"
    and misses: "w7_complete (content m)" "single_extraction (content m)"
      "''out of bounds'' \<notin> set (reject_reasons (content m))" "declares_once (pb_name m) (content m)"
    and slots: "region_slots (content m) \<le> 65536"
    and layout: "layout_ok t zero" and struct: "declares (member_slots t) (member_width t) (content m)"
    and packet: "length buf \<le> plain_capacity" "unat bit_len \<le> 8 * length buf"
  shows "\<exists>v ret r. sem_parses (content m) buf (unat bit_len) v \<and>
    emit_core (content m) (emitter_alignment (content m)) (buf_at buf) bit_len (member_get t) (member_put t) zero =
      Return ret r \<and> c_conforms (content m) buf (unat bit_len) (member_get t) v ret r"
proof -
  have "validate (content m) = Some []"
    using valid parser validate_ir_content_valid by (auto simp: validate_ir_def validate_def)
  from validated_documented [OF this misses slots layout struct packet] show ?thesis by blast
qed


end
